(* ===== verification/Prelude.thy ===== *)
theory Prelude imports Main begin

text \<open>
  What every component of the development shares: the names of the model's basic types, the
  collections the component proofs draw on, and generic facts on lists, options and sums that
  the table operations of the services need.

  Times are milliseconds since the epoch (what \<open>Date.getTime\<close> returns), so they are integers.
  Identifiers are the strings the code passes around.
\<close>

section \<open>Types\<close>

type_synonym ident = string
type_synonym millis = int

section \<open>Collections\<close>

named_theorems row_simps \<open>table operations on lists of rows\<close>
named_theorems guard_defs \<open>the guards and predicates of a component\<close>

section \<open>Updating and deleting the first row that matches\<close>

text \<open>
  Prisma's \<open>update\<close> and \<open>delete\<close> act on the one row their unique \<open>where\<close> selects, and
  \<open>updateMany\<close> and \<open>deleteMany\<close> on all of them. The tables of the model are lists of rows in
  insertion order; these are the list functions the services' calls become.
\<close>

fun update_first :: "('r \<Rightarrow> bool) \<Rightarrow> ('r \<Rightarrow> 'r) \<Rightarrow> 'r list \<Rightarrow> 'r list" where
  "update_first P f [] = []"
| "update_first P f (r # rs) = (if P r then f r # rs else r # update_first P f rs)"

fun delete_first :: "('r \<Rightarrow> bool) \<Rightarrow> 'r list \<Rightarrow> 'r list" where
  "delete_first P [] = []"
| "delete_first P (r # rs) = (if P r then rs else r # delete_first P rs)"

definition update_all :: "('r \<Rightarrow> bool) \<Rightarrow> ('r \<Rightarrow> 'r) \<Rightarrow> 'r list \<Rightarrow> 'r list" where
  "update_all P f rs = map (\<lambda>r. if P r then f r else r) rs"

definition exists_row :: "('r \<Rightarrow> bool) \<Rightarrow> 'r list \<Rightarrow> bool" where
  "exists_row P rs = list_ex P rs"

lemma exists_row_iff [simp]: "exists_row P rs \<longleftrightarrow> (\<exists>r \<in> set rs. P r)"
  by (simp add: exists_row_def list_ex_iff)

lemma find_SomeD: "List.find P xs = Some x \<Longrightarrow> P x \<and> x \<in> set xs"
  by (induction xs) (auto split: if_splits)

lemma find_None_iff' [row_simps]: "List.find P xs = None \<longleftrightarrow> (\<forall>x \<in> set xs. \<not> P x)"
  by (auto simp: find_None_iff)

lemma length_update_first [simp]: "length (update_first P f rs) = length rs"
  by (induction rs) auto

lemma update_first_none [row_simps]:
  "(\<forall>r \<in> set rs. \<not> P r) \<Longrightarrow> update_first P f rs = rs"
  by (induction rs) auto

lemma delete_first_none [row_simps]:
  "(\<forall>r \<in> set rs. \<not> P r) \<Longrightarrow> delete_first P rs = rs"
  by (induction rs) auto

lemma set_update_first: "r \<in> set (update_first P f rs) \<Longrightarrow> r \<in> set rs \<or> (\<exists>q \<in> set rs. P q \<and> r = f q)"
  by (induction rs) (auto split: if_splits)

lemma set_delete_first: "r \<in> set (delete_first P rs) \<Longrightarrow> r \<in> set rs"
  by (induction rs) (auto split: if_splits)

lemma update_first_frame: "r \<in> set rs \<Longrightarrow> \<not> P r \<Longrightarrow> r \<in> set (update_first P f rs)"
  by (induction rs) auto

lemma delete_first_frame: "r \<in> set rs \<Longrightarrow> \<not> P r \<Longrightarrow> r \<in> set (delete_first P rs)"
  by (induction rs) auto

text \<open>Rows outside a selection are the same before and after: the form tenant scoping needs.\<close>

lemma filter_update_first_other:
  assumes "\<And>r. P r \<Longrightarrow> \<not> Q r" and "\<And>r. P r \<Longrightarrow> \<not> Q (f r)"
  shows "filter Q (update_first P f rs) = filter Q rs"
  using assms by (induction rs) auto

lemma filter_delete_first_other:
  assumes "\<And>r. P r \<Longrightarrow> \<not> Q r"
  shows "filter Q (delete_first P rs) = filter Q rs"
  using assms by (induction rs) auto

lemma filter_update_all_other:
  assumes "\<And>r. P r \<Longrightarrow> \<not> Q r" and "\<And>r. P r \<Longrightarrow> \<not> Q (f r)"
  shows "filter Q (update_all P f rs) = filter Q rs"
  using assms by (induction rs) (auto simp: update_all_def)

lemma filter_update_first_found:
  assumes "List.find P rs = Some r" and "\<not> Q r" and "\<not> Q (f r)"
  shows "filter Q (update_first P f rs) = filter Q rs"
  using assms by (induction rs) (auto split: if_splits)

lemma filter_absorb:
  assumes "\<And>x. Q x \<Longrightarrow> P x"
  shows "filter Q (filter P xs) = filter Q xs"
  using assms by (induction xs) auto

lemma map_update_first_key:
  assumes "\<And>r. k (f r) = k r"
  shows "map k (update_first P f rs) = map k rs"
  using assms by (induction rs) auto

lemma map_update_all_key:
  assumes "\<And>r. k (f r) = k r"
  shows "map k (update_all P f rs) = map k rs"
  using assms by (induction rs) (auto simp: update_all_def)

lemma distinct_delete_first: "distinct (map k rs) \<Longrightarrow> distinct (map k (delete_first P rs))"
  by (induction rs) (auto dest: set_delete_first)

lemma find_update_first_hit:
  assumes "List.find P rs = Some r" and "P (f r)"
  shows "List.find P (update_first P f rs) = Some (f r)"
  using assms by (induction rs) (auto split: if_splits)

lemma find_distinct_key:
  assumes "distinct (map k rs)" and "r \<in> set rs" and "k r = v"
  shows "List.find (\<lambda>q. k q = v) rs = Some r"
  using assms by (induction rs) (auto simp: image_iff)

lemma update_first_distinct:
  assumes "distinct (map k rs)" and "x \<in> set rs" and "P x" and "\<And>r. P r \<Longrightarrow> k r = k x"
    and "y \<in> set (update_first P f rs)"
  shows "(y \<in> set rs \<and> k y \<noteq> k x) \<or> y = f x"
  using assms(1,2,5)
proof (induction rs)
  case (Cons r rs)
  show ?case
  proof (cases "P r")
    case True
    then have "r = x" using Cons.prems(1,2) assms(4) by (auto simp: image_iff)
    then show ?thesis using True Cons.prems by (auto simp: image_iff)
  next
    case False
    then have "x \<in> set rs" using Cons.prems(2) assms(3) by auto
    then show ?thesis using False Cons by (auto simp: image_iff)
  qed
qed simp

lemma delete_first_distinct:
  assumes "distinct (map k rs)" and "x \<in> set rs" and "P x" and "\<And>r. P r \<Longrightarrow> k r = k x"
    and "y \<in> set (delete_first P rs)"
  shows "y \<in> set rs \<and> k y \<noteq> k x"
  using assms(1,2,5)
proof (induction rs)
  case (Cons r rs)
  show ?case
  proof (cases "P r")
    case True
    then have "k r = k x" by (rule assms(4))
    then show ?thesis using True Cons.prems by (auto simp: image_iff)
  next
    case False
    then have "x \<in> set rs" using Cons.prems(2) assms(3) by auto
    then show ?thesis using False Cons by (auto simp: image_iff)
  qed
qed simp

section \<open>First occurrences\<close>

text \<open>
  \<open>xs.filter((x, i, all) => all.indexOf(x) === i)\<close> and \<open>[...new Set(xs)]\<close> both keep the first
  occurrence of every element, in order.
\<close>

fun uniq_from :: "'a list \<Rightarrow> 'a list \<Rightarrow> 'a list" where
  "uniq_from seen [] = []"
| "uniq_from seen (x # xs) =
     (if x \<in> set seen then uniq_from seen xs else x # uniq_from (x # seen) xs)"

definition uniq :: "'a list \<Rightarrow> 'a list" where
  "uniq xs = uniq_from [] xs"

lemma set_uniq_from: "set (uniq_from seen xs) = set xs - set seen"
  by (induction seen xs rule: uniq_from.induct) auto

lemma distinct_uniq_from: "distinct (uniq_from seen xs)"
  by (induction seen xs rule: uniq_from.induct) (auto simp: set_uniq_from)

lemma set_uniq [simp]: "set (uniq xs) = set xs"
  by (simp add: uniq_def set_uniq_from)

lemma distinct_uniq [simp]: "distinct (uniq xs)"
  by (simp add: uniq_def distinct_uniq_from)

section \<open>Sums and options\<close>

lemma case_sum_Inl: "(case x of Inl e \<Rightarrow> Inl e | Inr y \<Rightarrow> f y) = Inr z \<longleftrightarrow> (\<exists>y. x = Inr y \<and> f y = Inr z)"
  by (cases x) auto

fun the_or :: "'a \<Rightarrow> 'a option \<Rightarrow> 'a" where
  "the_or d None = d"
| "the_or d (Some x) = x"

fun orelse :: "'a option \<Rightarrow> 'a option \<Rightarrow> 'a option" where
  "orelse None y = y"
| "orelse (Some x) y = Some x"

end
