(* ===== verification/JsRegex.thy ===== *)
theory JsRegex imports JsString begin

text \<open>
  Regular expressions as JavaScript runs them: a backtracking search that tries the alternatives
  in priority order (greedy repetition first takes as much as it can), with numbered capture
  groups, the anchors and the word boundary. \<open>mt r st\<close> lists every way \<open>r\<close> can match from the
  position \<open>st\<close>, best first; what the language's matcher returns is the head of that list.

  A position is the reversed text before it, the text after it and the captures made so far.
\<close>

section \<open>Syntax\<close>

datatype re =
    Eps
  | Cls "char \<Rightarrow> bool"
  | Seq re re
  | Alt re re
  | Star re
  | Grp nat re
  | Bol
  | Eol
  | WordB

type_synonym caps = "(nat \<times> string) list"
type_synonym pos = "string \<times> string \<times> caps"

text \<open>Derived forms: a literal character or string, \<open>r?\<close>, \<open>r+\<close>, \<open>r{n}\<close> and \<open>r{n,m}\<close>.\<close>

definition chr :: "char \<Rightarrow> re" where
  "chr c = Cls (\<lambda>x. x = c)"

definition opt :: "re \<Rightarrow> re" where
  "opt r = Alt r Eps"

definition plus :: "re \<Rightarrow> re" where
  "plus r = Seq r (Star r)"

fun rtimes :: "nat \<Rightarrow> re \<Rightarrow> re" where
  "rtimes 0 r = Eps"
| "rtimes (Suc n) r = Seq r (rtimes n r)"

fun rupto :: "nat \<Rightarrow> re \<Rightarrow> re" where
  "rupto 0 r = Eps"
| "rupto (Suc n) r = Alt (Seq r (rupto n r)) Eps"

definition rep :: "nat \<Rightarrow> nat \<Rightarrow> re \<Rightarrow> re" where
  "rep n m r = Seq (rtimes n r) (rupto (m - n) r)"

fun seqs :: "re list \<Rightarrow> re" where
  "seqs [] = Eps"
| "seqs [r] = r"
| "seqs (r # s # rs) = Seq r (seqs (s # rs))"

fun alts :: "re list \<Rightarrow> re" where
  "alts [] = Cls (\<lambda>_. False)"
| "alts [r] = r"
| "alts (r # s # rs) = Alt r (alts (s # rs))"

definition lit :: "string \<Rightarrow> re" where
  "lit s = seqs (map chr s)"

text \<open>The classes \<open>\d\<close>, \<open>\w\<close>, \<open>\s\<close>, \<open>\S\<close>, the dot, and a set of characters.\<close>

definition cls_any :: "char \<Rightarrow> bool" where
  "cls_any c \<longleftrightarrow> code c \<noteq> 10 \<and> code c \<noteq> 13"

definition digit :: re where "digit = Cls is_digit"
definition word :: re where "word = Cls is_word"
definition space :: re where "space = Cls is_space"
definition nonspace :: re where "nonspace = Cls (\<lambda>c. \<not> is_space c)"
definition dot :: re where "dot = Cls cls_any"
definition hex :: re where "hex = Cls is_hex"

definition oneof :: "string \<Rightarrow> re" where
  "oneof s = Cls (\<lambda>c. c \<in> set s)"

section \<open>Matching\<close>

definition word_at :: "string \<Rightarrow> bool" where
  "word_at s = (case s of [] \<Rightarrow> False | c # _ \<Rightarrow> is_word c)"

definition shorter :: "pos \<Rightarrow> pos \<Rightarrow> bool" where
  "shorter q p \<longleftrightarrow> length (fst (snd q)) < length (fst (snd p))"

text \<open>
  The repetition: another round first, then stopping here. A round that consumes nothing is
  dropped, as the language's empty check does, so the text left bounds the number of rounds.
\<close>

fun star :: "(pos \<Rightarrow> pos list) \<Rightarrow> nat \<Rightarrow> pos \<Rightarrow> pos list" where
  "star f 0 p = [p]"
| "star f (Suc n) p = concat (map (star f n) (filter (\<lambda>q. shorter q p) (f p))) @ [p]"

definition capture :: "nat \<Rightarrow> string \<Rightarrow> pos \<Rightarrow> pos" where
  "capture k before q =
     (case q of (b, a, g) \<Rightarrow> (b, a, (k, take (length before - length a) before) # g))"

primrec mt :: "re \<Rightarrow> pos \<Rightarrow> pos list" where
  "mt Eps p = [p]"
| "mt (Cls P) p =
     (case p of (b, a, g) \<Rightarrow>
       (case a of [] \<Rightarrow> [] | c # cs \<Rightarrow> if P c then [(c # b, cs, g)] else []))"
| "mt (Seq r s) p = concat (map (mt s) (mt r p))"
| "mt (Alt r s) p = mt r p @ mt s p"
| "mt (Star r) p = star (mt r) (length (fst (snd p))) p"
| "mt (Grp k r) p = map (capture k (fst (snd p))) (mt r p)"
| "mt Bol p = (if fst p = [] then [p] else [])"
| "mt Eol p = (if fst (snd p) = [] then [p] else [])"
| "mt WordB p = (if word_at (fst p) \<noteq> word_at (fst (snd p)) then [p] else [])"

definition match_here :: "re \<Rightarrow> string \<Rightarrow> string \<Rightarrow> pos option" where
  "match_here r b a = (case mt r (b, a, []) of [] \<Rightarrow> None | q # _ \<Rightarrow> Some q)"

text \<open>\<open>s.match(r)\<close> / \<open>r.test(s)\<close>: the leftmost position from which \<open>r\<close> matches.\<close>

fun search_from :: "re \<Rightarrow> string \<Rightarrow> string \<Rightarrow> pos option" where
  "search_from r b [] = match_here r b []"
| "search_from r b (c # cs) =
     (case match_here r b (c # cs) of Some q \<Rightarrow> Some q | None \<Rightarrow> search_from r (c # b) cs)"

definition exec :: "re \<Rightarrow> string \<Rightarrow> pos option" where
  "exec r s = search_from r [] s"

definition test :: "re \<Rightarrow> string \<Rightarrow> bool" where
  "test r s \<longleftrightarrow> exec r s \<noteq> None"

definition cap :: "nat \<Rightarrow> pos \<Rightarrow> string" where
  "cap k q = (case map_of (snd (snd q)) k of None \<Rightarrow> [] | Some s \<Rightarrow> s)"

section \<open>Replacing every match\<close>

text \<open>
  \<open>s.replace(r, t)\<close> with the global flag: scan from the left, replace each match, and go on right
  after it. Where the match is empty one character is copied before the scan goes on.
\<close>

fun replace_from :: "nat \<Rightarrow> re \<Rightarrow> string \<Rightarrow> string \<Rightarrow> string \<Rightarrow> string" where
  "replace_from 0 r t b a = a"
| "replace_from (Suc n) r t b a =
     (case match_here r b a of
        None \<Rightarrow> (case a of [] \<Rightarrow> [] | c # cs \<Rightarrow> c # replace_from n r t (c # b) cs)
      | Some (b', a', g) \<Rightarrow>
          if length a' < length a then t @ replace_from n r t b' a'
          else (case a of [] \<Rightarrow> t | c # cs \<Rightarrow> t @ c # replace_from n r t (c # b) cs))"

definition replace_all :: "re \<Rightarrow> string \<Rightarrow> string \<Rightarrow> string" where
  "replace_all r t s = replace_from (Suc (length s)) r t [] s"

section \<open>Facts: what a match covers\<close>

text \<open>
  Every match splits the text at hand: what was before is still before, followed by what the
  match covers. Captured strings come from the text.
\<close>

definition covers :: "pos \<Rightarrow> pos \<Rightarrow> bool" where
  "covers p q \<longleftrightarrow> (\<exists>w. fst (snd p) = w @ fst (snd q) \<and> fst q = rev w @ fst p)"

lemma covers_refl [simp, intro]: "covers p p"
  by (simp add: covers_def)

lemma covers_trans: "covers p q \<Longrightarrow> covers q r \<Longrightarrow> covers p r"
  unfolding covers_def by (metis append.assoc rev_append)

lemma covers_length: "covers p q \<Longrightarrow> length (fst (snd q)) \<le> length (fst (snd p))"
  unfolding covers_def by fastforce

lemma star_covers:
  assumes "\<And>p q. q \<in> set (f p) \<Longrightarrow> covers p q"
  shows "q \<in> set (star f n p) \<Longrightarrow> covers p q"
proof (induction n arbitrary: p)
  case (Suc n)
  then consider "q = p" | p' where "p' \<in> set (f p)" "q \<in> set (star f n p')" by auto
  then show ?case
    by cases (auto intro: covers_trans assms Suc.IH)
qed simp

lemma mt_covers: "q \<in> set (mt r p) \<Longrightarrow> covers p q"
proof (induction r arbitrary: p q)
  case (Cls P)
  then show ?case
    by (cases p) (auto simp: covers_def split: list.splits if_splits)
next
  case (Seq r s)
  then obtain m where "m \<in> set (mt r p)" and "q \<in> set (mt s m)" by (auto simp del: split_paired_All)
  then show ?case by (rule covers_trans [OF Seq.IH(1) Seq.IH(2)])
next
  case (Star r)
  then have "q \<in> set (star (mt r) (length (fst (snd p))) p)" by simp
  then show ?case by (rule star_covers [rotated]) (rule Star.IH)
next
  case (Grp k r)
  then obtain q' where q': "q' \<in> set (mt r p)" "q = capture k (fst (snd p)) q'" by auto
  then have "covers p q'" by (blast intro: Grp.IH)
  with q' show ?case by (auto simp: covers_def capture_def split: prod.splits)
qed (auto split: if_splits)

text \<open>More rounds than the text has characters never change a repetition.\<close>

lemma star_enough:
  assumes "length (fst (snd p)) \<le> n" and "length (fst (snd p)) \<le> m"
  shows "star f n p = star f m p"
  using assms
proof (induction n arbitrary: m p)
  case 0
  then have "filter (\<lambda>q. shorter q p) xs = []" for xs
    by (auto simp: shorter_def)
  then show ?case by (cases m) simp_all
next
  case (Suc n)
  show ?case
  proof (cases m)
    case 0
    with Suc.prems have "filter (\<lambda>q. shorter q p) xs = []" for xs
      by (auto simp: shorter_def)
    with 0 show ?thesis by simp
  next
    case (Suc m')
    have "star f n q = star f m' q" if "q \<in> set (f p)" "shorter q p" for q
      using that Suc.prems \<open>m = Suc m'\<close> by (intro Suc.IH) (auto simp: shorter_def)
    then have "map (star f n) (filter (\<lambda>q. shorter q p) (f p))
        = map (star f m') (filter (\<lambda>q. shorter q p) (f p))"
      by (intro map_cong) auto
    with Suc show ?thesis by (simp only: star.simps)
  qed
qed

section \<open>The preferred match\<close>

text \<open>
  \<open>leads r p q\<close>: the first way \<open>r\<close> matches from \<open>p\<close> ends at \<open>q\<close>. The rules below follow the
  greedy path of the search, so a match of a whole expression is built from its parts.
\<close>

definition leads :: "re \<Rightarrow> pos \<Rightarrow> pos \<Rightarrow> bool" where
  "leads r p q \<longleftrightarrow> (\<exists>qs. mt r p = q # qs)"

lemma leads_Eps [intro]: "leads Eps p p"
  by (simp add: leads_def)

lemma leads_Cls: "P c \<Longrightarrow> leads (Cls P) (b, c # cs, g) (c # b, cs, g)"
  by (simp add: leads_def)

lemma leads_chr: "leads (chr c) (b, c # cs, g) (c # b, cs, g)"
  by (simp add: chr_def leads_Cls)

lemma leads_Seq: "leads r p q \<Longrightarrow> leads s q t \<Longrightarrow> leads (Seq r s) p t"
  by (auto simp: leads_def)

lemma leads_Alt1: "leads r p q \<Longrightarrow> leads (Alt r s) p q"
  by (auto simp: leads_def)

lemma leads_Alt2: "mt r p = [] \<Longrightarrow> leads s p q \<Longrightarrow> leads (Alt r s) p q"
  by (auto simp: leads_def)

lemma leads_Grp:
  "leads r (b, a, g) (b', a', g') \<Longrightarrow>
   leads (Grp k r) (b, a, g) (b', a', (k, take (length a - length a') a) # g')"
  by (auto simp: leads_def capture_def)

lemma leads_Bol: "leads Bol ([], a, g) ([], a, g)"
  by (simp add: leads_def)

lemma leads_Eol: "leads Eol (b, [], g) (b, [], g)"
  by (simp add: leads_def)

text \<open>A repeated class takes its whole run first.\<close>

definition stops :: "(char \<Rightarrow> bool) \<Rightarrow> string \<Rightarrow> bool" where
  "stops P s \<longleftrightarrow> (case s of [] \<Rightarrow> True | c # _ \<Rightarrow> \<not> P c)"

lemma star_run:
  assumes "\<forall>c \<in> set w. P c" and "stops P rest" and "length w \<le> n"
  shows "\<exists>qs. star (mt (Cls P)) n (b, w @ rest, g) = (rev w @ b, rest, g) # qs"
  using assms
proof (induction w arbitrary: b n)
  case Nil
  then show ?case by (cases n; cases rest) (auto simp: stops_def)
next
  case (Cons c w)
  then obtain m where n: "n = Suc m" and m: "length w \<le> m" by (cases n) auto
  from Cons obtain qs where "star (mt (Cls P)) m (c # b, w @ rest, g) = (rev w @ c # b, rest, g) # qs"
    using m by fastforce
  moreover have "mt (Cls P) (b, c # w @ rest, g) = [(c # b, w @ rest, g)]"
    using Cons.prems by simp
  ultimately show ?case using n by (simp add: shorter_def del: mt.simps)
qed

lemma leads_Star_run:
  assumes "\<forall>c \<in> set w. P c" and "stops P rest"
  shows "leads (Star (Cls P)) (b, w @ rest, g) (rev w @ b, rest, g)"
  using star_run [OF assms, of "length (w @ rest)" b g] by (simp add: leads_def)

lemma leads_plus_run:
  assumes "w \<noteq> []" and "\<forall>c \<in> set w. P c" and "stops P rest"
  shows "leads (plus (Cls P)) (b, w @ rest, g) (rev w @ b, rest, g)"
proof (cases w)
  case (Cons c cs)
  with assms have "leads (Star (Cls P)) (c # b, cs @ rest, g) (rev cs @ c # b, rest, g)"
    by (intro leads_Star_run) auto
  with Cons assms show ?thesis
    unfolding plus_def by (auto intro!: leads_Seq leads_Cls)
qed (use assms in simp)

lemma match_here_leads: "leads r (b, a, []) q \<Longrightarrow> match_here r b a = Some q"
  by (auto simp: leads_def match_here_def)

lemma exec_leads: "leads r ([], s, []) q \<Longrightarrow> exec r s = Some q"
  unfolding exec_def by (cases s) (simp_all add: match_here_leads)

text \<open>An expression that starts with the anchor only matches at the start.\<close>

lemma match_here_Bol: "b \<noteq> [] \<Longrightarrow> match_here (Seq Bol r) b a = None"
  by (simp add: match_here_def)

lemma search_from_Bol: "b \<noteq> [] \<Longrightarrow> search_from (Seq Bol r) b a = None"
  by (induction a arbitrary: b) (simp_all add: match_here_Bol)

lemma exec_Bol: "exec (Seq Bol r) s = match_here (Seq Bol r) [] s"
  unfolding exec_def by (cases s) (auto simp: search_from_Bol split: option.splits)

text \<open>A bounded repetition of a class takes its whole run when the run is within the bounds.\<close>

lemma leads_rtimes:
  assumes "\<forall>c \<in> set w. P c"
  shows "leads (rtimes (length w) (Cls P)) (b, w @ rest, g) (rev w @ b, rest, g)"
  using assms by (induction w arbitrary: b) (auto intro!: leads_Seq leads_Cls)

lemma leads_rupto:
  assumes "\<forall>c \<in> set w. P c" and "length w \<le> m" and "stops P rest"
  shows "leads (rupto m (Cls P)) (b, w @ rest, g) (rev w @ b, rest, g)"
  using assms
proof (induction w arbitrary: b m)
  case Nil
  then show ?case
    by (cases m; cases rest) (auto simp: stops_def leads_def)
next
  case (Cons c w)
  then obtain k where m: "m = Suc k" and k: "length w \<le> k" by (cases m) auto
  have "leads (rupto k (Cls P)) (c # b, w @ rest, g) (rev w @ c # b, rest, g)"
    using Cons k by simp
  then show ?case using Cons.prems m
    by (auto intro!: leads_Alt1 leads_Seq leads_Cls)
qed

lemma leads_rep:
  assumes "\<forall>c \<in> set w. P c" and "n \<le> length w" and "length w \<le> m" and "stops P rest"
  shows "leads (rep n m (Cls P)) (b, w @ rest, g) (rev w @ b, rest, g)"
proof -
  have sub: "\<forall>c \<in> set (take n w). P c" "\<forall>c \<in> set (drop n w). P c"
    using assms(1) by (meson in_set_takeD in_set_dropD)+
  have len: "length (take n w) = n" using assms(2) by simp
  have "leads (rtimes n (Cls P)) (b, take n w @ drop n w @ rest, g)
      (rev (take n w) @ b, drop n w @ rest, g)"
    using leads_rtimes [OF sub(1), of b "drop n w @ rest" g] by (simp only: len)
  moreover have "leads (rupto (m - n) (Cls P)) (rev (take n w) @ b, drop n w @ rest, g)
      (rev (drop n w) @ rev (take n w) @ b, rest, g)"
    using sub(2) assms(3,4) by (intro leads_rupto) auto
  ultimately have "leads (rep n m (Cls P)) (b, take n w @ drop n w @ rest, g)
      (rev (drop n w) @ rev (take n w) @ b, rest, g)"
    unfolding rep_def by (rule leads_Seq)
  moreover have "rev (drop n w) @ rev (take n w) = rev w"
    by (metis append_take_drop_id rev_append)
  moreover have "take n w @ drop n w @ rest = w @ rest"
    by (metis append.assoc append_take_drop_id)
  ultimately show ?thesis by (metis append.assoc)
qed

lemma leads_lit: "leads (lit s) (b, s @ rest, g) (rev s @ b, rest, g)"
proof (induction s arbitrary: b)
  case (Cons c s)
  show ?case
  proof (cases s)
    case Nil
    then show ?thesis by (simp add: lit_def leads_chr)
  next
    case (Cons d t)
    have "leads (lit s) (c # b, s @ rest, g) (rev s @ c # b, rest, g)" by (rule Cons.IH)
    then have "leads (Seq (chr c) (lit s)) (b, c # s @ rest, g) (rev s @ c # b, rest, g)"
      by (rule leads_Seq [OF leads_chr])
    then show ?thesis using Cons by (simp add: lit_def)
  qed
qed (simp add: lit_def leads_Eps)

section \<open>Expressions that cannot match\<close>

text \<open>\<open>min_count c r\<close>: a lower bound on how many characters \<open>c\<close> every match of \<open>r\<close> consumes.\<close>

primrec min_count :: "char \<Rightarrow> re \<Rightarrow> nat" where
  "min_count c Eps = 0"
| "min_count c (Cls P) = (if \<forall>x. P x \<longrightarrow> x = c then 1 else 0)"
| "min_count c (Seq r s) = min_count c r + min_count c s"
| "min_count c (Alt r s) = min (min_count c r) (min_count c s)"
| "min_count c (Star r) = 0"
| "min_count c (Grp k r) = min_count c r"
| "min_count c Bol = 0"
| "min_count c Eol = 0"
| "min_count c WordB = 0"

definition occurs :: "char \<Rightarrow> string \<Rightarrow> nat" where
  "occurs c s = length (filter (\<lambda>x. x = c) s)"

lemma occurs_simps [simp]:
  "occurs c [] = 0" "occurs c (x # s) = (if x = c then 1 else 0) + occurs c s"
  "occurs c (s @ t) = occurs c s + occurs c t"
  by (simp_all add: occurs_def)

lemma occurs_none: "c \<notin> set s \<Longrightarrow> occurs c s = 0"
  by (induction s) auto

lemma covers_occurs: "covers p q \<Longrightarrow> occurs c (fst (snd q)) \<le> occurs c (fst (snd p))"
  by (auto simp: covers_def)

lemma min_count_consumed:
  "q \<in> set (mt r p) \<Longrightarrow> occurs c (fst (snd q)) + min_count c r \<le> occurs c (fst (snd p))"
proof (induction r arbitrary: p q)
  case (Cls P)
  then show ?case by (cases p) (auto split: list.splits if_splits)
next
  case (Seq r s)
  then obtain m where "m \<in> set (mt r p)" "q \<in> set (mt s m)" by auto
  from Seq.IH(1) [OF this(1)] Seq.IH(2) [OF this(2)] show ?case by simp
next
  case (Alt r s)
  then consider "q \<in> set (mt r p)" | "q \<in> set (mt s p)" by auto
  then show ?case
  proof cases
    case 1
    from Alt.IH(1) [OF this] show ?thesis by simp
  next
    case 2
    from Alt.IH(2) [OF this] show ?thesis by simp
  qed
next
  case (Star r)
  from covers_occurs [OF mt_covers [OF Star.prems]] show ?case by simp
next
  case (Grp k r)
  then obtain m where "m \<in> set (mt r p)" "q = capture k (fst (snd p)) m" by auto
  with Grp.IH [OF this(1)] show ?case by (cases m) (simp add: capture_def)
qed (auto split: if_splits)

lemma mt_too_few: "occurs c (fst (snd p)) < min_count c r \<Longrightarrow> mt r p = []"
proof (rule ccontr)
  assume few: "occurs c (fst (snd p)) < min_count c r" and "mt r p \<noteq> []"
  then obtain q where "q \<in> set (mt r p)" by (cases "mt r p") auto
  from min_count_consumed [OF this, of c] few show False by simp
qed

lemma exec_too_few:
  assumes "occurs c s < min_count c r"
  shows "exec r s = None"
proof -
  have "occurs c a < min_count c r \<Longrightarrow> search_from r b a = None" for a b
    by (induction a arbitrary: b) (auto simp: match_here_def mt_too_few)
  then show ?thesis using assms by (simp add: exec_def)
qed

end
