(* ===== verification/JsLib.thy ===== *)
theory JsLib imports Complex_Main JsRegex begin

text \<open>
  JSON values, and the parts of the JavaScript runtime whose results the code only passes on:
  \<open>JSON.parse\<close>, \<open>JSON.stringify\<close>, \<open>new Date(string)\<close>, \<open>toISOString\<close>, number printing. They are
  the fields of a record that the definitions take as an argument, so a theorem holds for
  every behaviour of them unless it states what it needs.
\<close>

section \<open>Numbers and JSON values\<close>

text \<open>
  JavaScript numbers: the finite doubles are rationals, and \<open>1e999\<close> in a JSON text is infinite.
  Negative zero is not told apart from zero.
\<close>

datatype jnum = Fin rat | PosInf | NegInf | NaN

datatype json =
    JNull
  | JBool bool
  | JNum jnum
  | JStr string
  | JArr "json list"
  | JObj "(string \<times> json) list"

text \<open>\<open>v.key\<close> for a value that is not \<open>null\<close>: \<open>None\<close> is \<open>undefined\<close>. A later duplicate wins.\<close>

definition field :: "string \<Rightarrow> json \<Rightarrow> json option" where
  "field k v = (case v of JObj kvs \<Rightarrow> map_of (rev kvs) k | _ \<Rightarrow> None)"

fun str_of :: "json option \<Rightarrow> string option" where
  "str_of (Some (JStr s)) = Some s"
| "str_of _ = None"

section \<open>The runtime\<close>

record js_lib =
  json_parse :: "string \<Rightarrow> string + json"
  json_stringify :: "json \<Rightarrow> string"
  date_parse :: "string \<Rightarrow> millis option"
  date_iso :: "millis \<Rightarrow> string"
  num_str :: "jnum \<Rightarrow> string"

text \<open>
  What is thrown. \<open>json_parse\<close> gives the message of its \<open>SyntaxError\<close>; \<open>date_parse\<close> is \<open>None\<close>
  for an invalid date, on which \<open>toISOString\<close> throws a \<open>RangeError\<close>.
\<close>

definition invalid_time :: string where
  "invalid_time = ''Invalid time value''"

definition iso_of :: "js_lib \<Rightarrow> string \<Rightarrow> string + string" where
  "iso_of L s = (case date_parse L s of None \<Rightarrow> Inl invalid_time | Some t \<Rightarrow> Inr (date_iso L t))"

text \<open>\<open>xs.map(f)\<close> where \<open>f\<close> may throw: the first throw ends it. \<open>f\<close> also gets the index.\<close>

fun traverse :: "(nat \<Rightarrow> 'a \<Rightarrow> 'e + 'b) \<Rightarrow> nat \<Rightarrow> 'a list \<Rightarrow> 'e + 'b list" where
  "traverse f i [] = Inr []"
| "traverse f i (x # xs) =
     (case f i x of
        Inl e \<Rightarrow> Inl e
      | Inr y \<Rightarrow> (case traverse f (Suc i) xs of Inl e \<Rightarrow> Inl e | Inr ys \<Rightarrow> Inr (y # ys)))"

lemma traverse_length: "traverse f i xs = Inr ys \<Longrightarrow> length ys = length xs"
  by (induction xs arbitrary: i ys) (auto split: sum.splits)

lemma traverse_set: "traverse f i xs = Inr ys \<Longrightarrow> y \<in> set ys \<Longrightarrow> \<exists>j x. x \<in> set xs \<and> f j x = Inr y"
  by (induction xs arbitrary: i ys) (fastforce split: sum.splits)+

end
