(* ===== verification/Database.thy ===== *)
theory Database imports JsLib begin

text \<open>
  The relational store behind the services (\<open>backend/prisma/schema.prisma\<close>): one record per
  model, one list of rows per table, and the errors Prisma and the services raise. Every
  definition that touches the database takes the store and returns the store after the call.
  Columns nothing reads (\<open>updatedAt\<close> of most models) and models no service uses (dashboards,
  escalation policies) are left out.
\<close>

section \<open>Enumerations\<close>

datatype user_role = RoleUser | RoleAdmin
datatype user_status = Active | Pending | Disabled
datatype team_role = Owner | Admin | Member | Viewer
datatype source_type = Http | SyslogUdp | SyslogTcp | Filebeat | Docker | Cloudwatch
datatype rule_query_type = RqSql | RqNatural
datatype alert_condition = GreaterThan | LessThan | Equals | ChangesBy | AnomalyDetected
datatype incident_status = Open | Acknowledged | Resolved
datatype severity = Critical | High | Medium | Low
datatype incident_action = ActAcknowledged | ActResolved | ActReopened | ActCommented
datatype channel = Email | Webhook | Slack | MsTeams
datatype issue_status = New | Ongoing | IssResolved | Ignored

section \<open>Rows\<close>

record user_row =
  u_id :: ident
  u_email :: string
  u_hash :: string
  u_name :: string
  u_role :: user_role
  u_status :: user_status
  u_created :: millis

record session_row =
  s_user :: ident
  s_token :: string
  s_expires :: millis

record team_row =
  t_id :: ident
  t_name :: string
  t_slug :: string
  t_created :: millis

record member_row =
  m_team :: ident
  m_user :: ident
  m_role :: team_role
  m_joined :: millis

record source_row =
  src_id :: ident
  src_team :: ident
  src_name :: string
  src_type :: source_type
  src_config :: json
  src_retention :: int
  src_key :: string
  src_created :: millis

record rule_row =
  r_id :: ident
  r_team :: ident
  r_name :: string
  r_desc :: "string option"
  r_query :: string
  r_qtype :: rule_query_type
  r_cond :: alert_condition
  r_threshold :: int
  r_window :: int
  r_enabled :: bool
  r_mute :: "millis option"
  r_created :: millis

record incident_row =
  i_id :: ident
  i_rule :: ident
  i_status :: incident_status
  i_severity :: severity
  i_message :: string
  i_created :: millis

record event_row =
  e_incident :: ident
  e_user :: ident
  e_action :: incident_action
  e_comment :: "string option"
  e_created :: millis

record sub_row =
  sub_id :: ident
  sub_user :: ident
  sub_team :: ident
  sub_rule :: "ident option"
  sub_channel :: channel
  sub_config :: json
  sub_severities :: "string list"
  sub_enabled :: bool
  sub_created :: millis

record issue_row =
  iss_id :: ident
  iss_team :: ident
  iss_fp :: string
  iss_title :: string
  iss_level :: string
  iss_service :: string
  iss_status :: issue_status
  iss_first :: millis
  iss_last :: millis
  iss_count :: int
  iss_assignee :: "ident option"

record invite_row =
  inv_id :: ident
  inv_team :: ident
  inv_email :: "string option"
  inv_token :: string
  inv_role :: team_role
  inv_by :: ident
  inv_expires :: millis
  inv_used :: "millis option"
  inv_created :: millis

record window_row =
  w_id :: ident
  w_team :: ident
  w_name :: string
  w_starts :: millis
  w_ends :: millis

record view_row =
  v_id :: ident
  v_team :: ident
  v_owner :: "ident option"
  v_name :: string
  v_shared :: bool
  v_default :: bool
  v_def :: json
  v_created :: millis
  v_updated :: millis

record db =
  db_users :: "user_row list"
  db_sessions :: "session_row list"
  db_teams :: "team_row list"
  db_members :: "member_row list"
  db_sources :: "source_row list"
  db_rules :: "rule_row list"
  db_incidents :: "incident_row list"
  db_events :: "event_row list"
  db_subs :: "sub_row list"
  db_issues :: "issue_row list"
  db_invites :: "invite_row list"
  db_windows :: "window_row list"
  db_views :: "view_row list"

section \<open>Errors\<close>

text \<open>
  \<open>errors.ts\<close>: the typed errors of the service layer; \<open>PlainError\<close> is a bare \<open>Error\<close>.
  \<open>RecordNotFound\<close> is Prisma's P2025, thrown by \<open>update\<close> and \<open>delete\<close> when no row matches,
  and \<open>UniqueViolation\<close> its P2002.
\<close>

datatype error =
    NotFoundError string
  | ForbiddenError string
  | ConflictError string
  | PlainError string
  | RecordNotFound
  | UniqueViolation

text \<open>The one piece of the environment every write needs: the clock and the next fresh uuid.\<close>

record clock =
  now :: millis
  uuid :: ident

section \<open>Lookups the components share\<close>

definition user_by_id :: "db \<Rightarrow> ident \<Rightarrow> user_row option" where
  "user_by_id d u = List.find (\<lambda>r. u_id r = u) (db_users d)"

definition membership :: "db \<Rightarrow> ident \<Rightarrow> ident \<Rightarrow> member_row option" where
  "membership d team user = List.find (\<lambda>m. m_team m = team \<and> m_user m = user) (db_members d)"

definition rule_by_id :: "db \<Rightarrow> ident \<Rightarrow> rule_row option" where
  "rule_by_id d i = List.find (\<lambda>r. r_id r = i) (db_rules d)"

text \<open>The relation filter \<open>rule: { teamId }\<close> of an incident: its rule exists and is the team's.\<close>

definition rule_in_team :: "db \<Rightarrow> ident \<Rightarrow> ident \<Rightarrow> bool" where
  "rule_in_team d rule team = (case rule_by_id d rule of None \<Rightarrow> False | Some r \<Rightarrow> r_team r = team)"

section \<open>Rows of one team\<close>

text \<open>
  An interface several services share: they update or delete a row of their table through a
  \<open>where\<close> that names the row's id and the caller's team. What the update writes must leave the
  row's id and team alone; then no row of another team changes, and ids stay as they were.
\<close>

locale scoped_table =
  fixes rid :: "'r \<Rightarrow> ident"
    and rteam :: "'r \<Rightarrow> ident"
    and upd :: "'p \<Rightarrow> 'r \<Rightarrow> 'r"
  assumes keeps_id: "rid (upd p r) = rid r"
    and keeps_team: "rteam (upd p r) = rteam r"
begin

lemma update_foreign:
  "filter (\<lambda>r. rteam r \<noteq> t) (update_first (\<lambda>r. rid r = i \<and> rteam r = t) (upd p) rs)
     = filter (\<lambda>r. rteam r \<noteq> t) rs"
  by (rule filter_update_first_other) (auto simp: keeps_team)

lemma update_ids:
  "map rid (update_first (\<lambda>r. rid r = i \<and> rteam r = t) (upd p) rs) = map rid rs"
  by (rule map_update_first_key) (rule keeps_id)

lemma update_teams:
  "map rteam (update_first P (upd p) rs) = map rteam rs"
  by (rule map_update_first_key) (rule keeps_team)

lemma update_found:
  "List.find (\<lambda>r. rid r = i \<and> rteam r = t) rs = Some r \<Longrightarrow>
   List.find (\<lambda>r. rid r = i \<and> rteam r = t) (update_first (\<lambda>r. rid r = i \<and> rteam r = t) (upd p) rs)
     = Some (upd p r)"
  by (rule find_update_first_hit) (auto simp: keeps_id keeps_team dest: find_SomeD)

lemma delete_foreign:
  "filter (\<lambda>r. rteam r \<noteq> t) (delete_first (\<lambda>r. rid r = i \<and> rteam r = t) rs)
     = filter (\<lambda>r. rteam r \<noteq> t) rs"
  by (rule filter_delete_first_other) auto

lemma miss_foreign:
  assumes "\<And>r. r \<in> set rs \<Longrightarrow> rid r = i \<Longrightarrow> rteam r \<noteq> t"
  shows "update_first (\<lambda>r. rid r = i \<and> rteam r = t) (upd p) rs = rs"
    and "List.find (\<lambda>r. rid r = i \<and> rteam r = t) rs = None"
  using assms by (auto intro!: update_first_none simp: find_None_iff)

end

end
