(* ===== verification/Subscriptions.thy ===== *)
theory Subscriptions imports Database begin

text \<open>\<open>services/subscription/subscription-service.ts\<close>: who is notified of which incident.\<close>

section \<open>Operations\<close>

fun severity_str :: "severity \<Rightarrow> string" where
  "severity_str Critical = ''CRITICAL''"
| "severity_str High = ''HIGH''"
| "severity_str Medium = ''MEDIUM''"
| "severity_str Low = ''LOW''"

text \<open>
  A user's subscriptions with the name of the rule each is for; a rule of another team is
  returned as null, whatever the row points at.
\<close>

definition listed_rule :: "db \<Rightarrow> ident \<Rightarrow> sub_row \<Rightarrow> (ident \<times> string) option" where
  "listed_rule d team s =
     (case sub_rule s of
        None \<Rightarrow> None
      | Some rid \<Rightarrow>
          (case rule_by_id d rid of
             None \<Rightarrow> None
           | Some r \<Rightarrow> if r_team r = team then Some (r_id r, r_name r) else None))"

definition list_by_user :: "ident \<Rightarrow> ident \<Rightarrow> db \<Rightarrow> (sub_row \<times> (ident \<times> string) option) list" where
  "list_by_user user team d =
     (let rows = sort_key (\<lambda>s. - sub_created s)
                   (filter (\<lambda>s. sub_user s = user \<and> sub_team s = team) (db_subs d))
      in map (\<lambda>s. (s, listed_rule d team s)) rows)"

record new_sub =
  ns_user :: ident
  ns_team :: ident
  ns_rule :: "ident option"
  ns_channel :: channel
  ns_config :: json
  ns_severities :: "severity list option"

definition create_sub :: "clock \<Rightarrow> new_sub \<Rightarrow> db \<Rightarrow> sub_row \<times> db" where
  "create_sub C n d =
     (let s = \<lparr>sub_id = uuid C, sub_user = ns_user n, sub_team = ns_team n, sub_rule = ns_rule n,
               sub_channel = ns_channel n, sub_config = ns_config n,
               sub_severities = map severity_str (the_or [] (ns_severities n)),
               sub_enabled = True, sub_created = now C\<rparr>
      in (s, d\<lparr>db_subs := db_subs d @ [s]\<rparr>))"

text \<open>Only the keys the caller sent are changed.\<close>

record sub_patch =
  sp_channel :: "channel option"
  sp_config :: "json option"
  sp_severities :: "severity list option"
  sp_enabled :: "bool option"

definition apply_sub_patch :: "sub_patch \<Rightarrow> sub_row \<Rightarrow> sub_row" where
  "apply_sub_patch p s =
     s\<lparr>sub_channel := the_or (sub_channel s) (sp_channel p),
       sub_config := the_or (sub_config s) (sp_config p),
       sub_severities := the_or (sub_severities s) (map_option (map severity_str) (sp_severities p)),
       sub_enabled := the_or (sub_enabled s) (sp_enabled p)\<rparr>"

definition own_sub :: "ident \<Rightarrow> ident \<Rightarrow> sub_row \<Rightarrow> bool" where
  "own_sub i user s \<longleftrightarrow> sub_id s = i \<and> sub_user s = user"

definition update_sub :: "ident \<Rightarrow> ident \<Rightarrow> sub_patch \<Rightarrow> db \<Rightarrow> (error + sub_row) \<times> db" where
  "update_sub i user p d =
     (case List.find (own_sub i user) (db_subs d) of
        None \<Rightarrow> (Inl RecordNotFound, d)
      | Some s \<Rightarrow> (Inr (apply_sub_patch p s),
                   d\<lparr>db_subs := update_first (own_sub i user) (apply_sub_patch p) (db_subs d)\<rparr>))"

definition delete_sub :: "ident \<Rightarrow> ident \<Rightarrow> db \<Rightarrow> (error + sub_row) \<times> db" where
  "delete_sub i user d =
     (case List.find (own_sub i user) (db_subs d) of
        None \<Rightarrow> (Inl RecordNotFound, d)
      | Some s \<Rightarrow> (Inr s, d\<lparr>db_subs := delete_first (own_sub i user) (db_subs d)\<rparr>))"

definition for_incident :: "ident \<Rightarrow> ident \<Rightarrow> string \<Rightarrow> sub_row \<Rightarrow> bool" where
  "for_incident rule team sev s \<longleftrightarrow>
     sub_team s = team \<and> sub_enabled s
     \<and> (sub_rule s = Some rule \<or> sub_rule s = None)
     \<and> (sub_severities s = [] \<or> sev \<in> set (sub_severities s))"

definition find_for_incident :: "ident \<Rightarrow> ident \<Rightarrow> string \<Rightarrow> db \<Rightarrow> sub_row list" where
  "find_for_incident rule team sev d = filter (for_incident rule team sev) (db_subs d)"

section \<open>Ownership\<close>

text \<open>Subscriptions are scoped by their user as rows of other tables are by their team.\<close>

interpretation sub_table: scoped_table sub_id sub_user apply_sub_patch
  by unfold_locales (simp_all add: apply_sub_patch_def)

lemma own_sub_eq: "own_sub i user = (\<lambda>s. sub_id s = i \<and> sub_user s = user)"
  by (auto simp: own_sub_def fun_eq_iff)

text \<open>A subscription belongs to its user. Updating or deleting one changes nothing of any other
  user, leaves every other table alone, and answers another user's subscription exactly as one
  that does not exist; what an update keeps is the id, the user, the team and the rule.\<close>

theorem subscriptions_are_private:
  "filter (\<lambda>s. sub_user s \<noteq> user) (db_subs (snd (update_sub i user p d)))
      = filter (\<lambda>s. sub_user s \<noteq> user) (db_subs d)
   \<and> filter (\<lambda>s. sub_user s \<noteq> user) (db_subs (snd (delete_sub i user d)))
      = filter (\<lambda>s. sub_user s \<noteq> user) (db_subs d)
   \<and> (snd (update_sub i user p d))\<lparr>db_subs := []\<rparr> = d\<lparr>db_subs := []\<rparr>
   \<and> (snd (delete_sub i user d))\<lparr>db_subs := []\<rparr> = d\<lparr>db_subs := []\<rparr>
   \<and> (if exists_row (own_sub i user) (db_subs d)
      then \<exists>s. fst (update_sub i user p d) = Inr (apply_sub_patch p s)
             \<and> fst (delete_sub i user d) = Inr s \<and> sub_user s = user \<and> sub_id s = i
      else update_sub i user p d = (Inl RecordNotFound, d) \<and> delete_sub i user d = (Inl RecordNotFound, d))
   \<and> map (\<lambda>s. (sub_id s, sub_user s, sub_team s, sub_rule s)) (db_subs (snd (update_sub i user p d)))
      = map (\<lambda>s. (sub_id s, sub_user s, sub_team s, sub_rule s)) (db_subs d)"
proof -
  have keep: "map (\<lambda>s. (sub_id s, sub_user s, sub_team s, sub_rule s)) (update_first P (apply_sub_patch p) rs)
      = map (\<lambda>s. (sub_id s, sub_user s, sub_team s, sub_rule s)) rs" for P rs
    by (rule map_update_first_key) (simp add: apply_sub_patch_def)
  show ?thesis
  proof (cases "List.find (own_sub i user) (db_subs d)")
    case None
    then have "\<not> exists_row (own_sub i user) (db_subs d)" by (simp add: find_None_iff')
    with None show ?thesis by (simp add: update_sub_def delete_sub_def)
  next
    case (Some s)
    then have s: "own_sub i user s" "s \<in> set (db_subs d)" by (auto dest: find_SomeD)
    then have "exists_row (own_sub i user) (db_subs d)" by auto
    with Some s show ?thesis
      using sub_table.update_foreign [of user i p] sub_table.delete_foreign [of user i] keep
      by (auto simp: update_sub_def delete_sub_def own_sub_eq)
  qed
qed

end
