(* ===== verification/Alerts.thy ===== *)
theory Alerts imports Subscriptions begin

text \<open>
  \<open>services/alert/alert-service.ts\<close>: alert rules, their incidents, and the audit trail of what was
  done to an incident. A transition reads the incident's status and commits later, so the two
  halves are definitions of their own and may be separated by anything another request does.
\<close>

section \<open>Rules\<close>

record alert_rule =
  ar_id :: ident
  ar_team :: ident
  ar_name :: string
  ar_desc :: "string option"
  ar_query :: string
  ar_natural :: bool
  ar_cond :: alert_condition
  ar_threshold :: int
  ar_window :: int
  ar_enabled :: bool
  ar_created :: string

definition to_alert_rule :: "js_lib \<Rightarrow> rule_row \<Rightarrow> alert_rule" where
  "to_alert_rule L r =
     \<lparr>ar_id = r_id r, ar_team = r_team r, ar_name = r_name r, ar_desc = r_desc r,
      ar_query = r_query r, ar_natural = (r_qtype r \<noteq> RqSql), ar_cond = r_cond r,
      ar_threshold = r_threshold r, ar_window = r_window r, ar_enabled = r_enabled r,
      ar_created = date_iso L (r_created r)\<rparr>"

record rule_input =
  ri_name :: string
  ri_desc :: "string option"
  ri_query :: string
  ri_cond :: alert_condition
  ri_threshold :: int
  ri_window :: int
  ri_enabled :: bool

text \<open>A patch: absent keys are \<open>None\<close>; \<open>rp_desc = Some None\<close> clears the description.\<close>

record rule_patch =
  rp_name :: "string option"
  rp_desc :: "string option option"
  rp_query :: "string option"
  rp_cond :: "alert_condition option"
  rp_threshold :: "int option"
  rp_window :: "int option"
  rp_enabled :: "bool option"

definition list_rules :: "js_lib \<Rightarrow> ident \<Rightarrow> db \<Rightarrow> alert_rule list" where
  "list_rules L team d = map (to_alert_rule L) (filter (\<lambda>r. r_team r = team) (db_rules d))"

definition create_rule :: "js_lib \<Rightarrow> clock \<Rightarrow> ident \<Rightarrow> rule_input \<Rightarrow> db \<Rightarrow> alert_rule \<times> db" where
  "create_rule L C team i d =
     (let r = \<lparr>r_id = uuid C, r_team = team, r_name = ri_name i, r_desc = ri_desc i,
               r_query = ri_query i, r_qtype = RqSql, r_cond = ri_cond i,
               r_threshold = ri_threshold i, r_window = ri_window i, r_enabled = ri_enabled i,
               r_mute = None, r_created = now C\<rparr>
      in (to_alert_rule L r, d\<lparr>db_rules := db_rules d @ [r]\<rparr>))"

definition apply_rule_patch :: "rule_patch \<Rightarrow> rule_row \<Rightarrow> rule_row" where
  "apply_rule_patch p r =
     r\<lparr>r_name := the_or (r_name r) (rp_name p), r_desc := the_or (r_desc r) (rp_desc p),
       r_query := the_or (r_query r) (rp_query p), r_cond := the_or (r_cond r) (rp_cond p),
       r_threshold := the_or (r_threshold r) (rp_threshold p),
       r_window := the_or (r_window r) (rp_window p),
       r_enabled := the_or (r_enabled r) (rp_enabled p)\<rparr>"

definition own_rule :: "ident \<Rightarrow> ident \<Rightarrow> rule_row \<Rightarrow> bool" where
  "own_rule i team r \<longleftrightarrow> r_id r = i \<and> r_team r = team"

definition rule_not_found :: error where
  "rule_not_found = NotFoundError ''Alert rule not found''"

definition update_rule ::
  "js_lib \<Rightarrow> ident \<Rightarrow> ident \<Rightarrow> rule_patch \<Rightarrow> db \<Rightarrow> (error + alert_rule) \<times> db" where
  "update_rule L i team p d =
     (case List.find (own_rule i team) (db_rules d) of
        None \<Rightarrow> (Inl rule_not_found, d)
      | Some r \<Rightarrow> (Inr (to_alert_rule L (apply_rule_patch p r)),
                   d\<lparr>db_rules := update_first (own_rule i team) (apply_rule_patch p) (db_rules d)\<rparr>))"

text \<open>
  Deleting a rule cascades in the schema: its incidents go, with their events, and so do the
  subscriptions for it.
\<close>

definition incident_rule_is :: "db \<Rightarrow> ident \<Rightarrow> ident \<Rightarrow> bool" where
  "incident_rule_is d rule inc \<longleftrightarrow> exists_row (\<lambda>x. i_id x = inc \<and> i_rule x = rule) (db_incidents d)"

definition cascade_rule :: "ident \<Rightarrow> db \<Rightarrow> db" where
  "cascade_rule rule d =
     d\<lparr>db_events := filter (\<lambda>e. \<not> incident_rule_is d rule (e_incident e)) (db_events d),
       db_incidents := filter (\<lambda>x. i_rule x \<noteq> rule) (db_incidents d),
       db_subs := filter (\<lambda>s. sub_rule s \<noteq> Some rule) (db_subs d)\<rparr>"

text \<open>The transaction: both statements, or, when the rule is not there, neither.\<close>

definition delete_rule :: "ident \<Rightarrow> ident \<Rightarrow> db \<Rightarrow> (error + unit) \<times> db" where
  "delete_rule i team d =
     (let d1 = d\<lparr>db_subs := filter (\<lambda>s. sub_rule s \<noteq> Some i) (db_subs d)\<rparr> in
      if exists_row (own_rule i team) (db_rules d1)
      then (Inr (), cascade_rule i (d1\<lparr>db_rules := delete_first (own_rule i team) (db_rules d1)\<rparr>))
      else (Inl rule_not_found, d))"

section \<open>Incidents\<close>

definition list_incidents :: "ident \<Rightarrow> db \<Rightarrow> incident_row list" where
  "list_incidents team d =
     take 20 (sort_key (\<lambda>x. - i_created x) (filter (\<lambda>x. rule_in_team d (i_rule x) team) (db_incidents d)))"

datatype action = Acknowledge | Resolve | Reopen

fun action_str :: "action \<Rightarrow> string" where
  "action_str Acknowledge = ''acknowledge''"
| "action_str Resolve = ''resolve''"
| "action_str Reopen = ''reopen''"

fun status_str :: "incident_status \<Rightarrow> string" where
  "status_str Open = ''OPEN''"
| "status_str Acknowledged = ''ACKNOWLEDGED''"
| "status_str Resolved = ''RESOLVED''"

fun incident_transitions :: "action \<Rightarrow> incident_status list" where
  "incident_transitions Acknowledge = [Open]"
| "incident_transitions Resolve = [Open, Acknowledged]"
| "incident_transitions Reopen = [Resolved, Acknowledged]"

definition assert_incident_in_team :: "ident \<Rightarrow> ident \<Rightarrow> db \<Rightarrow> error + incident_status" where
  "assert_incident_in_team inc team d =
     (case List.find (\<lambda>x. i_id x = inc \<and> rule_in_team d (i_rule x) team) (db_incidents d) of
        None \<Rightarrow> Inl (NotFoundError ''Incident not found'')
      | Some x \<Rightarrow> Inr (i_status x))"

definition cannot :: "action \<Rightarrow> incident_status \<Rightarrow> error" where
  "cannot a current = ConflictError
     (''Cannot '' @ action_str a @ '' an incident that is '' @ status_str current @ ''; '' @
      action_str a @ '' applies to '' @ join '' or '' (map status_str (incident_transitions a)) @
      '' incidents'')"

definition changed_concurrently :: error where
  "changed_concurrently =
     ConflictError ''Incident status changed concurrently; reload the incident and retry''"

text \<open>The first half: what was read, if the action may start from it.\<close>

definition transition_read :: "action \<Rightarrow> ident \<Rightarrow> ident \<Rightarrow> db \<Rightarrow> error + incident_status" where
  "transition_read a inc team d =
     (case assert_incident_in_team inc team d of
        Inl e \<Rightarrow> Inl e
      | Inr current \<Rightarrow> if current \<notin> set (incident_transitions a) then Inl (cannot a current) else Inr current)"

text \<open>The second half: the transaction, whose update repeats the status that was read.\<close>

definition transition_commit ::
  "clock \<Rightarrow> ident \<Rightarrow> ident \<Rightarrow> ident \<Rightarrow> string option \<Rightarrow> incident_status \<Rightarrow> incident_status \<Rightarrow>
   incident_action \<Rightarrow> db \<Rightarrow> (error + incident_row) \<times> db" where
  "transition_commit C inc team user comment current target event d =
     (let here = (\<lambda>x. i_id x = inc \<and> i_status x = current \<and> rule_in_team d (i_rule x) team) in
      case List.find here (db_incidents d) of
        None \<Rightarrow> (Inl changed_concurrently, d)
      | Some x \<Rightarrow>
          (Inr (x\<lparr>i_status := target\<rparr>),
           d\<lparr>db_incidents := update_first here (\<lambda>x. x\<lparr>i_status := target\<rparr>) (db_incidents d),
             db_events := db_events d @
               [\<lparr>e_incident = inc, e_user = user, e_action = event, e_comment = comment,
                 e_created = now C\<rparr>]\<rparr>))"

definition transition_incident ::
  "clock \<Rightarrow> action \<Rightarrow> ident \<Rightarrow> ident \<Rightarrow> ident \<Rightarrow> string option \<Rightarrow> incident_status \<Rightarrow>
   incident_action \<Rightarrow> db \<Rightarrow> (error + incident_row) \<times> db" where
  "transition_incident C a inc team user comment target event d =
     (case transition_read a inc team d of
        Inl e \<Rightarrow> (Inl e, d)
      | Inr current \<Rightarrow> transition_commit C inc team user comment current target event d)"

definition acknowledge_incident ::
  "clock \<Rightarrow> ident \<Rightarrow> ident \<Rightarrow> ident \<Rightarrow> string option \<Rightarrow> db \<Rightarrow> (error + incident_row) \<times> db" where
  "acknowledge_incident C inc team user comment d =
     transition_incident C Acknowledge inc team user comment Acknowledged ActAcknowledged d"

definition resolve_incident ::
  "clock \<Rightarrow> ident \<Rightarrow> ident \<Rightarrow> ident \<Rightarrow> string option \<Rightarrow> db \<Rightarrow> (error + incident_row) \<times> db" where
  "resolve_incident C inc team user comment d =
     transition_incident C Resolve inc team user comment Resolved ActResolved d"

definition reopen_incident ::
  "clock \<Rightarrow> ident \<Rightarrow> ident \<Rightarrow> ident \<Rightarrow> string option \<Rightarrow> db \<Rightarrow> (error + incident_row) \<times> db" where
  "reopen_incident C inc team user comment d =
     transition_incident C Reopen inc team user comment Open ActReopened d"

definition incident_timeline :: "ident \<Rightarrow> ident \<Rightarrow> db \<Rightarrow> (event_row \<times> user_row option) list" where
  "incident_timeline inc team d =
     map (\<lambda>e. (e, user_by_id d (e_user e)))
       (sort_key e_created
         (filter (\<lambda>e. e_incident e = inc
            \<and> exists_row (\<lambda>x. i_id x = inc \<and> rule_in_team d (i_rule x) team) (db_incidents d))
          (db_events d)))"

section \<open>Rules belong to a team\<close>

interpretation rule_table: scoped_table r_id r_team apply_rule_patch
  by unfold_locales (simp_all add: apply_rule_patch_def)

lemma own_rule_eq: "own_rule i team = (\<lambda>r. r_id r = i \<and> r_team r = team)"
  by (auto simp: own_rule_def fun_eq_iff)

text \<open>a team's rules are its own. Updating or deleting through a team touches no rule of another
  team; the id of another team's rule is answered exactly as an unknown id, with nothing written,
  not even a subscription; and a rule that is deleted takes its incidents, their audit trail and
  its subscriptions with it, while incidents and subscriptions of other rules stay.\<close>

theorem rules_scoped_and_delete_atomic:
  "filter (\<lambda>r. r_team r \<noteq> t) (db_rules (snd (update_rule L i t p d))) = filter (\<lambda>r. r_team r \<noteq> t) (db_rules d)
   \<and> filter (\<lambda>r. r_team r \<noteq> t) (db_rules (snd (delete_rule i t d))) = filter (\<lambda>r. r_team r \<noteq> t) (db_rules d)
   \<and> (if exists_row (own_rule i t) (db_rules d)
      then fst (delete_rule i t d) = Inr ()
         \<and> db_incidents (snd (delete_rule i t d)) = filter (\<lambda>x. i_rule x \<noteq> i) (db_incidents d)
         \<and> db_subs (snd (delete_rule i t d)) = filter (\<lambda>s. sub_rule s \<noteq> Some i) (db_subs d)
         \<and> db_events (snd (delete_rule i t d))
             = filter (\<lambda>e. \<not> incident_rule_is d i (e_incident e)) (db_events d)
      else update_rule L i t p d = (Inl (NotFoundError ''Alert rule not found''), d)
         \<and> delete_rule i t d = (Inl (NotFoundError ''Alert rule not found''), d))"
proof -
  have none: "List.find (own_rule i t) (db_rules d) = None \<longleftrightarrow> \<not> exists_row (own_rule i t) (db_rules d)"
    by (simp add: find_None_iff')
  have u: "filter (\<lambda>r. r_team r \<noteq> t) (db_rules (snd (update_rule L i t p d))) = filter (\<lambda>r. r_team r \<noteq> t) (db_rules d)"
    using rule_table.update_foreign [of t i p "db_rules d"]
    by (simp add: update_rule_def own_rule_eq split: option.split)
  have del: "filter (\<lambda>r. r_team r \<noteq> t) (db_rules (snd (delete_rule i t d))) = filter (\<lambda>r. r_team r \<noteq> t) (db_rules d)"
    using rule_table.delete_foreign [of t i "db_rules d"]
    by (simp add: delete_rule_def cascade_rule_def own_rule_eq Let_def)
  show ?thesis
    using u del none
    by (auto simp: delete_rule_def update_rule_def rule_not_found_def cascade_rule_def
        incident_rule_is_def Let_def simp del: exists_row_iff)
qed

section \<open>Transitions\<close>

lemma find_and: "List.find P xs = Some x \<Longrightarrow> Q x \<Longrightarrow> List.find (\<lambda>y. P y \<and> Q y) xs = Some x"
  by (induction xs) (auto split: if_splits)

text \<open>what an action on an incident does. It succeeds exactly when the incident is the team's
  and its status is one the action may start from; then the incident has the action's target
  status, the audit trail has exactly one more event, with the user and the comment, and nothing
  else changed. Otherwise it is refused and nothing at all is written.\<close>

theorem transition_outcome:
  "(case transition_read a inc team d of
      Inl e \<Rightarrow> transition_incident C a inc team user comment target event d = (Inl e, d)
    | Inr current \<Rightarrow>
        current \<in> set (incident_transitions a)
        \<and> assert_incident_in_team inc team d = Inr current
        \<and> (\<exists>x. x \<in> set (db_incidents d) \<and> i_id x = inc \<and> i_status x = current
           \<and> transition_incident C a inc team user comment target event d =
               (Inr (x\<lparr>i_status := target\<rparr>),
                d\<lparr>db_incidents := update_first (\<lambda>y. i_id y = inc \<and> i_status y = current
                                   \<and> rule_in_team d (i_rule y) team)
                                  (\<lambda>y. y\<lparr>i_status := target\<rparr>) (db_incidents d),
                  db_events := db_events d @ [\<lparr>e_incident = inc, e_user = user, e_action = event,
                                 e_comment = comment, e_created = now C\<rparr>]\<rparr>)))
   \<and> (\<exists>e. transition_read a inc team d = Inl e) =
       (\<not> (exists_row (\<lambda>x. i_id x = inc \<and> rule_in_team d (i_rule x) team) (db_incidents d)
         \<and> (\<exists>st. assert_incident_in_team inc team d = Inr st \<and> st \<in> set (incident_transitions a))))"
proof (cases "List.find (\<lambda>x. i_id x = inc \<and> rule_in_team d (i_rule x) team) (db_incidents d)")
  case None
  then have "\<not> exists_row (\<lambda>x. i_id x = inc \<and> rule_in_team d (i_rule x) team) (db_incidents d)"
    by (simp add: find_None_iff')
  with None show ?thesis
    by (simp add: transition_incident_def transition_read_def assert_incident_in_team_def)
next
  case (Some x)
  then have x: "i_id x = inc" "rule_in_team d (i_rule x) team" "x \<in> set (db_incidents d)"
    by (auto dest: find_SomeD)
  then have ex: "exists_row (\<lambda>x. i_id x = inc \<and> rule_in_team d (i_rule x) team) (db_incidents d)" by auto
  have "List.find (\<lambda>y. (i_id y = inc \<and> rule_in_team d (i_rule y) team) \<and> i_status y = i_status x) (db_incidents d) = Some x"
    using Some by (rule find_and) simp
  then have f: "List.find (\<lambda>y. i_id y = inc \<and> i_status y = i_status x \<and> rule_in_team d (i_rule y) team) (db_incidents d) = Some x"
    by (simp add: conj_ac)
  show ?thesis
  proof (cases "i_status x \<in> set (incident_transitions a)")
    case True
    with Some x ex f show ?thesis
      by (auto simp: transition_incident_def transition_read_def assert_incident_in_team_def
          transition_commit_def Let_def simp del: exists_row_iff)
  next
    case False
    with Some ex show ?thesis
      by (simp add: transition_incident_def transition_read_def assert_incident_in_team_def
          del: exists_row_iff)
  qed
qed

end
