(* ===== verification/UrlGuard.thy ===== *)
theory UrlGuard imports JsLib "HOL-Library.Word" begin

unbundle bit_operations_syntax

text \<open>
  \<open>services/notification/url-guard.ts\<close>: the guard that decides whether a user-supplied webhook URL
  may be called, and the addresses it vets. \<open>net.isIP\<close> is written out; the two environment
  variables, \<open>new URL\<close> and the DNS lookup are the parameters of \<open>guard_env\<close>.
\<close>

section \<open>\<open>net.isIP\<close>\<close>

definition octet_ok :: "string \<Rightarrow> bool" where
  "octet_ok p \<longleftrightarrow> p \<noteq> [] \<and> list_all is_digit p \<and> length p \<le> 3
     \<and> (length p > 1 \<longrightarrow> hd p \<noteq> CHR ''0'') \<and> nat_of_digits p \<le> 255"

definition is_dot :: "char \<Rightarrow> bool" where "is_dot c \<longleftrightarrow> c = CHR ''.''"
definition is_colon :: "char \<Rightarrow> bool" where "is_colon c \<longleftrightarrow> c = CHR '':''"
definition is_comma :: "char \<Rightarrow> bool" where "is_comma c \<longleftrightarrow> c = CHR '',''"

definition is_ipv4 :: "string \<Rightarrow> bool" where
  "is_ipv4 s \<longleftrightarrow> length (split_on is_dot s) = 4 \<and> list_all octet_ok (split_on is_dot s)"

definition hex_group :: "string \<Rightarrow> bool" where
  "hex_group p \<longleftrightarrow> 1 \<le> length p \<and> length p \<le> 4 \<and> list_all is_hex p"

text \<open>The text before and after the first double colon.\<close>

fun split_dcolon :: "string \<Rightarrow> string \<times> string option" where
  "split_dcolon [] = ([], None)"
| "split_dcolon (c # cs) =
     (if starts_with ''::'' (c # cs) then ([], Some (tl cs))
      else (case split_dcolon cs of (l, r) \<Rightarrow> (c # l, r)))"

text \<open>How many 16-bit groups one side of an IPv6 literal writes; a dotted quad may end it.\<close>

fun count_groups :: "bool \<Rightarrow> string list \<Rightarrow> nat option" where
  "count_groups v4 [] = Some 0"
| "count_groups v4 [p] = (if hex_group p then Some 1 else if v4 \<and> is_ipv4 p then Some 2 else None)"
| "count_groups v4 (p # q # ps) =
     (if hex_group p then map_option Suc (count_groups v4 (q # ps)) else None)"

definition side_groups :: "bool \<Rightarrow> string \<Rightarrow> nat option" where
  "side_groups v4 s = (if s = [] then Some 0 else count_groups v4 (split_on is_colon s))"

definition zone_ok :: "string \<Rightarrow> bool" where
  "zone_ok z \<longleftrightarrow> z \<noteq> [] \<and>
     list_all (\<lambda>c. is_digit c \<or> is_lower c \<or> is_upper c \<or> c \<in> set ''-.:'') z"

definition is_percent :: "char \<Rightarrow> bool" where "is_percent c \<longleftrightarrow> c = CHR ''%''"

definition ipv6_address :: "string \<Rightarrow> bool" where
  "ipv6_address a =
     (case split_dcolon a of
        (l, None) \<Rightarrow> side_groups True l = Some 8
      | (l, Some r) \<Rightarrow>
          (case (side_groups False l, side_groups True r) of
             (Some m, Some n) \<Rightarrow> m + n \<le> 7
           | _ \<Rightarrow> False))"

definition is_ipv6 :: "string \<Rightarrow> bool" where
  "is_ipv6 s =
     (let a = takeWhile (\<lambda>c. \<not> is_percent c) s; z = dropWhile (\<lambda>c. \<not> is_percent c) s in
      ipv6_address a \<and> (z = [] \<or> zone_ok (tl z)))"

definition is_ip :: "string \<Rightarrow> nat" where
  "is_ip s = (if is_ipv4 s then 4 else if is_ipv6 s then 6 else 0)"

section \<open>Configuration\<close>

record guard_env =
  ge_allowlist :: "string option"
  ge_nat64 :: "string option"
  ge_lookup :: "string \<Rightarrow> string list option"

definition env_allowlist :: "guard_env \<Rightarrow> string list" where
  "env_allowlist G =
     (case ge_allowlist G of
        None \<Rightarrow> []
      | Some raw \<Rightarrow> if raw = [] then []
                   else filter (\<lambda>h. length h > 0) (map (\<lambda>h. lower (trim h)) (split_on is_comma raw)))"

definition env_nat64_prefixes :: "guard_env \<Rightarrow> string list" where
  "env_nat64_prefixes G =
     (case ge_nat64 G of
        None \<Rightarrow> []
      | Some raw \<Rightarrow> if raw = [] then []
                   else filter (\<lambda>p. length p > 0 \<and> ends_with ''::'' p)
                          (map (\<lambda>p. lower (trim p)) (split_on is_comma raw)))"

section \<open>Blocked addresses\<close>

definition ip_to_bytes :: "string \<Rightarrow> nat list option" where
  "ip_to_bytes ip =
     (if is_ip ip = 4 then
        (let parts = map nat_of_digits (split_on is_dot ip) in
         if length parts \<noteq> 4 \<or> list_ex (\<lambda>p. p > 255) parts then None else Some parts)
      else None)"

definition blocked_octets :: "nat \<Rightarrow> nat \<Rightarrow> bool" where
  "blocked_octets a b =
     (if a = 0 then True
      else if a = 10 then True
      else if a = 127 then True
      else if a = 169 \<and> b = 254 then True
      else if a = 172 \<and> b \<ge> 16 \<and> b \<le> 31 then True
      else if a = 192 \<and> b = 168 then True
      else if a = 100 \<and> b \<ge> 64 \<and> b \<le> 127 then True
      else if a \<ge> 224 then True
      else False)"

definition blocked_v4 :: "string \<Rightarrow> bool" where
  "blocked_v4 ip =
     (case ip_to_bytes ip of
        Some (a # b # rest) \<Rightarrow> blocked_octets a b
      | _ \<Rightarrow> True)"

text \<open>
  The recursive call, whose argument is always a dotted text: it is an IPv4 address or it is
  not an address (\<open>is_blocked_address_dotted\<close> below shows that this is the same function).
\<close>

definition blocked_dotted :: "string \<Rightarrow> bool" where
  "blocked_dotted ip = (if is_ip ip = 4 then blocked_v4 ip else True)"

definition quad :: "32 word \<Rightarrow> 32 word \<Rightarrow> string" where
  "quad hi lo =
     nat_str (unat (drop_bit 8 hi)) @ ''.'' @ nat_str (unat (hi AND 0xff)) @ ''.'' @
     nat_str (unat (drop_bit 8 lo)) @ ''.'' @ nat_str (unat (lo AND 0xff))"

definition parse_hex :: "string \<Rightarrow> 32 word" where
  "parse_hex s = of_nat (nat_of_hex s)"

definition dotted_grp :: re where
  "dotted_grp = Grp 1 (seqs [plus digit, chr CHR ''.'', plus digit, chr CHR ''.'', plus digit,
     chr CHR ''.'', plus digit])"

definition hexg :: re where "hexg = rep 1 4 (Cls is_lower_hex)"

definition colon :: re where "colon = chr CHR '':''"

text \<open>The shapes the patterns share: a head followed by a dotted quad, by two groups or by one.\<close>

definition dotted_after :: "string \<Rightarrow> re" where
  "dotted_after h = Seq Bol (Seq (lit h) (Seq dotted_grp Eol))"

definition two_after :: "string \<Rightarrow> re" where
  "two_after h = Seq Bol (Seq (lit h) (Seq (Grp 1 hexg) (Seq colon (Seq (Grp 2 hexg) Eol))))"

definition one_after :: "string \<Rightarrow> re" where
  "one_after h = Seq Bol (Seq (lit h) (Seq (Grp 1 hexg) Eol))"

definition six_to_four_re :: re where
  "six_to_four_re = Seq Bol (Seq (lit ''2002:'')
     (Seq (Grp 1 hexg) (Seq colon (Seq (Grp 2 hexg) (Grp 3 (Alt colon Eol))))))"

definition teredo_re :: re where
  "teredo_re = Seq Bol (Seq (lit ''2001:0:'') (Seq hexg (Seq colon (Seq hexg (Seq colon
     (Seq hexg (Seq colon (Seq hexg (Seq colon
     (Seq (Grp 1 hexg) (Seq colon (Seq (Grp 2 hexg) Eol))))))))))))"

definition teredo_compressed_re :: re where
  "teredo_compressed_re = Seq Bol (Seq (lit ''2001:0:'') (Seq hexg (Seq colon (Seq hexg (Seq (lit ''::'')
     (Seq (Grp 1 hexg) (Seq colon (Seq (Grp 2 hexg) Eol))))))))"

text \<open>One \<open>const m = v6.match(...); if (m) return ...\<close>.\<close>

definition on_match :: "re \<Rightarrow> (pos \<Rightarrow> bool) \<Rightarrow> string \<Rightarrow> bool option" where
  "on_match r f v6 = map_option f (exec r v6)"

definition dotted_blocked :: "pos \<Rightarrow> bool" where
  "dotted_blocked m = blocked_dotted (cap 1 m)"

definition two_blocked :: "pos \<Rightarrow> bool" where
  "two_blocked m = blocked_dotted (quad (parse_hex (cap 1 m)) (parse_hex (cap 2 m)))"

definition one_blocked :: "pos \<Rightarrow> bool" where
  "one_blocked m = (let lo = parse_hex (cap 1 m) in
     blocked_dotted (''0.0.'' @ nat_str (unat (drop_bit 8 lo)) @ ''.'' @ nat_str (unat (lo AND 0xff))))"

definition inverted_blocked :: "pos \<Rightarrow> bool" where
  "inverted_blocked m =
     blocked_dotted (quad (parse_hex (cap 1 m) XOR 0xffff) (parse_hex (cap 2 m) XOR 0xffff))"

text \<open>A run of \<open>if\<close>s that return, and what is returned after them.\<close>

fun returns :: "bool option list \<Rightarrow> bool \<Rightarrow> bool" where
  "returns [] b = b"
| "returns (Some r # rs) b = r"
| "returns (None # rs) b = returns rs b"

fun nat64_custom :: "string list \<Rightarrow> string \<Rightarrow> bool option" where
  "nat64_custom [] v6 = None"
| "nat64_custom (prefix # ps) v6 =
     (if \<not> starts_with prefix v6 then nat64_custom ps v6
      else
        (let suffix = drop (length prefix) v6 in
         orelse (on_match (dotted_after []) dotted_blocked suffix)
         (orelse (on_match (two_after []) two_blocked suffix)
         (orelse (on_match (one_after []) one_blocked suffix)
                 (nat64_custom ps v6)))))"

definition blocked_v6 :: "string list \<Rightarrow> string \<Rightarrow> bool" where
  "blocked_v6 prefixes v6 =
     (if v6 = ''::'' \<or> v6 = ''::1'' then True
      else returns
        [on_match (dotted_after ''::ffff:'') dotted_blocked v6,
         on_match (two_after ''::ffff:'') two_blocked v6,
         on_match (dotted_after ''64:ff9b::'') dotted_blocked v6,
         on_match (two_after ''64:ff9b::'') two_blocked v6,
         on_match (one_after ''64:ff9b::'') one_blocked v6,
         nat64_custom prefixes v6,
         on_match six_to_four_re two_blocked v6,
         on_match teredo_re inverted_blocked v6,
         on_match teredo_compressed_re inverted_blocked v6,
         on_match (dotted_after ''::'') dotted_blocked v6,
         on_match (two_after ''::'') two_blocked v6,
         on_match (one_after ''::'') one_blocked v6]
        (if starts_with ''fe80'' v6 then True
         else if starts_with ''fc'' v6 \<or> starts_with ''fd'' v6 then True
         else if starts_with ''ff'' v6 then True
         else False))"

definition is_blocked_address :: "string list \<Rightarrow> string \<Rightarrow> bool" where
  "is_blocked_address prefixes ip =
     (if is_ip ip = 0 then True
      else if is_ip ip = 4 then blocked_v4 ip
      else blocked_v6 prefixes (lower ip))"

section \<open>Resolving a target\<close>

text \<open>What a channel throws (\<open>channels/errors.ts\<close>), and any other failure of the network.\<close>

datatype channel_error =
    ChannelConfigError string
  | ChannelHttpError string nat string
  | OtherFailure string

record url =
  url_protocol :: string
  url_hostname :: string
  url_port :: string
  url_pathname :: string
  url_search :: string

record safe_target =
  st_url :: url
  st_hostname :: string
  st_addresses :: "string list"

text \<open>\<open>GuardDeps\<close>: the lookup (\<open>None\<close> when it rejects) and the range check.\<close>

record guard_deps =
  gd_lookup :: "string \<Rightarrow> string list option"
  gd_blocked :: "string \<Rightarrow> bool"

definition default_deps :: "guard_env \<Rightarrow> guard_deps" where
  "default_deps G = \<lparr>gd_lookup = ge_lookup G, gd_blocked = is_blocked_address (env_nat64_prefixes G)\<rparr>"

definition bare_host :: "string \<Rightarrow> string" where
  "bare_host host =
     (if starts_with ''['' host \<and> ends_with '']'' host
      then take (length host - 1 - 1) (drop 1 host) else host)"

definition resolve_safe_target ::
  "(string \<Rightarrow> url option) \<Rightarrow> guard_env \<Rightarrow> guard_deps \<Rightarrow> string \<Rightarrow> channel_error + safe_target" where
  "resolve_safe_target parse_url G deps raw =
     (case parse_url raw of
        None \<Rightarrow> Inl (ChannelConfigError ''Invalid webhook URL'')
      | Some parsed \<Rightarrow>
          if url_protocol parsed \<noteq> ''https:'' \<and> url_protocol parsed \<noteq> ''http:''
          then Inl (ChannelConfigError (''Unsupported webhook scheme: '' @ url_protocol parsed))
          else
            (let host = lower (url_hostname parsed) in
             if length host = 0 then Inl (ChannelConfigError ''Webhook URL has no host'')
             else if length (env_allowlist G) > 0 \<and> host \<notin> set (env_allowlist G)
             then Inl (ChannelConfigError ''Webhook host is not in the allow-list'')
             else
               (let bare = bare_host host in
                if is_ip bare \<noteq> 0
                then if gd_blocked deps bare
                     then Inl (ChannelConfigError ''Webhook host resolves to a blocked address range'')
                     else Inr \<lparr>st_url = parsed, st_hostname = bare, st_addresses = [bare]\<rparr>
                else
                  (case gd_lookup deps bare of
                     None \<Rightarrow> Inl (ChannelConfigError ''Webhook host could not be resolved'')
                   | Some resolved \<Rightarrow>
                       if length resolved = 0
                       then Inl (ChannelConfigError ''Webhook host could not be resolved'')
                       else if list_ex (gd_blocked deps) resolved
                       then Inl (ChannelConfigError ''Webhook host resolves to a blocked address range'')
                       else Inr \<lparr>st_url = parsed, st_hostname = bare, st_addresses = uniq resolved\<rparr>))))"

definition assert_safe_url ::
  "(string \<Rightarrow> url option) \<Rightarrow> guard_env \<Rightarrow> string \<Rightarrow> channel_error + unit" where
  "assert_safe_url parse_url G raw =
     (case resolve_safe_target parse_url G (default_deps G) raw of
        Inl e \<Rightarrow> Inl e | Inr _ \<Rightarrow> Inr ())"

section \<open>Facts: addresses as text\<close>

lemma split_on_here: "list_all (\<lambda>c. \<not> P c) w \<Longrightarrow> P x \<Longrightarrow> split_on P (w @ x # r) = w # split_on P r"
  by (induction w) auto

lemma split_on_none: "list_all (\<lambda>c. \<not> P c) w \<Longrightarrow> split_on P w = [w]"
  by (induction w) auto

definition v4_text :: "nat \<Rightarrow> nat \<Rightarrow> nat \<Rightarrow> nat \<Rightarrow> string" where
  "v4_text a b c d = nat_str a @ ''.'' @ nat_str b @ ''.'' @ nat_str c @ ''.'' @ nat_str d"

lemma digit_not_dot: "is_digit c \<Longrightarrow> \<not> is_dot c" "is_digit c \<Longrightarrow> c \<noteq> CHR '':''" "is_digit c \<Longrightarrow> c \<noteq> CHR ''%''"
  by (auto simp: is_dot_def is_digit_def code_def)

lemma nat_str_no_dot: "list_all (\<lambda>c. \<not> is_dot c) (nat_str n)"
  by (auto simp: list_all_iff dest: nat_str_digits digit_not_dot)

lemma split_v4_text: "split_on is_dot (v4_text a b c d) = [nat_str a, nat_str b, nat_str c, nat_str d]"
proof -
  have dot: "is_dot CHR ''.''" by (simp add: is_dot_def)
  show ?thesis
    unfolding v4_text_def by (simp add: split_on_here [OF nat_str_no_dot dot] split_on_none [OF nat_str_no_dot])
qed

lemma hd_nat_str: "n > 0 \<Longrightarrow> hd (nat_str n) \<noteq> CHR ''0''"
proof (induction n rule: nat_str.induct)
  case (1 n)
  have "digit_char d \<noteq> CHR ''0''" if "0 < d" "d < 10" for d
    using code_digit_char [OF that(2)] that(1) by (auto simp: code_def)
  then show ?case using 1 by (subst nat_str.simps) auto
qed

lemma length_nat_str: "n < 1000 \<Longrightarrow> length (nat_str n) \<le> 3"
  by (subst nat_str.simps, simp, subst nat_str.simps, simp, subst nat_str.simps, simp)

lemma octet_ok_nat_str: "n \<le> 255 \<Longrightarrow> octet_ok (nat_str n)"
proof -
  assume n: "n \<le> 255"
  have "length (nat_str n) > 1 \<Longrightarrow> n > 0" by (cases "n = 0") (simp_all add: nat_str.simps [of 0])
  then show ?thesis
    using n hd_nat_str [of n] length_nat_str [of n]
    by (auto simp: octet_ok_def list_all_iff intro: nat_str_digits)
qed

lemma is_ip_v4_text:
  "\<lbrakk>a \<le> 255; b \<le> 255; c \<le> 255; d \<le> 255\<rbrakk> \<Longrightarrow> is_ip (v4_text a b c d) = 4"
  by (simp add: is_ip_def is_ipv4_def split_v4_text octet_ok_nat_str)

lemma blocked_v4_text:
  "\<lbrakk>a \<le> 255; b \<le> 255; c \<le> 255; d \<le> 255\<rbrakk> \<Longrightarrow> blocked_v4 (v4_text a b c d) = blocked_octets a b"
  by (simp add: blocked_v4_def ip_to_bytes_def is_ip_v4_text split_v4_text)

lemma blocked_dotted_text:
  "\<lbrakk>a \<le> 255; b \<le> 255; c \<le> 255; d \<le> 255\<rbrakk> \<Longrightarrow> blocked_dotted (v4_text a b c d) = blocked_octets a b"
  by (simp add: blocked_dotted_def is_ip_v4_text blocked_v4_text)

text \<open>A text without a colon is never an IPv6 literal, so the recursive call stays in IPv4.\<close>

lemma split_dcolon_no_colon: "CHR '':'' \<notin> set s \<Longrightarrow> split_dcolon s = (s, None)"
  by (induction s) (auto simp: starts_with_def)

lemma not_ipv6_without_colon: "CHR '':'' \<notin> set s \<Longrightarrow> \<not> is_ipv6 s"
proof -
  assume a: "CHR '':'' \<notin> set s"
  let ?a = "takeWhile (\<lambda>c. \<not> is_percent c) s"
  have n: "CHR '':'' \<notin> set ?a" using a by (meson set_takeWhileD)
  then have "list_all (\<lambda>c. \<not> is_colon c) ?a" by (auto simp: list_all_iff is_colon_def)
  then have "side_groups True ?a \<noteq> Some 8"
    by (simp add: side_groups_def split_on_none)
  then show ?thesis by (simp add: is_ipv6_def ipv6_address_def split_dcolon_no_colon [OF n] Let_def)
qed

lemma is_blocked_address_dotted: "CHR '':'' \<notin> set ip \<Longrightarrow> is_blocked_address ps ip = blocked_dotted ip"
  by (simp add: is_blocked_address_def blocked_dotted_def is_ip_def not_ipv6_without_colon)

section \<open>IPv4: the blocked networks\<close>

text \<open>An address as a 32-bit word, and membership in a network given by its base and prefix length.\<close>

definition addr4 :: "nat \<Rightarrow> nat \<Rightarrow> nat \<Rightarrow> nat \<Rightarrow> 32 word" where
  "addr4 a b c d = of_nat (a * 2 ^ 24 + b * 2 ^ 16 + c * 2 ^ 8 + d)"

definition in_network :: "32 word \<Rightarrow> 32 word \<times> nat \<Rightarrow> bool" where
  "in_network w net = (drop_bit (32 - snd net) w = drop_bit (32 - snd net) (fst net))"

definition blocked_networks :: "(32 word \<times> nat) list" where
  "blocked_networks =
     [(addr4 0 0 0 0, 8), (addr4 10 0 0 0, 8), (addr4 127 0 0 0, 8), (addr4 169 254 0 0, 16),
      (addr4 172 16 0 0, 12), (addr4 192 168 0 0, 16), (addr4 100 64 0 0, 10), (addr4 224 0 0 0, 3)]"

lemma unat_addr4:
  "\<lbrakk>a \<le> 255; b \<le> 255; c \<le> 255; d \<le> 255\<rbrakk> \<Longrightarrow>
   unat (addr4 a b c d) = a * 2 ^ 24 + b * 2 ^ 16 + c * 2 ^ 8 + d"
  unfolding addr4_def by (subst unat_of_nat) (simp add: take_bit_nat_eq_self)

lemma in_network_div:
  "in_network w net \<longleftrightarrow> unat w div 2 ^ (32 - snd net) = unat (fst net) div 2 ^ (32 - snd net)"
  unfolding in_network_def word_unat_eq_iff
  unfolding unat_drop_bit_eq drop_bit_eq_div [where 'a = nat] by (rule refl)


lemma addr4_prefixes:
  assumes "a \<le> 255" "b \<le> 255" "c \<le> 255" "d \<le> 255"
  shows "(a * 16777216 + b * 65536 + c * 256 + d) div 16777216 = (a::nat)"
    and "(a * 16777216 + b * 65536 + c * 256 + d) div 65536 = a * 256 + b"
    and "(a * 16777216 + b * 65536 + c * 256 + d) div 1048576 = a * 16 + b div 16"
    and "(a * 16777216 + b * 65536 + c * 256 + d) div 4194304 = a * 4 + b div 64"
    and "(a * 16777216 + b * 65536 + c * 256 + d) div 536870912 = a div 32"
proof -
  obtain q r where b16: "b div 16 = q" "b = 16 * q + r" "r < 16"
    by (metis div_mult_mod_eq mod_less_divisor mult.commute zero_less_numeral)
  obtain q' r' where b64: "b div 64 = q'" "b = 64 * q' + r'" "r' < 64"
    by (metis div_mult_mod_eq mod_less_divisor mult.commute zero_less_numeral)
  obtain q'' r'' where a32: "a div 32 = q''" "a = 32 * q'' + r''" "r'' < 32"
    by (metis div_mult_mod_eq mod_less_divisor mult.commute zero_less_numeral)
  show "(a * 16777216 + b * 65536 + c * 256 + d) div 16777216 = a"
    by (rule div_nat_eqI) (use assms in simp_all)
  show "(a * 16777216 + b * 65536 + c * 256 + d) div 65536 = a * 256 + b"
    by (rule div_nat_eqI) (use assms in simp_all)
  show "(a * 16777216 + b * 65536 + c * 256 + d) div 1048576 = a * 16 + b div 16"
    unfolding b16(1) by (rule div_nat_eqI) (use assms(2-4) b16(2,3) in simp_all)
  show "(a * 16777216 + b * 65536 + c * 256 + d) div 4194304 = a * 4 + b div 64"
    unfolding b64(1) by (rule div_nat_eqI) (use assms(2-4) b64(2,3) in simp_all)
  show "(a * 16777216 + b * 65536 + c * 256 + d) div 536870912 = a div 32"
    unfolding a32(1) by (rule div_nat_eqI) (use assms(2-4) a32(2,3) in simp_all)
qed

lemma two_digits: "y < m \<Longrightarrow> z < m \<Longrightarrow> x * m + y = k * m + z \<longleftrightarrow> x = k \<and> y = z" for x y z k m :: nat
  by (metis add.commute div_mult_self3 div_less add_cancel_left_left mod_less mod_mult_self3 less_nat_zero_code)

text \<open>C28: for an IPv4 address the guard is exactly membership in the reserved networks of its
  comments, read on the 32-bit address: 0/8, 10/8, 127/8, 169.254/16, 172.16/12, 192.168/16,
  100.64/10 and 224/3 are blocked, everything else is let through. A text that is no address at
  all is blocked.\<close>

theorem ipv4_guard_is_network_membership:
  "is_blocked_address ps (v4_text (unat a) (unat b) (unat c) (unat d))
     = list_ex (in_network (addr4 (unat a) (unat b) (unat c) (unat d))) blocked_networks
   \<and> (is_blocked_address ps s \<or> is_ip s = 4 \<or> is_ip s = 6)"
  for a b c d :: "8 word"
proof -
  have o: "unat x \<le> 255" for x :: "8 word" using unsigned_less [of x, where ?'a = nat] by simp
  note p = addr4_prefixes [OF o o o o, of a b c d]
  have nets: "list_ex (in_network (addr4 (unat a) (unat b) (unat c) (unat d))) blocked_networks
    \<longleftrightarrow> unat a = 0 \<or> unat a = 10 \<or> unat a = 127 \<or> unat a * 256 + unat b = 169 * 256 + 254
      \<or> unat a * 16 + unat b div 16 = 172 * 16 + 1 \<or> unat a * 256 + unat b = 192 * 256 + 168
      \<or> unat a * 4 + unat b div 64 = 100 * 4 + 1 \<or> unat a div 32 = 7"
    by (simp add: blocked_networks_def in_network_div unat_addr4 o p)
  have eqs: "x * 256 + y = 169 * 256 + 254 \<longleftrightarrow> x = 169 \<and> y = 254"
      "x * 256 + y = 192 * 256 + 168 \<longleftrightarrow> x = 192 \<and> y = 168"
      "x * 16 + y div 16 = 172 * 16 + 1 \<longleftrightarrow> x = 172 \<and> y \<ge> 16 \<and> y \<le> 31"
      "x * 4 + y div 64 = 100 * 4 + 1 \<longleftrightarrow> x = 100 \<and> y \<ge> 64 \<and> y \<le> 127"
      "x div 32 = 7 \<longleftrightarrow> x \<ge> 224" if "x \<le> 255" "y \<le> 255" for x y :: nat
    using that two_digits [of y 256 254 x 169] two_digits [of y 256 168 x 192]
      two_digits [of "y div 16" 16 1 x 172] two_digits [of "y div 64" 4 1 x 100] by auto
  have "blocked_octets (unat a) (unat b) = list_ex (in_network (addr4 (unat a) (unat b) (unat c) (unat d))) blocked_networks"
    unfolding nets blocked_octets_def eqs [OF o o] by simp
  then have "is_blocked_address ps (v4_text (unat a) (unat b) (unat c) (unat d))
      = list_ex (in_network (addr4 (unat a) (unat b) (unat c) (unat d))) blocked_networks"
    by (simp add: is_blocked_address_def is_ip_v4_text blocked_v4_text o)
  moreover have "is_blocked_address ps s \<or> is_ip s = 4 \<or> is_ip s = 6"
    by (auto simp: is_blocked_address_def is_ip_def)
  ultimately show ?thesis by blast
qed


section \<open>IPv6: embedded IPv4 addresses\<close>

lemma bit_split:
  assumes "n < 65536"
  shows "unat (drop_bit 8 (of_nat n :: 32 word)) = n div 256"
    and "unat ((of_nat n :: 32 word) AND 0xff) = n mod 256"
proof -
  have n: "unat (of_nat n :: 32 word) = n" using assms by (subst unat_of_nat) (simp add: take_bit_nat_eq_self)
  show "unat (drop_bit 8 (of_nat n :: 32 word)) = n div 256"
    unfolding unat_drop_bit_eq n drop_bit_eq_div [where 'a = nat] by simp
  have "(of_nat n :: 32 word) AND 0xff = take_bit 8 (of_nat n)"
    by (simp add: take_bit_eq_mask mask_eq_exp_minus_1)
  then have "unat ((of_nat n :: 32 word) AND 0xff) = unat (take_bit 8 (of_nat n :: 32 word))" by (rule arg_cong)
  also have "\<dots> = take_bit 8 n" unfolding unsigned_take_bit_eq n by (rule refl)
  also have "\<dots> = n mod 256" by (simp add: take_bit_eq_mod)
  finally show "unat ((of_nat n :: 32 word) AND 0xff) = n mod 256" .
qed

lemma quad_text:
  "m < 65536 \<Longrightarrow> n < 65536 \<Longrightarrow>
   quad (of_nat m) (of_nat n) = v4_text (m div 256) (m mod 256) (n div 256) (n mod 256)"
  by (simp add: quad_def v4_text_def bit_split)

text \<open>Two 16-bit groups of an IPv6 text, as the patterns capture them.\<close>

definition group :: "string \<Rightarrow> bool" where
  "group w \<longleftrightarrow> 1 \<le> length w \<and> length w \<le> 4 \<and> (\<forall>c \<in> set w. is_lower_hex c)"

lemma group_hex_str: "n < 65536 \<Longrightarrow> group (hex_str n)"
  using length_hex_str [of n 3] by (auto simp: group_def hex_str_chars Suc_le_eq)

lemma group_no: "group w \<Longrightarrow> CHR '':'' \<notin> set w" "group w \<Longrightarrow> CHR ''.'' \<notin> set w" "group w \<Longrightarrow> CHR ''%'' \<notin> set w"
  by (auto simp: group_def is_lower_hex_def is_digit_def code_def)

lemma leads_group:
  "group w \<Longrightarrow> stops is_lower_hex rest \<Longrightarrow> leads hexg (b, w @ rest, g) (rev w @ b, rest, g)"
  unfolding hexg_def group_def by (rule leads_rep) auto

lemma leads_Grp_group:
  "group w \<Longrightarrow> stops is_lower_hex rest \<Longrightarrow>
   leads (Grp k hexg) (b, w @ rest, g) (rev w @ b, rest, (k, w) # g)"
  using leads_Grp [OF leads_group [of w rest b g], where k = k] by simp

lemma leads_colon: "leads colon (b, CHR '':'' # r, g) (CHR '':'' # b, r, g)"
  unfolding colon_def by (rule leads_chr)

lemma stops_colon [simp]: "stops is_lower_hex (CHR '':'' # r)" "stops is_lower_hex []"
  by (simp_all add: stops_def is_lower_hex_def is_digit_def code_def)

lemma leads_two_groups:
  assumes "group x" "group y" "stops is_lower_hex rest" "leads r (rev y @ CHR '':'' # rev x @ b, rest, (2, y) # (1, x) # g) q"
  shows "leads (Seq (Grp 1 hexg) (Seq colon (Seq (Grp 2 hexg) r))) (b, x @ CHR '':'' # y @ rest, g) q"
  using assms by (intro leads_Seq [OF leads_Grp_group] leads_Seq [OF leads_colon]) auto

lemma exec_two_after:
  assumes "group x" "group y"
  shows "\<exists>b. exec (two_after h) (h @ x @ CHR '':'' # y) = Some (b, [], [(2, y), (1, x)])"
proof -
  have "leads (Seq (Grp 1 hexg) (Seq colon (Seq (Grp 2 hexg) Eol))) (rev h, x @ CHR '':'' # y @ [], [])
      (rev y @ CHR '':'' # rev x @ rev h, [], [(2, y), (1, x)])"
    using assms by (intro leads_two_groups) (auto intro: leads_Eol)
  then have "leads (two_after h) ([], h @ x @ CHR '':'' # y, [])
      (rev y @ CHR '':'' # rev x @ rev h, [], [(2, y), (1, x)])"
    unfolding two_after_def
    by (intro leads_Seq [OF leads_Bol] leads_Seq [OF leads_lit]) simp
  then show ?thesis by (blast intro: exec_leads)
qed

text \<open>What the captured groups decode to.\<close>

lemma two_blocked_groups:
  assumes "m < 65536" "n < 65536"
  shows "two_blocked (b, a, (2, hex_str n) # (1, hex_str m) # g) = blocked_octets (m div 256) (m mod 256)"
proof -
  have "m div 256 \<le> 255" "n div 256 \<le> 255" using assms by auto
  moreover have "m mod 256 \<le> 255" "n mod 256 \<le> 255" by simp_all
  ultimately show ?thesis
    by (simp add: two_blocked_def cap_def parse_hex_def quad_text assms blocked_dotted_text)
qed

lemma two_blocked_groups':
  assumes "m < 65536" "n < 65536"
  shows "two_blocked (b, a, (3, w) # (2, hex_str n) # (1, hex_str m) # g) = blocked_octets (m div 256) (m mod 256)"
  using two_blocked_groups [OF assms] by (simp add: two_blocked_def cap_def)

definition flip16 :: "nat \<Rightarrow> nat" where
  "flip16 n = unat ((of_nat n :: 32 word) XOR 0xffff)"

lemma flip16:
  assumes "n < 65536"
  shows "flip16 n < 65536" and "(of_nat (flip16 n) :: 32 word) XOR 0xffff = of_nat n"
proof -
  have n: "unat (of_nat n :: 32 word) = n" using assms by (subst unat_of_nat) (simp add: take_bit_nat_eq_self)
  then have "take_bit 16 (of_nat n :: 32 word) = of_nat n"
    using assms by (simp add: word_unat_eq_iff unsigned_take_bit_eq take_bit_nat_eq_self)
  then have "take_bit 16 ((of_nat n :: 32 word) XOR 0xffff) = of_nat n XOR 0xffff"
    by (simp add: take_bit_xor)
  then have "unat ((of_nat n :: 32 word) XOR 0xffff) = take_bit 16 (unat ((of_nat n :: 32 word) XOR 0xffff))"
    by (metis unsigned_take_bit_eq)
  then have "flip16 n < 2 ^ 16" unfolding flip16_def by (metis take_bit_nat_less_exp)
  then show "flip16 n < 65536" by simp
  show "(of_nat (flip16 n) :: 32 word) XOR 0xffff = of_nat n"
    by (simp add: flip16_def xor.assoc)
qed


section \<open>Matching heads\<close>

lemma starts_with_Cons [simp]: "starts_with (c # h) (x # s) \<longleftrightarrow> c = x \<and> starts_with h s"
  by (auto simp: starts_with_def)

lemma starts_with_Nil2 [simp]: "starts_with h [] \<longleftrightarrow> h = []"
  by (cases h) (auto simp: starts_with_def)

lemma mt_chr: "mt (chr c) (b, a, g) = (if starts_with [c] a then [(c # b, tl a, g)] else [])"
  by (cases a) (auto simp: chr_def)

lemma mt_lit: "mt (lit h) (b, a, g) = (if starts_with h a then [(rev h @ b, drop (length h) a, g)] else [])"
proof (induction h arbitrary: b a)
  case (Cons c h)
  have "mt (lit (c # h)) (b, a, g) = concat (map (mt (lit h)) (mt (chr c) (b, a, g)))"
    by (cases h) (simp_all add: lit_def mt_chr)
  then show ?case by (cases a) (simp_all add: mt_chr Cons.IH)
qed (simp add: lit_def)

lemma exec_wrong_head: "\<not> starts_with h s \<Longrightarrow> exec (Seq Bol (Seq (lit h) r)) s = None"
  by (simp add: exec_Bol match_here_def mt_lit)

lemma min_count_lit: "min_count c (lit h) = occurs c h"
proof (induction h)
  case (Cons d h)
  have "min_count c (lit (d # h)) = min_count c (chr d) + min_count c (lit h)"
    by (cases h) (simp_all add: lit_def)
  then show ?case using Cons by (auto simp: chr_def)
qed (simp add: lit_def)

lemma no_dotted: "CHR ''.'' \<notin> set s \<Longrightarrow> exec (dotted_after h) s = None"
  by (rule exec_too_few [where c = "CHR ''.''"])
    (simp add: occurs_none dotted_after_def dotted_grp_def chr_def plus_def)

section \<open>Texts made of groups\<close>

lemma split_dcolon_skip:
  "CHR '':'' \<notin> set w \<Longrightarrow> split_dcolon (w @ r) = (case split_dcolon r of (l, q) \<Rightarrow> (w @ l, q))"
  by (induction w) (auto split: prod.splits)

lemma split_dcolon_group: "group w \<Longrightarrow> split_dcolon (w @ r) = (case split_dcolon r of (l, q) \<Rightarrow> (w @ l, q))"
  by (rule split_dcolon_skip) (rule group_no(1))

lemma group_no_colon_head:
  assumes "group w"
  shows "\<not> starts_with '':'' (w @ r)" "\<not> starts_with '':'' w"
proof -
  obtain c v where w: "w = c # v" using assms by (cases w) (simp_all add: group_def)
  then have "CHR '':'' \<noteq> c" using group_no(1) [OF assms] by simp
  then show "\<not> starts_with '':'' (w @ r)" "\<not> starts_with '':'' w" by (simp_all add: w)
qed

lemmas split_dcolon_simps = split_dcolon_group group_no_colon_head split_dcolon_no_colon [OF group_no(1)]

lemma split_colon_group: "group w \<Longrightarrow> split_on is_colon (w @ CHR '':'' # r) = w # split_on is_colon r"
  by (rule split_on_here) (auto simp: list_all_iff is_colon_def dest: group_no(1))

lemma split_colon_last: "group w \<Longrightarrow> split_on is_colon w = [w]"
  by (rule split_on_none) (auto simp: list_all_iff is_colon_def dest: group_no(1))

lemma hex_group_group: "group w \<Longrightarrow> hex_group w"
  by (auto simp: group_def hex_group_def list_all_iff is_lower_hex_def is_hex_def)

lemma split_on_keeps: "c \<in> set s \<Longrightarrow> \<not> P c \<Longrightarrow> \<exists>w \<in> set (split_on P s). c \<in> set w"
  by (induction s) (auto split: list.splits)

lemma colon_not_ipv4: "CHR '':'' \<in> set s \<Longrightarrow> \<not> is_ipv4 s"
  using split_on_keeps [of "CHR '':''" s is_dot]
  by (auto simp: is_ipv4_def list_all_iff octet_ok_def is_dot_def dest: digit_not_dot)

text \<open>A text of lower-case hex digits and colons is its own lower case and has no zone.\<close>

definition plain6 :: "string \<Rightarrow> bool" where
  "plain6 s \<longleftrightarrow> (\<forall>c \<in> set s. is_lower_hex c \<or> c = CHR '':'')"

lemma plain6_append [simp]: "plain6 (s @ t) \<longleftrightarrow> plain6 s \<and> plain6 t"
  by (auto simp: plain6_def)

lemma plain6_Cons: "plain6 (c # s) \<longleftrightarrow> (is_lower_hex c \<or> c = CHR '':'') \<and> plain6 s"
  by (auto simp: plain6_def)

lemma plain6_Nil: "plain6 []"
  by (simp add: plain6_def)

lemma plain6_group: "group w \<Longrightarrow> plain6 w"
  by (auto simp: plain6_def group_def)

lemma lower_plain6: "plain6 s \<Longrightarrow> lower s = s"
  unfolding lower_def by (rule map_idI)
    (auto simp: plain6_def lower_char_def is_upper_def is_lower_hex_def is_digit_def code_def)

lemma no_dot_plain6: "plain6 s \<Longrightarrow> CHR ''.'' \<notin> set s"
  by (auto simp: plain6_def is_lower_hex_def is_digit_def code_def)

lemma is_ip_plain6:
  assumes "plain6 s" and "CHR '':'' \<in> set s" and "ipv6_address s"
  shows "is_ip s = 6"
proof -
  have "\<forall>c \<in> set s. \<not> is_percent c"
    using assms(1) by (auto simp: plain6_def is_percent_def is_lower_hex_def is_digit_def code_def)
  then have "takeWhile (\<lambda>c. \<not> is_percent c) s = s" "dropWhile (\<lambda>c. \<not> is_percent c) s = []"
    by (simp_all add: takeWhile_eq_all_conv)
  then have "is_ipv6 s" unfolding is_ipv6_def Let_def by (simp only: assms(3) simp_thms)
  then show ?thesis using assms(2) by (simp add: is_ip_def colon_not_ipv4)
qed

lemma is_blocked_plain6:
  "plain6 s \<Longrightarrow> CHR '':'' \<in> set s \<Longrightarrow> ipv6_address s \<Longrightarrow> is_blocked_address ps s = blocked_v6 ps s"
  by (simp add: is_blocked_address_def is_ip_plain6 lower_plain6)


text \<open>The canonical texts of the embeddings; \<open>m\<close> and \<open>n\<close> are the two halves of the IPv4 address.\<close>

definition mapped_text :: "string \<Rightarrow> nat \<Rightarrow> nat \<Rightarrow> string" where
  "mapped_text h m n = h @ hex_str m @ CHR '':'' # hex_str n"

definition six_to_four_text :: "nat \<Rightarrow> nat \<Rightarrow> nat \<Rightarrow> string" where
  "six_to_four_text m n e =
     ''2002:'' @ hex_str m @ CHR '':'' # hex_str n @ CHR '':'' # CHR '':'' # hex_str e"

definition teredo_text :: "nat \<Rightarrow> nat \<Rightarrow> nat \<Rightarrow> nat \<Rightarrow> nat \<Rightarrow> nat \<Rightarrow> string" where
  "teredo_text s t f p m n =
     ''2001:0:'' @ hex_str s @ CHR '':'' # hex_str t @ CHR '':'' # hex_str f @ CHR '':'' # hex_str p
       @ CHR '':'' # hex_str (flip16 m) @ CHR '':'' # hex_str (flip16 n)"

lemma lower_hex_consts:
  "is_lower_hex CHR ''0''" "is_lower_hex CHR ''1''" "is_lower_hex CHR ''2''" "is_lower_hex CHR ''4''"
  "is_lower_hex CHR ''6''" "is_lower_hex CHR ''9''" "is_lower_hex CHR ''f''" "is_lower_hex CHR ''b''"
  by (simp_all add: is_lower_hex_def is_digit_def code_def)

lemma group_consts: "group ''ffff''" "group ''2002''" "group ''2001''" "group ''0''" "group ''64''" "group ''ff9b''"
  by (simp_all add: group_def lower_hex_consts)

lemmas plain6_simps = plain6_Cons plain6_Nil lower_hex_consts plain6_group group_hex_str

lemma mapped_text_plain:
  assumes "m < 65536" "n < 65536"
  shows "plain6 (mapped_text ''::ffff:'' m n)" "plain6 (mapped_text ''64:ff9b::'' m n)"
    "plain6 (mapped_text ''::'' m n)"
  using assms by (simp_all add: mapped_text_def plain6_simps)

lemma ipv6_mapped:
  assumes "m < 65536" "n < 65536"
  shows "ipv6_address (mapped_text ''::ffff:'' m n)"
    and "ipv6_address (mapped_text ''64:ff9b::'' m n)"
    and "ipv6_address (mapped_text ''::'' m n)"
proof -
  note g = group_hex_str [OF assms(1)] group_hex_str [OF assms(2)]
  have c3: "side_groups v (''ffff:'' @ hex_str m @ CHR '':'' # hex_str n) = Some 3" for v
    using split_colon_group [OF group_consts(1)] g
    by (simp add: side_groups_def split_colon_group split_colon_last hex_group_group group_consts)
  have c2: "side_groups v (hex_str m @ CHR '':'' # hex_str n) = Some 2" for v
    using g by (simp add: side_groups_def split_colon_group split_colon_last hex_group_group)
  have c64: "side_groups v ''64:ff9b'' = Some 2" for v
    by (simp add: side_groups_def is_colon_def hex_group_group group_consts)
  show "ipv6_address (mapped_text ''::ffff:'' m n)"
    using c3 by (simp add: ipv6_address_def mapped_text_def side_groups_def [of False "[]"])
  show "ipv6_address (mapped_text ''64:ff9b::'' m n)"
    using c2 c64 by (simp add: ipv6_address_def mapped_text_def)
  show "ipv6_address (mapped_text ''::'' m n)"
    using c2 by (simp add: ipv6_address_def mapped_text_def side_groups_def [of False "[]"])
qed


lemma ipv6_six_to_four:
  assumes "m < 65536" "n < 65536" "e < 65536"
  shows "plain6 (six_to_four_text m n e)" "ipv6_address (six_to_four_text m n e)"
proof -
  note g = group_hex_str [OF assms(1)] group_hex_str [OF assms(2)] group_hex_str [OF assms(3)]
  show "plain6 (six_to_four_text m n e)"
    using assms by (simp add: six_to_four_text_def plain6_simps)
  have "split_dcolon (''2002:'' @ hex_str m @ CHR '':'' # hex_str n @ CHR '':'' # CHR '':'' # hex_str e)
     = (''2002:'' @ hex_str m @ CHR '':'' # hex_str n, Some (hex_str e))"
    by (simp add: split_dcolon_simps g)
  moreover have "side_groups False (''2002:'' @ hex_str m @ CHR '':'' # hex_str n) = Some 3"
    using split_colon_group [OF group_consts(2), of "hex_str m @ CHR '':'' # hex_str n"] g
    by (simp add: side_groups_def split_colon_group split_colon_last hex_group_group group_consts)
  moreover have "side_groups True (hex_str e) = Some 1"
    using g by (simp add: side_groups_def split_colon_last hex_group_group)
  ultimately show "ipv6_address (six_to_four_text m n e)"
    by (simp add: ipv6_address_def six_to_four_text_def)
qed

lemma ipv6_teredo:
  assumes "s < 65536" "t < 65536" "f < 65536" "p < 65536" "m < 65536" "n < 65536"
  shows "plain6 (teredo_text s t f p m n)" "ipv6_address (teredo_text s t f p m n)"
proof -
  note g = group_hex_str [OF assms(1)] group_hex_str [OF assms(2)] group_hex_str [OF assms(3)]
    group_hex_str [OF assms(4)] group_hex_str [OF flip16(1) [OF assms(5)]]
    group_hex_str [OF flip16(1) [OF assms(6)]]
  show "plain6 (teredo_text s t f p m n)"
    using g by (simp add: teredo_text_def plain6_simps)
  let ?r = "hex_str s @ CHR '':'' # hex_str t @ CHR '':'' # hex_str f @ CHR '':'' # hex_str p
       @ CHR '':'' # hex_str (flip16 m) @ CHR '':'' # hex_str (flip16 n)"
  have "split_dcolon (''2001:0:'' @ ?r) = (''2001:0:'' @ ?r, None)"
    by (simp add: split_dcolon_simps g)
  moreover have "side_groups True (''2001'' @ CHR '':'' # ''0'' @ CHR '':'' # ?r) = Some 8"
    unfolding side_groups_def split_colon_group [OF group_consts(3)] split_colon_group [OF group_consts(4)]
    using g by (simp add: split_colon_group split_colon_last hex_group_group group_consts)
  ultimately show "ipv6_address (teredo_text s t f p m n)"
    by (simp add: ipv6_address_def teredo_text_def)
qed


lemmas guard_misses = on_match_def exec_wrong_head no_dotted no_dot_plain6

lemma exec_mapped:
  assumes "m < 65536" "n < 65536"
  obtains q where "exec (two_after h) (mapped_text h m n) = Some q"
    and "two_blocked q = blocked_octets (m div 256) (m mod 256)"
  using exec_two_after [OF group_hex_str [OF assms(1)] group_hex_str [OF assms(2)], of h] assms
  by (auto simp: mapped_text_def two_blocked_groups simp del: One_nat_def)

lemma wrong_head:
  "\<not> starts_with h s \<Longrightarrow> exec (two_after h) s = None"
  "\<not> starts_with h s \<Longrightarrow> exec (one_after h) s = None"
  "\<not> starts_with ''2002:'' s \<Longrightarrow> exec six_to_four_re s = None"
  "\<not> starts_with ''2001:0:'' s \<Longrightarrow> exec teredo_re s = None"
  "\<not> starts_with ''2001:0:'' s \<Longrightarrow> exec teredo_compressed_re s = None"
  unfolding two_after_def one_after_def six_to_four_re_def teredo_re_def teredo_compressed_re_def
  by (rule exec_wrong_head, assumption)+

text \<open>A text with three colons or more is neither of the two literal cases.\<close>

definition long6 :: "string \<Rightarrow> bool" where
  "long6 s \<longleftrightarrow> plain6 s \<and> 2 < occurs CHR '':'' s"

lemma long6_facts:
  assumes "long6 s"
  shows "s \<noteq> ''::''" "s \<noteq> ''::1''" "exec (dotted_after h) s = None"
  using assms by (auto simp: long6_def no_dotted [OF no_dot_plain6])

lemma blocked_v6_mapped:
  "long6 s \<Longrightarrow> exec (two_after ''::ffff:'') s = Some q \<Longrightarrow> blocked_v6 ps s = two_blocked q"
  by (simp add: blocked_v6_def long6_facts on_match_def)

lemma blocked_v6_nat64:
  "long6 s \<Longrightarrow> exec (two_after ''::ffff:'') s = None \<Longrightarrow> exec (two_after ''64:ff9b::'') s = Some q
   \<Longrightarrow> blocked_v6 ps s = two_blocked q"
  by (simp add: blocked_v6_def long6_facts on_match_def)

text \<open>None of the earlier forms.\<close>

definition past_nat64 :: "string \<Rightarrow> bool" where
  "past_nat64 s \<longleftrightarrow> long6 s \<and> exec (two_after ''::ffff:'') s = None \<and> \<not> starts_with ''64:ff9b::'' s"

lemma blocked_v6_six_to_four:
  "past_nat64 s \<Longrightarrow> exec six_to_four_re s = Some q \<Longrightarrow> blocked_v6 [] s = two_blocked q"
  by (simp add: blocked_v6_def past_nat64_def long6_facts on_match_def wrong_head)

lemma blocked_v6_teredo:
  "past_nat64 s \<Longrightarrow> \<not> starts_with ''2002:'' s \<Longrightarrow> exec teredo_re s = Some q \<Longrightarrow> blocked_v6 [] s = inverted_blocked q"
  by (simp add: blocked_v6_def past_nat64_def long6_facts on_match_def wrong_head)

lemma blocked_v6_compat:
  "past_nat64 s \<Longrightarrow> \<not> starts_with ''2002:'' s \<Longrightarrow> \<not> starts_with ''2001:0:'' s \<Longrightarrow>
   exec (two_after ''::'') s = Some q \<Longrightarrow> blocked_v6 [] s = two_blocked q"
  by (simp add: blocked_v6_def past_nat64_def long6_facts on_match_def wrong_head)

lemma compat_not_mapped:
  assumes "m < 65536" "n < 65536"
  shows "exec (two_after ''::ffff:'') (mapped_text ''::'' m n) = None"
proof (rule exec_too_few [where c = "CHR '':''"])
  have "occurs CHR '':'' (hex_str m) = 0" "occurs CHR '':'' (hex_str n) = 0"
    using assms by (simp_all add: occurs_none group_no group_hex_str)
  then show "occurs CHR '':'' (mapped_text ''::'' m n) < min_count CHR '':'' (two_after ''::ffff:'')"
    by (simp add: mapped_text_def two_after_def min_count_lit colon_def chr_def)
qed

lemma exec_six_to_four:
  assumes "group x" "group y"
  shows "\<exists>b a w. exec six_to_four_re (''2002:'' @ x @ CHR '':'' # y @ CHR '':'' # r)
    = Some (b, a, [(3, w), (2, y), (1, x)])"
proof -
  have l3: "leads (Grp 3 (Alt colon Eol)) (b, CHR '':'' # r, g) (CHR '':'' # b, r, (3, '':'') # g)" for b g
    using leads_Grp [OF leads_Alt1 [OF leads_colon], of 3 Eol b r g] by simp
  have "leads (Seq (Grp 1 hexg) (Seq colon (Seq (Grp 2 hexg) (Grp 3 (Alt colon Eol)))))
      (rev ''2002:'', x @ CHR '':'' # y @ CHR '':'' # r, [])
      (CHR '':'' # rev y @ CHR '':'' # rev x @ rev ''2002:'', r, [(3, '':''), (2, y), (1, x)])"
    by (rule leads_two_groups [OF assms]) (simp, rule l3)
  then have "leads six_to_four_re ([], ''2002:'' @ x @ CHR '':'' # y @ CHR '':'' # r, [])
      (CHR '':'' # rev y @ CHR '':'' # rev x @ rev ''2002:'', r, [(3, '':''), (2, y), (1, x)])"
    unfolding six_to_four_re_def by (intro leads_Seq [OF leads_Bol] leads_Seq [OF leads_lit]) simp
  then show ?thesis by (blast intro: exec_leads)
qed

lemma leads_group_colon:
  "group w \<Longrightarrow> leads r (CHR '':'' # rev w @ b, rest, g) q \<Longrightarrow>
   leads (Seq hexg (Seq colon r)) (b, w @ CHR '':'' # rest, g) q"
  by (rule leads_Seq [OF leads_group], simp, simp) (rule leads_Seq [OF leads_colon])

lemma exec_teredo:
  assumes "group s" "group t" "group f" "group p" "group x" "group y"
  shows "\<exists>b. exec teredo_re (''2001:0:'' @ s @ CHR '':'' # t @ CHR '':'' # f @ CHR '':'' # p
      @ CHR '':'' # x @ CHR '':'' # y) = Some (b, [], [(2, y), (1, x)])"
proof -
  have two: "leads (Seq (Grp 1 hexg) (Seq colon (Seq (Grp 2 hexg) Eol))) (b, x @ CHR '':'' # y, [])
      (rev y @ CHR '':'' # rev x @ b, [], [(2, y), (1, x)])" for b
    using leads_two_groups [OF assms(5,6), of "[]" Eol b "[]" "(rev y @ CHR '':'' # rev x @ b, [], [(2, y), (1, x)])"]
    by (simp add: leads_Eol)
  have "\<exists>b. leads teredo_re ([], ''2001:0:'' @ s @ CHR '':'' # t @ CHR '':'' # f @ CHR '':'' # p
      @ CHR '':'' # x @ CHR '':'' # y, []) (b, [], [(2, y), (1, x)])"
    unfolding teredo_re_def
    by (rule exI, rule leads_Seq [OF leads_Bol], rule leads_Seq [OF leads_lit],
        rule leads_group_colon [OF assms(1)], rule leads_group_colon [OF assms(2)],
        rule leads_group_colon [OF assms(3)], rule leads_group_colon [OF assms(4)], rule two)
  then show ?thesis by (blast intro: exec_leads)
qed

lemma inverted_blocked_groups:
  assumes "m < 65536" "n < 65536"
  shows "inverted_blocked (b, a, (2, hex_str (flip16 n)) # (1, hex_str (flip16 m)) # g)
    = blocked_octets (m div 256) (m mod 256)"
proof -
  have "m div 256 \<le> 255" "n div 256 \<le> 255" using assms by auto
  moreover have "m mod 256 \<le> 255" "n mod 256 \<le> 255" by simp_all
  ultimately show ?thesis
    by (simp add: inverted_blocked_def cap_def parse_hex_def flip16 quad_text assms blocked_dotted_text)
qed

text \<open>Each form in turn: the guard judges it by the two halves it carries.\<close>

lemma hex_str_no_colon: "k < 65536 \<Longrightarrow> occurs CHR '':'' (hex_str k) = 0"
  by (intro occurs_none group_no(1) group_hex_str)

lemma mapped_judged:
  assumes mn: "m < 65536" "n < 65536"
  shows "is_blocked_address ps (mapped_text ''::ffff:'' m n) = blocked_octets (m div 256) (m mod 256)"
    and "is_blocked_address ps (mapped_text ''64:ff9b::'' m n) = blocked_octets (m div 256) (m mod 256)"
    and "is_blocked_address [] (mapped_text ''::'' m n) = blocked_octets (m div 256) (m mod 256)"
proof -
  note plain = mapped_text_plain [OF mn]
  have colon: "CHR '':'' \<in> set (mapped_text h m n)" for h by (simp add: mapped_text_def)
  note judge = plain(1) [THEN is_blocked_plain6, OF colon ipv6_mapped(1) [OF mn]]
    plain(2) [THEN is_blocked_plain6, OF colon ipv6_mapped(2) [OF mn]]
    plain(3) [THEN is_blocked_plain6, OF colon ipv6_mapped(3) [OF mn]]
  have long: "long6 (mapped_text ''::ffff:'' m n)" "long6 (mapped_text ''64:ff9b::'' m n)" "long6 (mapped_text ''::'' m n)"
    using plain by (simp_all add: long6_def mapped_text_def hex_str_no_colon mn)
  show "is_blocked_address ps (mapped_text ''::ffff:'' m n) = blocked_octets (m div 256) (m mod 256)"
    unfolding judge using exec_mapped [OF mn, of "''::ffff:''"] blocked_v6_mapped [OF long(1)] by metis
  have "exec (two_after ''::ffff:'') (mapped_text ''64:ff9b::'' m n) = None"
    by (rule wrong_head(1)) (simp add: mapped_text_def)
  then show "is_blocked_address ps (mapped_text ''64:ff9b::'' m n) = blocked_octets (m div 256) (m mod 256)"
    unfolding judge using exec_mapped [OF mn, of "''64:ff9b::''"] blocked_v6_nat64 [OF long(2)] by metis
  have past: "past_nat64 (mapped_text ''::'' m n)"
    unfolding past_nat64_def using long(3) compat_not_mapped [OF mn] by (auto simp: mapped_text_def)
  have "\<not> starts_with ''2002:'' (mapped_text ''::'' m n)" "\<not> starts_with ''2001:0:'' (mapped_text ''::'' m n)"
    by (simp_all add: mapped_text_def)
  then show "is_blocked_address [] (mapped_text ''::'' m n) = blocked_octets (m div 256) (m mod 256)"
    unfolding judge using exec_mapped [OF mn, of "''::''"] blocked_v6_compat [OF past] by metis
qed

lemma six_to_four_judged:
  assumes mn: "m < 65536" "n < 65536" and e: "e < 65536"
  shows "is_blocked_address [] (six_to_four_text m n e) = blocked_octets (m div 256) (m mod 256)"
proof -
  have "CHR '':'' \<in> set (six_to_four_text m n e)" by (simp add: six_to_four_text_def)
  note judge = is_blocked_plain6 [OF ipv6_six_to_four(1) [OF mn e] this ipv6_six_to_four(2) [OF mn e]]
  have "long6 (six_to_four_text m n e)"
    using ipv6_six_to_four(1) [OF mn e] by (simp add: long6_def six_to_four_text_def hex_str_no_colon mn e)
  then have past: "past_nat64 (six_to_four_text m n e)"
    unfolding past_nat64_def using wrong_head(1) [of "''::ffff:''" "six_to_four_text m n e"]
    by (auto simp: six_to_four_text_def)
  obtain b a w where "exec six_to_four_re (six_to_four_text m n e) = Some (b, a, [(3, w), (2, hex_str n), (1, hex_str m)])"
    using exec_six_to_four [OF group_hex_str [OF mn(1)] group_hex_str [OF mn(2)], of "CHR '':'' # hex_str e"]
    by (auto simp: six_to_four_text_def)
  from blocked_v6_six_to_four [OF past this] show ?thesis unfolding judge by (simp only: two_blocked_groups' [OF mn])
qed

lemma teredo_judged:
  assumes r: "s < 65536" "t < 65536" "f < 65536" "p < 65536" and mn: "m < 65536" "n < 65536"
  shows "is_blocked_address [] (teredo_text s t f p m n) = blocked_octets (m div 256) (m mod 256)"
proof -
  have "CHR '':'' \<in> set (teredo_text s t f p m n)" by (simp add: teredo_text_def)
  note judge = is_blocked_plain6 [OF ipv6_teredo(1) [OF r mn] this ipv6_teredo(2) [OF r mn]]
  have "long6 (teredo_text s t f p m n)"
    using ipv6_teredo(1) [OF r mn] by (simp add: long6_def teredo_text_def hex_str_no_colon r mn)
  then have past: "past_nat64 (teredo_text s t f p m n)"
    unfolding past_nat64_def using wrong_head(1) [of "''::ffff:''" "teredo_text s t f p m n"] by (auto simp: teredo_text_def)
  obtain b where run: "exec teredo_re (teredo_text s t f p m n)
      = Some (b, [], [(2, hex_str (flip16 n)), (1, hex_str (flip16 m))])"
    using exec_teredo [OF r [THEN group_hex_str] flip16(1) [OF mn(1), THEN group_hex_str] flip16(1) [OF mn(2), THEN group_hex_str]]
    by (auto simp: teredo_text_def)
  have "\<not> starts_with ''2002:'' (teredo_text s t f p m n)" by (simp add: teredo_text_def)
  from blocked_v6_teredo [OF past this run] show ?thesis unfolding judge by (simp only: inverted_blocked_groups [OF mn])
qed



section \<open>What a vetted target is\<close>

lemma uniq_nonempty: "r \<noteq> [] \<Longrightarrow> uniq r \<noteq> []"
  using set_uniq [of r] by (cases "uniq r") auto

lemma resolved_elim:
  assumes "resolve_safe_target parse_url G deps raw = Inr tgt"
  obtains u where "parse_url raw = Some u" "st_url tgt = u"
    "url_protocol u = ''https:'' \<or> url_protocol u = ''http:''"
    "env_allowlist G = [] \<or> lower (url_hostname u) \<in> set (env_allowlist G)"
    "st_hostname tgt = bare_host (lower (url_hostname u))"
    "st_addresses tgt \<noteq> []"
    "list_all (\<lambda>a. \<not> gd_blocked deps a) (st_addresses tgt)"
    "if is_ip (st_hostname tgt) \<noteq> 0 then st_addresses tgt = [st_hostname tgt]
     else map_option set (gd_lookup deps (st_hostname tgt)) = Some (set (st_addresses tgt))"
proof -
  note R = assms [unfolded resolve_safe_target_def Let_def]
  obtain u where u: "parse_url raw = Some u" using R by (cases "parse_url raw") simp_all
  define proto where "proto = (url_protocol u = ''https:'' \<or> url_protocol u = ''http:'')"
  have proto: "proto"
  proof (rule ccontr)
    assume "\<not> proto"
    with R u show False unfolding proto_def by simp
  qed
  then have np: "\<not> (url_protocol u \<noteq> ''https:'' \<and> url_protocol u \<noteq> ''http:'')"
    unfolding proto_def by blast
  note R1 = R [unfolded u option.case if_not_P [OF np]]
  have h: "length (lower (url_hostname u)) \<noteq> 0" by (rule notI) (use R1 in simp)
  note R2 = R1 [unfolded if_not_P [OF h]]
  have al: "\<not> (length (env_allowlist G) > 0 \<and> lower (url_hostname u) \<notin> set (env_allowlist G))"
    by (rule notI) (use R2 in simp)
  note R3 = R2 [unfolded if_not_P [OF al]]
  let ?b = "bare_host (lower (url_hostname u))"
  have al': "env_allowlist G = [] \<or> lower (url_hostname u) \<in> set (env_allowlist G)" using al by simp
  show ?thesis
  proof (cases "is_ip ?b \<noteq> 0")
    case True
    note R4 = R3 [unfolded if_P [OF True]]
    have "\<not> gd_blocked deps ?b" by (rule notI) (use R4 in simp)
    moreover from this have "tgt = \<lparr>st_url = u, st_hostname = ?b, st_addresses = [?b]\<rparr>" using R4 by simp
    ultimately show ?thesis
      using True by (intro that [OF u]) (simp_all add: al' proto [unfolded proto_def])
  next
    case False
    note R4 = R3 [unfolded if_not_P [OF False]]
    obtain r where r: "gd_lookup deps ?b = Some r" using R4 by (cases "gd_lookup deps ?b") simp_all
    note R5 = R4 [unfolded r option.case]
    have ne: "length r \<noteq> 0" by (rule notI) (use R5 in simp)
    note R6 = R5 [unfolded if_not_P [OF ne]]
    have ok: "\<not> list_ex (gd_blocked deps) r" by (rule notI) (use R6 in simp)
    have "tgt = \<lparr>st_url = u, st_hostname = ?b, st_addresses = uniq r\<rparr>"
      using R6 [unfolded if_not_P [OF ok]] by simp
    moreover have "list_all (\<lambda>a. \<not> gd_blocked deps a) (uniq r)"
      using ok by (simp add: list_all_iff list_ex_iff)
    ultimately show ?thesis
      using False r ne by (intro that [OF u]) (simp_all add: al' proto [unfolded proto_def] uniq_nonempty)
  qed
qed

text \<open>the guard fails closed. Whenever it accepts a URL, the scheme is http or https, the host
  is on the allow-list if there is one, there is at least one address, the addresses are the
  literal itself or all the answers of the one DNS lookup, and not one of them is blocked.\<close>

theorem resolved_targets_are_vetted:
  assumes "resolve_safe_target parse_url G (default_deps G) raw = Inr tgt"
  shows "parse_url raw = Some (st_url tgt)
    \<and> (url_protocol (st_url tgt) = ''https:'' \<or> url_protocol (st_url tgt) = ''http:'')
    \<and> (env_allowlist G = [] \<or> lower (url_hostname (st_url tgt)) \<in> set (env_allowlist G))
    \<and> st_hostname tgt = bare_host (lower (url_hostname (st_url tgt)))
    \<and> st_addresses tgt \<noteq> []
    \<and> list_all (\<lambda>a. \<not> is_blocked_address (env_nat64_prefixes G) a) (st_addresses tgt)
    \<and> (if is_ip (st_hostname tgt) \<noteq> 0 then st_addresses tgt = [st_hostname tgt]
       else map_option set (ge_lookup G (st_hostname tgt)) = Some (set (st_addresses tgt)))"
  using assms
proof (rule resolved_elim)
  fix u
  assume "parse_url raw = Some u" "st_url tgt = u"
    "url_protocol u = ''https:'' \<or> url_protocol u = ''http:''"
    "env_allowlist G = [] \<or> lower (url_hostname u) \<in> set (env_allowlist G)"
    "st_hostname tgt = bare_host (lower (url_hostname u))" "st_addresses tgt \<noteq> []"
    "list_all (\<lambda>a. \<not> gd_blocked (default_deps G) a) (st_addresses tgt)"
    "if is_ip (st_hostname tgt) \<noteq> 0 then st_addresses tgt = [st_hostname tgt]
     else map_option set (gd_lookup (default_deps G) (st_hostname tgt)) = Some (set (st_addresses tgt))"
  then show ?thesis unfolding default_deps_def guard_deps.simps by (intro conjI) simp_all
qed

definition sample_url :: "string \<Rightarrow> url option" where
  "sample_url s = (if s = [] then None else Some \<lparr>url_protocol = ''https:'', url_hostname = ''hooks.example'',
     url_port = [], url_pathname = ''/x'', url_search = []\<rparr>)"

definition sample_guard :: guard_env where
  "sample_guard = \<lparr>ge_allowlist = None, ge_nat64 = None, ge_lookup = (\<lambda>h. Some [''8.8.4.4''])\<rparr>"

lemma sample_public: "\<not> is_blocked_address ps ''8.8.4.4''"
proof -
  have n: "nat_str 8 = ''8''" "nat_str 4 = ''4''" by code_simp+
  have "v4_text 8 8 4 4 = ''8.8.4.4''" by (simp add: v4_text_def n)
  then show ?thesis using is_ip_v4_text [of 8 8 4 4] blocked_v4_text [of 8 8 4 4]
    by (simp add: is_blocked_address_def blocked_octets_def)
qed

lemma sample_resolves:
  "resolve_safe_target sample_url sample_guard (default_deps sample_guard) ''https://hooks.example/x''
    = Inr \<lparr>st_url = the (sample_url ''x''), st_hostname = ''hooks.example'', st_addresses = [''8.8.4.4'']\<rparr>"
proof -
  have low: "lower ''hooks.example'' = ''hooks.example''"
    by (simp add: lower_def lower_char_def is_upper_def code_def)
  have dots: "split_on is_dot ''hooks.example'' = [''hooks'', ''example'']" by (simp add: is_dot_def)
  have "is_ip ''hooks.example'' = 0"
    using not_ipv6_without_colon [of "''hooks.example''"]
    by (simp add: is_ip_def is_ipv4_def dots del: split_on.simps)
  then show ?thesis
    by (simp add: resolve_safe_target_def sample_url_def sample_guard_def default_deps_def low
        env_allowlist_def bare_host_def sample_public Let_def uniq_def)
qed

theorem resolved_targets_are_vetted_witness:
  "list_all (\<lambda>a. \<not> is_blocked_address (env_nat64_prefixes sample_guard) a) [''8.8.4.4'']"
  using resolved_targets_are_vetted [OF sample_resolves] by simp

end
