(* ===== verification/SafeFetch.thy ===== *)
theory SafeFetch imports UrlGuard begin

text \<open>
  \<open>services/notification/safe-fetch.ts\<close>: the only way a notification sender reaches the network.
  \<open>net\<close> is the outside world: what a request is answered, a status with its text or a failure.
  The result of a send is paired with the requests it put on the wire.
\<close>

section \<open>Requests\<close>

record fetch_init =
  fi_method :: string
  fi_headers :: "(string \<times> string) list"
  fi_body :: "string option"
  fi_timeout :: "int option"

record http_request =
  rq_https :: bool
  rq_host :: string
  rq_dial :: "string list"
  rq_port :: "nat option"
  rq_path :: string
  rq_method :: string
  rq_headers :: "(string \<times> string) list"
  rq_body :: "string option"
  rq_timeout :: int

record fetch_response =
  fr_ok :: bool
  fr_status :: nat
  fr_text :: string

type_synonym net = "http_request \<Rightarrow> string + (nat \<times> string)"

definition default_timeout :: int where
  "default_timeout = 10000"

definition managed_headers :: "string list" where
  "managed_headers =
     [''host'', ''content-length'', ''transfer-encoding'', ''connection'', ''expect'', ''upgrade'']"

text \<open>What the socket's \<open>lookup\<close> is asked for: a family (anything but 4 and 6 is any) and all or one.\<close>

record lookup_options =
  lo_family :: nat
  lo_all :: bool

definition address_family :: "string \<Rightarrow> nat" where
  "address_family a = (if str_includes a '':'' then 6 else 4)"

definition pinned_lookup :: "string list \<Rightarrow> string \<Rightarrow> lookup_options \<Rightarrow> string + (string \<times> nat) list" where
  "pinned_lookup addresses hostname options =
     (let entries = map (\<lambda>a. (a, address_family a)) addresses;
          wanted = (if lo_family options = 4 \<or> lo_family options = 6 then lo_family options else 0);
          usable = filter (\<lambda>e. wanted = 0 \<or> snd e = wanted) entries
      in if length usable = 0 then Inl (''No vetted address for '' @ hostname)
         else if lo_all options then Inr usable
         else Inr [hd usable])"

lemma pinned_from:
  assumes "pinned_lookup addresses hostname options = Inr es"
  shows "set (map fst es) \<subseteq> set addresses"
proof -
  define usable where "usable = filter (\<lambda>e. (if lo_family options = 4 \<or> lo_family options = 6
    then lo_family options else 0) = 0 \<or> snd e = (if lo_family options = 4 \<or> lo_family options = 6
    then lo_family options else 0)) (map (\<lambda>a. (a, address_family a)) addresses)"
  have "usable \<noteq> []" "es = usable \<or> es = [hd usable]"
    using assms unfolding pinned_lookup_def Let_def usable_def [symmetric] by (auto split: if_splits)
  then have "set es \<subseteq> set usable" by auto
  moreover have "set (map fst usable) \<subseteq> set addresses" by (auto simp: usable_def)
  ultimately show ?thesis by auto
qed

text \<open>
  The addresses the socket may dial. Node does not look an IP literal up; for a name it calls the
  \<open>lookup\<close> of the options instead of DNS.
\<close>

definition dial_addresses :: "lookup_options \<Rightarrow> safe_target \<Rightarrow> string + string list" where
  "dial_addresses opts tgt =
     (if is_ip (st_hostname tgt) \<noteq> 0 then Inr [st_hostname tgt]
      else map_sum id (map fst) (pinned_lookup (st_addresses tgt) (st_hostname tgt) opts))"

definition build_request :: "safe_target \<Rightarrow> fetch_init \<Rightarrow> string list \<Rightarrow> http_request" where
  "build_request tgt init dial =
     \<lparr>rq_https = (url_protocol (st_url tgt) = ''https:''),
      rq_host = st_hostname tgt,
      rq_dial = dial,
      rq_port = (if url_port (st_url tgt) = [] then None else Some (nat_of_digits (url_port (st_url tgt)))),
      rq_path = url_pathname (st_url tgt) @ url_search (st_url tgt),
      rq_method = fi_method init,
      rq_headers = filter (\<lambda>h. lower (fst h) \<notin> set managed_headers) (fi_headers init),
      rq_body = fi_body init,
      rq_timeout = the_or default_timeout (fi_timeout init)\<rparr>"

definition send_request ::
  "net \<Rightarrow> lookup_options \<Rightarrow> safe_target \<Rightarrow> fetch_init \<Rightarrow>
   (channel_error + fetch_response) \<times> http_request list" where
  "send_request net opts tgt init =
     (case dial_addresses opts tgt of
        Inl e \<Rightarrow> (Inl (OtherFailure e), [])
      | Inr dial \<Rightarrow>
          (let rq = build_request tgt init dial in
           (case net rq of
              Inl e \<Rightarrow> Inl (OtherFailure e)
            | Inr (status, txt) \<Rightarrow>
                Inr \<lparr>fr_ok = (status \<ge> 200 \<and> status < 300), fr_status = status, fr_text = txt\<rparr>,
            [rq])))"

definition safe_fetch ::
  "(string \<Rightarrow> channel_error + safe_target) \<Rightarrow> net \<Rightarrow> lookup_options \<Rightarrow> string \<Rightarrow> fetch_init \<Rightarrow>
   (channel_error + fetch_response) \<times> http_request list" where
  "safe_fetch resolve net opts raw init =
     (case resolve raw of
        Inl e \<Rightarrow> (Inl e, [])
      | Inr tgt \<Rightarrow> send_request net opts tgt init)"

section \<open>What the sender relies on\<close>

text \<open>
  The contract of the guard: a target it hands out has an address, none of its addresses is
  blocked, and an IP literal is its own and only address. Everything below follows from it
  alone, so it holds for any guard that keeps the contract, the one of the tests included.
\<close>

locale guard_contract =
  fixes resolve :: "string \<Rightarrow> channel_error + safe_target"
    and blocked :: "string \<Rightarrow> bool"
  assumes vetted: "resolve raw = Inr tgt \<Longrightarrow> a \<in> set (st_addresses tgt) \<Longrightarrow> \<not> blocked a"
    and some_address: "resolve raw = Inr tgt \<Longrightarrow> st_addresses tgt \<noteq> []"
    and literal: "resolve raw = Inr tgt \<Longrightarrow> is_ip (st_hostname tgt) \<noteq> 0 \<Longrightarrow>
      st_addresses tgt = [st_hostname tgt]"
begin

lemma dialled_is_vetted:
  assumes "resolve raw = Inr tgt" and "dial_addresses opts tgt = Inr dial" and "a \<in> set dial"
  shows "a \<in> set (st_addresses tgt)"
proof (cases "is_ip (st_hostname tgt) \<noteq> 0")
  case True
  then show ?thesis using assms literal [OF assms(1) True] by (simp add: dial_addresses_def)
next
  case False
  then obtain es where es: "pinned_lookup (st_addresses tgt) (st_hostname tgt) opts = Inr es"
    and dial: "dial = map fst es"
    using assms(2) by (cases "pinned_lookup (st_addresses tgt) (st_hostname tgt) opts")
      (auto simp: dial_addresses_def)
  from pinned_from [OF es] show ?thesis using dial assms(3) by auto
qed

lemma only_vetted_dialled:
  assumes "rq \<in> set (snd (safe_fetch resolve net opts raw init))" and "a \<in> set (rq_dial rq)"
  shows "\<not> blocked a"
proof -
  from assms(1) obtain tgt dial where t: "resolve raw = Inr tgt" "dial_addresses opts tgt = Inr dial"
    and rq: "rq = build_request tgt init dial"
    by (auto simp: safe_fetch_def send_request_def Let_def split: sum.splits)
  have "a \<in> set dial" using assms(2) rq by (simp add: build_request_def)
  then show ?thesis using dialled_is_vetted [OF t] vetted [OF t(1)] by blast
qed

lemma refused_sends_nothing:
  "resolve raw = Inl e \<Longrightarrow> safe_fetch resolve net opts raw init = (Inl e, [])"
  by (simp add: safe_fetch_def)

end

text \<open>The guard of \<open>url-guard.ts\<close> keeps the contract.\<close>

definition guarded :: "(string \<Rightarrow> url option) \<Rightarrow> guard_env \<Rightarrow> string \<Rightarrow> channel_error + safe_target" where
  "guarded parse_url G raw = resolve_safe_target parse_url G (default_deps G) raw"

lemma guarded_target:
  assumes "guarded parse_url G raw = Inr tgt"
  shows "st_addresses tgt \<noteq> []"
    and "a \<in> set (st_addresses tgt) \<Longrightarrow> \<not> is_blocked_address (env_nat64_prefixes G) a"
    and "is_ip (st_hostname tgt) \<noteq> 0 \<Longrightarrow> st_addresses tgt = [st_hostname tgt]"
  using assms unfolding guarded_def
  by (auto elim!: resolved_elim simp: default_deps_def list_all_iff)

interpretation guard: guard_contract "guarded parse_url G" "is_blocked_address (env_nat64_prefixes G)"
  for parse_url G
  by unfold_locales (simp_all add: guarded_target)

section \<open>Nothing internal is ever dialled\<close>

text \<open>C30: no request ever goes to an internal address, not even when DNS changes its answer between
  the check and the connection. Whatever the URL, the guard configuration, the answers of DNS and
  the options the socket looks up with: every address offered to the socket of every request
  \<open>safeFetch\<close> makes is unblocked, no request names a header the HTTP client manages itself, and
  when the guard refuses, nothing is sent.\<close>

theorem safe_fetch_never_dials_blocked:
  "list_all (\<lambda>rq. list_all (\<lambda>a. \<not> is_blocked_address (env_nat64_prefixes G) a) (rq_dial rq)
        \<and> list_all (\<lambda>h. lower (fst h) \<notin> set managed_headers) (rq_headers rq))
     (snd (safe_fetch (guarded parse_url G) net opts raw init))
   \<and> length (snd (safe_fetch (guarded parse_url G) net opts raw init)) \<le> 1
   \<and> (case guarded parse_url G raw of
        Inl e \<Rightarrow> safe_fetch (guarded parse_url G) net opts raw init = (Inl e, [])
      | Inr tgt \<Rightarrow> True)"
proof -
  have "list_all (\<lambda>rq. list_all (\<lambda>a. \<not> is_blocked_address (env_nat64_prefixes G) a) (rq_dial rq))
     (snd (safe_fetch (guarded parse_url G) net opts raw init))"
    using guard.only_vetted_dialled by (auto simp: list_all_iff)
  moreover have "list_all (\<lambda>rq. list_all (\<lambda>h. lower (fst h) \<notin> set managed_headers) (rq_headers rq))
     (snd (safe_fetch (guarded parse_url G) net opts raw init))"
    by (auto simp: list_all_iff safe_fetch_def send_request_def build_request_def Let_def split: sum.splits)
  moreover have "length (snd (safe_fetch (guarded parse_url G) net opts raw init)) \<le> 1"
    by (auto simp: safe_fetch_def send_request_def Let_def split: sum.splits)
  ultimately show ?thesis
    using guard.refused_sends_nothing [of parse_url G raw]
    by (auto simp: list_all_iff split: sum.splits)
qed

end
