(* ===== verification/Dispatcher.thy ===== *)
theory Dispatcher imports Subscriptions SafeFetch begin

text \<open>
  \<open>services/notification/notification-dispatcher.ts\<close> and its channels (\<open>webhook.ts\<close>,
  \<open>msteams.ts\<close>, \<open>email.ts\<close>): the payloads, the retries and the fan-out. The guard's DNS and the
  network are the environment's, per subscription and attempt, so they may answer differently
  every time; HMAC-SHA256 is \<open>de_hmac\<close>.
\<close>

section \<open>Payloads\<close>

record incident_info =
  in_id :: ident
  in_rule :: ident
  in_team :: ident
  in_severity :: string
  in_status :: string
  in_message :: string
  in_created :: string

record dispatch_env =
  de_lib :: js_lib
  de_url :: "string \<Rightarrow> url option"
  de_guard :: "ident \<Rightarrow> nat \<Rightarrow> guard_env"
  de_net :: "ident \<Rightarrow> nat \<Rightarrow> net"
  de_opts :: lookup_options
  de_hmac :: "string \<Rightarrow> string \<Rightarrow> string"

definition webhook_payload :: "incident_info \<Rightarrow> json" where
  "webhook_payload i = JObj
     [(''incidentId'', JStr (in_id i)), (''ruleId'', JStr (in_rule i)),
      (''severity'', JStr (in_severity i)), (''status'', JStr (in_status i)),
      (''message'', JStr (in_message i)), (''createdAt'', JStr (in_created i))]"

definition severity_color :: "string \<Rightarrow> string" where
  "severity_color s =
     (if s = ''CRITICAL'' then ''attention'' else if s = ''HIGH'' then ''warning''
      else if s = ''MEDIUM'' then ''accent'' else if s = ''LOW'' then ''good'' else ''default'')"

definition fact :: "string \<Rightarrow> string \<Rightarrow> json" where
  "fact title value = JObj [(''title'', JStr title), (''value'', JStr value)]"

definition msteams_payload :: "incident_info \<Rightarrow> json" where
  "msteams_payload i = JObj
     [(''type'', JStr ''message''),
      (''attachments'', JArr [JObj
        [(''contentType'', JStr ''application/vnd.microsoft.card.adaptive''),
         (''content'', JObj
           [(''$schema'', JStr ''http://adaptivecards.io/schemas/adaptive-card.json''),
            (''type'', JStr ''AdaptiveCard''),
            (''version'', JStr ''1.4''),
            (''body'', JArr
              [JObj [(''type'', JStr ''TextBlock''), (''size'', JStr ''medium''),
                     (''weight'', JStr ''bolder''), (''text'', JStr (in_severity i @ '' Alert'')),
                     (''color'', JStr (severity_color (in_severity i)))],
               JObj [(''type'', JStr ''TextBlock''), (''text'', JStr (in_message i)),
                     (''wrap'', JBool True)],
               JObj [(''type'', JStr ''FactSet''),
                     (''facts'', JArr [fact ''Incident'' (in_id i), fact ''Status'' (in_status i),
                                       fact ''Severity'' (in_severity i), fact ''Time'' (in_created i)])]])])]])]"

definition severity_emoji :: "string \<Rightarrow> string" where
  "severity_emoji s =
     (if s = ''CRITICAL'' then '':red_circle:'' else if s = ''HIGH'' then '':large_orange_circle:''
      else if s = ''MEDIUM'' then '':large_yellow_circle:'' else if s = ''LOW'' then '':large_blue_circle:''
      else '':warning:'')"

definition mrkdwn :: "string \<Rightarrow> json" where
  "mrkdwn s = JObj [(''type'', JStr ''mrkdwn''), (''text'', JStr s)]"

definition slack_payload :: "incident_info \<Rightarrow> json" where
  "slack_payload i = JObj
     [(''blocks'', JArr
        [JObj [(''type'', JStr ''section''),
               (''text'', mrkdwn (severity_emoji (in_severity i) @ '' *'' @ in_severity i @ '' Alert*'' @
                                  [CHR 10] @ in_message i))],
         JObj [(''type'', JStr ''context''),
               (''elements'', JArr [mrkdwn (''Incident '' @ [CHR 96] @ in_id i @ [CHR 96] @
                  '' | Status: *'' @ in_status i @ ''* | '' @ in_created i)])]])]"

section \<open>Configuration values\<close>

text \<open>
  The configuration is whatever JSON object the subscriber stored. A value is used when it is
  truthy, and a URL that is not a string is turned into one by \<open>new URL\<close>.
\<close>

definition truthy_json :: "json option \<Rightarrow> bool" where
  "truthy_json v =
     (case v of
        None \<Rightarrow> False
      | Some JNull \<Rightarrow> False
      | Some (JBool b) \<Rightarrow> b
      | Some (JNum n) \<Rightarrow> n \<noteq> Fin 0 \<and> n \<noteq> NaN
      | Some (JStr s) \<Rightarrow> s \<noteq> []
      | Some (JArr vs) \<Rightarrow> True
      | Some (JObj kvs) \<Rightarrow> True)"

fun to_text :: "js_lib \<Rightarrow> json \<Rightarrow> string" where
  "to_text L JNull = ''null''"
| "to_text L (JBool b) = (if b then ''true'' else ''false'')"
| "to_text L (JNum n) = num_str L n"
| "to_text L (JStr s) = s"
| "to_text L (JArr vs) = join '','' (map (\<lambda>v. if v = JNull then [] else to_text L v) vs)"
| "to_text L (JObj kvs) = ''[object Object]''"

definition config_url :: "js_lib \<Rightarrow> string \<Rightarrow> json \<Rightarrow> string option" where
  "config_url L key cfg =
     (if truthy_json (field key cfg) then Some (to_text L (the (field key cfg))) else None)"

section \<open>One attempt\<close>

type_synonym sent = "(channel_error + unit) \<times> http_request list"

definition post_json :: "(string \<times> string) list \<Rightarrow> string \<Rightarrow> fetch_init" where
  "post_json headers body =
     \<lparr>fi_method = ''POST'', fi_headers = (''Content-Type'', ''application/json'') # headers,
      fi_body = Some body, fi_timeout = None\<rparr>"

definition deliver :: "dispatch_env \<Rightarrow> ident \<Rightarrow> nat \<Rightarrow> (nat \<Rightarrow> string \<Rightarrow> channel_error) \<Rightarrow> string \<Rightarrow> fetch_init \<Rightarrow> sent" where
  "deliver E sub k http_error target init =
     (case safe_fetch (guarded (de_url E) (de_guard E sub k)) (de_net E sub k) (de_opts E) target init of
        (Inl e, rqs) \<Rightarrow> (Inl e, rqs)
      | (Inr res, rqs) \<Rightarrow>
          if \<not> fr_ok res then (Inl (http_error (fr_status res) (fr_text res)), rqs) else (Inr (), rqs))"

definition send_webhook ::
  "dispatch_env \<Rightarrow> ident \<Rightarrow> nat \<Rightarrow> string \<Rightarrow> incident_info \<Rightarrow> json option \<Rightarrow> sent" where
  "send_webhook E sub k target i secret =
     (let body = json_stringify (de_lib E) (webhook_payload i);
          post = deliver E sub k
            (\<lambda>st txt. ChannelHttpError (''Webhook failed: '' @ nat_str st @ '' '' @ txt) st txt) target
      in if truthy_json secret
         then (case secret of
                 Some (JStr s) \<Rightarrow>
                   post (post_json [(''X-Telerithm-Signature'', ''sha256='' @ de_hmac E s body)] body)
               | _ \<Rightarrow> (Inl (OtherFailure ''The key argument must be of type string''), []))
         else post (post_json [] body))"

definition send_slack :: "dispatch_env \<Rightarrow> ident \<Rightarrow> nat \<Rightarrow> string \<Rightarrow> incident_info \<Rightarrow> sent" where
  "send_slack E sub k target i =
     deliver E sub k (\<lambda>st txt. ChannelHttpError (''Slack webhook failed: '' @ nat_str st) st txt) target
       (post_json [] (json_stringify (de_lib E) (slack_payload i)))"

definition send_msteams :: "dispatch_env \<Rightarrow> ident \<Rightarrow> nat \<Rightarrow> string \<Rightarrow> incident_info \<Rightarrow> sent" where
  "send_msteams E sub k target i =
     deliver E sub k (\<lambda>st txt. ChannelHttpError (''MS Teams webhook failed: '' @ nat_str st) st txt) target
       (post_json [] (json_stringify (de_lib E) (msteams_payload i)))"

text \<open>No mail transport exists: \<open>sendEmail\<close> only logs, and never fails.\<close>

definition send_email :: "string \<Rightarrow> string \<Rightarrow> string \<Rightarrow> sent" where
  "send_email recipient subject body = (Inr (), [])"

definition email_body :: "incident_info \<Rightarrow> string" where
  "email_body i = join [CHR 10]
     [''Incident: '' @ in_id i, ''Severity: '' @ in_severity i, ''Status: '' @ in_status i,
      ''Message: '' @ in_message i, ''Time: '' @ in_created i]"

definition attempt :: "dispatch_env \<Rightarrow> sub_row \<Rightarrow> string \<Rightarrow> incident_info \<Rightarrow> nat \<Rightarrow> sent" where
  "attempt E s user_email i k =
     (case sub_channel s of
        Webhook \<Rightarrow>
          (case config_url (de_lib E) ''url'' (sub_config s) of
             None \<Rightarrow> (Inl (ChannelConfigError ''Webhook URL not configured''), [])
           | Some target \<Rightarrow> send_webhook E (sub_id s) k target i (field ''secret'' (sub_config s)))
      | Email \<Rightarrow>
          send_email (case field ''email'' (sub_config s) of
                        None \<Rightarrow> user_email | Some JNull \<Rightarrow> user_email | Some v \<Rightarrow> to_text (de_lib E) v)
            (''[Telerithm] '' @ in_severity i @ '' Alert: '' @ take 80 (in_message i)) (email_body i)
      | Slack \<Rightarrow>
          (case config_url (de_lib E) ''webhook_url'' (sub_config s) of
             None \<Rightarrow> (Inl (ChannelConfigError ''Slack webhook URL not configured''), [])
           | Some target \<Rightarrow> send_slack E (sub_id s) k target i)
      | MsTeams \<Rightarrow>
          (case config_url (de_lib E) ''webhook_url'' (sub_config s) of
             None \<Rightarrow> (Inl (ChannelConfigError ''MS Teams webhook URL not configured''), [])
           | Some target \<Rightarrow> send_msteams E (sub_id s) k target i))"

section \<open>Retries\<close>

definition max_retries :: nat where
  "max_retries = 3"

text \<open>
  The loop over \<open>attempt\<close>, with the attempts left as its measure. The result carries the requests
  sent and the delays waited, in milliseconds.
\<close>

fun attempts_from :: "(nat \<Rightarrow> sent) \<Rightarrow> nat \<Rightarrow> nat \<Rightarrow> sent \<times> nat list" where
  "attempts_from f k 0 = ((Inr (), []), [])"
| "attempts_from f k (Suc left) =
     (case f k of
        (Inr u, rqs) \<Rightarrow> ((Inr u, rqs), [])
      | (Inl e, rqs) \<Rightarrow>
          if left = 0 then ((Inl e, rqs), [])
          else (case attempts_from f (Suc k) left of
                  ((r, later), delays) \<Rightarrow> ((r, rqs @ later), (2 ^ k * 500) # delays)))"

definition send_with_retry :: "dispatch_env \<Rightarrow> sub_row \<Rightarrow> string \<Rightarrow> incident_info \<Rightarrow> sent \<times> nat list" where
  "send_with_retry E s user_email i = attempts_from (attempt E s user_email i) 1 max_retries"

definition dispatch_to_subscription :: "dispatch_env \<Rightarrow> sub_row \<Rightarrow> string \<Rightarrow> incident_info \<Rightarrow> sent" where
  "dispatch_to_subscription E s user_email i = fst (send_with_retry E s user_email i)"

text \<open>
  The fan-out. Every subscriber is served on its own; a failure after the last retry is logged
  and goes no further, so the outcome of each is reported here but \<open>dispatch\<close> itself succeeds.
\<close>

definition email_of :: "db \<Rightarrow> ident \<Rightarrow> string" where
  "email_of d u = (case user_by_id d u of None \<Rightarrow> [] | Some r \<Rightarrow> u_email r)"

definition dispatch :: "dispatch_env \<Rightarrow> incident_info \<Rightarrow> db \<Rightarrow> (ident \<times> sent) list" where
  "dispatch E i d =
     map (\<lambda>s. (sub_id s, fst (send_with_retry E s (email_of d (sub_user s)) i)))
       (find_for_incident (in_rule i) (in_team i) (in_severity i) d)"


section \<open>Facts\<close>

lemma attempts_requests:
  assumes "\<And>j. k \<le> j \<Longrightarrow> j < k + n \<Longrightarrow> list_all (P j) (snd (f j)) \<and> length (snd (f j)) \<le> 1"
  shows "list_all (\<lambda>rq. list_ex (\<lambda>j. P j rq) [k ..< k + n]) (snd (fst (attempts_from f k n)))
    \<and> length (snd (fst (attempts_from f k n))) \<le> n"
  using assms
proof (induction f k n rule: attempts_from.induct)
  case (2 f k left)
  have up: "[k ..< Suc (k + left)] = k # [Suc k ..< Suc (k + left)]"
    by (simp add: upt_conv_Cons del: upt_Suc)
  have here: "list_all (P k) (snd (f k)) \<and> length (snd (f k)) \<le> 1" using 2(2) [of k] by simp
  obtain r rqs where fk: "f k = (r, rqs)" by fastforce
  show ?case
  proof (cases r)
    case (Inr u)
    then show ?thesis using fk here by (simp add: up list_all_iff del: upt_Suc)
  next
    case (Inl e)
    obtain r' later ds where rest: "attempts_from f (Suc k) left = ((r', later), ds)"
      by (metis surj_pair)
    show ?thesis
    proof (cases "left = 0")
      case True
      then show ?thesis using fk here Inl by (auto simp: list_all_iff)
    next
      case False
      have "list_all (\<lambda>rq. list_ex (\<lambda>j. P j rq) [Suc k ..< Suc k + left]) later \<and> length later \<le> left"
        using 2(1) [OF fk [symmetric] Inl False] 2(2) rest by simp
      then show ?thesis using fk here Inl False rest by (auto simp: up list_all_iff simp del: upt_Suc)
    qed
  qed
qed simp

definition safe_request :: "dispatch_env \<Rightarrow> ident \<Rightarrow> nat \<Rightarrow> http_request \<Rightarrow> bool" where
  "safe_request E sub k rq \<longleftrightarrow>
     list_all (\<lambda>a. \<not> is_blocked_address (env_nat64_prefixes (de_guard E sub k)) a) (rq_dial rq)"

definition sends_ok :: "dispatch_env \<Rightarrow> ident \<Rightarrow> nat \<Rightarrow> sent \<Rightarrow> bool" where
  "sends_ok E sub k x \<longleftrightarrow> list_all (safe_request E sub k) (snd x) \<and> length (snd x) \<le> 1"

lemma sends_ok_none [simp]: "sends_ok E sub k (r, [])"
  by (simp add: sends_ok_def)

lemma sends_ok_deliver [simp]: "sends_ok E sub k (deliver E sub k h target init)"
proof -
  have "snd (deliver E sub k h target init) =
    snd (safe_fetch (guarded (de_url E) (de_guard E sub k)) (de_net E sub k) (de_opts E) target init)"
    by (auto simp: deliver_def split: prod.splits sum.splits)
  then show ?thesis
    using guard.only_vetted_dialled [of _ "de_url E" "de_guard E sub k" "de_net E sub k" "de_opts E" target init]
    by (auto simp: sends_ok_def safe_request_def list_all_iff safe_fetch_def send_request_def Let_def
        split: sum.splits)
qed

lemma sends_ok_webhook [simp]: "sends_ok E sub k (send_webhook E sub k target i secret)"
  unfolding send_webhook_def Let_def
  by (cases "truthy_json secret"; cases secret; cases "the secret") simp_all

lemma attempt_requests: "sends_ok E (sub_id s) k (attempt E s u i k)"
  unfolding attempt_def send_slack_def send_msteams_def send_email_def
  by (cases "sub_channel s") (simp_all split: option.split)

lemma retry_requests:
  "list_all (\<lambda>rq. list_ex (\<lambda>k. safe_request E (sub_id s) k rq) [1 ..< 4])
      (snd (fst (send_with_retry E s u i))) \<and> length (snd (fst (send_with_retry E s u i))) \<le> 3"
  using attempts_requests [of 1 max_retries "safe_request E (sub_id s)" "attempt E s u i"]
    attempt_requests [of E s _ u i]
  by (simp add: send_with_retry_def max_retries_def sends_ok_def)

text \<open>C31: notifying about an incident is bounded, contained and safe. Exactly the enabled
  subscriptions of the incident's team that are for its rule or for all rules, and for its
  severity or for all severities, are served; each sends at most three requests, whatever the
  network does; and every address any of them may connect to was unblocked under the guard of
  one of the three attempts.\<close>

theorem dispatch_is_bounded_and_safe:
  "map fst (dispatch E i d) = map sub_id (filter (\<lambda>s. sub_team s = in_team i \<and> sub_enabled s
       \<and> (sub_rule s = Some (in_rule i) \<or> sub_rule s = None)
       \<and> (sub_severities s = [] \<or> in_severity i \<in> set (sub_severities s))) (db_subs d))
   \<and> list_all (\<lambda>(sub, result, rqs). length rqs \<le> 3 \<and> list_all (\<lambda>rq. list_ex (\<lambda>k.
          list_all (\<lambda>a. \<not> is_blocked_address (env_nat64_prefixes (de_guard E sub k)) a) (rq_dial rq))
        [1 ..< 4]) rqs)
      (dispatch E i d)"
proof -
  note one = retry_requests [of E _ _ i]
  have "list_all (\<lambda>(sub, result, rqs). length rqs \<le> 3 \<and> list_all (\<lambda>rq. list_ex (\<lambda>k.
          list_all (\<lambda>a. \<not> is_blocked_address (env_nat64_prefixes (de_guard E sub k)) a) (rq_dial rq))
        [1 ..< 4]) rqs) (dispatch E i d)"
    using one unfolding safe_request_def by (simp add: dispatch_def list_all_iff case_prod_beta)
  moreover have "for_incident (in_rule i) (in_team i) (in_severity i) = (\<lambda>s. sub_team s = in_team i \<and> sub_enabled s
       \<and> (sub_rule s = Some (in_rule i) \<or> sub_rule s = None)
       \<and> (sub_severities s = [] \<or> in_severity i \<in> set (sub_severities s)))"
    by (rule ext) (simp add: for_incident_def)
  ultimately show ?thesis
    by (simp add: dispatch_def find_for_incident_def o_def)
qed

text \<open>The retry policy. A send is tried until it succeeds, three times at most, waiting one and
  then two seconds; success after a failed attempt is a success; after three failures the error
  of the last attempt is what the caller sees.\<close>

theorem retry_policy:
  "send_with_retry E s u i =
     (let a = attempt E s u i in
      case a 1 of
        (Inr _, r1) \<Rightarrow> ((Inr (), r1), [])
      | (Inl e1, r1) \<Rightarrow>
          (case a 2 of
             (Inr _, r2) \<Rightarrow> ((Inr (), r1 @ r2), [1000])
           | (Inl e2, r2) \<Rightarrow> (case a 3 of (res, r3) \<Rightarrow> ((res, r1 @ r2 @ r3), [1000, 2000]))))"
proof -
  have n: "attempts_from f 1 3 = attempts_from f 1 (Suc (Suc (Suc 0)))" for f
    by (simp add: numeral_3_eq_3)
  show ?thesis
    unfolding send_with_retry_def max_retries_def n
    by (auto simp: Let_def numeral_2_eq_2 numeral_3_eq_3 split: prod.splits sum.splits)
qed

end
