(* ===== verification/Issues.thy ===== *)
theory Issues imports Database begin

text \<open>
  Error grouping: \<open>services/ingestion/fingerprint.ts\<close> (which messages count as the same error),
  \<open>services/query/pattern-normalizer.ts\<close> (the signature shown for a log pattern) and
  \<open>services/issue/issue-service.ts\<close> (the issues table). SHA-256 is a parameter (\<open>sha\<close>, the hex
  digest of \<open>node:crypto\<close>), as are the database's case-insensitive \<open>contains\<close> and its text order.
\<close>

section \<open>Message normalisation\<close>

definition dashed_uuid :: re where
  "dashed_uuid = seqs [rtimes 8 hex, chr CHR ''-'', rtimes 4 hex, chr CHR ''-'', rtimes 4 hex,
     chr CHR ''-'', rtimes 4 hex, chr CHR ''-'', rtimes 12 hex]"

definition date_time_re :: re where
  "date_time_re = seqs [rtimes 4 digit, chr CHR ''-'', rtimes 2 digit, chr CHR ''-'', rtimes 2 digit,
     oneof ''T '', rtimes 2 digit, chr CHR '':'', rtimes 2 digit, chr CHR '':'', rtimes 2 digit]"

definition hex_re :: re where
  "hex_re = seqs [WordB, chr CHR ''0'', oneof ''xX'', plus hex, WordB]"

definition number_re :: re where
  "number_re = seqs [WordB, plus digit, WordB]"

definition ip_re :: re where
  "ip_re = seqs [WordB, rep 1 3 digit, chr CHR ''.'', rep 1 3 digit, chr CHR ''.'', rep 1 3 digit,
     chr CHR ''.'', rep 1 3 digit, WordB]"

definition timestamp_re :: re where
  "timestamp_re = seqs [date_time_re, Star (Cls (\<lambda>c. c \<in> set ''.Z+:-'' \<or> is_digit c))]"

definition file_line_re :: re where
  "file_line_re = seqs [Cls (\<lambda>c. code c = 47 \<or> code c = 92),
     plus (Cls (\<lambda>c. is_word c \<or> c \<in> set ''./-'')), chr CHR '':'', plus digit]"

definition normalize_message :: "string \<Rightarrow> string" where
  "normalize_message message =
     trim (replace_all number_re ''<N>''
      (replace_all file_line_re ''<PATH>''
       (replace_all hex_re ''<HEX>''
        (replace_all ip_re ''<IP>''
         (replace_all timestamp_re ''<TS>''
          (replace_all dashed_uuid ''<UUID>'' message))))))"

definition compute_fingerprint ::
  "(string \<Rightarrow> string) \<Rightarrow> string \<Rightarrow> string \<Rightarrow> string \<Rightarrow> string" where
  "compute_fingerprint sha level service message =
     (let normalized = normalize_message message;
          input = level @ ''|'' @ service @ ''|'' @ normalized
      in take 16 (sha input))"

section \<open>Pattern signatures\<close>

definition word_uuid_re :: re where
  "word_uuid_re = seqs [WordB, dashed_uuid, WordB]"

definition word_timestamp_re :: re where
  "word_timestamp_re = seqs [WordB, date_time_re,
     opt (seqs [oneof ''.,'', plus digit]),
     opt (alts [chr CHR ''Z'', seqs [oneof ''+-'', rtimes 2 digit, chr CHR '':'', rtimes 2 digit]]),
     WordB]"

definition quoted_re :: re where
  "quoted_re = alts
     [seqs [Cls (\<lambda>c. code c = 34), Star (Cls (\<lambda>c. code c \<noteq> 34)), Cls (\<lambda>c. code c = 34)],
      seqs [Cls (\<lambda>c. code c = 39), Star (Cls (\<lambda>c. code c \<noteq> 39)), Cls (\<lambda>c. code c = 39)]]"

definition id_re :: re where
  "id_re = seqs [WordB, Cls (\<lambda>c. is_lower c \<or> is_upper c \<or> c = CHR ''_''),
     Star (Cls (\<lambda>c. is_word c \<or> c = CHR ''-'')), plus digit,
     Star (Cls (\<lambda>c. is_word c \<or> c = CHR ''-'')), WordB]"

definition space_re :: re where
  "space_re = plus space"

definition normalize_pattern_message :: "string \<Rightarrow> string" where
  "normalize_pattern_message message =
     lower (trim (replace_all space_re '' ''
      (replace_all number_re ''<N>''
       (replace_all id_re ''<ID>''
        (replace_all hex_re ''<HEX>''
         (replace_all quoted_re ''<QUOTED>''
          (replace_all word_timestamp_re ''<TS>''
           (replace_all word_uuid_re ''<UUID>'' message))))))))"

section \<open>The issue service\<close>

text \<open>
  \<open>trackError\<close> is an upsert on the unique pair of team and fingerprint. The \<open>catch\<close> around it
  only logs, so tracking has no result.
\<close>

definition track_error ::
  "(string \<Rightarrow> string) \<Rightarrow> clock \<Rightarrow> ident \<Rightarrow> string \<Rightarrow> string \<Rightarrow> string \<Rightarrow> db \<Rightarrow> db" where
  "track_error sha C team level service message d =
     (let fingerprint = compute_fingerprint sha level service message;
          title = take 200 (normalize_message message);
          here = (\<lambda>i. iss_team i = team \<and> iss_fp i = fingerprint)
      in if exists_row here (db_issues d)
         then d\<lparr>db_issues := update_first here
                 (\<lambda>i. i\<lparr>iss_last := now C, iss_count := iss_count i + 1, iss_status := Ongoing\<rparr>)
                 (db_issues d)\<rparr>
         else d\<lparr>db_issues := db_issues d @
                 [\<lparr>iss_id = uuid C, iss_team = team, iss_fp = fingerprint, iss_title = title,
                   iss_level = level, iss_service = service, iss_status = New,
                   iss_first = now C, iss_last = now C, iss_count = 1, iss_assignee = None\<rparr>]\<rparr>)"

datatype issue_sort = ByLastSeen | ByFirstSeen | ByEventCount | ByService | ByLevel | ByStatus

record issue_filters =
  q_query :: "string option"
  q_status :: "issue_status option"
  q_service :: "string option"
  q_level :: "string option"

text \<open>
  An optional text filter applies when it is truthy: present and not empty.
\<close>

definition truthy :: "string option \<Rightarrow> bool" where
  "truthy s = (case s of None \<Rightarrow> False | Some t \<Rightarrow> t \<noteq> [])"

fun issue_status_rank :: "issue_status \<Rightarrow> int" where
  "issue_status_rank New = 0"
| "issue_status_rank Ongoing = 1"
| "issue_status_rank IssResolved = 2"
| "issue_status_rank Ignored = 3"

fun issue_sort_key :: "(string \<Rightarrow> int) \<Rightarrow> issue_sort \<Rightarrow> issue_row \<Rightarrow> int" where
  "issue_sort_key rank ByLastSeen i = iss_last i"
| "issue_sort_key rank ByFirstSeen i = iss_first i"
| "issue_sort_key rank ByEventCount i = iss_count i"
| "issue_sort_key rank ByService i = rank (iss_service i)"
| "issue_sort_key rank ByLevel i = rank (iss_level i)"
| "issue_sort_key rank ByStatus i = issue_status_rank (iss_status i)"

definition issue_where ::
  "(string \<Rightarrow> string \<Rightarrow> bool) \<Rightarrow> ident \<Rightarrow> issue_filters \<Rightarrow> issue_row \<Rightarrow> bool" where
  "issue_where contains team q i \<longleftrightarrow>
     iss_team i = team
     \<and> (truthy (q_query q) \<longrightarrow> contains (iss_title i) (the (q_query q)))
     \<and> (case q_status q of None \<Rightarrow> True | Some s \<Rightarrow> iss_status i = s)
     \<and> (truthy (q_service q) \<longrightarrow> contains (iss_service i) (the (q_service q)))
     \<and> (truthy (q_level q) \<longrightarrow> iss_level i = the (q_level q))"

definition list_issues ::
  "(string \<Rightarrow> string \<Rightarrow> bool) \<Rightarrow> (string \<Rightarrow> int) \<Rightarrow> ident \<Rightarrow> issue_filters \<Rightarrow>
   issue_sort option \<Rightarrow> bool option \<Rightarrow> nat \<Rightarrow> nat \<Rightarrow> db \<Rightarrow> issue_row list \<times> nat" where
  "list_issues contains rank team q sort_by ascending limit offset d =
     (let found = filter (issue_where contains team q) (db_issues d);
          key = issue_sort_key rank (the_or ByLastSeen sort_by);
          ordered = (if the_or False ascending then sort_key key found
                     else sort_key (\<lambda>i. - key i) found)
      in (take limit (drop offset ordered), length found))"

definition issue_by_id :: "ident \<Rightarrow> db \<Rightarrow> issue_row option" where
  "issue_by_id i d = List.find (\<lambda>r. iss_id r = i) (db_issues d)"

definition update_issue ::
  "ident \<Rightarrow> (issue_row \<Rightarrow> issue_row) \<Rightarrow> db \<Rightarrow> (error + issue_row) \<times> db" where
  "update_issue i f d =
     (case issue_by_id i d of
        None \<Rightarrow> (Inl RecordNotFound, d)
      | Some r \<Rightarrow> (Inr (f r), d\<lparr>db_issues := update_first (\<lambda>r. iss_id r = i) f (db_issues d)\<rparr>))"

definition update_issue_status ::
  "ident \<Rightarrow> issue_status \<Rightarrow> db \<Rightarrow> (error + issue_row) \<times> db" where
  "update_issue_status i s d = update_issue i (\<lambda>r. r\<lparr>iss_status := s\<rparr>) d"

definition assign_issue ::
  "ident \<Rightarrow> ident option \<Rightarrow> db \<Rightarrow> (error + issue_row) \<times> db" where
  "assign_issue i a d = update_issue i (\<lambda>r. r\<lparr>iss_assignee := a\<rparr>) d"

section \<open>Counting the events of a group\<close>

definition issue_key :: "issue_row \<Rightarrow> ident \<times> string" where
  "issue_key i = (iss_team i, iss_fp i)"

definition group_events :: "db \<Rightarrow> ident \<times> string \<Rightarrow> int" where
  "group_events d k = sum_list (map iss_count (filter (\<lambda>i. issue_key i = k) (db_issues d)))"

text \<open>The unique constraint \<open>@@unique([teamId, fingerprint])\<close>.\<close>

definition issues_unique :: "db \<Rightarrow> bool" where
  "issues_unique d \<longleftrightarrow> distinct (map issue_key (db_issues d))"

lemma track_error_keys:
  "map issue_key (db_issues (track_error sha C team l s m d)) =
     (let k = (team, compute_fingerprint sha l s m) in
      if k \<in> set (map issue_key (db_issues d)) then map issue_key (db_issues d)
      else map issue_key (db_issues d) @ [k])"
proof -
  have upd: "map issue_key (update_first P (\<lambda>i. i\<lparr>iss_last := a, iss_count := iss_count i + 1,
      iss_status := b\<rparr>) rs) = map issue_key rs" for P a b rs
    by (rule map_update_first_key) (simp add: issue_key_def)
  have ex: "(\<exists>i \<in> set (db_issues d). iss_team i = team \<and> iss_fp i = f)
      \<longleftrightarrow> (team, f) \<in> set (map issue_key (db_issues d))" for f
    by (auto simp: issue_key_def image_iff)
  show ?thesis
    by (simp add: track_error_def Let_def ex upd del: set_map) (simp add: issue_key_def)
qed

lemma count_update_first:
  assumes "\<exists>r \<in> set rs. P r" and "\<And>r. P r \<Longrightarrow> Q r" and "\<And>r. Q (f r) = Q r"
    and "\<And>r. w (f r) = w r + (1::int)"
  shows "sum_list (map w (filter Q (update_first P f rs))) = sum_list (map w (filter Q rs)) + 1"
  using assms by (induction rs) auto

lemma track_error_events:
  "group_events (track_error sha C team l s m d) k =
     group_events d k + (if k = (team, compute_fingerprint sha l s m) then 1 else 0)"
proof (cases "\<exists>i \<in> set (db_issues d). iss_team i = team \<and> iss_fp i = compute_fingerprint sha l s m")
  case True
  let ?P = "\<lambda>i. iss_team i = team \<and> iss_fp i = compute_fingerprint sha l s m"
  show ?thesis
  proof (cases "k = (team, compute_fingerprint sha l s m)")
    case k: True
    have "group_events (track_error sha C team l s m d) k
      = sum_list (map iss_count (filter (\<lambda>i. issue_key i = k) (update_first ?P
          (\<lambda>i. i\<lparr>iss_last := now C, iss_count := iss_count i + 1, iss_status := Ongoing\<rparr>) (db_issues d))))"
      using True by (simp add: group_events_def track_error_def Let_def)
    also have "\<dots> = group_events d k + 1"
      unfolding group_events_def using True k
      by (intro count_update_first) (auto simp: issue_key_def)
    finally show ?thesis using k by simp
  next
    case False
    have "filter (\<lambda>i. issue_key i = k) (update_first ?P
        (\<lambda>i. i\<lparr>iss_last := now C, iss_count := iss_count i + 1, iss_status := Ongoing\<rparr>) (db_issues d))
      = filter (\<lambda>i. issue_key i = k) (db_issues d)"
      by (rule filter_update_first_other) (use False in \<open>auto simp: issue_key_def\<close>)
    then have "group_events (track_error sha C team l s m d) k = group_events d k"
      using True by (simp add: group_events_def track_error_def Let_def)
    then show ?thesis using False by simp
  qed
next
  case False
  then show ?thesis by (auto simp: group_events_def track_error_def Let_def issue_key_def)
qed

text \<open>The errors of a batch, tracked one after the other.\<close>

fun track_all :: "(string \<Rightarrow> string) \<Rightarrow> (clock \<times> ident \<times> string \<times> string \<times> string) list \<Rightarrow> db \<Rightarrow> db" where
  "track_all sha [] d = d"
| "track_all sha ((C, team, l, s, m) # xs) d = track_all sha xs (track_error sha C team l s m d)"

fun tracked_key :: "(string \<Rightarrow> string) \<Rightarrow> clock \<times> ident \<times> string \<times> string \<times> string \<Rightarrow> ident \<times> string" where
  "tracked_key sha (C, team, l, s, m) = (team, compute_fingerprint sha l s m)"

lemma track_error_unique: "issues_unique d \<Longrightarrow> issues_unique (track_error sha C team l s m d)"
  unfolding issues_unique_def track_error_keys by (simp add: Let_def)

text \<open>error grouping counts every error exactly once. Starting from a table that satisfies the
  unique constraint, tracking any sequence of errors keeps one issue per team and fingerprint,
  and the event count of every group grows by exactly the number of tracked errors of that team
  with that fingerprint; no other group, and so no other team, is affected.\<close>

theorem tracking_counts_each_error_once:
  assumes "issues_unique d"
  shows "issues_unique (track_all sha xs d)
    \<and> group_events (track_all sha xs d) k
      = group_events d k + int (length (filter (\<lambda>x. tracked_key sha x = k) xs))"
  using assms
proof (induction sha xs d rule: track_all.induct)
  case (2 sha C team l s m xs d)
  from 2(1) [OF track_error_unique [OF 2(2)]] show ?case by (auto simp: track_error_events)
qed simp

definition empty_db :: db where
  "empty_db = \<lparr>db_users = [], db_sessions = [], db_teams = [], db_members = [], db_sources = [],
     db_rules = [], db_incidents = [], db_events = [], db_subs = [], db_issues = [],
     db_invites = [], db_windows = [], db_views = []\<rparr>"

theorem tracking_counts_each_error_once_witness:
  "group_events (track_all (\<lambda>s. s)
      [(\<lparr>now = 1, uuid = ''a''\<rparr>, ''t'', ''error'', ''api'', ''boom''),
       (\<lparr>now = 2, uuid = ''b''\<rparr>, ''u'', ''error'', ''api'', ''boom''),
       (\<lparr>now = 3, uuid = ''c''\<rparr>, ''t'', ''error'', ''api'', ''boom'')] empty_db)
     (''t'', compute_fingerprint (\<lambda>s. s) ''error'' ''api'' ''boom'') = 2"
  by (subst tracking_counts_each_error_once [THEN conjunct2])
    (simp_all add: issues_unique_def empty_db_def group_events_def)

text \<open>What a tracked error does to its own issue. The first one creates it as \<open>NEW\<close> with both
  timestamps now; any later one reports it \<open>ONGOING\<close>, whatever its status was (a resolved or an
  ignored issue comes back), moves \<open>lastSeen\<close> and leaves \<open>firstSeen\<close>, the title and the
  assignee alone.\<close>

theorem tracked_issue_after:
  "(let k = (\<lambda>i. iss_team i = team \<and> iss_fp i = compute_fingerprint sha l s m);
        d' = track_error sha C team l s m d
    in case List.find k (db_issues d) of
         None \<Rightarrow> (\<exists>i. List.find k (db_issues d') = Some i \<and> iss_status i = New \<and> iss_count i = 1
                    \<and> iss_first i = now C \<and> iss_last i = now C \<and> iss_assignee i = None)
       | Some i \<Rightarrow> List.find k (db_issues d') = Some (i\<lparr>iss_last := now C,
                    iss_count := iss_count i + 1, iss_status := Ongoing\<rparr>))"
proof -
  let ?k = "\<lambda>i. iss_team i = team \<and> iss_fp i = compute_fingerprint sha l s m"
  show ?thesis
  proof (cases "List.find ?k (db_issues d)")
    case None
    then have no: "\<forall>i \<in> set (db_issues d). \<not> ?k i" by (simp add: find_None_iff')
    have app: "(\<forall>i \<in> set xs. \<not> ?k i) \<Longrightarrow> List.find ?k (xs @ [y]) = (if ?k y then Some y else None)" for xs y
      by (induction xs) auto
    show ?thesis using None no by (auto simp: Let_def track_error_def app)
  next
    case (Some i)
    then have "?k i" "i \<in> set (db_issues d)" by (auto dest: find_SomeD)
    then show ?thesis using Some
      by (auto simp: Let_def track_error_def intro!: find_update_first_hit)
  qed
qed

end
