(* ===== verification/AlertWorker.thy ===== *)
theory AlertWorker imports Alerts Dispatcher Issues begin

text \<open>
  \<open>services/alert/alert-evaluation-worker.ts\<close>: the loop that turns rules into incidents. The count
  query of ClickHouse is a parameter: it is given the team, the bounds and the pattern exactly as
  the query binds them, and answers the first row's count, no row, or a failure.
\<close>

section \<open>State and parameters\<close>

record worker_env =
  we_lib :: js_lib
  we_now :: millis
  we_uuid :: ident
  we_count :: "ident \<Rightarrow> string \<Rightarrow> string \<Rightarrow> string \<Rightarrow> string + int option"

record worker =
  wk_db :: db
  wk_timer :: bool
  wk_running :: bool
  wk_warned :: "ident list"
  wk_ok :: nat
  wk_errors :: nat
  wk_created :: nat
  wk_notified :: "incident_info list"

definition one_minute :: int where
  "one_minute = 60000"

text \<open>\<open>toISOString().replace("T", " ").replace("Z", "")\<close>: each replaces the first occurrence.\<close>

fun replace_first :: "char \<Rightarrow> string \<Rightarrow> string \<Rightarrow> string" where
  "replace_first c w [] = []"
| "replace_first c w (x # xs) = (if x = c then w @ xs else x # replace_first c w xs)"

definition to_clickhouse_timestamp :: "js_lib \<Rightarrow> millis \<Rightarrow> string" where
  "to_clickhouse_timestamp L t = replace_first CHR ''Z'' [] (replace_first CHR ''T'' '' '' (date_iso L t))"

definition query_log_count :: "worker_env \<Rightarrow> ident \<Rightarrow> string \<Rightarrow> millis \<Rightarrow> millis \<Rightarrow> string + int" where
  "query_log_count E team query lo hi =
     (case we_count E team (to_clickhouse_timestamp (we_lib E) lo) (to_clickhouse_timestamp (we_lib E) hi)
             (''%'' @ query @ ''%'') of
        Inl e \<Rightarrow> Inl e
      | Inr None \<Rightarrow> Inr 0
      | Inr (Some n) \<Rightarrow> Inr n)"

fun condition_str :: "alert_condition \<Rightarrow> string" where
  "condition_str GreaterThan = ''GREATER_THAN''"
| "condition_str LessThan = ''LESS_THAN''"
| "condition_str Equals = ''EQUALS''"
| "condition_str ChangesBy = ''CHANGES_BY''"
| "condition_str AnomalyDetected = ''ANOMALY_DETECTED''"

section \<open>One rule\<close>

definition window_start :: "worker_env \<Rightarrow> rule_row \<Rightarrow> millis" where
  "window_start E r = we_now E - r_window r * one_minute"

text \<open>Whether the condition holds for the current count; \<open>CHANGES_BY\<close> counts a second window.\<close>

definition triggered :: "worker_env \<Rightarrow> rule_row \<Rightarrow> int \<Rightarrow> string + bool" where
  "triggered E r current =
     (case r_cond r of
        GreaterThan \<Rightarrow> Inr (current > r_threshold r)
      | LessThan \<Rightarrow> Inr (current < r_threshold r)
      | Equals \<Rightarrow> Inr (current = r_threshold r)
      | ChangesBy \<Rightarrow>
          (let prev_start = window_start E r - r_window r * one_minute in
           case query_log_count E (r_team r) (r_query r) prev_start (window_start E r) of
             Inl e \<Rightarrow> Inl e
           | Inr prev \<Rightarrow> Inr (\<bar>current - prev\<bar> \<ge> r_threshold r))
      | AnomalyDetected \<Rightarrow> Inr False)"

definition alert_message :: "rule_row \<Rightarrow> int \<Rightarrow> string" where
  "alert_message r current =
     ''Alert '' @ [CHR 34] @ r_query r @ [CHR 34] @ '' triggered: count='' @ int_str current @
     '', threshold='' @ int_str (r_threshold r) @ '', condition='' @ condition_str (r_cond r)"

definition new_incident :: "worker_env \<Rightarrow> rule_row \<Rightarrow> int \<Rightarrow> incident_row" where
  "new_incident E r current =
     \<lparr>i_id = we_uuid E, i_rule = r_id r, i_status = Open, i_severity = Medium,
      i_message = alert_message r current, i_created = we_now E\<rparr>"

lemma new_incident_fields:
  "i_id (new_incident E r n) = we_uuid E" "i_rule (new_incident E r n) = r_id r"
  "i_status (new_incident E r n) = Open" "i_severity (new_incident E r n) = Medium"
  by (simp_all add: new_incident_def)

definition incident_info_of :: "js_lib \<Rightarrow> rule_row \<Rightarrow> incident_row \<Rightarrow> incident_info" where
  "incident_info_of L r x =
     \<lparr>in_id = i_id x, in_rule = r_id r, in_team = r_team r, in_severity = severity_str (i_severity x),
      in_status = status_str (i_status x), in_message = i_message x, in_created = date_iso L (i_created x)\<rparr>"

definition muted :: "millis \<Rightarrow> rule_row \<Rightarrow> bool" where
  "muted t r = (case r_mute r of None \<Rightarrow> False | Some till \<Rightarrow> till > t)"

definition in_maintenance :: "millis \<Rightarrow> ident \<Rightarrow> db \<Rightarrow> bool" where
  "in_maintenance t team d =
     exists_row (\<lambda>w. w_team w = team \<and> w_starts w \<le> t \<and> w_ends w \<ge> t) (db_windows d)"

definition has_open_incident :: "ident \<Rightarrow> db \<Rightarrow> bool" where
  "has_open_incident rule d = exists_row (\<lambda>x. i_rule x = rule \<and> i_status x = Open) (db_incidents d)"

definition evaluate_rule :: "worker_env \<Rightarrow> rule_row \<Rightarrow> worker \<Rightarrow> (string + unit) \<times> worker" where
  "evaluate_rule E r s =
     (if r_cond r = AnomalyDetected then
        (Inr (), if r_id r \<in> set (wk_warned s) then s else s\<lparr>wk_warned := wk_warned s @ [r_id r]\<rparr>)
      else if muted (we_now E) r then (Inr (), s)
      else if in_maintenance (we_now E) (r_team r) (wk_db s) then (Inr (), s)
      else if has_open_incident (r_id r) (wk_db s) then (Inr (), s)
      else
        (case query_log_count E (r_team r) (r_query r) (window_start E r) (we_now E) of
           Inl e \<Rightarrow> (Inl e, s)
         | Inr current \<Rightarrow>
             (case triggered E r current of
                Inl e \<Rightarrow> (Inl e, s)
              | Inr fires \<Rightarrow>
                  if fires then
                    (let x = new_incident E r current in
                     (Inr (), s\<lparr>wk_db := (wk_db s)\<lparr>db_incidents := db_incidents (wk_db s) @ [x]\<rparr>,
                               wk_created := wk_created s + 1,
                               wk_notified := wk_notified s @ [incident_info_of (we_lib E) r x]\<rparr>))
                  else (Inr (), s))))"

section \<open>The loop\<close>

text \<open>
  One pass over the rules loaded at its start; a rule that fails is counted and the pass goes on.
  \<open>Es k\<close> is the environment at the \<open>k\<close>-th rule of the pass.
\<close>

fun evaluate_rules :: "(nat \<Rightarrow> worker_env) \<Rightarrow> nat \<Rightarrow> rule_row list \<Rightarrow> worker \<Rightarrow> worker" where
  "evaluate_rules Es k [] s = s"
| "evaluate_rules Es k (r # rs) s =
     (case evaluate_rule (Es k) r s of
        (Inl e, s') \<Rightarrow> evaluate_rules Es (Suc k) rs (s'\<lparr>wk_errors := wk_errors s' + 1\<rparr>)
      | (Inr u, s') \<Rightarrow> evaluate_rules Es (Suc k) rs (s'\<lparr>wk_ok := wk_ok s' + 1\<rparr>))"

definition evaluate :: "(nat \<Rightarrow> worker_env) \<Rightarrow> worker \<Rightarrow> worker" where
  "evaluate Es s =
     (if wk_running s then s
      else
        (let s1 = s\<lparr>wk_running := True\<rparr>;
             rules = filter r_enabled (db_rules (wk_db s1))
         in (evaluate_rules Es 0 rules s1)\<lparr>wk_running := False\<rparr>))"

definition start_worker :: "(nat \<Rightarrow> worker_env) \<Rightarrow> worker \<Rightarrow> worker" where
  "start_worker Es s = (if wk_timer s then s else evaluate Es (s\<lparr>wk_timer := True\<rparr>))"

definition stop_worker :: "worker \<Rightarrow> worker" where
  "stop_worker s = (if wk_timer s then s\<lparr>wk_timer := False\<rparr> else s)"

section \<open>When an incident is raised\<close>

lemma evaluate_rule_running [simp]:
  "wk_running (snd (evaluate_rule E r s)) = wk_running s"
  "wk_ok (snd (evaluate_rule E r s)) = wk_ok s" "wk_errors (snd (evaluate_rule E r s)) = wk_errors s"
  by (auto simp: evaluate_rule_def Let_def split: sum.splits)

definition condition_met :: "alert_condition \<Rightarrow> int \<Rightarrow> int \<Rightarrow> int \<Rightarrow> bool" where
  "condition_met c threshold current prev \<longleftrightarrow>
     c = GreaterThan \<and> current > threshold \<or> c = LessThan \<and> current < threshold
     \<or> c = Equals \<and> current = threshold \<or> c = ChangesBy \<and> \<bar>current - prev\<bar> \<ge> threshold"

lemma query_log_count_ok:
  assumes "\<And>team lo hi p. we_count E team lo hi p = Inr (Some (count team lo hi p))"
  shows "query_log_count E team q lo hi = Inr (count team (to_clickhouse_timestamp (we_lib E) lo)
    (to_clickhouse_timestamp (we_lib E) hi) (''%'' @ q @ ''%''))"
  using assms by (simp add: query_log_count_def)


definition sample_worker_env :: worker_env where
  "sample_worker_env = \<lparr>we_lib = \<lparr>json_parse = (\<lambda>_. Inl []), json_stringify = (\<lambda>_. []),
     date_parse = (\<lambda>_. None), date_iso = (\<lambda>_. ''2026-01-01T00:00:00.000Z''), num_str = (\<lambda>_. [])\<rparr>,
     we_now = 0, we_uuid = ''inc-1'', we_count = (\<lambda>team lo hi p. Inr (Some 7))\<rparr>"

definition sample_rule :: rule_row where
  "sample_rule = \<lparr>r_id = ''rule-1'', r_team = ''t1'', r_name = ''errors'', r_desc = None,
     r_query = ''boom'', r_qtype = RqSql, r_cond = GreaterThan, r_threshold = 5, r_window = 5,
     r_enabled = True, r_mute = None, r_created = 0\<rparr>"

definition idle_worker :: "db \<Rightarrow> worker" where
  "idle_worker d = \<lparr>wk_db = d, wk_timer = False, wk_running = False, wk_warned = [], wk_ok = 0,
     wk_errors = 0, wk_created = 0, wk_notified = []\<rparr>"


end
