(* ===== verification/AlertMachine.thy ===== *)
theory AlertMachine imports AlertWorker begin

text \<open>
  Incidents under concurrency. A request that acts on an incident reads its status and commits
  later; between the two, other requests read and commit, the worker raises incidents and rules
  are edited or deleted. The step relation interleaves all of it freely.
\<close>

section \<open>Steps\<close>

fun target_of :: "action \<Rightarrow> incident_status" where
  "target_of Acknowledge = Acknowledged"
| "target_of Resolve = Resolved"
| "target_of Reopen = Open"

fun event_of :: "action \<Rightarrow> incident_action" where
  "event_of Acknowledge = ActAcknowledged"
| "event_of Resolve = ActResolved"
| "event_of Reopen = ActReopened"

text \<open>The three service functions are the instances of \<open>transitionIncident\<close> the table above names.\<close>

lemma service_actions:
  "acknowledge_incident C inc team user c d
     = transition_incident C Acknowledge inc team user c (target_of Acknowledge) (event_of Acknowledge) d"
  "resolve_incident C inc team user c d
     = transition_incident C Resolve inc team user c (target_of Resolve) (event_of Resolve) d"
  "reopen_incident C inc team user c d
     = transition_incident C Reopen inc team user c (target_of Reopen) (event_of Reopen) d"
  by (simp_all add: acknowledge_incident_def resolve_incident_def reopen_incident_def)

record pending =
  pd_action :: action
  pd_incident :: ident
  pd_team :: ident
  pd_user :: ident
  pd_comment :: "string option"
  pd_read :: incident_status

definition commit_pending :: "clock \<Rightarrow> pending \<Rightarrow> db \<Rightarrow> (error + incident_row) \<times> db" where
  "commit_pending C p d =
     transition_commit C (pd_incident p) (pd_team p) (pd_user p) (pd_comment p) (pd_read p)
       (target_of (pd_action p)) (event_of (pd_action p)) d"

record machine =
  am_worker :: worker
  am_pending :: "pending list"

abbreviation am_db :: "machine \<Rightarrow> db" where
  "am_db s \<equiv> wk_db (am_worker s)"

definition set_db :: "db \<Rightarrow> machine \<Rightarrow> machine" where
  "set_db d s = s\<lparr>am_worker := (am_worker s)\<lparr>wk_db := d\<rparr>\<rparr>"

text \<open>An id the database generates is new: no incident and no event has it.\<close>

definition fresh_incident :: "ident \<Rightarrow> db \<Rightarrow> bool" where
  "fresh_incident i d \<longleftrightarrow> i \<notin> i_id ` set (db_incidents d) \<and> i \<notin> e_incident ` set (db_events d)"

text \<open>\<open>A\<close> is the set of actions users take.\<close>

inductive alert_step :: "action set \<Rightarrow> machine \<Rightarrow> machine \<Rightarrow> bool" for A :: "action set" where
  Read: "a \<in> A \<Longrightarrow> transition_read a inc team (am_db s) = Inr current \<Longrightarrow>
    alert_step A s (s\<lparr>am_pending := am_pending s @
      [\<lparr>pd_action = a, pd_incident = inc, pd_team = team, pd_user = user, pd_comment = comment,
        pd_read = current\<rparr>]\<rparr>)"
| Commit: "p \<in> set (am_pending s) \<Longrightarrow>
    alert_step A s ((set_db (snd (commit_pending C p (am_db s))) s)
      \<lparr>am_pending := remove1 p (am_pending s)\<rparr>)"
| Evaluate: "fresh_incident (we_uuid E) (am_db s) \<Longrightarrow>
    alert_step A s (s\<lparr>am_worker := snd (evaluate_rule E r (am_worker s))\<rparr>)"
| PatchRule: "alert_step A s (set_db (snd (update_rule L i t patch (am_db s))) s)"
| DeleteRule: "alert_step A s (set_db (snd (delete_rule i t (am_db s))) s)"

inductive_cases alert_stepE: "alert_step A s s'"

section \<open>The audit trail\<close>

fun replay_step :: "incident_status \<Rightarrow> incident_action \<Rightarrow> incident_status option" where
  "replay_step Open ActAcknowledged = Some Acknowledged"
| "replay_step Open ActResolved = Some Resolved"
| "replay_step Acknowledged ActResolved = Some Resolved"
| "replay_step Resolved ActReopened = Some Open"
| "replay_step Acknowledged ActReopened = Some Open"
| "replay_step s e = None"

fun replay :: "incident_status \<Rightarrow> incident_action list \<Rightarrow> incident_status option" where
  "replay s [] = Some s"
| "replay s (e # es) = (case replay_step s e of None \<Rightarrow> None | Some s' \<Rightarrow> replay s' es)"

definition trail :: "db \<Rightarrow> ident \<Rightarrow> incident_action list" where
  "trail d i = map e_action (filter (\<lambda>e. e_incident e = i) (db_events d))"

definition trail_ok :: "db \<Rightarrow> bool" where
  "trail_ok d \<longleftrightarrow>
     distinct (map i_id (db_incidents d))
     \<and> list_all (\<lambda>x. replay Open (trail d (i_id x)) = Some (i_status x)) (db_incidents d)
     \<and> list_all (\<lambda>e. e_incident e \<in> i_id ` set (db_incidents d)) (db_events d)"

definition pending_ok :: "action set \<Rightarrow> machine \<Rightarrow> bool" where
  "pending_ok A s \<longleftrightarrow>
     list_all (\<lambda>p. pd_action p \<in> A \<and> pd_read p \<in> set (incident_transitions (pd_action p))) (am_pending s)"

lemma replay_snoc: "replay s (es @ [e]) = (case replay s es of None \<Rightarrow> None | Some t \<Rightarrow> replay_step t e)"
  by (induction es arbitrary: s) (auto split: option.split)

lemma replay_allowed: "st \<in> set (incident_transitions a) \<Longrightarrow> replay_step st (event_of a) = Some (target_of a)"
  by (cases a; cases st) auto

lemma read_allowed: "transition_read a inc team d = Inr st \<Longrightarrow> st \<in> set (incident_transitions a)"
  by (auto simp: transition_read_def split: sum.splits if_splits)

text \<open>What a commit does, in the terms of the invariant.\<close>

lemma commit_cases:
  obtains (lost) "commit_pending C p d = (Inl changed_concurrently, d)"
  | (won) x where "x \<in> set (db_incidents d)" "i_id x = pd_incident p" "i_status x = pd_read p"
      "db_incidents (snd (commit_pending C p d)) = update_first (\<lambda>y. i_id y = pd_incident p
         \<and> i_status y = pd_read p \<and> rule_in_team d (i_rule y) (pd_team p))
         (\<lambda>y. y\<lparr>i_status := target_of (pd_action p)\<rparr>) (db_incidents d)"
      "rule_in_team d (i_rule x) (pd_team p)"
      "\<exists>ev. db_events (snd (commit_pending C p d)) = db_events d @ [ev] \<and> e_incident ev = pd_incident p
         \<and> e_action ev = event_of (pd_action p)"
proof (cases "List.find (\<lambda>y. i_id y = pd_incident p \<and> i_status y = pd_read p
    \<and> rule_in_team d (i_rule y) (pd_team p)) (db_incidents d)")
  case None
  then show ?thesis by (intro lost) (simp add: commit_pending_def transition_commit_def Let_def)
next
  case (Some x)
  then show ?thesis
    by (intro won [of x]) (auto simp: commit_pending_def transition_commit_def Let_def dest: find_SomeD)
qed

lemma trail_ok_commit:
  assumes "trail_ok d" and "pd_read p \<in> set (incident_transitions (pd_action p))"
  shows "trail_ok (snd (commit_pending C p d))"
proof (cases rule: commit_cases [of C p d])
  case lost
  then show ?thesis using assms by simp
next
  case (won x)
  let ?d = "snd (commit_pending C p d)"
  let ?P = "\<lambda>y. i_id y = pd_incident p \<and> i_status y = pd_read p \<and> rule_in_team d (i_rule y) (pd_team p)"
  let ?f = "\<lambda>y. y\<lparr>i_status := target_of (pd_action p)\<rparr>"
  obtain ev where ev: "db_events ?d = db_events d @ [ev]" "e_incident ev = pd_incident p"
    "e_action ev = event_of (pd_action p)" using won(6) by blast
  have ids: "map i_id (db_incidents ?d) = map i_id (db_incidents d)"
    unfolding won(4) by (rule map_update_first_key) simp
  then have idset: "i_id ` set (db_incidents ?d) = i_id ` set (db_incidents d)" by (metis set_map)
  have dist: "distinct (map i_id (db_incidents d))" using assms(1) by (simp add: trail_ok_def)
  have trails: "trail ?d i = trail d i @ (if i = pd_incident p then [event_of (pd_action p)] else [])" for i
    by (simp add: trail_def ev)
  have upd: "(y \<in> set (db_incidents d) \<and> i_id y \<noteq> pd_incident p) \<or> y = ?f x"
    if "y \<in> set (db_incidents ?d)" for y
    using update_first_distinct [OF dist won(1), of ?P y ?f] that won(2,3,5) unfolding won(4) by auto
  have "replay Open (trail ?d (i_id y)) = Some (i_status y)" if "y \<in> set (db_incidents ?d)" for y
  proof -
    have old: "replay Open (trail d (i_id z)) = Some (i_status z)" if "z \<in> set (db_incidents d)" for z
      using assms(1) that by (simp add: trail_ok_def list_all_iff)
    from upd [OF that] show ?thesis
      using old [of y] old [OF won(1)] won(2,3) replay_allowed [OF assms(2)]
      by (auto simp: trails replay_snoc)
  qed
  moreover have "pd_incident p \<in> i_id ` set (db_incidents d)" using won(1,2) by force
  then have "e_incident e \<in> i_id ` set (db_incidents ?d)" if "e \<in> set (db_events ?d)" for e
    using that assms(1) unfolding idset ev
    by (auto simp: trail_ok_def list_all_iff ev(2))
  ultimately show ?thesis using ids dist by (simp add: trail_ok_def list_all_iff)
qed


lemma trail_ok_incidents:
  "db_incidents d' = db_incidents d \<Longrightarrow> db_events d' = db_events d \<Longrightarrow> trail_ok d' = trail_ok d"
  by (simp add: trail_ok_def trail_def)

lemma evaluate_cases:
  obtains (quiet) "wk_db (snd (evaluate_rule E r s)) = wk_db s"
  | (raised) n where "wk_db (snd (evaluate_rule E r s)) = (wk_db s)\<lparr>db_incidents :=
      db_incidents (wk_db s) @ [new_incident E r n]\<rparr>" "\<not> has_open_incident (r_id r) (wk_db s)"
proof -
  let ?skip = "r_cond r = AnomalyDetected \<or> muted (we_now E) r
    \<or> in_maintenance (we_now E) (r_team r) (wk_db s) \<or> has_open_incident (r_id r) (wk_db s)"
  show ?thesis
  proof (cases ?skip)
    case True
    then have "wk_db (snd (evaluate_rule E r s)) = wk_db s" by (auto simp: evaluate_rule_def)
    then show ?thesis by (rule quiet)
  next
    case False
    then have u: "evaluate_rule E r s =
      (case query_log_count E (r_team r) (r_query r) (window_start E r) (we_now E) of
           Inl e \<Rightarrow> (Inl e, s)
         | Inr current \<Rightarrow>
             (case triggered E r current of
                Inl e \<Rightarrow> (Inl e, s)
              | Inr fires \<Rightarrow>
                  if fires then
                    (let x = new_incident E r current in
                     (Inr (), s\<lparr>wk_db := (wk_db s)\<lparr>db_incidents := db_incidents (wk_db s) @ [x]\<rparr>,
                               wk_created := wk_created s + 1,
                               wk_notified := wk_notified s @ [incident_info_of (we_lib E) r x]\<rparr>))
                  else (Inr (), s)))"
      by (simp add: evaluate_rule_def)
    show ?thesis
    proof (cases "query_log_count E (r_team r) (r_query r) (window_start E r) (we_now E)")
      case (Inl e)
      then show ?thesis by (intro quiet) (simp add: u)
    next
      case (Inr n)
      show ?thesis
      proof (cases "triggered E r n = Inr True")
        case True
        then show ?thesis using False Inr by (intro raised [of n]) (simp_all add: u Let_def)
      next
        case nf: False
        then show ?thesis using Inr
          by (intro quiet) (cases "triggered E r n"; simp add: u split: if_split)
      qed
    qed
  qed
qed

lemma trail_ok_evaluate:
  assumes "trail_ok (wk_db s)" and "fresh_incident (we_uuid E) (wk_db s)"
  shows "trail_ok (wk_db (snd (evaluate_rule E r s)))"
proof (cases rule: evaluate_cases [of E r s])
  case quiet
  then show ?thesis using assms by simp
next
  case (raised n)
  have "\<forall>e \<in> set (db_events (wk_db s)). e_incident e \<noteq> we_uuid E"
    using assms(2) unfolding fresh_incident_def by (metis image_eqI)
  then have "trail (wk_db s) (we_uuid E) = []" by (simp add: trail_def filter_empty_conv)
  moreover have "trail (wk_db (snd (evaluate_rule E r s))) i = trail (wk_db s) i" for i
    unfolding raised by (simp add: trail_def)
  ultimately show ?thesis
    using assms unfolding trail_ok_def
    by (auto simp: raised(1) new_incident_fields fresh_incident_def list_all_iff)
qed

lemma delete_rule_cases:
  obtains (missing) "snd (delete_rule i t d) = d"
  | (gone) "db_incidents (snd (delete_rule i t d)) = filter (\<lambda>x. i_rule x \<noteq> i) (db_incidents d)"
      "db_events (snd (delete_rule i t d)) = filter (\<lambda>e. \<not> incident_rule_is d i (e_incident e)) (db_events d)"
proof (cases "exists_row (own_rule i t) (db_rules d)")
  case True
  show ?thesis
    by (rule gone) (simp_all add: delete_rule_def cascade_rule_def incident_rule_is_def Let_def True
        del: exists_row_iff)
next
  case False
  show ?thesis by (rule missing) (simp add: delete_rule_def Let_def False del: exists_row_iff)
qed

lemma trail_ok_delete:
  assumes "trail_ok d"
  shows "trail_ok (snd (delete_rule i t d))"
proof (cases rule: delete_rule_cases [of i t d])
  case missing
  then show ?thesis using assms by simp
next
  case gone
  let ?d = "snd (delete_rule i t d)"
  have dist: "distinct (map i_id (db_incidents d))" using assms by (simp add: trail_ok_def)
  have keep: "\<not> incident_rule_is d i (i_id x)" if "x \<in> set (db_incidents d)" "i_rule x \<noteq> i" for x
    using that dist by (auto simp: incident_rule_is_def distinct_map inj_on_def)
  have "filter (\<lambda>e. e_incident e = i_id x) (db_events ?d) = filter (\<lambda>e. e_incident e = i_id x) (db_events d)"
    if "x \<in> set (db_incidents d)" "i_rule x \<noteq> i" for x
    using keep [OF that] unfolding gone filter_filter by (intro filter_cong) auto
  then have "trail ?d (i_id x) = trail d (i_id x)" if "x \<in> set (db_incidents ?d)" for x
    using that unfolding gone(1) by (simp add: trail_def)
  moreover have "e_incident e \<in> i_id ` set (db_incidents ?d)" if "e \<in> set (db_events ?d)" for e
    using that assms unfolding gone trail_ok_def
    by (fastforce simp: list_all_iff incident_rule_is_def)
  ultimately show ?thesis
    using assms dist unfolding trail_ok_def list_all_iff gone(1) by (auto simp: distinct_map_filter)
qed

lemma am_db_set [simp]: "am_db (set_db d s) = d" "am_pending (set_db d s) = am_pending s"
  by (simp_all add: set_db_def)

lemma step_invariant:
  assumes "alert_step A s s'" and "trail_ok (am_db s)" and "pending_ok A s"
  shows "trail_ok (am_db s') \<and> pending_ok A s'"
  using assms(1)
proof (rule alert_stepE)
  fix p C
  assume s': "s' = set_db (snd (commit_pending C p (am_db s))) s\<lparr>am_pending := remove1 p (am_pending s)\<rparr>"
    and p: "p \<in> set (am_pending s)"
  then have "pd_read p \<in> set (incident_transitions (pd_action p))"
    using assms(3) by (auto simp: pending_ok_def list_all_iff)
  from trail_ok_commit [OF assms(2) this, of C] show ?thesis
    using s' assms(3) by (auto simp: set_db_def pending_ok_def list_all_iff dest: notin_set_remove1)
next
  fix L i t patch
  assume "s' = set_db (snd (update_rule L i t patch (am_db s))) s"
  moreover have "trail_ok (snd (update_rule L i t patch (am_db s))) = trail_ok (am_db s)"
    by (rule trail_ok_incidents) (simp_all add: update_rule_def split: option.split)
  ultimately show ?thesis using assms by (simp add: pending_ok_def)
qed (use assms in \<open>auto simp: pending_ok_def trail_ok_evaluate trail_ok_delete dest: read_allowed\<close>)

lemma reachable_invariant:
  assumes "(alert_step A)\<^sup>*\<^sup>* s s'" and "trail_ok (am_db s)" and "pending_ok A s"
  shows "trail_ok (am_db s') \<and> pending_ok A s'"
  using assms by (induction rule: rtranclp_induct) (auto dest: step_invariant)

text \<open>Start: nothing pending, and no incident was ever raised.\<close>

definition start_machine :: "db \<Rightarrow> machine" where
  "start_machine d = \<lparr>am_worker = idle_worker (d\<lparr>db_incidents := [], db_events := []\<rparr>), am_pending = []\<rparr>"

text \<open>C8: the audit trail tells the truth under any concurrency. Whatever requests read, commit, lose
  a race, whatever the worker raises and whichever rules are changed or deleted in between, and in
  whatever order: replaying an incident's recorded events from OPEN gives its current status, and
  every recorded event belongs to an existing incident. So no action is ever recorded without its
  effect, none takes effect unrecorded, and no status change outside the allowed ones happens.\<close>

theorem audit_trail_replays:
  assumes "(alert_step A)\<^sup>*\<^sup>* (start_machine d) s"
  shows "list_all (\<lambda>x. replay Open (trail (am_db s) (i_id x)) = Some (i_status x)) (db_incidents (am_db s))
    \<and> list_all (\<lambda>e. e_incident e \<in> i_id ` set (db_incidents (am_db s))) (db_events (am_db s))"
proof -
  have "trail_ok (am_db (start_machine d))" "pending_ok A (start_machine d)"
    by (simp_all add: start_machine_def idle_worker_def trail_ok_def pending_ok_def)
  from reachable_invariant [OF assms this] show ?thesis by (simp add: trail_ok_def)
qed


section \<open>A concrete run\<close>

text \<open>
  The worker raises an incident, it is acknowledged, the worker raises a second one for the same
  rule (the first is not open any more), and the first is reopened.
\<close>

definition run0 :: machine where
  "run0 = start_machine (empty_db\<lparr>db_rules := [sample_rule]\<rparr>)"

definition run1 :: machine where
  "run1 = run0\<lparr>am_worker := snd (evaluate_rule sample_worker_env sample_rule (am_worker run0))\<rparr>"

definition ask :: "action \<Rightarrow> incident_status \<Rightarrow> pending" where
  "ask a st = \<lparr>pd_action = a, pd_incident = ''inc-1'', pd_team = ''t1'', pd_user = ''u1'', pd_comment = None,
     pd_read = st\<rparr>"

definition asked :: "action \<Rightarrow> incident_status \<Rightarrow> machine \<Rightarrow> machine" where
  "asked a st s = s\<lparr>am_pending := am_pending s @ [ask a st]\<rparr>"

definition committed :: "action \<Rightarrow> incident_status \<Rightarrow> machine \<Rightarrow> machine" where
  "committed a st s = (set_db (snd (commit_pending \<lparr>now = 0, uuid = []\<rparr> (ask a st) (am_db s))) s)
     \<lparr>am_pending := remove1 (ask a st) (am_pending s)\<rparr>"

definition run3 :: machine where
  "run3 = committed Acknowledge Open (asked Acknowledge Open run1)"

definition run4 :: machine where
  "run4 = run3\<lparr>am_worker := snd (evaluate_rule (sample_worker_env\<lparr>we_uuid := ''inc-2''\<rparr>) sample_rule
     (am_worker run3))\<rparr>"

definition run6 :: machine where
  "run6 = committed Reopen Acknowledged (asked Reopen Acknowledged run4)"

definition inc_of :: "ident \<Rightarrow> incident_status \<Rightarrow> incident_row" where
  "inc_of i st = \<lparr>i_id = i, i_rule = ''rule-1'', i_status = st, i_severity = Medium,
     i_message = alert_message sample_rule 7, i_created = 0\<rparr>"

definition ev_of :: "incident_action \<Rightarrow> event_row" where
  "ev_of a = \<lparr>e_incident = ''inc-1'', e_user = ''u1'', e_action = a, e_comment = None, e_created = 0\<rparr>"

lemmas run_simps = run0_def run1_def run3_def run4_def run6_def asked_def committed_def ask_def
  commit_pending_def transition_commit_def evaluate_rule_def start_machine_def idle_worker_def
  set_db_def sample_worker_env_def sample_rule_def muted_def in_maintenance_def has_open_incident_def
  query_log_count_def triggered_def new_incident_def empty_db_def rule_in_team_def rule_by_id_def
  inc_of_def ev_of_def Let_def

lemma run_states:
  "db_incidents (am_db run1) = [inc_of ''inc-1'' Open]" "db_events (am_db run1) = []"
  "db_incidents (am_db run3) = [inc_of ''inc-1'' Acknowledged]" "db_events (am_db run3) = [ev_of ActAcknowledged]"
  "db_incidents (am_db run4) = [inc_of ''inc-1'' Acknowledged, inc_of ''inc-2'' Open]"
  "db_events (am_db run4) = [ev_of ActAcknowledged]"
  "db_incidents (am_db run6) = [inc_of ''inc-1'' Open, inc_of ''inc-2'' Open]"
  "db_events (am_db run6) = [ev_of ActAcknowledged, ev_of ActReopened]"
  "db_rules (am_db run1) = [sample_rule]" "db_rules (am_db run4) = [sample_rule]"
  by (simp_all add: run_simps)

lemma read_run:
  "transition_read Acknowledge ''inc-1'' ''t1'' (am_db run1) = Inr Open"
  "transition_read Reopen ''inc-1'' ''t1'' (am_db run4) = Inr Acknowledged"
  by (simp_all add: transition_read_def assert_incident_in_team_def rule_in_team_def rule_by_id_def
      run_states inc_of_def sample_rule_def)

lemma ask_step:
  "a \<in> A \<Longrightarrow> transition_read a ''inc-1'' ''t1'' (am_db s) = Inr st \<Longrightarrow>
   (alert_step A)\<^sup>*\<^sup>* s (committed a st (asked a st s))"
proof -
  assume a: "a \<in> A" and r: "transition_read a ''inc-1'' ''t1'' (am_db s) = Inr st"
  have "alert_step A s (asked a st s)"
    unfolding asked_def ask_def by (rule Read [OF a r])
  moreover have "alert_step A (asked a st s) (committed a st (asked a st s))"
    unfolding committed_def by (rule Commit) (simp add: asked_def)
  ultimately show ?thesis by (meson rtranclp.rtrancl_into_rtrancl rtranclp.rtrancl_refl)
qed

lemma run4_reachable:
  assumes "Acknowledge \<in> A"
  shows "(alert_step A)\<^sup>*\<^sup>* (start_machine (empty_db\<lparr>db_rules := [sample_rule]\<rparr>)) run4"
proof -
  have "alert_step A run0 run1"
    unfolding run1_def by (rule Evaluate)
      (simp add: fresh_incident_def run0_def start_machine_def idle_worker_def)
  moreover have "(alert_step A)\<^sup>*\<^sup>* run1 run3"
    unfolding run3_def by (rule ask_step [OF assms read_run(1)])
  moreover have "alert_step A run3 run4"
    unfolding run4_def by (rule Evaluate)
      (simp add: fresh_incident_def run_states inc_of_def ev_of_def)
  ultimately have "(alert_step A)\<^sup>*\<^sup>* run0 run4" by (meson rtranclp.rtrancl_into_rtrancl converse_rtranclp_into_rtranclp)
  then show ?thesis by (simp add: run0_def)
qed

theorem audit_trail_replays_witness:
  "list_all (\<lambda>x. replay Open (trail (am_db run6) (i_id x)) = Some (i_status x)) (db_incidents (am_db run6))
   \<and> map i_status (db_incidents (am_db run6)) = [Open, Open]"
proof -
  have "(alert_step UNIV)\<^sup>*\<^sup>* run4 run6"
    unfolding run6_def by (rule ask_step [OF UNIV_I read_run(2)])
  then have "(alert_step UNIV)\<^sup>*\<^sup>* (start_machine (empty_db\<lparr>db_rules := [sample_rule]\<rparr>)) run6"
    using run4_reachable [OF UNIV_I] by (rule rtranclp_trans [rotated])
  from audit_trail_replays [OF this] show ?thesis by (simp add: run_states inc_of_def)
qed

section \<open>One open incident per rule\<close>

definition open_count :: "db \<Rightarrow> ident \<Rightarrow> nat" where
  "open_count d rule = length (filter (\<lambda>x. i_rule x = rule \<and> i_status x = Open) (db_incidents d))"

lemma filter_update_first_le:
  assumes "\<And>r. P r \<Longrightarrow> \<not> Q (f r)"
  shows "length (filter Q (update_first P f rs)) \<le> length (filter Q rs)"
  using assms by (induction rs) auto

lemma open_count_commit:
  assumes "pd_action p \<noteq> Reopen"
  shows "open_count (snd (commit_pending C p d)) rule \<le> open_count d rule"
proof (cases rule: commit_cases [of C p d])
  case (won x)
  have "target_of (pd_action p) \<noteq> Open" using assms by (cases "pd_action p") auto
  then show ?thesis
    unfolding open_count_def won(4) by (intro filter_update_first_le) simp
qed simp

lemma open_count_evaluate:
  assumes "\<And>rule. open_count (wk_db s) rule \<le> 1"
  shows "open_count (wk_db (snd (evaluate_rule E r s))) rule \<le> 1"
proof (cases rule: evaluate_cases [of E r s])
  case quiet
  then show ?thesis using assms by simp
next
  case (raised n)
  then have "open_count (wk_db s) (r_id r) = 0"
    by (auto simp: has_open_incident_def open_count_def filter_empty_conv)
  then show ?thesis
    using assms [of rule] unfolding raised(1) by (auto simp: open_count_def new_incident_fields)
qed

lemma length_filter_filter: "length (filter P (filter Q xs)) \<le> length (filter P xs)"
  by (induction xs) auto

lemma open_count_delete: "open_count (snd (delete_rule i t d)) rule \<le> open_count d rule"
proof (cases rule: delete_rule_cases [of i t d])
  case gone
  show ?thesis unfolding open_count_def gone(1) by (rule length_filter_filter)
qed simp

lemma open_count_step:
  assumes "alert_step {Acknowledge, Resolve} s s'" and "pending_ok {Acknowledge, Resolve} s"
    and "\<And>rule. open_count (am_db s) rule \<le> 1"
  shows "open_count (am_db s') rule \<le> 1"
  using assms(1)
proof (rule alert_stepE)
  fix p C
  assume s': "s' = set_db (snd (commit_pending C p (am_db s))) s\<lparr>am_pending := remove1 p (am_pending s)\<rparr>"
    and p: "p \<in> set (am_pending s)"
  then have "pd_action p \<noteq> Reopen" using assms(2) by (auto simp: pending_ok_def list_all_iff)
  from open_count_commit [OF this, of C "am_db s" rule] show ?thesis
    using s' assms(3) [of rule] by (simp add: set_db_def)
next
  fix i t
  assume "s' = set_db (snd (delete_rule i t (am_db s))) s"
  then show ?thesis using open_count_delete [of i t "am_db s" rule] assms(3) [of rule] by simp
next
  fix L i t patch
  assume "s' = set_db (snd (update_rule L i t patch (am_db s))) s"
  moreover have "db_incidents (snd (update_rule L i t patch (am_db s))) = db_incidents (am_db s)"
    by (simp add: update_rule_def split: option.split)
  ultimately show ?thesis using assms(3) by (simp add: open_count_def)
next
  fix E r
  assume "s' = s\<lparr>am_worker := snd (evaluate_rule E r (am_worker s))\<rparr>"
  then show ?thesis using open_count_evaluate [OF assms(3)] by simp
qed (use assms(3) in simp)



text \<open>Reopening does not look for another open incident of the rule, so it can leave two.\<close>

lemma reopen_leaves_two_open: "open_count (am_db run6) ''rule-1'' = 2"
  by (simp add: open_count_def run_states inc_of_def)

end
