(* ===== verification/Teams.thy ===== *)
theory Teams imports Issues begin

text \<open>
  \<open>services/team/team-service.ts\<close>: accounts, sessions, teams, log sources with their ingest keys,
  and invites. bcrypt, the clock and the uuid generator are the fields of \<open>team_env\<close>; an operation
  that needs several uuids takes \<open>te_uuid 0\<close>, \<open>te_uuid 1\<close> and so on.
\<close>

section \<open>Environment\<close>

datatype registration_mode = RegOpen | RegInviteOnly | RegApproval

record team_config =
  tc_registration :: registration_mode
  tc_multi_tenant :: bool
  tc_admin_email :: "string option"

record team_env =
  te_cfg :: team_config
  te_lib :: js_lib
  te_now :: millis
  te_uuid :: "nat \<Rightarrow> ident"
  te_hash :: "string \<Rightarrow> string"
  te_verify :: "string \<Rightarrow> string \<Rightarrow> bool"

definition seven_days :: int where
  "seven_days = 7 * 24 * 60 * 60 * 1000"

text \<open>\<open>generateId().replace(/-/g, "").slice(0, 24)\<close> behind a prefix.\<close>

definition short_token :: "string \<Rightarrow> ident \<Rightarrow> string" where
  "short_token prefix u = prefix @ take 24 (filter (\<lambda>c. c \<noteq> CHR ''-'') u)"

section \<open>What the API returns\<close>

record public_user =
  pu_id :: ident
  pu_email :: string
  pu_name :: string
  pu_role :: user_role
  pu_status :: user_status
  pu_created :: string

definition sanitize_user :: "js_lib \<Rightarrow> user_row \<Rightarrow> public_user" where
  "sanitize_user L u =
     \<lparr>pu_id = u_id u, pu_email = u_email u, pu_name = u_name u, pu_role = u_role u,
      pu_status = u_status u, pu_created = date_iso L (u_created u)\<rparr>"

datatype registration_result =
    AuthResult string public_user
  | PendingApproval string public_user

record team_info =
  ti_id :: ident
  ti_name :: string
  ti_slug :: string
  ti_created :: string

definition team_info_of :: "js_lib \<Rightarrow> team_row \<Rightarrow> team_info" where
  "team_info_of L t = \<lparr>ti_id = t_id t, ti_name = t_name t, ti_slug = t_slug t, ti_created = date_iso L (t_created t)\<rparr>"

section \<open>Ingest keys\<close>

definition min_hidden_key_chars :: nat where "min_hidden_key_chars = 8"

definition max_hint_prefix_length :: nat where "max_hint_prefix_length = 8"

definition source_key_hint :: "string \<Rightarrow> string" where
  "source_key_hint key =
     (let prefix = (case index_of CHR ''_'' key of
                      Some u \<Rightarrow> take (min (u + 1) max_hint_prefix_length) key
                    | None \<Rightarrow> [])
      in if int (length key) - int (length prefix) - 4 < int min_hidden_key_chars then ''****''
         else prefix @ ''****'' @ slice_last 4 key)"

datatype source_key_view = KeyNone | KeyHint | KeyFull

record log_source =
  ls_id :: ident
  ls_team :: ident
  ls_name :: string
  ls_type :: source_type
  ls_config :: json
  ls_retention :: int
  ls_created :: string
  ls_api_key :: "string option"
  ls_key_hint :: "string option"

definition to_log_source :: "js_lib \<Rightarrow> source_row \<Rightarrow> source_key_view \<Rightarrow> log_source" where
  "to_log_source L s view =
     \<lparr>ls_id = src_id s, ls_team = src_team s, ls_name = src_name s, ls_type = src_type s,
      ls_config = src_config s, ls_retention = src_retention s, ls_created = date_iso L (src_created s),
      ls_api_key = (if view = KeyFull then Some (src_key s) else None),
      ls_key_hint = (if view = KeyHint then Some (source_key_hint (src_key s)) else None)\<rparr>"

definition generate_source_api_key :: "ident \<Rightarrow> string" where
  "generate_source_api_key u = short_token ''lf_'' u"

section \<open>Accounts and sessions\<close>

definition normalize_email :: "string \<Rightarrow> string" where
  "normalize_email e = lower (trim e)"

definition user_by_email :: "db \<Rightarrow> string \<Rightarrow> user_row option" where
  "user_by_email d e = List.find (\<lambda>u. u_email u = e) (db_users d)"

definition create_session :: "team_env \<Rightarrow> nat \<Rightarrow> user_row \<Rightarrow> db \<Rightarrow> (string \<times> public_user) \<times> db" where
  "create_session E k u d =
     (let token = short_token ''sess_'' (te_uuid E k) in
      ((token, sanitize_user (te_lib E) u),
       d\<lparr>db_sessions := db_sessions d @
           [\<lparr>s_user = u_id u, s_token = token, s_expires = te_now E + seven_days\<rparr>]\<rparr>))"

definition default_slug :: string where "default_slug = ''default''"

definition ensure_default_team :: "team_env \<Rightarrow> nat \<Rightarrow> db \<Rightarrow> team_row \<times> db" where
  "ensure_default_team E k d =
     (case List.find (\<lambda>t. t_slug t = default_slug) (db_teams d) of
        Some t \<Rightarrow> (t, d)
      | None \<Rightarrow>
          (let t = \<lparr>t_id = te_uuid E k, t_name = ''Default'', t_slug = default_slug, t_created = te_now E\<rparr>
           in (t, d\<lparr>db_teams := db_teams d @ [t]\<rparr>)))"

definition upsert_member :: "team_env \<Rightarrow> ident \<Rightarrow> ident \<Rightarrow> team_role \<Rightarrow> db \<Rightarrow> member_row \<times> db" where
  "upsert_member E team user role d =
     (let here = (\<lambda>m. m_team m = team \<and> m_user m = user) in
      case List.find here (db_members d) of
        Some m \<Rightarrow> (m\<lparr>m_role := role\<rparr>,
                   d\<lparr>db_members := update_first here (\<lambda>m. m\<lparr>m_role := role\<rparr>) (db_members d)\<rparr>)
      | None \<Rightarrow>
          (let m = \<lparr>m_team = team, m_user = user, m_role = role, m_joined = te_now E\<rparr>
           in (m, d\<lparr>db_members := db_members d @ [m]\<rparr>)))"

definition add_user_to_default_team :: "team_env \<Rightarrow> nat \<Rightarrow> ident \<Rightarrow> team_role \<Rightarrow> db \<Rightarrow> db" where
  "add_user_to_default_team E k user role d =
     (case ensure_default_team E k d of (t, d1) \<Rightarrow> snd (upsert_member E (t_id t) user role d1))"

definition is_bootstrap_admin :: "team_config \<Rightarrow> string \<Rightarrow> bool" where
  "is_bootstrap_admin cfg email =
     (case tc_admin_email cfg of None \<Rightarrow> False | Some a \<Rightarrow> email = normalize_email a)"

definition register :: "team_env \<Rightarrow> string \<Rightarrow> string \<Rightarrow> string \<Rightarrow> db \<Rightarrow> (error + registration_result) \<times> db" where
  "register E email password name d =
     (let normalized = normalize_email email; cfg = te_cfg E in
      case user_by_email d normalized of
        Some u \<Rightarrow> (Inl (PlainError ''User already exists''), d)
      | None \<Rightarrow>
          (let bootstrap = is_bootstrap_admin cfg normalized in
           if tc_registration cfg = RegInviteOnly \<and> \<not> bootstrap
           then (Inl (PlainError ''Registration is currently invite-only''), d)
           else
             (let status = (if tc_registration cfg = RegApproval \<and> \<not> bootstrap then Pending else Active);
                  role = (if bootstrap then RoleAdmin else RoleUser);
                  u = \<lparr>u_id = te_uuid E 0, u_email = normalized, u_hash = te_hash E password,
                       u_name = name, u_role = role, u_status = status, u_created = te_now E\<rparr>;
                  d1 = d\<lparr>db_users := db_users d @ [u]\<rparr>;
                  d2 = (if \<not> tc_multi_tenant cfg \<and> status = Active
                        then add_user_to_default_team E 1 (u_id u)
                               (if role = RoleAdmin then Owner else Member) d1
                        else d1)
              in if status = Pending
                 then (Inr (PendingApproval
                        ''Your account has been created and is waiting for admin approval.''
                        (sanitize_user (te_lib E) u)), d2)
                 else (case create_session E 2 u d2 of
                         ((token, pu), d3) \<Rightarrow> (Inr (AuthResult token pu), d3)))))"

definition login :: "team_env \<Rightarrow> string \<Rightarrow> string \<Rightarrow> db \<Rightarrow> (error + string \<times> public_user) \<times> db" where
  "login E email password d =
     (case user_by_email d (normalize_email email) of
        None \<Rightarrow> (Inl (PlainError ''Invalid credentials''), d)
      | Some u \<Rightarrow>
          if u_status u = Pending
          then (Inl (PlainError ''Your account is pending admin approval''), d)
          else if u_status u = Disabled then (Inl (PlainError ''Your account has been disabled''), d)
          else if \<not> te_verify E password (u_hash u) then (Inl (PlainError ''Invalid credentials''), d)
          else (case create_session E 0 u d of (r, d1) \<Rightarrow> (Inr r, d1)))"

definition session_by_token :: "db \<Rightarrow> string \<Rightarrow> session_row option" where
  "session_by_token d tok = List.find (\<lambda>s. s_token s = tok) (db_sessions d)"

definition validate_token :: "team_env \<Rightarrow> string \<Rightarrow> db \<Rightarrow> error + session_row" where
  "validate_token E tok d =
     (case session_by_token d tok of
        None \<Rightarrow> Inl (PlainError ''Unauthorized'')
      | Some s \<Rightarrow> if s_expires s < te_now E then Inl (PlainError ''Unauthorized'') else Inr s)"

definition approve_user :: "team_env \<Rightarrow> ident \<Rightarrow> db \<Rightarrow> (error + public_user) \<times> db" where
  "approve_user E user d =
     (case user_by_id d user of
        None \<Rightarrow> (Inl RecordNotFound, d)
      | Some u \<Rightarrow>
          (let u1 = u\<lparr>u_status := Active\<rparr>;
               d1 = d\<lparr>db_users := update_first (\<lambda>r. u_id r = user) (\<lambda>r. r\<lparr>u_status := Active\<rparr>) (db_users d)\<rparr>;
               d2 = (if \<not> tc_multi_tenant (te_cfg E)
                        \<and> \<not> exists_row (\<lambda>m. m_user m = user) (db_members d1)
                     then add_user_to_default_team E 0 user (if u_role u1 = RoleAdmin then Owner else Member) d1
                     else d1)
           in (Inr (sanitize_user (te_lib E) u1), d2)))"

section \<open>Teams and members\<close>

definition list_teams_for_user :: "js_lib \<Rightarrow> ident \<Rightarrow> db \<Rightarrow> (team_info \<times> team_role) list" where
  "list_teams_for_user L user d =
     List.map_filter (\<lambda>m. map_option (\<lambda>t. (team_info_of L t, m_role m))
         (List.find (\<lambda>t. t_id t = m_team m) (db_teams d)))
       (filter (\<lambda>m. m_user m = user) (db_members d))"

definition create_team :: "team_env \<Rightarrow> string \<Rightarrow> string \<Rightarrow> string \<Rightarrow> db \<Rightarrow> (error + team_info) \<times> db" where
  "create_team E tok name slug d =
     (if \<not> tc_multi_tenant (te_cfg E)
      then (Inl (PlainError ''Team creation is disabled in single-tenant mode''), d)
      else
        (case validate_token E tok d of
           Inl e \<Rightarrow> (Inl e, d)
         | Inr s \<Rightarrow>
             if exists_row (\<lambda>t. t_slug t = slug) (db_teams d) then (Inl UniqueViolation, d)
             else
               (let t = \<lparr>t_id = te_uuid E 0, t_name = name, t_slug = slug, t_created = te_now E\<rparr>
                in (Inr (team_info_of (te_lib E) t),
                    d\<lparr>db_teams := db_teams d @ [t],
                      db_members := db_members d @
                        [\<lparr>m_team = t_id t, m_user = s_user s, m_role = Owner, m_joined = te_now E\<rparr>]\<rparr>))))"

definition get_member_count :: "ident \<Rightarrow> db \<Rightarrow> nat" where
  "get_member_count team d = length (filter (\<lambda>m. m_team m = team) (db_members d))"

definition add_user_to_team :: "team_env \<Rightarrow> ident \<Rightarrow> ident \<Rightarrow> team_role \<Rightarrow> db \<Rightarrow> member_row \<times> db" where
  "add_user_to_team E user team role d =
     (case membership d team user of
        Some m \<Rightarrow> (m\<lparr>m_role := role\<rparr>,
           d\<lparr>db_members := update_first (\<lambda>m. m_team m = team \<and> m_user m = user)
                             (\<lambda>m. m\<lparr>m_role := role\<rparr>) (db_members d)\<rparr>)
      | None \<Rightarrow>
          (let m = \<lparr>m_team = team, m_user = user, m_role = role, m_joined = te_now E\<rparr>
           in (m, d\<lparr>db_members := db_members d @ [m]\<rparr>)))"

definition remove_user_from_team :: "ident \<Rightarrow> ident \<Rightarrow> db \<Rightarrow> (error + unit) \<times> db" where
  "remove_user_from_team user team d =
     (case membership d team user of
        None \<Rightarrow> (Inl RecordNotFound, d)
      | Some m \<Rightarrow> (Inr (), d\<lparr>db_members :=
          delete_first (\<lambda>m. m_team m = team \<and> m_user m = user) (db_members d)\<rparr>))"


section \<open>Who gets an account, and who gets a session\<close>

lemma members_only_default:
  "db_users (add_user_to_default_team E k u r d) = db_users d"
  "db_sessions (add_user_to_default_team E k u r d) = db_sessions d"
  by (auto simp: add_user_to_default_team_def ensure_default_team_def upsert_member_def Let_def
      split: option.split)

text \<open>registration follows its mode. A known address, or an invite-only server for anybody but
  the configured administrator, is refused and nothing is written. Otherwise exactly one account
  is added, under the normalised address and the hash of the password, with the admin role only
  for the configured administrator; under approval it is pending and gets no session, else it is
  active and gets exactly one. Signing in adds one session, only for an active account whose
  password verifies, and otherwise changes nothing.\<close>

theorem accounts_and_sessions:
  "(case user_by_email d (normalize_email email) of
      Some u \<Rightarrow> register E email password name d = (Inl (PlainError ''User already exists''), d)
        \<and> (if u_status u = Active \<and> te_verify E password (u_hash u)
           then (\<exists>r. fst (login E email password d) = Inr r)
              \<and> db_users (snd (login E email password d)) = db_users d
              \<and> map s_user (db_sessions (snd (login E email password d))) = map s_user (db_sessions d) @ [u_id u]
           else (\<exists>e. login E email password d = (Inl e, d)))
    | None \<Rightarrow> login E email password d = (Inl (PlainError ''Invalid credentials''), d)
        \<and> (let boot = is_bootstrap_admin (te_cfg E) (normalize_email email);
               out = register E email password name d in
           if tc_registration (te_cfg E) = RegInviteOnly \<and> \<not> boot
           then out = (Inl (PlainError ''Registration is currently invite-only''), d)
           else
             (let pend = (tc_registration (te_cfg E) = RegApproval \<and> \<not> boot) in
              db_users (snd out) = db_users d @
                [\<lparr>u_id = te_uuid E 0, u_email = normalize_email email, u_hash = te_hash E password,
                  u_name = name, u_role = (if boot then RoleAdmin else RoleUser),
                  u_status = (if pend then Pending else Active), u_created = te_now E\<rparr>]
              \<and> map s_user (db_sessions (snd out)) = map s_user (db_sessions d) @
                  (if pend then [] else [te_uuid E 0]))))"
proof (cases "user_by_email d (normalize_email email)")
  case None
  show ?thesis
    by (cases "is_bootstrap_admin (te_cfg E) (normalize_email email)"; cases "tc_registration (te_cfg E)")
      (simp_all add: None register_def login_def create_session_def Let_def members_only_default)
next
  case (Some u)
  then show ?thesis
    by (cases "u_status u") (auto simp: register_def login_def create_session_def Let_def)
qed

end
