(* ===== verification/Http.thy ===== *)
theory Http imports Teams Dispatcher begin

text \<open>
  What every route of \<open>backend/src/api/rest/router.ts\<close> starts from: the request, the answer, who
  the caller is and which role it has in a team, and how an error becomes a status.

  A handler takes the store and returns the answer with the store after it. What a handler throws
  reaches the central error handler of \<open>app.ts\<close> through \<open>asyncHandler\<close> (or the wrapper's
  \<open>run().catch(next)\<close>): \<open>unhandled\<close>. Values of \<open>req.query\<close> are whatever the query parser makes
  of the URL, a string, a list or an object, so they are JSON values here.
\<close>

section \<open>Requests and answers\<close>

record http_req =
  hr_auth :: "string option"
  hr_api_key :: "string option"
  hr_params :: "string \<Rightarrow> string"
  hr_query :: "string \<Rightarrow> json option"
  hr_body :: "json option"
  hr_ip :: "string option"

datatype 'b body = ErrorMsg string | RetryMsg string int | FlatError json | Payload 'b | NoBody

record 'b reply =
  re_status :: nat
  re_no_store :: bool
  re_body :: "'b body"

definition answer :: "nat \<Rightarrow> 'b body \<Rightarrow> 'b reply" where
  "answer st b = \<lparr>re_status = st, re_no_store = False, re_body = b\<rparr>"

definition refuse :: "nat \<Rightarrow> string \<Rightarrow> 'b reply" where
  "refuse st msg = answer st (ErrorMsg msg)"

definition unhandled :: "error \<Rightarrow> 'b reply" where
  "unhandled e = refuse 500 ''Internal server error''"

text \<open>\<open>res.set("Cache-Control", "no-store")\<close>, set before anything else the handler does.\<close>

definition no_store :: "'b reply \<Rightarrow> 'b reply" where
  "no_store r = r\<lparr>re_no_store := True\<rparr>"

text \<open>\<open>String(req.query.key ?? "")\<close>, and the value when it is a string.\<close>

definition query_text :: "js_lib \<Rightarrow> http_req \<Rightarrow> string \<Rightarrow> string" where
  "query_text L q k = (case hr_query q k of None \<Rightarrow> [] | Some JNull \<Rightarrow> [] | Some v \<Rightarrow> to_text L v)"

definition query_string :: "http_req \<Rightarrow> string \<Rightarrow> string option" where
  "query_string q k = str_of (hr_query q k)"

section \<open>Who is calling\<close>

text \<open>\<^verbatim>\<open>/^Bearer\s+/i\<close>\<close>

definition bearer_re :: re where
  "bearer_re = seqs (Bol # map (\<lambda>c. Cls (\<lambda>x. lower_char x = c)) ''bearer'' @ [plus space])"

definition parse_token :: "string option \<Rightarrow> string option" where
  "parse_token header =
     (case header of
        None \<Rightarrow> None
      | Some h \<Rightarrow> if h = [] then None
                  else Some (case exec bearer_re h of None \<Rightarrow> h | Some q \<Rightarrow> fst (snd q)))"

definition session_user :: "millis \<Rightarrow> string \<Rightarrow> db \<Rightarrow> ident option" where
  "session_user t tok d =
     (case session_by_token d tok of
        None \<Rightarrow> None
      | Some s \<Rightarrow> if s_expires s < t then None else Some (s_user s))"

definition resolve_user_id :: "millis \<Rightarrow> http_req \<Rightarrow> db \<Rightarrow> ident option" where
  "resolve_user_id t q d =
     (case parse_token (hr_auth q) of None \<Rightarrow> None | Some tok \<Rightarrow> session_user t tok d)"

text \<open>The live stream also takes \<open>?token=\<close>, used when the header leaves no token.\<close>

definition resolve_stream_user_id :: "millis \<Rightarrow> http_req \<Rightarrow> db \<Rightarrow> ident option" where
  "resolve_stream_user_id t q d =
     (let header_token = parse_token (hr_auth q);
          token = (if truthy header_token then header_token else query_string q ''token'')
      in if truthy token then session_user t (the token) d else None)"

definition unauthorized :: "'b reply" where
  "unauthorized = refuse 401 ''Unauthorized''"

definition require_auth :: "millis \<Rightarrow> db \<Rightarrow> http_req \<Rightarrow> 'b reply + ident" where
  "require_auth t d q =
     (case resolve_user_id t q d of None \<Rightarrow> Inl unauthorized | Some u \<Rightarrow> Inr u)"

definition require_stream_auth :: "millis \<Rightarrow> db \<Rightarrow> http_req \<Rightarrow> 'b reply + ident" where
  "require_stream_auth t d q =
     (case resolve_stream_user_id t q d of None \<Rightarrow> Inl unauthorized | Some u \<Rightarrow> Inr u)"

definition require_admin :: "millis \<Rightarrow> db \<Rightarrow> http_req \<Rightarrow> 'b reply + ident" where
  "require_admin t d q =
     (case resolve_user_id t q d of
        None \<Rightarrow> Inl unauthorized
      | Some u \<Rightarrow>
          (case user_by_id d u of
             None \<Rightarrow> Inl (refuse 403 ''Admin access required'')
           | Some r \<Rightarrow> if u_role r \<noteq> RoleAdmin then Inl (refuse 403 ''Admin access required'') else Inr u))"

section \<open>Roles\<close>

definition resolve_team_role :: "ident \<Rightarrow> ident \<Rightarrow> db \<Rightarrow> team_role option" where
  "resolve_team_role user team d = map_option m_role (membership d team user)"

definition forbidden :: "'b reply" where
  "forbidden = refuse 403 ''Forbidden''"

definition require_team_role :: "ident \<Rightarrow> ident \<Rightarrow> string option \<Rightarrow> db \<Rightarrow> 'b reply + team_role" where
  "require_team_role user team non_member_not_found d =
     (case resolve_team_role user team d of
        Some r \<Rightarrow> Inr r
      | None \<Rightarrow>
          (case non_member_not_found of
             Some msg \<Rightarrow> Inl (refuse 404 msg)
           | None \<Rightarrow> Inl forbidden))"

definition can_write :: "team_role \<Rightarrow> bool" where
  "can_write r \<longleftrightarrow> r = Owner \<or> r = Admin \<or> r = Member"

definition can_see_source_keys :: "team_role \<Rightarrow> bool" where
  "can_see_source_keys r \<longleftrightarrow> r = Owner \<or> r = Admin"

definition can_manage_sources :: "team_role \<Rightarrow> bool" where
  "can_manage_sources r \<longleftrightarrow> r = Owner \<or> r = Admin"

definition can_manage_invites :: "team_role \<Rightarrow> bool" where
  "can_manage_invites r \<longleftrightarrow> r = Owner \<or> r = Admin"

definition can_manage_shared :: "team_role \<Rightarrow> bool" where
  "can_manage_shared r \<longleftrightarrow> r = Owner \<or> r = Admin"

definition require_team_write_role ::
  "db \<Rightarrow> ident \<Rightarrow> ident \<Rightarrow> string option \<Rightarrow> 'b reply + team_role" where
  "require_team_write_role d user team non_member_not_found =
     (case require_team_role user team non_member_not_found d of
        Inl r \<Rightarrow> Inl r
      | Inr role \<Rightarrow> if \<not> can_write role then Inl forbidden else Inr role)"

definition require_resource_team ::
  "(ident \<Rightarrow> db \<Rightarrow> ident option) \<Rightarrow> string \<Rightarrow> ident \<Rightarrow> ident \<Rightarrow> db \<Rightarrow> 'b reply + ident" where
  "require_resource_team load_team_id msg i user d =
     (case load_team_id i d of
        None \<Rightarrow> Inl (refuse 404 msg)
      | Some team \<Rightarrow>
          (case require_team_role user team (Some msg) d of
             Inl r \<Rightarrow> Inl r
           | Inr role \<Rightarrow> Inr team))"

section \<open>Errors as answers\<close>

definition handle_prisma_error :: "string option \<Rightarrow> string option \<Rightarrow> error \<Rightarrow> 'b reply option" where
  "handle_prisma_error not_found conflict e =
     (case e of
        RecordNotFound \<Rightarrow> Some (refuse 404 (the_or ''Not found'' not_found))
      | UniqueViolation \<Rightarrow> Some (refuse 409 (the_or ''Conflict'' conflict))
      | _ \<Rightarrow> None)"

definition handle_service_error :: "error \<Rightarrow> 'b reply option" where
  "handle_service_error e =
     (case e of
        NotFoundError m \<Rightarrow> Some (refuse 404 m)
      | ForbiddenError m \<Rightarrow> Some (refuse 403 m)
      | ConflictError m \<Rightarrow> Some (refuse 409 m)
      | _ \<Rightarrow> None)"

text \<open>\<open>if (handle(error, res)) return; throw error;\<close>\<close>

definition or_throw :: "(error \<Rightarrow> 'b reply option) \<Rightarrow> error \<Rightarrow> 'b reply" where
  "or_throw handle e = (case handle e of Some r \<Rightarrow> r | None \<Rightarrow> unhandled e)"

text \<open>
  The shape most handlers end in: a service call on the store, \<open>ok\<close> of its result, or an answer
  for its error.
\<close>

definition settle ::
  "('a \<Rightarrow> 'b reply) \<Rightarrow> (error \<Rightarrow> 'b reply) \<Rightarrow> (error + 'a) \<times> db \<Rightarrow> 'b reply \<times> db" where
  "settle ok bad r = (case r of (Inr x, d) \<Rightarrow> (ok x, d) | (Inl e, d) \<Rightarrow> (bad e, d))"

lemma snd_settle [simp]: "snd (settle ok bad r) = snd r"
  by (cases r) (auto simp: settle_def split: sum.splits)

text \<open>\<open>error instanceof Error ? error.message : "Failed"\<close>; \<open>prisma_text\<close> is Prisma's own message.\<close>

definition message_of :: "(error \<Rightarrow> string) \<Rightarrow> error \<Rightarrow> string" where
  "message_of prisma_text e =
     (case e of
        NotFoundError m \<Rightarrow> m | ForbiddenError m \<Rightarrow> m | ConflictError m \<Rightarrow> m | PlainError m \<Rightarrow> m
      | _ \<Rightarrow> prisma_text e)"

section \<open>Rate limits\<close>

definition ceil_div :: "int \<Rightarrow> int \<Rightarrow> int" where
  "ceil_div a b = - ((- a) div b)"

definition retry_after_seconds :: "millis \<Rightarrow> millis option \<Rightarrow> int \<Rightarrow> int" where
  "retry_after_seconds t reset_time window_ms =
     (case reset_time of
        Some r \<Rightarrow> max 1 (ceil_div (r - t) 1000)
      | None \<Rightarrow> ceil_div window_ms 1000)"

definition rate_limit_handler :: "string \<Rightarrow> int \<Rightarrow> millis \<Rightarrow> millis option \<Rightarrow> 'b reply" where
  "rate_limit_handler message window_ms t reset_time =
     answer 429 (RetryMsg message (retry_after_seconds t reset_time window_ms))"

definition per_user_key :: "(string \<Rightarrow> string) \<Rightarrow> ident option \<Rightarrow> http_req \<Rightarrow> string" where
  "per_user_key ip_key user q =
     (case user of
        Some u \<Rightarrow> if u = [] then ip_key (the_or ''unknown'' (hr_ip q)) else ''user:'' @ u
      | None \<Rightarrow> ip_key (the_or ''unknown'' (hr_ip q)))"

section \<open>Facts\<close>

lemmas auth_defs = require_auth_def require_stream_auth_def require_admin_def

lemma require_auth_ok: "require_auth t d q = Inr u \<longleftrightarrow> resolve_user_id t q d = Some u"
  by (simp add: require_auth_def split: option.splits)

lemma require_auth_fails: "require_auth t d q = Inl r \<longleftrightarrow> resolve_user_id t q d = None \<and> r = unauthorized"
  by (auto simp: require_auth_def split: option.splits)

lemma require_team_role_ok: "require_team_role u t nf d = Inr r \<longleftrightarrow> resolve_team_role u t d = Some r"
  by (auto simp: require_team_role_def split: option.splits)

lemma require_team_write_role_ok:
  "require_team_write_role d u t nf = Inr r \<longleftrightarrow> resolve_team_role u t d = Some r \<and> can_write r"
  by (auto simp: require_team_write_role_def require_team_role_ok split: sum.splits)
     (auto simp: require_team_role_def split: option.splits)

lemma can_write_iff: "can_write r \<longleftrightarrow> r \<noteq> Viewer"
  by (cases r) (auto simp: can_write_def)

text \<open>Only a known, unexpired session names a caller, and the one it was made for.\<close>

lemma resolve_user_idD:
  "resolve_user_id t q d = Some u \<Longrightarrow>
   \<exists>s \<in> set (db_sessions d). parse_token (hr_auth q) = Some (s_token s) \<and> s_user s = u \<and> t \<le> s_expires s"
  by (auto simp: resolve_user_id_def session_user_def session_by_token_def
      split: option.splits if_splits dest!: find_SomeD)

lemma retry_after_positive: "0 < w \<Longrightarrow> 1 \<le> retry_after_seconds t r w"
proof (cases r)
  case None
  assume "0 < w"
  then have "(- w) div 1000 < 0" by (simp add: pos_imp_zdiv_neg_iff)
  with None show ?thesis by (simp add: retry_after_seconds_def ceil_div_def)
qed (simp add: retry_after_seconds_def)

end
