(* ===== verification/WriteRoute.thy ===== *)
theory WriteRoute imports Http begin

text \<open>
  \<open>backend/src/api/rest/write-route.ts\<close>: the one way a team-scoped mutating route is registered.
  The wrapper authenticates, resolves the team the request acts on, applies the team write gate
  and only then runs the handler. Its collaborators are arguments, as in \<open>createWriteRoute\<close>; the
  locale \<open>write_gate\<close> states what the wrapper relies on, and its lemmas hold for every handler.
\<close>

section \<open>The wrapper\<close>

record 'i team_target =
  tg_team :: ident
  tg_input :: 'i
  tg_not_found :: "string option"

record 'i write_context =
  wc_req :: http_req
  wc_user :: ident
  wc_team :: ident
  wc_role :: team_role
  wc_input :: 'i

definition write_route ::
  "('s \<Rightarrow> http_req \<Rightarrow> 'b reply + ident) \<Rightarrow>
   ('s \<Rightarrow> ident \<Rightarrow> ident \<Rightarrow> string option \<Rightarrow> 'b reply + team_role) \<Rightarrow>
   ('s \<Rightarrow> http_req \<Rightarrow> 'b reply + 'i team_target) \<Rightarrow>
   ('i write_context \<Rightarrow> 's \<Rightarrow> 'b reply \<times> 's) \<Rightarrow> http_req \<Rightarrow> 's \<Rightarrow> 'b reply \<times> 's" where
  "write_route auth gate resolve_team handler q s =
     (case auth s q of
        Inl r \<Rightarrow> (r, s)
      | Inr user \<Rightarrow>
          (case resolve_team s q of
             Inl r \<Rightarrow> (r, s)
           | Inr target \<Rightarrow>
               (case gate s user (tg_team target) (tg_not_found target) of
                  Inl r \<Rightarrow> (r, s)
                | Inr role \<Rightarrow>
                    handler \<lparr>wc_req = q, wc_user = user, wc_team = tg_team target, wc_role = role,
                             wc_input = tg_input target\<rparr> s)))"

text \<open>A body schema is a function from the body to its flattened error or the validated input.\<close>

type_synonym 'i body_schema = "json option \<Rightarrow> json + 'i"

definition team_from_body ::
  "'i body_schema \<Rightarrow> ('i \<Rightarrow> ident) \<Rightarrow> 's \<Rightarrow> http_req \<Rightarrow> 'b reply + 'i team_target" where
  "team_from_body schema team_of s q =
     (case schema (hr_body q) of
        Inl e \<Rightarrow> Inl (answer 400 (FlatError e))
      | Inr i \<Rightarrow> Inr \<lparr>tg_team = team_of i, tg_input = i, tg_not_found = None\<rparr>)"

definition team_from_resource ::
  "(ident \<Rightarrow> 's \<Rightarrow> ident option) \<Rightarrow> string \<Rightarrow> 'i body_schema \<Rightarrow> 's \<Rightarrow> http_req \<Rightarrow>
   'b reply + 'i team_target" where
  "team_from_resource load_team_id not_found_message schema s q =
     (case schema (hr_body q) of
        Inl e \<Rightarrow> Inl (answer 400 (FlatError e))
      | Inr i \<Rightarrow>
          (case load_team_id (hr_params q ''id'') s of
             None \<Rightarrow> Inl (refuse 404 not_found_message)
           | Some team \<Rightarrow>
               Inr \<lparr>tg_team = team, tg_input = i, tg_not_found = Some not_found_message\<rparr>))"

text \<open>Without a body schema \<open>input\<close> is \<open>undefined\<close> and nothing of the body is looked at.\<close>

definition no_schema :: "unit body_schema" where
  "no_schema b = Inr ()"

section \<open>What the gate guarantees\<close>

locale write_gate =
  fixes auth :: "'s \<Rightarrow> http_req \<Rightarrow> 'b reply + ident"
    and gate :: "'s \<Rightarrow> ident \<Rightarrow> ident \<Rightarrow> string option \<Rightarrow> 'b reply + team_role"
    and role_of :: "'s \<Rightarrow> ident \<Rightarrow> ident \<Rightarrow> team_role option"
    and may_write :: "team_role \<Rightarrow> bool"
  assumes gate_passes: "gate s u t nf = Inr r \<longleftrightarrow> role_of s u t = Some r \<and> may_write r"
    and gate_stranger: "role_of s u t = None \<Longrightarrow> gate s u t (Some m) = Inl (refuse 404 m)"
begin

text \<open>The handler has run only for an authenticated member whose role may write.\<close>

lemma handled:
  assumes "write_route auth gate resolve h q s = (r, s')" and "s' \<noteq> s"
  obtains user target role where "auth s q = Inr user" and "resolve s q = Inr target"
    and "role_of s user (tg_team target) = Some role" and "may_write role"
    and "h \<lparr>wc_req = q, wc_user = user, wc_team = tg_team target, wc_role = role,
            wc_input = tg_input target\<rparr> s = (r, s')"
  using assms by (auto simp: write_route_def gate_passes split: sum.splits)

lemma untouched:
  assumes "\<And>u target role. auth s q = Inr u \<Longrightarrow> resolve s q = Inr target \<Longrightarrow>
      role_of s u (tg_team target) = Some role \<Longrightarrow> \<not> may_write role"
  shows "snd (write_route auth gate resolve h q s) = s"
  using assms by (fastforce simp: write_route_def gate_passes split: sum.splits)

lemma unauthenticated:
  "auth s q = Inl r \<Longrightarrow> write_route auth gate resolve h q s = (r, s)"
  by (simp add: write_route_def)

text \<open>A resource of another team answers like one that does not exist.\<close>

lemma no_oracle:
  assumes "auth s q = Inr u" and "schema (hr_body q) = Inr i"
    and "case load (hr_params q ''id'') s of None \<Rightarrow> True | Some t \<Rightarrow> role_of s u t = None"
  shows "write_route auth gate (team_from_resource load m schema) h q s = (refuse 404 m, s)"
  using assms
  by (auto simp: write_route_def team_from_resource_def gate_stranger split: option.splits)

text \<open>What a property of every reply and change has to look at: the three refusals, or the handler.\<close>

lemma outcome:
  "write_route auth gate resolve h q s = (r, s') \<Longrightarrow>
   (s' = s \<and> (auth s q = Inl r \<or> resolve s q = Inl r
      \<or> (\<exists>u target. auth s q = Inr u \<and> resolve s q = Inr target
            \<and> gate s u (tg_team target) (tg_not_found target) = Inl r)))
   \<or> (\<exists>u target role. auth s q = Inr u \<and> resolve s q = Inr target
        \<and> role_of s u (tg_team target) = Some role \<and> may_write role
        \<and> h \<lparr>wc_req = q, wc_user = u, wc_team = tg_team target, wc_role = role,
             wc_input = tg_input target\<rparr> s = (r, s'))"
  by (auto simp: write_route_def gate_passes split: sum.splits)

end

text \<open>The router's own gate, \<open>createWriteRoute({ router, requireAuth, requireTeamWriteRole })\<close>.\<close>

interpretation gate: write_gate "require_auth t" require_team_write_role
    "\<lambda>d user team. resolve_team_role user team d" can_write
  for t
proof
  show "(require_team_write_role s u tm nf = Inr r)
      = (resolve_team_role u tm s = Some r \<and> can_write r)" for s u tm nf r
    by (rule require_team_write_role_ok)
  show "resolve_team_role u tm s = None \<Longrightarrow> require_team_write_role s u tm (Some m) = Inl (refuse 404 m)"
    for s u tm m
    by (simp add: require_team_write_role_def require_team_role_def)
qed

end
