(* ===== verification/Domain.thy ===== *)
theory Domain imports JsLib begin

text \<open>The shared types of \<open>backend/src/types/domain.ts\<close>: the log entry and what a query is made of.\<close>

datatype query_type = Sql | Natural

datatype log_format = FJson | Rfc3164 | Rfc5424 | Plain

datatype log_level = LDebug | LInfo | LWarn | LError | LFatal

fun level_str :: "log_level \<Rightarrow> string" where
  "level_str LDebug = ''debug''"
| "level_str LInfo = ''info''"
| "level_str LWarn = ''warn''"
| "level_str LError = ''error''"
| "level_str LFatal = ''fatal''"

text \<open>
  A log entry. \<open>le_fields\<close> is a JSON value: the parser stores whatever object (or array) the
  sender put there.
\<close>

record log_entry =
  le_id :: ident
  le_team :: ident
  le_source :: ident
  le_timestamp :: string
  le_level :: log_level
  le_service :: string
  le_host :: string
  le_message :: string
  le_fields :: json

datatype filter_op = OpEq | OpNeq | OpGt | OpLt | OpContains

datatype filter_value = VStr string | VNum jnum

record log_filter =
  f_field :: string
  f_op :: filter_op
  f_value :: filter_value

definition level_of_str :: "string \<Rightarrow> log_level option" where
  "level_of_str s =
     (if s = ''debug'' then Some LDebug
      else if s = ''info'' then Some LInfo
      else if s = ''warn'' then Some LWarn
      else if s = ''error'' then Some LError
      else if s = ''fatal'' then Some LFatal
      else None)"

lemma level_of_str_level_str [simp]: "level_of_str (level_str l) = Some l"
  by (cases l) (simp_all add: level_of_str_def)

lemma level_of_str_Some: "level_of_str s = Some l \<Longrightarrow> s = level_str l"
  unfolding level_of_str_def by (simp split: if_split_asm)

lemma level_of_str_None:
  "level_of_str s = None \<Longrightarrow>
   s \<noteq> ''debug'' \<and> s \<noteq> ''info'' \<and> s \<noteq> ''warn'' \<and> s \<noteq> ''error'' \<and> s \<noteq> ''fatal''"
  unfolding level_of_str_def by (simp split: if_split_asm)

lemma level_str_inj: "level_str a = level_str b \<Longrightarrow> a = b"
  by (metis level_of_str_level_str option.inject)

end
