(* ===== verification/LogParser.thy ===== *)
theory LogParser imports Domain begin

text \<open>
  \<open>backend/src/parser/log-parser.ts\<close>: format detection and the four parsers. \<open>ulid k\<close> is the id
  \<open>generateLogId\<close> returns for the \<open>k\<close>-th entry of one raw string, \<open>now\<close> is \<open>Date.now()\<close> and
  \<open>year\<close> is \<open>new Date().getFullYear()\<close>. What the code throws is \<open>Inl\<close> of the error's message.
\<close>

section \<open>Patterns\<close>

text \<open>\<^verbatim>\<open>/^<\d+>([A-Z][a-z]{2}\s+\d+\s[\d:]+)\s(\S+)\s([^:]+):\s?(.*)$/\<close>\<close>

definition rfc3164_pattern :: re where
  "rfc3164_pattern = seqs
     [Bol, chr CHR ''<'', plus digit, chr CHR ''>'',
      Grp 1 (seqs [Cls is_upper, rtimes 2 (Cls is_lower), plus space, plus digit, space,
                   plus (Cls (\<lambda>c. is_digit c \<or> c = CHR '':''))]),
      space, Grp 2 (plus nonspace), space, Grp 3 (plus (Cls (\<lambda>c. c \<noteq> CHR '':''))),
      chr CHR '':'', opt space, Grp 4 (Star dot), Eol]"

text \<open>\<^verbatim>\<open>/^<\d+>1\s([^\s]+)\s([^\s]+)\s([^\s]+)\s([^\s]+)\s([^\s]+)\s-?\s?(.*)$/\<close>\<close>

definition rfc5424_pattern :: re where
  "rfc5424_pattern = seqs
     [Bol, chr CHR ''<'', plus digit, chr CHR ''>'', chr CHR ''1'', space,
      Grp 1 (plus nonspace), space, Grp 2 (plus nonspace), space, Grp 3 (plus nonspace), space,
      Grp 4 (plus nonspace), space, Grp 5 (plus nonspace), space,
      opt (chr CHR ''-''), opt space, Grp 6 (Star dot), Eol]"

section \<open>Levels and formats\<close>

definition normalize_level :: "string option \<Rightarrow> log_level" where
  "normalize_level input =
     (let value = lower (the_or ''info'' input) in
      case level_of_str value of
        Some l \<Rightarrow> l
      | None \<Rightarrow>
          if str_includes value ''err'' then LError
          else if str_includes value ''warning'' then LWarn
          else LInfo)"

definition detect_format :: "string \<Rightarrow> log_format" where
  "detect_format sample =
     (let trimmed = trim sample in
      if starts_with ''{'' trimmed \<or> starts_with ''['' trimmed then FJson
      else if test rfc5424_pattern trimmed then Rfc5424
      else if test rfc3164_pattern trimmed then Rfc3164
      else Plain)"

section \<open>Parsing\<close>

record parse_env =
  pe_lib :: js_lib
  pe_now :: millis
  pe_year :: nat
  pe_ulid :: "nat \<Rightarrow> ident"

definition parse_plain :: "parse_env \<Rightarrow> string \<Rightarrow> ident \<Rightarrow> ident \<Rightarrow> log_entry" where
  "parse_plain E raw team source =
     \<lparr>le_id = pe_ulid E 0, le_team = team, le_source = source,
      le_timestamp = date_iso (pe_lib E) (pe_now E),
      le_level = normalize_level (Some raw), le_service = ''unknown'', le_host = ''unknown'',
      le_message = raw, le_fields = JObj []\<rparr>"

definition parse_rfc3164 :: "parse_env \<Rightarrow> string \<Rightarrow> ident \<Rightarrow> ident \<Rightarrow> string + log_entry" where
  "parse_rfc3164 E raw team source =
     (case exec rfc3164_pattern raw of
        None \<Rightarrow> Inr (parse_plain E raw team source)
      | Some m \<Rightarrow>
          (case iso_of (pe_lib E) (nat_str (pe_year E) @ '' '' @ cap 1 m @ '' UTC'') of
             Inl e \<Rightarrow> Inl e
           | Inr ts \<Rightarrow> Inr
               \<lparr>le_id = pe_ulid E 0, le_team = team, le_source = source, le_timestamp = ts,
                le_level = normalize_level (Some (cap 4 m)), le_service = cap 3 m,
                le_host = cap 2 m, le_message = cap 4 m, le_fields = JObj []\<rparr>))"

definition parse_rfc5424 :: "parse_env \<Rightarrow> string \<Rightarrow> ident \<Rightarrow> ident \<Rightarrow> string + log_entry" where
  "parse_rfc5424 E raw team source =
     (case exec rfc5424_pattern raw of
        None \<Rightarrow> Inr (parse_plain E raw team source)
      | Some m \<Rightarrow>
          (case iso_of (pe_lib E) (cap 1 m) of
             Inl e \<Rightarrow> Inl e
           | Inr ts \<Rightarrow> Inr
               \<lparr>le_id = pe_ulid E 0, le_team = team, le_source = source, le_timestamp = ts,
                le_level = normalize_level (Some (cap 6 m)), le_service = cap 3 m,
                le_host = cap 2 m, le_message = cap 6 m, le_fields = JObj []\<rparr>))"

text \<open>
  One element of a JSON text. A \<open>null\<close> element throws on the first property access; on a number,
  a string, a boolean or an array every property is \<open>undefined\<close>.
\<close>

definition json_entry ::
  "parse_env \<Rightarrow> ident \<Rightarrow> ident \<Rightarrow> nat \<Rightarrow> json \<Rightarrow> string + log_entry" where
  "json_entry E team source k v =
     (if v = JNull then Inl ''Cannot read properties of null (reading 'timestamp')''
      else
        (case (case str_of (field ''timestamp'' v) of
                 Some s \<Rightarrow> iso_of (pe_lib E) s
               | None \<Rightarrow> Inr (date_iso (pe_lib E) (pe_now E))) of
           Inl e \<Rightarrow> Inl e
         | Inr ts \<Rightarrow> Inr
             \<lparr>le_id = pe_ulid E k, le_team = team, le_source = source, le_timestamp = ts,
              le_level = normalize_level (str_of (field ''level'' v)),
              le_service = the_or ''unknown'' (str_of (field ''service'' v)),
              le_host = the_or ''unknown'' (str_of (field ''host'' v)),
              le_message = (case str_of (field ''message'' v) of
                              Some s \<Rightarrow> s | None \<Rightarrow> json_stringify (pe_lib E) v),
              le_fields = (case field ''fields'' v of
                             Some (JObj kvs) \<Rightarrow> JObj kvs
                           | Some (JArr vs) \<Rightarrow> JArr vs
                           | _ \<Rightarrow> JObj [])\<rparr>))"

definition parse_json :: "parse_env \<Rightarrow> string \<Rightarrow> ident \<Rightarrow> ident \<Rightarrow> string + log_entry list" where
  "parse_json E raw team source =
     (case json_parse (pe_lib E) raw of
        Inl e \<Rightarrow> Inl e
      | Inr parsed \<Rightarrow>
          traverse (json_entry E team source) 0 (case parsed of JArr vs \<Rightarrow> vs | v \<Rightarrow> [v]))"

definition parse_raw ::
  "parse_env \<Rightarrow> string \<Rightarrow> log_format \<Rightarrow> ident \<Rightarrow> ident \<Rightarrow> string + log_entry list" where
  "parse_raw E raw format team source =
     (case format of
        FJson \<Rightarrow> parse_json E raw team source
      | Rfc3164 \<Rightarrow> map_sum id (\<lambda>e. [e]) (parse_rfc3164 E raw team source)
      | Rfc5424 \<Rightarrow> map_sum id (\<lambda>e. [e]) (parse_rfc5424 E raw team source)
      | Plain \<Rightarrow> Inr [parse_plain E raw team source])"

section \<open>Every parser stamps the tenant it was given\<close>

lemma parse_plain_tenant:
  "le_team (parse_plain E raw t s) = t \<and> le_source (parse_plain E raw t s) = s"
  by (simp add: parse_plain_def)

lemma parse_rfc3164_tenant:
  "parse_rfc3164 E raw t s = Inr e \<Longrightarrow> le_team e = t \<and> le_source e = s"
  by (auto simp: parse_rfc3164_def parse_plain_tenant split: option.splits sum.splits)

lemma parse_rfc5424_tenant:
  "parse_rfc5424 E raw t s = Inr e \<Longrightarrow> le_team e = t \<and> le_source e = s"
  by (auto simp: parse_rfc5424_def parse_plain_tenant split: option.splits sum.splits)

lemma json_entry_tenant: "json_entry E t s k v = Inr e \<Longrightarrow> le_team e = t \<and> le_source e = s"
  by (auto simp: json_entry_def split: if_splits sum.splits)

lemma parse_json_tenant:
  "parse_json E raw t s = Inr es \<Longrightarrow> e \<in> set es \<Longrightarrow> le_team e = t \<and> le_source e = s"
  by (auto simp: parse_json_def split: sum.splits dest!: traverse_set json_entry_tenant)

lemma parse_raw_stamps:
  "parse_raw E raw fmt t s = Inr es \<Longrightarrow> e \<in> set es \<Longrightarrow> le_team e = t \<and> le_source e = s"
  unfolding parse_raw_def
  by (cases fmt; cases "parse_rfc3164 E raw t s"; cases "parse_rfc5424 E raw t s")
    (auto simp: parse_plain_tenant dest: parse_json_tenant parse_rfc3164_tenant parse_rfc5424_tenant)

section \<open>Well-formed RFC 5424 lines\<close>

definition rfc5424_line ::
  "string \<Rightarrow> string \<Rightarrow> string \<Rightarrow> string \<Rightarrow> string \<Rightarrow> string \<Rightarrow> string \<Rightarrow> string" where
  "rfc5424_line pri ts host app pid mid msg =
     ''<'' @ pri @ ''>1 '' @ ts @ '' '' @ host @ '' '' @ app @ '' '' @ pid @ '' '' @ mid @ '' - '' @ msg"

definition token :: "string \<Rightarrow> bool" where
  "token s \<longleftrightarrow> s \<noteq> [] \<and> list_all (\<lambda>c. \<not> is_space c) s"

definition one_line :: "string \<Rightarrow> bool" where
  "one_line s \<longleftrightarrow> list_all cls_any s"

definition digits :: "string \<Rightarrow> bool" where
  "digits s \<longleftrightarrow> s \<noteq> [] \<and> list_all is_digit s"

text \<open>A token followed by a blank, captured.\<close>

lemma leads_token:
  assumes "token w"
    and "leads r (CHR '' '' # rev w @ b, rest, (k, w) # g) q"
  shows "leads (Seq (Grp k (plus nonspace)) (Seq space r)) (b, w @ CHR '' '' # rest, g) q"
proof -
  have sp: "is_space CHR '' ''" by (simp add: is_space_def code_def)
  have "leads (plus nonspace) (b, w @ CHR '' '' # rest, g) (rev w @ b, CHR '' '' # rest, g)"
    using assms(1) sp unfolding nonspace_def token_def
    by (intro leads_plus_run) (auto simp: list_all_iff stops_def)
  then have "leads (Grp k (plus nonspace)) (b, w @ CHR '' '' # rest, g)
      (rev w @ b, CHR '' '' # rest, (k, w) # g)"
    by (drule_tac k = k in leads_Grp) simp
  moreover have "leads space (rev w @ b, CHR '' '' # rest, (k, w) # g)
      (CHR '' '' # rev w @ b, rest, (k, w) # g)"
    unfolding space_def by (rule leads_Cls) (rule sp)
  ultimately show ?thesis using assms(2) by (blast intro: leads_Seq)
qed

lemma leads_rest_of_line:
  assumes "one_line w"
  shows "leads (Seq (Grp k (Star dot)) Eol) (b, w, g) (rev w @ b, [], (k, w) # g)"
proof -
  have "leads (Star dot) (b, w @ [], g) (rev w @ b, [], g)"
    using assms unfolding dot_def one_line_def
    by (intro leads_Star_run) (auto simp: list_all_iff stops_def)
  then have "leads (Grp k (Star dot)) (b, w, g) (rev w @ b, [], (k, w) # g)"
    by (drule_tac k = k in leads_Grp) simp
  then show ?thesis by (blast intro: leads_Seq leads_Eol)
qed

lemma rfc5424_pattern_line:
  assumes "digits pri" and "token ts" "token host" "token app" "token pid" "token mid"
    and "one_line msg"
  shows "\<exists>b. exec rfc5424_pattern (rfc5424_line pri ts host app pid mid msg)
    = Some (b, [], [(6, msg), (5, mid), (4, pid), (3, app), (2, host), (1, ts)])"
proof -
  have gt: "\<not> is_digit CHR ''>''" by (simp add: is_digit_def code_def)
  have sp: "is_space CHR '' ''" by (simp add: is_space_def code_def)
  have lt: "leads (chr c) (b, c # cs, g) (c # b, cs, g)" for c b cs g by (rule leads_chr)
  have dig: "leads (plus digit) (b, pri @ CHR ''>'' # r, g) (rev pri @ b, CHR ''>'' # r, g)" for b r g
    using assms(1) gt unfolding digit_def digits_def
    by (intro leads_plus_run) (auto simp: list_all_iff stops_def)
  have spc: "leads space (b, CHR '' '' # r, g) (CHR '' '' # b, r, g)" for b r g
    unfolding space_def by (rule leads_Cls) (rule sp)
  have odash: "leads (opt (chr CHR ''-'')) (b, CHR ''-'' # r, g) (CHR ''-'' # b, r, g)" for b r g
    unfolding opt_def by (rule leads_Alt1) (rule lt)
  have osp: "leads (opt space) (b, CHR '' '' # r, g) (CHR '' '' # b, r, g)" for b r g
    unfolding opt_def by (rule leads_Alt1) (rule spc)
  have "\<exists>b. leads rfc5424_pattern ([], rfc5424_line pri ts host app pid mid msg, [])
      (b, [], [(6, msg), (5, mid), (4, pid), (3, app), (2, host), (1, ts)])"
    unfolding rfc5424_pattern_def rfc5424_line_def seqs.simps append.simps append_assoc
    by (rule exI)
      (intro leads_Seq [OF leads_Bol] leads_Seq [OF lt] leads_Seq [OF dig] leads_token
        leads_Seq [OF spc] leads_Seq [OF odash] leads_Seq [OF osp] assms,
       rule leads_rest_of_line, rule assms)
  then show ?thesis by (blast intro: exec_leads)
qed

lemma detect_rfc5424_line:
  assumes "digits pri" and "token ts" "token host" "token app" "token pid" "token mid"
    and "one_line msg" and "msg \<noteq> []" and "\<not> is_space (last msg)"
  shows "detect_format (rfc5424_line pri ts host app pid mid msg) = Rfc5424"
proof -
  let ?l = "rfc5424_line pri ts host app pid mid msg"
  have "trim ?l = ?l"
    using assms(8,9) by (intro trim_id) (auto simp: rfc5424_line_def is_space_def code_def)
  moreover have "\<not> starts_with ''{'' ?l" "\<not> starts_with ''['' ?l"
    by (simp_all add: starts_with_def rfc5424_line_def)
  ultimately show ?thesis
    using rfc5424_pattern_line [OF assms(1-7)] by (auto simp: detect_format_def test_def)
qed

text \<open>a well-formed RFC 5424 line is recognised by the format detection and parsed into
  exactly its parts: the host, the application name and the message text are the ones sent, the
  timestamp is the sent one normalised, and the tenant is the one the caller resolved.\<close>

theorem rfc5424_line_parsed:
  assumes "digits pri" and "token ts" "token host" "token app" "token pid" "token mid"
    and "one_line msg" and "msg \<noteq> []" and "\<not> is_space (last msg)"
    and "date_parse (pe_lib E) ts = Some t"
  shows "parse_raw E (rfc5424_line pri ts host app pid mid msg)
      (detect_format (rfc5424_line pri ts host app pid mid msg)) team src
    = Inr [\<lparr>le_id = pe_ulid E 0, le_team = team, le_source = src,
            le_timestamp = date_iso (pe_lib E) t, le_level = normalize_level (Some msg),
            le_service = app, le_host = host, le_message = msg, le_fields = JObj []\<rparr>]"
proof -
  obtain b where "exec rfc5424_pattern (rfc5424_line pri ts host app pid mid msg)
      = Some (b, [], [(6, msg), (5, mid), (4, pid), (3, app), (2, host), (1, ts)])"
    using rfc5424_pattern_line [OF assms(1-7)] by blast
  then show ?thesis
    using assms(10)
    by (simp add: detect_rfc5424_line [OF assms(1-9)] parse_raw_def parse_rfc5424_def cap_def iso_of_def)
qed

definition sample_lib :: js_lib where
  "sample_lib = \<lparr>json_parse = (\<lambda>_. Inl ''Unexpected token''), json_stringify = (\<lambda>_. ''{}''),
     date_parse = (\<lambda>s. if s = [] then None else Some 0),
     date_iso = (\<lambda>_. ''1970-01-01T00:00:00.000Z''), num_str = (\<lambda>_. ''0'')\<rparr>"

definition sample_env :: parse_env where
  "sample_env = \<lparr>pe_lib = sample_lib, pe_now = 0, pe_year = 1970, pe_ulid = (\<lambda>_. ''id'')\<rparr>"

theorem rfc5424_line_parsed_witness:
  "parse_raw sample_env (rfc5424_line ''34'' ''2026-01-01T00:00:00Z'' ''web-1'' ''api'' ''77'' ''m1'' ''job failed'')
      (detect_format (rfc5424_line ''34'' ''2026-01-01T00:00:00Z'' ''web-1'' ''api'' ''77'' ''m1'' ''job failed''))
      ''team'' ''src''
    = Inr [\<lparr>le_id = ''id'', le_team = ''team'', le_source = ''src'',
            le_timestamp = ''1970-01-01T00:00:00.000Z'', le_level = normalize_level (Some ''job failed''),
            le_service = ''api'', le_host = ''web-1'', le_message = ''job failed'', le_fields = JObj []\<rparr>]"
  by (subst rfc5424_line_parsed [where t = 0])
    (simp_all add: sample_env_def sample_lib_def digits_def token_def one_line_def is_digit_def
      is_space_def cls_any_def code_def)

section \<open>Levels\<close>

text \<open>The level given to an entry. An entry is \<open>error\<close> exactly when its level text contains
  "err" in any case; \<open>warn\<close> when it is "warn" or contains "warning" and no "err"; \<open>debug\<close> and
  \<open>fatal\<close> only for exactly those words; everything else is \<open>info\<close>. A word of the enumeration is
  never changed, so storing a normalised level again is the identity.\<close>

theorem normalize_level_cases:
  "normalize_level (Some s) =
     (if str_includes (lower s) ''err'' then LError
      else if lower s = ''fatal'' then LFatal
      else if lower s = ''debug'' then LDebug
      else if lower s = ''warn'' \<or> str_includes (lower s) ''warning'' then LWarn
      else LInfo)
   \<and> normalize_level (Some (level_str (normalize_level (Some s)))) = normalize_level (Some s)
   \<and> normalize_level None = LInfo"
proof -
  have same: "normalize_level (Some (level_str l)) = l" for l
    by (cases l) (simp_all add: normalize_level_def lower_def lower_char_def is_upper_def code_def
        level_of_str_def)
  have "normalize_level (Some s) =
     (if str_includes (lower s) ''err'' then LError
      else if lower s = ''fatal'' then LFatal
      else if lower s = ''debug'' then LDebug
      else if lower s = ''warn'' \<or> str_includes (lower s) ''warning'' then LWarn
      else LInfo)"
  proof (cases "level_of_str (lower s)")
    case (Some l)
    then have "lower s = level_str l" by (rule level_of_str_Some)
    with Some show ?thesis
      by (cases l) (simp_all add: normalize_level_def starts_with_def)
  next
    case None
    then show ?thesis using level_of_str_None [OF None] by (simp add: normalize_level_def)
  qed
  moreover have "normalize_level None = LInfo" using same [of LInfo] by (simp add: normalize_level_def)
  ultimately show ?thesis using same by blast
qed

end
