(* ===== verification/Streaming.thy ===== *)
theory Streaming imports Issues Domain begin

text \<open>
  \<open>services/streaming/streaming-service.ts\<close>: live log streams over server-sent events. The bus is
  the ingestion service's \<open>EventEmitter\<close> together with the open responses: one listener per open
  connection, called in registration order. \<open>stringify\<close> is \<open>JSON.stringify\<close> of an entry.
\<close>

section \<open>Connections\<close>

record stream_filters =
  sf_source :: "string option"
  sf_service :: "string option"
  sf_host :: "string option"
  sf_level :: "string option"
  sf_query :: "string option"

record conn =
  cn_id :: nat
  cn_team :: ident
  cn_filters :: stream_filters
  cn_out :: "string list"

record bus =
  bus_open :: "conn list"
  bus_closed :: "conn list"
  bus_gauge :: int

text \<open>\<open>filter && value !== filter\<close>: an absent or empty filter lets everything through.\<close>

definition passes :: "string option \<Rightarrow> string \<Rightarrow> bool" where
  "passes f v \<longleftrightarrow> \<not> (truthy f \<and> v \<noteq> the f)"

definition on_log_accepts :: "ident \<Rightarrow> stream_filters \<Rightarrow> log_entry \<Rightarrow> bool" where
  "on_log_accepts team f e \<longleftrightarrow>
     (if le_team e \<noteq> team then False
      else if \<not> passes (sf_source f) (le_source e) then False
      else if \<not> passes (sf_service f) (le_service e) then False
      else if \<not> passes (sf_host f) (le_host e) then False
      else if \<not> passes (sf_level f) (level_str (le_level e)) then False
      else if truthy (sf_query f) then
        (let lowered = lower (the (sf_query f));
             haystack = lower (le_message e @ '' '' @ le_service e @ '' '' @ le_host e)
         in str_includes haystack lowered)
      else True)"

definition newline :: string where
  "newline = [CHR 10]"

definition log_frames :: "(log_entry \<Rightarrow> string) \<Rightarrow> log_entry \<Rightarrow> string list" where
  "log_frames stringify e =
     [''event: log:new'' @ newline, ''data: '' @ stringify e @ newline @ newline]"

definition ping_frames :: "string list" where
  "ping_frames = [''event: ping'' @ newline, ''data: {}'' @ newline @ newline]"

definition on_log :: "(log_entry \<Rightarrow> string) \<Rightarrow> log_entry \<Rightarrow> conn \<Rightarrow> conn" where
  "on_log stringify e c =
     (if on_log_accepts (cn_team c) (cn_filters c) e
      then c\<lparr>cn_out := cn_out c @ log_frames stringify e\<rparr> else c)"

section \<open>The bus\<close>

definition subscribe :: "nat \<Rightarrow> ident \<Rightarrow> stream_filters \<Rightarrow> bus \<Rightarrow> bus" where
  "subscribe i team f b =
     b\<lparr>bus_open := bus_open b @ [\<lparr>cn_id = i, cn_team = team, cn_filters = f, cn_out = []\<rparr>],
       bus_gauge := bus_gauge b + 1\<rparr>"

definition emit :: "(log_entry \<Rightarrow> string) \<Rightarrow> log_entry \<Rightarrow> bus \<Rightarrow> bus" where
  "emit stringify e b = b\<lparr>bus_open := map (on_log stringify e) (bus_open b)\<rparr>"

definition heartbeat :: "nat \<Rightarrow> bus \<Rightarrow> bus" where
  "heartbeat i b = b\<lparr>bus_open :=
     map (\<lambda>c. if cn_id c = i then c\<lparr>cn_out := cn_out c @ ping_frames\<rparr> else c) (bus_open b)\<rparr>"

text \<open>The function \<open>subscribe\<close> returns; the router calls it once, when the request closes.\<close>

definition unsubscribe :: "nat \<Rightarrow> bus \<Rightarrow> bus" where
  "unsubscribe i b =
     (case List.find (\<lambda>c. cn_id c = i) (bus_open b) of
        None \<Rightarrow> b
      | Some c \<Rightarrow> b\<lparr>bus_open := delete_first (\<lambda>c. cn_id c = i) (bus_open b),
                     bus_closed := bus_closed b @ [c], bus_gauge := bus_gauge b - 1\<rparr>)"

datatype bus_event =
    Subscribe nat ident stream_filters
  | Emit log_entry
  | Heartbeat nat
  | Unsubscribe nat

fun bus_step :: "(log_entry \<Rightarrow> string) \<Rightarrow> bus \<Rightarrow> bus_event \<Rightarrow> bus" where
  "bus_step st b (Subscribe i t f) = subscribe i t f b"
| "bus_step st b (Emit e) = emit st e b"
| "bus_step st b (Heartbeat i) = heartbeat i b"
| "bus_step st b (Unsubscribe i) = unsubscribe i b"

definition bus_run :: "(log_entry \<Rightarrow> string) \<Rightarrow> bus \<Rightarrow> bus_event list \<Rightarrow> bus" where
  "bus_run st b evs = foldl (bus_step st) b evs"

definition idle_bus :: bus where
  "idle_bus = \<lparr>bus_open = [], bus_closed = [], bus_gauge = 0\<rparr>"

section \<open>What a connection is sent\<close>

fun emitted :: "bus_event \<Rightarrow> log_entry list" where
  "emitted (Emit e) = [e]"
| "emitted _ = []"

text \<open>Everything written to a connection is a ping, or a frame of an entry it may see.\<close>

definition sent_ok :: "(log_entry \<Rightarrow> string) \<Rightarrow> log_entry set \<Rightarrow> conn \<Rightarrow> bool" where
  "sent_ok st es c \<longleftrightarrow>
     (\<forall>x \<in> set (cn_out c). x \<in> set ping_frames \<or>
        (\<exists>e \<in> es. on_log_accepts (cn_team c) (cn_filters c) e \<and> x \<in> set (log_frames st e)))"

definition bus_ok :: "(log_entry \<Rightarrow> string) \<Rightarrow> log_entry set \<Rightarrow> bus \<Rightarrow> bool" where
  "bus_ok st es b \<longleftrightarrow>
     (\<forall>c \<in> set (bus_open b) \<union> set (bus_closed b). sent_ok st es c)
     \<and> bus_gauge b = int (length (bus_open b))"

lemma accepts_team: "on_log_accepts t f e \<Longrightarrow> le_team e = t"
  by (simp add: on_log_accepts_def split: if_splits)

lemma sent_ok_mono: "sent_ok st es c \<Longrightarrow> es \<subseteq> es' \<Longrightarrow> sent_ok st es' c"
  unfolding sent_ok_def by blast

lemma sent_ok_on_log: "sent_ok st es c \<Longrightarrow> sent_ok st (insert e es) (on_log st e c)"
  by (auto simp: sent_ok_def on_log_def)

lemma sent_ok_ping: "sent_ok st es c \<Longrightarrow> sent_ok st es (c\<lparr>cn_out := cn_out c @ ping_frames\<rparr>)"
  by (auto simp: sent_ok_def)

lemma length_delete_first:
  "List.find P xs = Some x \<Longrightarrow> Suc (length (delete_first P xs)) = length xs"
  by (induction xs) (auto split: if_splits)

lemma bus_ok_step: "bus_ok st es b \<Longrightarrow> bus_ok st (set (emitted ev) \<union> es) (bus_step st b ev)"
proof (cases ev)
  case (Emit e)
  assume "bus_ok st es b"
  then show ?thesis using Emit
    by (auto simp: bus_ok_def emit_def intro: sent_ok_on_log sent_ok_mono)
next
  case (Unsubscribe i)
  assume "bus_ok st es b"
  then show ?thesis using Unsubscribe length_delete_first [of "\<lambda>c. cn_id c = i" "bus_open b"]
    by (auto simp: bus_ok_def unsubscribe_def split: option.splits
        dest: find_SomeD set_delete_first)
next
  case (Heartbeat i)
  assume "bus_ok st es b"
  then show ?thesis using Heartbeat by (auto simp: bus_ok_def heartbeat_def intro: sent_ok_ping)
qed (auto simp: bus_ok_def subscribe_def sent_ok_def)

lemma bus_ok_run:
  "bus_ok st es b \<Longrightarrow> bus_ok st (es \<union> set (concat (map emitted evs))) (bus_run st b evs)"
proof (induction evs arbitrary: es b)
  case (Cons ev evs)
  from Cons.IH [OF bus_ok_step [OF Cons.prems, of ev]] show ?case
    by (simp add: bus_run_def Un_ac)
qed (simp add: bus_run_def)

text \<open>live streams are confined to their team. Start with no connection and let connections
  open, close, be pinged and entries be emitted in any order: every frame ever written to a
  connection is a ping or a frame of an emitted entry of the connection's own team that passes
  all of its filters, and the connection gauge is the number of open connections.\<close>

theorem streams_confined_to_team:
  "list_all (\<lambda>c. list_all (\<lambda>x. x \<in> set ping_frames \<or>
        list_ex (\<lambda>e. le_team e = cn_team c \<and> on_log_accepts (cn_team c) (cn_filters c) e
                    \<and> x \<in> set (log_frames st e))
          (concat (map emitted evs)))
      (cn_out c))
    (bus_open (bus_run st idle_bus evs) @ bus_closed (bus_run st idle_bus evs))
   \<and> bus_gauge (bus_run st idle_bus evs) = int (length (bus_open (bus_run st idle_bus evs)))"
proof -
  have "bus_ok st {} idle_bus" by (simp add: bus_ok_def idle_bus_def)
  then have ok: "bus_ok st (set (concat (map emitted evs))) (bus_run st idle_bus evs)"
    using bus_ok_run [of st "{}" idle_bus evs] by simp
  then show ?thesis
    unfolding bus_ok_def sent_ok_def list_all_iff list_ex_iff set_append
    by (meson accepts_team)
qed

text \<open>An open stream misses nothing: what a burst of emitted entries adds, exactly and in order.\<close>

lemma emit_burst:
  "bus_open (bus_run st b (map Emit es)) =
     map (\<lambda>c. c\<lparr>cn_out := cn_out c @
       concat (map (log_frames st) (filter (on_log_accepts (cn_team c) (cn_filters c)) es))\<rparr>)
     (bus_open b)"
proof (induction es arbitrary: b)
  case (Cons e es)
  have "bus_open (bus_run st b (map Emit (e # es))) = bus_open (bus_run st (emit st e b) (map Emit es))"
    by (simp add: bus_run_def)
  also have "\<dots> = map (\<lambda>c. c\<lparr>cn_out := cn_out c @
       concat (map (log_frames st) (filter (on_log_accepts (cn_team c) (cn_filters c)) (e # es)))\<rparr>)
     (bus_open b)"
    unfolding Cons.IH by (simp add: emit_def on_log_def)
  finally show ?case .
qed (simp add: bus_run_def)

end
