(* ===== verification/Ingestion.thy ===== *)
theory Ingestion imports LogParser Streaming begin

text \<open>
  \<open>ingestion/ingestion-service.ts\<close> and \<open>cache/cache-service.ts\<close>. A batch is parsed item by item,
  what was accepted is inserted into ClickHouse, the team's cached dashboard is dropped, and
  every accepted entry is emitted on the bus and, when it is an error, tracked as an issue.
  ClickHouse is the list of the inserted entries; that its insert or Redis may throw is the
  environment's \<open>ie_insert\<close> and \<open>ie_redis\<close>.
\<close>

section \<open>The Redis cache\<close>

type_synonym redis = "string \<Rightarrow> (string \<times> millis) option"

text \<open>A key is served until its expiry; an unreadable value is a miss.\<close>

definition redis_get :: "millis \<Rightarrow> redis \<Rightarrow> string \<Rightarrow> string option" where
  "redis_get t r k = (case r k of None \<Rightarrow> None | Some (v, till) \<Rightarrow> if t < till then Some v else None)"

definition cache_get :: "js_lib \<Rightarrow> millis \<Rightarrow> redis \<Rightarrow> string \<Rightarrow> json option" where
  "cache_get L t r k =
     (case redis_get t r k of
        None \<Rightarrow> None
      | Some raw \<Rightarrow> if raw = [] then None
                   else (case json_parse L raw of Inl e \<Rightarrow> None | Inr v \<Rightarrow> Some v))"

definition cache_set :: "js_lib \<Rightarrow> millis \<Rightarrow> string \<Rightarrow> json \<Rightarrow> int \<Rightarrow> redis \<Rightarrow> redis" where
  "cache_set L t k v ttl r = r(k \<mapsto> (json_stringify L v, t + ttl * 1000))"

definition cache_invalidate :: "(string \<Rightarrow> string \<Rightarrow> bool) \<Rightarrow> string \<Rightarrow> redis \<Rightarrow> redis" where
  "cache_invalidate glob pattern r = (\<lambda>k. if glob pattern k then None else r k)"

section \<open>Payloads\<close>

record partial_entry =
  pa_timestamp :: "string option"
  pa_level :: "log_level option"
  pa_service :: "string option"
  pa_host :: "string option"
  pa_message :: "string option"
  pa_fields :: "json option"

datatype ingest_item = RawItem string | EntryItem partial_entry

record ingest_payload =
  pl_logs :: "ingest_item list"
  pl_format :: "log_format option"
  pl_batch :: "string option"

record ingest_env =
  ie_lib :: js_lib
  ie_now :: millis
  ie_year :: nat
  ie_ulid :: "nat \<Rightarrow> nat \<Rightarrow> ident"
  ie_uuid :: "nat \<Rightarrow> ident"
  ie_batch :: ident
  ie_sha :: "string \<Rightarrow> string"
  ie_glob :: "string \<Rightarrow> string \<Rightarrow> bool"
  ie_stringify :: "log_entry \<Rightarrow> string"
  ie_insert :: "log_entry list \<Rightarrow> string option"
  ie_redis :: "string option"

record ingest_state =
  ig_db :: db
  ig_logs :: "log_entry list"
  ig_cache :: redis
  ig_bus :: bus

record ingest_response =
  ir_accepted :: nat
  ir_rejected :: nat
  ir_errors :: "(nat \<times> string) list"
  ir_batch :: string

section \<open>One item\<close>

definition item_env :: "ingest_env \<Rightarrow> nat \<Rightarrow> parse_env" where
  "item_env E i =
     \<lparr>pe_lib = ie_lib E, pe_now = ie_now E, pe_year = ie_year E, pe_ulid = ie_ulid E i\<rparr>"

definition ingest_item ::
  "ingest_env \<Rightarrow> source_row \<Rightarrow> ident \<Rightarrow> log_format option \<Rightarrow> nat \<Rightarrow> ingest_item \<Rightarrow>
   string + log_entry list" where
  "ingest_item E source source_id fmt i item =
     (case item of
        RawItem s \<Rightarrow>
          parse_raw (item_env E i) s (the_or (detect_format s) fmt) (src_team source) source_id
      | EntryItem p \<Rightarrow> Inr
          [\<lparr>le_id = ie_ulid E i 0, le_team = src_team source, le_source = source_id,
            le_timestamp = the_or (date_iso (ie_lib E) (ie_now E)) (pa_timestamp p),
            le_level = the_or LInfo (pa_level p),
            le_service = the_or (src_name source) (pa_service p),
            le_host = the_or ''unknown'' (pa_host p),
            le_message = the_or [] (pa_message p),
            le_fields = the_or (JObj []) (pa_fields p)\<rparr>])"

text \<open>The \<open>forEach\<close>: accepted entries and errors are collected side by side.\<close>

fun collect ::
  "(nat \<Rightarrow> 'a \<Rightarrow> string + 'b list) \<Rightarrow> nat \<Rightarrow> 'a list \<Rightarrow> 'b list \<times> (nat \<times> string) list" where
  "collect f i [] = ([], [])"
| "collect f i (x # xs) =
     (let (acc, errs) = collect f (Suc i) xs in
      case f i x of Inl e \<Rightarrow> (acc, (i, e) # errs) | Inr ys \<Rightarrow> (ys @ acc, errs))"

definition is_error_level :: "log_level \<Rightarrow> bool" where
  "is_error_level l \<longleftrightarrow> l = LError \<or> l = LFatal"

text \<open>One accepted entry is emitted, then tracked; \<open>j\<close> is its position in the batch.\<close>

definition publish :: "ingest_env \<Rightarrow> nat \<Rightarrow> log_entry \<Rightarrow> ingest_state \<Rightarrow> ingest_state" where
  "publish E j e s =
     (let s1 = s\<lparr>ig_bus := emit (ie_stringify E) e (ig_bus s)\<rparr> in
      if is_error_level (le_level e)
      then s1\<lparr>ig_db := track_error (ie_sha E) \<lparr>now = ie_now E, uuid = ie_uuid E j\<rparr> (le_team e)
                 (level_str (le_level e)) (le_service e) (le_message e) (ig_db s1)\<rparr>
      else s1)"

fun publish_all :: "ingest_env \<Rightarrow> nat \<Rightarrow> log_entry list \<Rightarrow> ingest_state \<Rightarrow> ingest_state" where
  "publish_all E j [] s = s"
| "publish_all E j (e # es) s = publish_all E (Suc j) es (publish E j e s)"

definition dashboard_key :: "ident \<Rightarrow> string" where
  "dashboard_key team = ''dashboard:overview:'' @ team"

definition source_by_id :: "db \<Rightarrow> ident \<Rightarrow> source_row option" where
  "source_by_id d i = List.find (\<lambda>r. src_id r = i) (db_sources d)"

definition ingest ::
  "ingest_env \<Rightarrow> ident \<Rightarrow> ingest_payload \<Rightarrow> ingest_state \<Rightarrow>
   (error + ingest_response) \<times> ingest_state" where
  "ingest E source_id payload s =
     (case source_by_id (ig_db s) source_id of
        None \<Rightarrow> (Inl (PlainError ''Source not found''), s)
      | Some source \<Rightarrow>
          (let batch = the_or (ie_batch E) (pl_batch payload);
               (accepted, errors) = collect (ingest_item E source source_id (pl_format payload)) 0
                                      (pl_logs payload);
               response = \<lparr>ir_accepted = length accepted, ir_rejected = length errors,
                           ir_errors = errors, ir_batch = batch\<rparr>
           in if accepted = [] then (Inr response, s)
              else (case ie_insert E accepted of
                      Some msg \<Rightarrow> (Inl (PlainError msg), s)
                    | None \<Rightarrow>
                        (let s1 = s\<lparr>ig_logs := ig_logs s @ accepted\<rparr> in
                         case ie_redis E of
                           Some msg \<Rightarrow> (Inl (PlainError msg), s1)
                         | None \<Rightarrow>
                             (let s2 = s1\<lparr>ig_cache := cache_invalidate (ie_glob E)
                                           (dashboard_key (src_team source)) (ig_cache s1)\<rparr>
                              in (Inr response, publish_all E 0 accepted s2))))))"

section \<open>Accounting\<close>

lemma collect_errors:
  "snd (collect f i xs) =
     concat (map (\<lambda>(j, x). case f j x of Inl e \<Rightarrow> [(j, e)] | Inr ys \<Rightarrow> []) (zip [i ..< i + length xs] xs))"
  by (induction f i xs rule: collect.induct)
    (simp_all add: case_prod_beta Let_def upt_conv_Cons split: sum.splits del: upt_Suc)

lemma collect_accepted:
  "fst (collect f i xs) =
     concat (map (\<lambda>(j, x). case f j x of Inl e \<Rightarrow> [] | Inr ys \<Rightarrow> ys) (zip [i ..< i + length xs] xs))"
  by (induction f i xs rule: collect.induct)
    (simp_all add: case_prod_beta Let_def upt_conv_Cons split: sum.splits del: upt_Suc)

lemma collect_from: "y \<in> set (fst (collect f i xs)) \<Longrightarrow> \<exists>j x ys. x \<in> set xs \<and> f j x = Inr ys \<and> y \<in> set ys"
  by (induction f i xs rule: collect.induct)
    (fastforce simp: case_prod_beta Let_def split: sum.splits)+

lemma ingest_item_stamps:
  "ingest_item E source sid fmt i item = Inr es \<Longrightarrow> e \<in> set es \<Longrightarrow>
   le_team e = src_team source \<and> le_source e = sid"
  by (auto simp: ingest_item_def split: ingest_item.splits dest: parse_raw_stamps)

lemma collect_stamps:
  "e \<in> set (fst (collect (ingest_item E source sid fmt) i items)) \<Longrightarrow>
   le_team e = src_team source \<and> le_source e = sid"
  by (auto dest!: collect_from dest: ingest_item_stamps)

lemma publish_all_bus:
  "ig_bus (publish_all E j es s) = bus_run (ie_stringify E) (ig_bus s) (map Emit es)"
  by (induction E j es s rule: publish_all.induct) (simp_all add: publish_def Let_def bus_run_def)

lemma publish_all_logs [simp]:
  "ig_logs (publish_all E j es s) = ig_logs s" "ig_cache (publish_all E j es s) = ig_cache s"
  by (induction E j es s rule: publish_all.induct) (simp_all add: publish_def Let_def)

text \<open>The errors a batch tracks, in the form the issue service's lemmas take them.\<close>

definition tracked_of :: "ingest_env \<Rightarrow> nat \<Rightarrow> log_entry list \<Rightarrow> (clock \<times> ident \<times> string \<times> string \<times> string) list" where
  "tracked_of E j es =
     map (\<lambda>(i, e). (\<lparr>now = ie_now E, uuid = ie_uuid E i\<rparr>, le_team e, level_str (le_level e),
            le_service e, le_message e))
       (filter (\<lambda>(i, e). is_error_level (le_level e)) (zip [j ..< j + length es] es))"

lemma publish_all_db:
  "ig_db (publish_all E j es s) = track_all (ie_sha E) (tracked_of E j es) (ig_db s)"
  by (induction E j es s rule: publish_all.induct)
    (simp_all add: publish_def Let_def tracked_of_def upt_conv_Cons del: upt_Suc)

text \<open>C7: what a batch does, whatever it contains. When the source exists and ClickHouse and Redis
  are up, every item is either accepted (as the entries it parses to) or reported with its own
  index; the answer counts both; the accepted entries, in the order of the payload, are exactly
  what is inserted, what live streams are offered and, for error and fatal ones, what is tracked
  as issues; and the team's cached dashboard is gone.\<close>

theorem ingest_accounts_for_every_item:
  assumes "source_by_id (ig_db s) sid = Some source"
    and "ie_insert E = (\<lambda>_. None)" and "ie_redis E = None"
  shows "\<exists>resp s' items accepted.
      ingest E sid payload s = (Inr resp, s')
    \<and> items = zip [0 ..< length (pl_logs payload)] (pl_logs payload)
    \<and> accepted = concat (map (\<lambda>(j, x).
        case ingest_item E source sid (pl_format payload) j x of Inl e \<Rightarrow> [] | Inr ys \<Rightarrow> ys) items)
    \<and> ir_accepted resp = length accepted
    \<and> ir_errors resp = concat (map (\<lambda>(j, x).
        case ingest_item E source sid (pl_format payload) j x of Inl e \<Rightarrow> [(j, e)] | Inr ys \<Rightarrow> []) items)
    \<and> ir_rejected resp = length (ir_errors resp)
    \<and> ig_logs s' = ig_logs s @ accepted
    \<and> bus_open (ig_bus s') = bus_open (bus_run (ie_stringify E) (ig_bus s) (map Emit accepted))
    \<and> ig_db s' = track_all (ie_sha E) (tracked_of E 0 accepted) (ig_db s)
    \<and> ig_cache s' = (if accepted = [] then ig_cache s
        else cache_invalidate (ie_glob E) (dashboard_key (src_team source)) (ig_cache s))"
proof -
  let ?f = "ingest_item E source sid (pl_format payload)"
  obtain acc errs where c: "collect ?f 0 (pl_logs payload) = (acc, errs)" by (cases "collect ?f 0 (pl_logs payload)")
  have "acc = fst (collect ?f 0 (pl_logs payload))" "errs = snd (collect ?f 0 (pl_logs payload))"
    using c by simp_all
  note parts = this [unfolded collect_accepted collect_errors add_0]
  let ?resp = "\<lparr>ir_accepted = length acc, ir_rejected = length errs, ir_errors = errs,
      ir_batch = the_or (ie_batch E) (pl_batch payload)\<rparr>"
  let ?s = "if acc = [] then s else publish_all E 0 acc (s\<lparr>ig_logs := ig_logs s @ acc,
      ig_cache := cache_invalidate (ie_glob E) (dashboard_key (src_team source)) (ig_cache s)\<rparr>)"
  have "ingest E sid payload s = (Inr ?resp, ?s)" using assms c by (simp add: ingest_def Let_def)
  moreover have "bus_open (ig_bus ?s) = bus_open (bus_run (ie_stringify E) (ig_bus s) (map Emit acc))"
    by (simp add: publish_all_bus bus_run_def)
  moreover have "ig_db ?s = track_all (ie_sha E) (tracked_of E 0 acc) (ig_db s)"
    by (simp add: publish_all_db tracked_of_def)
  ultimately show ?thesis
    by (intro exI conjI) (assumption | rule refl parts | simp add: parts(2) [symmetric])+
qed

definition quiet_env :: ingest_env where
  "quiet_env = \<lparr>ie_lib = sample_lib, ie_now = 0, ie_year = 1970, ie_ulid = (\<lambda>i k. ''log''),
     ie_uuid = (\<lambda>j. ''iss''), ie_batch = ''batch'', ie_sha = (\<lambda>s. s), ie_glob = (\<lambda>p k. p = k),
     ie_stringify = le_message, ie_insert = (\<lambda>_. None), ie_redis = None\<rparr>"

definition sample_source :: source_row where
  "sample_source = \<lparr>src_id = ''s1'', src_team = ''t1'', src_name = ''api'', src_type = Http,
     src_config = JObj [], src_retention = 7, src_key = ''lf_key'', src_created = 0\<rparr>"

definition sample_ingest_state :: ingest_state where
  "sample_ingest_state = \<lparr>ig_db = empty_db\<lparr>db_sources := [sample_source]\<rparr>, ig_logs = [],
     ig_cache = (\<lambda>_. None), ig_bus = idle_bus\<rparr>"

definition sample_partial :: partial_entry where
  "sample_partial = \<lparr>pa_timestamp = None, pa_level = Some LError, pa_service = None, pa_host = None,
     pa_message = Some ''boom'', pa_fields = None\<rparr>"

theorem ingest_accounts_for_every_item_witness:
  "\<exists>resp s'. ingest quiet_env ''s1''
      \<lparr>pl_logs = [EntryItem sample_partial, RawItem ''{''], pl_format = Some FJson, pl_batch = None\<rparr>
      sample_ingest_state = (Inr resp, s')
    \<and> ir_accepted resp = 1 \<and> ir_rejected resp = 1 \<and> map fst (ir_errors resp) = [1]
    \<and> map le_team (ig_logs s') = [''t1'']"
  using ingest_accounts_for_every_item [of sample_ingest_state "''s1''" sample_source quiet_env
      "\<lparr>pl_logs = [EntryItem sample_partial, RawItem ''{''], pl_format = Some FJson, pl_batch = None\<rparr>"]
  by (auto simp: source_by_id_def sample_ingest_state_def sample_source_def quiet_env_def
      ingest_item_def parse_raw_def parse_json_def sample_lib_def item_env_def upt_rec)

text \<open>an ingest batch never leaves its tenant. Whatever the payload and however the stores behave,
  everything an ingest call adds to the log store carries the id of the source it was called for
  and the team that owns that source, and the issues of every other team are untouched.\<close>

theorem ingest_stays_in_tenant:
  "(case source_by_id (ig_db s) sid of
      None \<Rightarrow> snd (ingest E sid payload s) = s
    | Some source \<Rightarrow>
        (\<exists>added. ig_logs (snd (ingest E sid payload s)) = ig_logs s @ added
           \<and> list_all (\<lambda>e. le_team e = src_team source \<and> le_source e = sid) added)
        \<and> filter (\<lambda>i. iss_team i \<noteq> src_team source) (db_issues (ig_db (snd (ingest E sid payload s))))
          = filter (\<lambda>i. iss_team i \<noteq> src_team source) (db_issues (ig_db s)))"
proof (cases "source_by_id (ig_db s) sid")
  case None
  then show ?thesis by (simp add: ingest_def)
next
  case (Some source)
  obtain acc errs where c: "collect (ingest_item E source sid (pl_format payload)) 0 (pl_logs payload) = (acc, errs)"
    by fastforce
  have st: "list_all (\<lambda>e. le_team e = src_team source \<and> le_source e = sid) acc"
    using collect_stamps [of _ E source sid "pl_format payload" 0 "pl_logs payload"] c
    by (simp add: list_all_iff)
  have one: "filter (\<lambda>i. iss_team i \<noteq> t) (db_issues (track_error sha C t l sv m d))
      = filter (\<lambda>i. iss_team i \<noteq> t) (db_issues d)" for sha C t l sv m d
    by (auto simp: track_error_def Let_def intro!: filter_update_first_other)
  have pub: "list_all (\<lambda>e. le_team e = src_team source) es \<Longrightarrow>
      filter (\<lambda>i. iss_team i \<noteq> src_team source) (db_issues (ig_db (publish_all E j es u)))
      = filter (\<lambda>i. iss_team i \<noteq> src_team source) (db_issues (ig_db u))" for j es u
    by (induction E j es u rule: publish_all.induct) (auto simp: publish_def Let_def one)
  have "list_all (\<lambda>e. le_team e = src_team source) acc" using st by (auto simp: list_all_iff)
  then show ?thesis using Some c st
    by (auto simp: ingest_def Let_def pub split: option.splits)
qed

end
