(* ===== verification/Sources.thy ===== *)
theory Sources imports Teams Ingestion begin

text \<open>
  The log sources of \<open>services/team/team-service.ts\<close>: listing, creating, renaming, deleting,
  rotating and revealing ingest keys, and the key check of the ingest routes
  (\<open>authenticateApiKey\<close> in \<open>api/rest/router.ts\<close>), which is what makes a key live or dead.
\<close>

section \<open>Operations\<close>

definition list_sources :: "js_lib \<Rightarrow> ident \<Rightarrow> source_key_view \<Rightarrow> db \<Rightarrow> log_source list" where
  "list_sources L team view d =
     map (\<lambda>s. to_log_source L s view) (filter (\<lambda>s. src_team s = team) (db_sources d))"

definition own_source :: "ident \<Rightarrow> ident \<Rightarrow> source_row \<Rightarrow> bool" where
  "own_source i team s \<longleftrightarrow> src_id s = i \<and> src_team s = team"

datatype source_change = Rename string | Rekey string

fun apply_source_change :: "source_change \<Rightarrow> source_row \<Rightarrow> source_row" where
  "apply_source_change (Rename n) s = s\<lparr>src_name := n\<rparr>"
| "apply_source_change (Rekey k) s = s\<lparr>src_key := k\<rparr>"

text \<open>\<open>prisma.logSource.update\<close> with a where clause of id and team.\<close>

definition change_source ::
  "js_lib \<Rightarrow> ident \<Rightarrow> ident \<Rightarrow> source_change \<Rightarrow> source_key_view \<Rightarrow> db \<Rightarrow> (error + log_source) \<times> db" where
  "change_source L team i c view d =
     (case List.find (own_source i team) (db_sources d) of
        None \<Rightarrow> (Inl RecordNotFound, d)
      | Some s \<Rightarrow> (Inr (to_log_source L (apply_source_change c s) view),
                   d\<lparr>db_sources := update_first (own_source i team) (apply_source_change c) (db_sources d)\<rparr>))"

definition rename_source ::
  "js_lib \<Rightarrow> ident \<Rightarrow> ident \<Rightarrow> string \<Rightarrow> source_key_view \<Rightarrow> db \<Rightarrow> (error + log_source) \<times> db" where
  "rename_source L team i name view d = change_source L team i (Rename name) view d"

definition create_source :: "team_env \<Rightarrow> ident \<Rightarrow> string \<Rightarrow> source_type \<Rightarrow> db \<Rightarrow> log_source \<times> db" where
  "create_source E team name ty d =
     (let s = \<lparr>src_id = te_uuid E 0, src_team = team, src_name = name, src_type = ty,
               src_config = JObj [], src_retention = 7,
               src_key = generate_source_api_key (te_uuid E 1), src_created = te_now E\<rparr>
      in (to_log_source (te_lib E) s KeyFull, d\<lparr>db_sources := db_sources d @ [s]\<rparr>))"

definition delete_source :: "ident \<Rightarrow> ident \<Rightarrow> db \<Rightarrow> (error + unit) \<times> db" where
  "delete_source team i d =
     (case List.find (own_source i team) (db_sources d) of
        None \<Rightarrow> (Inl RecordNotFound, d)
      | Some s \<Rightarrow> (Inr (), d\<lparr>db_sources := delete_first (own_source i team) (db_sources d)\<rparr>))"

definition rotate_source_key :: "team_env \<Rightarrow> ident \<Rightarrow> ident \<Rightarrow> db \<Rightarrow> (error + log_source) \<times> db" where
  "rotate_source_key E team i d =
     change_source (te_lib E) team i (Rekey (generate_source_api_key (te_uuid E 0))) KeyFull d"

definition reveal_source_key :: "ident \<Rightarrow> ident \<Rightarrow> db \<Rightarrow> string option" where
  "reveal_source_key team i d = map_option src_key (List.find (own_source i team) (db_sources d))"

section \<open>The ingest key check\<close>

datatype key_check = KeyMissing | KeyInvalid | KeyMismatch | KeyAccepted source_row

definition authenticate_api_key :: "string option \<Rightarrow> ident \<Rightarrow> db \<Rightarrow> key_check" where
  "authenticate_api_key header source_id d =
     (case header of
        None \<Rightarrow> KeyMissing
      | Some key \<Rightarrow>
          if key = [] then KeyMissing
          else
            (case List.find (\<lambda>s. src_key s = key) (db_sources d) of
               None \<Rightarrow> KeyInvalid
             | Some s \<Rightarrow> if src_id s \<noteq> source_id then KeyMismatch else KeyAccepted s))"

section \<open>Sources belong to a team\<close>

interpretation source_table: scoped_table src_id src_team apply_source_change
proof unfold_locales
  show "src_id (apply_source_change p r) = src_id r" for p r by (cases p) simp_all
  show "src_team (apply_source_change p r) = src_team r" for p r by (cases p) simp_all
qed

lemma own_source_eq: "own_source i team = (\<lambda>s. src_id s = i \<and> src_team s = team)"
  by (auto simp: own_source_def fun_eq_iff)

text \<open>The unique columns of the table: the id and the key.\<close>

definition sources_unique :: "db \<Rightarrow> bool" where
  "sources_unique d \<longleftrightarrow> distinct (map src_id (db_sources d)) \<and> distinct (map src_key (db_sources d))"

lemma find_unique_key:
  "sources_unique d \<Longrightarrow> s \<in> set (db_sources d) \<Longrightarrow> List.find (\<lambda>q. src_key q = src_key s) (db_sources d) = Some s"
  unfolding sources_unique_def by (rule find_distinct_key [where k = src_key]) auto

text \<open>a rotated or deleted key is dead at once. Take a source of a team whose keys are unique and
  a new key nobody has. After rotation the old key is refused on every ingest route, the new key
  is accepted for exactly this source, and every other source keeps its key; after deletion the
  key is refused as well.\<close>

theorem rotated_key_is_dead:
  assumes "sources_unique d" and "s \<in> set (db_sources d)" and "src_key s \<noteq> []"
    and "fresh = generate_source_api_key (te_uuid E 0)"
    and "fresh \<notin> src_key ` set (db_sources d)"
  shows "authenticate_api_key (Some (src_key s)) any (snd (rotate_source_key E (src_team s) (src_id s) d)) = KeyInvalid
    \<and> authenticate_api_key (Some fresh) (src_id s) (snd (rotate_source_key E (src_team s) (src_id s) d))
      = KeyAccepted (s\<lparr>src_key := fresh\<rparr>)
    \<and> authenticate_api_key (Some (src_key s)) any (snd (delete_source (src_team s) (src_id s) d)) = KeyInvalid"
proof (intro conjI)
  let ?P = "own_source (src_id s) (src_team s)"
  have dist: "distinct (map src_id (db_sources d))" "distinct (map src_key (db_sources d))"
    using assms(1) by (auto simp: sources_unique_def)
  have P: "?P s" "\<And>r. ?P r \<Longrightarrow> src_id r = src_id s" by (simp_all add: own_source_def)
  have only: "r = s" if "r \<in> set (db_sources d)" "src_id r = src_id s" for r
    using dist(1) assms(2) that by (auto simp: distinct_map inj_on_def)
  have "List.find ?P (db_sources d) \<noteq> None" using assms(2) P(1) by (auto simp: find_None_iff')
  then obtain s' where s': "List.find ?P (db_sources d) = Some s'" by blast
  then have "s' \<in> set (db_sources d)" "?P s'" by (auto dest: find_SomeD)
  then have "s' = s" using only by (auto simp: own_source_def)
  with s' have f: "List.find ?P (db_sources d) = Some s" by simp
  let ?up = "update_first ?P (apply_source_change (Rekey fresh)) (db_sources d)"
  have rot: "db_sources (snd (rotate_source_key E (src_team s) (src_id s) d)) = ?up"
    by (simp add: rotate_source_key_def change_source_def f assms(4))
  have others: "r \<in> set ?up \<Longrightarrow> (r \<in> set (db_sources d) \<and> src_id r \<noteq> src_id s) \<or> r = s\<lparr>src_key := fresh\<rparr>" for r
    using update_first_distinct [where k = src_id and x = s and P = ?P and f = "apply_source_change (Rekey fresh)"
        and y = r, OF dist(1) assms(2) P] by auto
  have ne: "fresh \<noteq> src_key s" "fresh \<noteq> []"
    using assms(2,5) by (auto simp: assms(4) generate_source_api_key_def short_token_def)
  have "src_key r \<noteq> src_key s" if "r \<in> set ?up" for r
    using others [OF that] ne(1) dist(2) assms(2) by (auto simp: distinct_map inj_on_def)
  then have "List.find (\<lambda>q. src_key q = src_key s) ?up = None" by (auto simp: find_None_iff')
  then show "authenticate_api_key (Some (src_key s)) any (snd (rotate_source_key E (src_team s) (src_id s) d)) = KeyInvalid"
    using assms(3) by (simp add: authenticate_api_key_def rot)
  have mem: "s\<lparr>src_key := fresh\<rparr> \<in> set ?up"
    using find_update_first_hit [OF f, of "apply_source_change (Rekey fresh)"] P(1)
    by (auto simp: own_source_def dest: find_SomeD)
  have "List.find (\<lambda>q. src_key q = fresh) ?up \<noteq> None"
  proof
    assume "List.find (\<lambda>q. src_key q = fresh) ?up = None"
    then have "\<forall>q \<in> set ?up. src_key q \<noteq> fresh" by (simp only: find_None_iff')
    from bspec [OF this mem] show False by simp
  qed
  then obtain r where r: "List.find (\<lambda>q. src_key q = fresh) ?up = Some r" by blast
  then have "r \<in> set ?up" "src_key r = fresh" by (auto dest: find_SomeD)
  with others assms(5) have "r = s\<lparr>src_key := fresh\<rparr>" by (metis image_eqI)
  then show "authenticate_api_key (Some fresh) (src_id s) (snd (rotate_source_key E (src_team s) (src_id s) d))
      = KeyAccepted (s\<lparr>src_key := fresh\<rparr>)"
    using r ne(2) by (simp add: authenticate_api_key_def rot)
  have "src_key r \<noteq> src_key s" if "r \<in> set (delete_first ?P (db_sources d))" for r
  proof -
    have "r \<in> set (db_sources d)" "r \<noteq> s"
      using delete_first_distinct [where k = src_id and x = s and P = ?P and y = r, OF dist(1) assms(2) P that] by auto
    then show ?thesis using dist(2) assms(2) by (auto simp: distinct_map inj_on_def)
  qed
  then have "List.find (\<lambda>q. src_key q = src_key s) (delete_first ?P (db_sources d)) = None"
    by (auto simp: find_None_iff')
  then show "authenticate_api_key (Some (src_key s)) any (snd (delete_source (src_team s) (src_id s) d)) = KeyInvalid"
    using assms(3) by (simp add: authenticate_api_key_def delete_source_def f)
qed

definition sample_team_env :: team_env where
  "sample_team_env = \<lparr>te_cfg = \<lparr>tc_registration = RegOpen, tc_multi_tenant = True, tc_admin_email = None\<rparr>,
     te_lib = sample_lib, te_now = 0, te_uuid = (\<lambda>k. ''0a-b'' @ replicate k CHR ''c''),
     te_hash = (\<lambda>p. p), te_verify = (\<lambda>p h. p = h)\<rparr>"

theorem rotated_key_is_dead_witness:
  "authenticate_api_key (Some ''lf_key'') ''s1''
     (snd (rotate_source_key sample_team_env ''t1'' ''s1'' (empty_db\<lparr>db_sources := [sample_source]\<rparr>))) = KeyInvalid"
  using rotated_key_is_dead [of "empty_db\<lparr>db_sources := [sample_source]\<rparr>" sample_source
      "''lf_0ab''" sample_team_env "''s1''"]
  by (simp add: sources_unique_def sample_source_def sample_team_env_def generate_source_api_key_def short_token_def)

text \<open>An ingest key opens one source only. The check lets a request through exactly when the
  header carries a non-empty key whose source is the one named in the path; so a valid key of
  another source or team is refused, and what is let through is the row of that very source.\<close>

theorem ingest_key_bound_to_source:
  "(case authenticate_api_key header sid d of
      KeyAccepted s \<Rightarrow> src_id s = sid \<and> s \<in> set (db_sources d) \<and> header = Some (src_key s) \<and> src_key s \<noteq> []
    | KeyMissing \<Rightarrow> the_or [] header = []
    | KeyInvalid \<Rightarrow> the_or [] header \<noteq> [] \<and> the header \<notin> src_key ` set (db_sources d)
    | KeyMismatch \<Rightarrow> \<exists>s \<in> set (db_sources d). header = Some (src_key s) \<and> src_id s \<noteq> sid)"
proof (cases header)
  case (Some key)
  show ?thesis
  proof (cases "List.find (\<lambda>s. src_key s = key) (db_sources d)")
    case None
    then have "key \<notin> src_key ` set (db_sources d)" by (auto simp: find_None_iff')
    with Some None show ?thesis by (simp add: authenticate_api_key_def)
  next
    case found: (Some s)
    then have "src_key s = key" "s \<in> set (db_sources d)" by (auto dest: find_SomeD)
    with Some found show ?thesis by (auto simp: authenticate_api_key_def)
  qed
qed (simp add: authenticate_api_key_def)

text \<open>The hint shown for a key hides it. It is either four stars or the key with its middle
  replaced by four stars, where the middle has at least eight characters, the part before it is
  at most eight and the part after it four long.\<close>

theorem key_hint_hides:
  "source_key_hint key = ''****''
   \<or> (\<exists>pre mid post. key = pre @ mid @ post \<and> source_key_hint key = pre @ ''****'' @ post
        \<and> length mid \<ge> 8 \<and> length pre \<le> 8 \<and> length post = 4)"
proof -
  define prefix where "prefix = (case index_of CHR ''_'' key of
                      Some u \<Rightarrow> take (min (u + 1) max_hint_prefix_length) key
                    | None \<Rightarrow> [])"
  have hint: "source_key_hint key = (if int (length key) - int (length prefix) - 4 < 8 then ''****''
      else prefix @ ''****'' @ slice_last 4 key)"
    by (simp add: source_key_hint_def prefix_def min_hidden_key_chars_def Let_def)
  have pl: "prefix = take (length prefix) key" "length prefix \<le> 8"
    by (auto simp: prefix_def max_hint_prefix_length_def min_def split: option.splits)
  show ?thesis
  proof (cases "int (length key) - int (length prefix) - 4 < 8")
    case False
    let ?mid = "take (length key - length prefix - 4) (drop (length prefix) key)"
    let ?post = "drop (length key - 4) key"
    have "key = prefix @ drop (length prefix) key" using pl(1) by (metis append_take_drop_id)
    moreover have "drop (length prefix) key = ?mid @ ?post"
    proof -
      have "length prefix + (length key - length prefix - 4) = length key - 4" using False by linarith
      then have "drop (length key - length prefix - 4) (drop (length prefix) key) = ?post"
        by (simp add: add.commute)
      then show ?thesis by (metis append_take_drop_id)
    qed
    moreover have "slice_last 4 key = ?post" by (simp add: slice_last_def)
    moreover have "length ?mid \<ge> 8" "length ?post = 4" using False by auto
    ultimately show ?thesis using hint False pl(2) by metis
  qed (simp add: hint)
qed

end
