(* ===== verification/Invites.thy ===== *)
theory Invites imports Teams begin

text \<open>
  The invites of \<open>services/team/team-service.ts\<close>. Accepting one checks it first and commits the
  membership and the used mark in a transaction afterwards, so the two halves are definitions of
  their own.
\<close>

section \<open>Operations\<close>

record team_invite =
  tv_id :: ident
  tv_team :: ident
  tv_email :: "string option"
  tv_token :: string
  tv_role :: team_role
  tv_by :: ident
  tv_expires :: string
  tv_used :: "string option"
  tv_created :: string

definition map_invite :: "js_lib \<Rightarrow> invite_row \<Rightarrow> team_invite" where
  "map_invite L i =
     \<lparr>tv_id = inv_id i, tv_team = inv_team i, tv_email = inv_email i, tv_token = inv_token i,
      tv_role = inv_role i, tv_by = inv_by i, tv_expires = date_iso L (inv_expires i),
      tv_used = map_option (date_iso L) (inv_used i), tv_created = date_iso L (inv_created i)\<rparr>"

definition create_invite ::
  "team_env \<Rightarrow> ident \<Rightarrow> ident \<Rightarrow> team_role \<Rightarrow> string option \<Rightarrow> db \<Rightarrow> (error + team_invite) \<times> db" where
  "create_invite E team creator role email d =
     (if \<not> tc_multi_tenant (te_cfg E)
      then (Inl (PlainError ''Invites are disabled in single-tenant mode''), d)
      else
        (let i = \<lparr>inv_id = te_uuid E 0, inv_team = team, inv_email = email,
                  inv_token = short_token ''inv_'' (te_uuid E 1), inv_role = role, inv_by = creator,
                  inv_expires = te_now E + seven_days, inv_used = None, inv_created = te_now E\<rparr>
         in (Inr (map_invite (te_lib E) i), d\<lparr>db_invites := db_invites d @ [i]\<rparr>)))"

definition invite_by_token :: "db \<Rightarrow> string \<Rightarrow> invite_row option" where
  "invite_by_token d tok = List.find (\<lambda>i. inv_token i = tok) (db_invites d)"

definition accept_check :: "team_env \<Rightarrow> string \<Rightarrow> ident \<Rightarrow> db \<Rightarrow> error + invite_row" where
  "accept_check E tok user d =
     (case invite_by_token d tok of
        None \<Rightarrow> Inl (PlainError ''Invalid invite token'')
      | Some i \<Rightarrow>
          if inv_used i \<noteq> None then Inl (PlainError ''Invite already used'')
          else if inv_expires i < te_now E then Inl (PlainError ''Invite expired'')
          else if truthy (inv_email i) \<and> map_option u_email (user_by_id d user) \<noteq> inv_email i
          then Inl (PlainError ''Invite is for a different email'')
          else if membership d (inv_team i) user \<noteq> None
          then Inl (PlainError ''Already a member of this team'')
          else Inr i)"

text \<open>The transaction, which does not look at \<open>usedAt\<close> again, and the answer.\<close>

definition accept_commit :: "team_env \<Rightarrow> invite_row \<Rightarrow> ident \<Rightarrow> db \<Rightarrow> (error + team_info) \<times> db" where
  "accept_commit E i user d =
     (if membership d (inv_team i) user \<noteq> None then (Inl UniqueViolation, d)
      else if \<not> exists_row (\<lambda>r. inv_id r = inv_id i) (db_invites d) then (Inl RecordNotFound, d)
      else
        (let d1 = d\<lparr>db_members := db_members d @
                      [\<lparr>m_team = inv_team i, m_user = user, m_role = inv_role i, m_joined = te_now E\<rparr>],
                    db_invites := update_first (\<lambda>r. inv_id r = inv_id i)
                      (\<lambda>r. r\<lparr>inv_used := Some (te_now E)\<rparr>) (db_invites d)\<rparr>
         in (case List.find (\<lambda>t. t_id t = inv_team i) (db_teams d1) of
               None \<Rightarrow> (Inl RecordNotFound, d1)
             | Some t \<Rightarrow> (Inr (team_info_of (te_lib E) t), d1))))"

definition accept_invite :: "team_env \<Rightarrow> string \<Rightarrow> ident \<Rightarrow> db \<Rightarrow> (error + team_info) \<times> db" where
  "accept_invite E tok user d =
     (case accept_check E tok user d of
        Inl e \<Rightarrow> (Inl e, d)
      | Inr i \<Rightarrow> accept_commit E i user d)"

definition list_invites :: "team_env \<Rightarrow> ident \<Rightarrow> db \<Rightarrow> team_invite list" where
  "list_invites E team d =
     map (map_invite (te_lib E))
       (sort_key (\<lambda>i. - inv_created i)
         (filter (\<lambda>i. inv_team i = team \<and> inv_used i = None \<and> inv_expires i > te_now E) (db_invites d)))"

definition revoke_invite :: "ident \<Rightarrow> ident \<Rightarrow> db \<Rightarrow> (error + unit) \<times> db" where
  "revoke_invite i team d =
     (let here = (\<lambda>r. inv_id r = i \<and> inv_team r = team) in
      if \<not> exists_row here (db_invites d) then (Inl (PlainError ''Invite not found''), d)
      else (Inr (), d\<lparr>db_invites := filter (\<lambda>r. \<not> here r) (db_invites d)\<rparr>))"

section \<open>An invite admits the right person once\<close>

lemma check_cases:
  assumes "accept_check E tok user d = Inr i"
  shows "invite_by_token d tok = Some i" and "inv_used i = None" and "te_now E \<le> inv_expires i"
    and "truthy (inv_email i) \<Longrightarrow> map_option u_email (user_by_id d user) = inv_email i"
    and "membership d (inv_team i) user = None"
  using assms by (auto simp: accept_check_def split: option.splits if_splits)

text \<open>what accepting an invite does. It is accepted only when the token is a stored invite that
  is unused and not expired, addressed to nobody in particular or to the caller's email, and the
  caller is no member yet. Then the one change to the members is that the caller joins the
  invite's team with the invite's role, and from then on nobody is admitted by that token again.
  A refused invite changes nothing.\<close>

theorem invite_admits_once:
  assumes "distinct (map inv_token (db_invites d))" and "distinct (map inv_id (db_invites d))"
  shows "(case accept_check E tok user d of
      Inl e \<Rightarrow> accept_invite E tok user d = (Inl e, d)
    | Inr i \<Rightarrow> inv_token i = tok \<and> inv_used i = None \<and> te_now E \<le> inv_expires i
        \<and> (if truthy (inv_email i) then map_option u_email (user_by_id d user) = inv_email i else True)
        \<and> db_members (snd (accept_invite E tok user d)) = db_members d @
            [\<lparr>m_team = inv_team i, m_user = user, m_role = inv_role i, m_joined = te_now E\<rparr>]
        \<and> accept_invite E' tok other (snd (accept_invite E tok user d))
            = (Inl (PlainError ''Invite already used''), snd (accept_invite E tok user d)))"
proof (cases "accept_check E tok user d")
  case (Inl e)
  then show ?thesis by (simp add: accept_invite_def)
next
  case (Inr i)
  note c = check_cases [OF Inr]
  then have i: "i \<in> set (db_invites d)" "inv_token i = tok"
    by (auto simp: invite_by_token_def dest: find_SomeD)
  let ?used = "\<lambda>r. r\<lparr>inv_used := Some (te_now E)\<rparr>"
  let ?d1 = "snd (accept_invite E tok user d)"
  have ex: "exists_row (\<lambda>r. inv_id r = inv_id i) (db_invites d)" using i(1) by auto
  have d1: "db_members ?d1 = db_members d @
            [\<lparr>m_team = inv_team i, m_user = user, m_role = inv_role i, m_joined = te_now E\<rparr>]"
    "db_invites ?d1 = update_first (\<lambda>r. inv_id r = inv_id i) ?used (db_invites d)"
    using Inr c(5) ex by (simp_all add: accept_invite_def accept_commit_def Let_def split: option.split
        del: exists_row_iff)
  have "distinct (map inv_token (db_invites ?d1))"
    unfolding d1(2) using assms(1) map_update_first_key [of inv_token ?used "\<lambda>r. inv_id r = inv_id i" "db_invites d"]
    by simp
  moreover have "?used i \<in> set (db_invites ?d1)"
  proof -
    have "List.find (\<lambda>r. inv_id r = inv_id i) (db_invites d) = Some i"
      using find_distinct_key [OF assms(2) i(1) refl] .
    from find_update_first_hit [OF this, of ?used] show ?thesis
      unfolding d1(2) by (auto dest: find_SomeD)
  qed
  ultimately have "invite_by_token ?d1 tok = Some (?used i)"
    unfolding invite_by_token_def using i(2) by (intro find_distinct_key [where k = inv_token]) simp_all
  then have "accept_invite E' tok other ?d1 = (Inl (PlainError ''Invite already used''), ?d1)"
    by (simp add: accept_invite_def [of E'] accept_check_def)
  then show ?thesis using Inr c i d1(1) by simp
qed

definition sample_invite :: invite_row where
  "sample_invite = \<lparr>inv_id = ''i1'', inv_team = ''t1'', inv_email = None, inv_token = ''inv_1'',
     inv_role = Member, inv_by = ''u0'', inv_expires = 100, inv_used = None, inv_created = 0\<rparr>"

definition invite_env :: team_env where
  "invite_env = \<lparr>te_cfg = \<lparr>tc_registration = RegOpen, tc_multi_tenant = True, tc_admin_email = None\<rparr>,
     te_lib = \<lparr>json_parse = (\<lambda>_. Inl []), json_stringify = (\<lambda>_. []), date_parse = (\<lambda>_. None),
       date_iso = (\<lambda>_. []), num_str = (\<lambda>_. [])\<rparr>,
     te_now = 1, te_uuid = (\<lambda>k. replicate k CHR ''c''), te_hash = (\<lambda>p. p), te_verify = (\<lambda>p h. p = h)\<rparr>"

definition invite_db :: db where
  "invite_db = empty_db\<lparr>db_invites := [sample_invite], db_teams := [\<lparr>t_id = ''t1'', t_name = ''T'',
     t_slug = ''t'', t_created = 0\<rparr>]\<rparr>"

lemma sample_check: "accept_check invite_env ''inv_1'' u invite_db = Inr sample_invite"
  by (simp add: accept_check_def invite_by_token_def invite_db_def sample_invite_def invite_env_def
      truthy_def membership_def empty_db_def)

theorem invite_admits_once_witness:
  "map m_user (db_members (snd (accept_invite invite_env ''inv_1'' ''u1'' invite_db))) = [''u1'']"
  using invite_admits_once [of invite_db invite_env "''inv_1''" "''u1''"]
  by (simp add: sample_check) (simp add: invite_db_def empty_db_def)

text \<open>
  The used mark is checked before the transaction only: two requests that both checked the invite
  while it was unused both commit, and one invite admits two people.
\<close>

lemma invite_race:
  "accept_check invite_env ''inv_1'' ''u1'' invite_db = Inr sample_invite
   \<and> accept_check invite_env ''inv_1'' ''u2'' invite_db = Inr sample_invite
   \<and> map m_user (db_members (snd (accept_commit invite_env sample_invite ''u2''
        (snd (accept_commit invite_env sample_invite ''u1'' invite_db))))) = [''u1'', ''u2'']"
proof -
  have "map m_user (db_members (snd (accept_commit invite_env sample_invite ''u2''
        (snd (accept_commit invite_env sample_invite ''u1'' invite_db))))) = [''u1'', ''u2'']"
    by (simp add: accept_commit_def membership_def invite_db_def sample_invite_def empty_db_def Let_def)
  then show ?thesis by (simp add: sample_check)
qed

section \<open>Addressed invites\<close>

lemma lower_char_lower: "\<not> is_upper (lower_char c)"
  by (auto simp: lower_char_def is_upper_def code_def split: if_splits)

lemma lower_no_upper: "c \<in> set (lower s) \<Longrightarrow> \<not> is_upper c"
  by (auto simp: lower_def lower_char_lower)

text \<open>
  Accounts are stored under the lower-case form of their email (\<open>register\<close> writes nothing else),
  an invite under the address as typed: one with a capital letter admits nobody.
\<close>

lemma capital_email_admits_nobody:
  assumes "\<forall>u \<in> set (db_users d). \<exists>e. u_email u = normalize_email e"
    and "invite_by_token d tok = Some i" and "inv_email i = Some addr" and "\<exists>c \<in> set addr. is_upper c"
  shows "\<exists>e. accept_check E tok user d = Inl e"
proof (rule ccontr)
  assume no: "\<nexists>e. accept_check E tok user d = Inl e"
  then have "accept_check E tok user d = Inr i"
    using assms(2) by (auto simp: accept_check_def split: if_splits)
  note c = check_cases [OF this]
  have "truthy (inv_email i)" using assms(3,4) by (auto simp: truthy_def)
  with c(4) assms(3) obtain u where "user_by_id d user = Some u" "u_email u = addr" by auto
  then have "u \<in> set (db_users d)" by (auto simp: user_by_id_def dest: find_SomeD)
  with assms(1) \<open>u_email u = addr\<close> obtain e where "addr = lower (trim e)"
    by (auto simp: normalize_email_def)
  with assms(4) show False using lower_no_upper by blast
qed

end
