(* ===== verification/TeamWrites.thy ===== *)
theory TeamWrites imports WriteRoute Sources Invites AlertMachine begin

text \<open>
  The sixteen routes of \<open>backend/src/api/rest/router.ts\<close> that are registered through \<open>writeRoute\<close>:
  sources, alert rules, incidents, maintenance windows and issues. A loader reads the team of the
  resource \<open>:id\<close> names, a handler does the work, and \<open>serve_write\<close> is the route table. The schemas
  (zod) are the fields of a record, one function from the body to its flattened error or the
  validated input for each schema the routes name.
\<close>

section \<open>Inputs and answers\<close>

record source_input =
  si_team :: ident
  si_name :: string
  si_type :: source_type

record window_input =
  wi_team :: ident
  wi_name :: string
  wi_starts :: string
  wi_ends :: string

record issue_input =
  ii_status :: "issue_status option"
  ii_assignee :: "ident option option"

record write_schemas =
  sc_source :: "source_input body_schema"
  sc_rename :: "string body_schema"
  sc_rule :: "(ident \<times> rule_input) body_schema"
  sc_rule_patch :: "rule_patch body_schema"
  sc_mute :: "int body_schema"
  sc_window :: "window_input body_schema"
  sc_comment :: "string option body_schema"
  sc_issue :: "issue_input body_schema"

datatype write_payload =
    SourceBody log_source
  | KeyBody string
  | RuleBody alert_rule
  | MuteBody ident "millis option"
  | WindowBody window_row
  | IncidentBody incident_row
  | IssueBody "issue_row option"

type_synonym write_reply = "write_payload reply"

definition clock_of :: "team_env \<Rightarrow> clock" where
  "clock_of E = \<lparr>now = te_now E, uuid = te_uuid E 0\<rparr>"

definition ok :: "nat \<Rightarrow> ('a \<Rightarrow> 'b) \<Rightarrow> 'a \<Rightarrow> 'b reply" where
  "ok st f x = answer st (Payload (f x))"

definition no_content :: "'a \<Rightarrow> 'b reply" where
  "no_content x = answer 204 NoBody"

definition id_param :: "'i write_context \<Rightarrow> ident" where
  "id_param c = hr_params (wc_req c) ''id''"

section \<open>Loaders\<close>

definition load_source_team_id :: "ident \<Rightarrow> db \<Rightarrow> ident option" where
  "load_source_team_id i d = map_option src_team (source_by_id d i)"

definition load_rule_team_id :: "ident \<Rightarrow> db \<Rightarrow> ident option" where
  "load_rule_team_id i d = map_option r_team (rule_by_id d i)"

definition load_window_team_id :: "ident \<Rightarrow> db \<Rightarrow> ident option" where
  "load_window_team_id i d = map_option w_team (List.find (\<lambda>w. w_id w = i) (db_windows d))"

definition load_incident_team_id :: "ident \<Rightarrow> db \<Rightarrow> ident option" where
  "load_incident_team_id i d =
     (case List.find (\<lambda>x. i_id x = i) (db_incidents d) of
        None \<Rightarrow> None
      | Some x \<Rightarrow> map_option r_team (rule_by_id d (i_rule x)))"

definition load_issue_team_id :: "ident \<Rightarrow> db \<Rightarrow> ident option" where
  "load_issue_team_id i d = map_option iss_team (issue_by_id i d)"

section \<open>Handlers: sources\<close>

definition missing :: "string \<Rightarrow> error \<Rightarrow> 'b reply" where
  "missing msg = or_throw (handle_prisma_error (Some msg) None)"

definition post_source :: "team_env \<Rightarrow> source_input write_context \<Rightarrow> db \<Rightarrow> write_reply \<times> db" where
  "post_source E c d =
     (case create_source E (si_team (wc_input c)) (si_name (wc_input c)) (si_type (wc_input c)) d of
        (s, d1) \<Rightarrow> (no_store (ok 201 SourceBody s), d1))"

definition key_view :: "team_role \<Rightarrow> source_key_view" where
  "key_view role = (if can_see_source_keys role then KeyHint else KeyNone)"

definition put_source :: "team_env \<Rightarrow> string write_context \<Rightarrow> db \<Rightarrow> write_reply \<times> db" where
  "put_source E c d =
     settle (ok 200 SourceBody) (missing ''Source not found'')
       (rename_source (te_lib E) (wc_team c) (id_param c) (wc_input c) (key_view (wc_role c)) d)"

definition remove_source :: "unit write_context \<Rightarrow> db \<Rightarrow> write_reply \<times> db" where
  "remove_source c d =
     (if \<not> can_manage_sources (wc_role c) then (forbidden, d)
      else settle no_content (missing ''Source not found'') (delete_source (wc_team c) (id_param c) d))"

definition rotate_key :: "team_env \<Rightarrow> unit write_context \<Rightarrow> db \<Rightarrow> write_reply \<times> db" where
  "rotate_key E c d =
     (if \<not> can_manage_sources (wc_role c) then (no_store forbidden, d)
      else settle (\<lambda>s. no_store (ok 200 SourceBody s)) (\<lambda>e. no_store (missing ''Source not found'' e))
             (rotate_source_key E (wc_team c) (id_param c) d))"

definition reveal_key :: "unit write_context \<Rightarrow> db \<Rightarrow> write_reply \<times> db" where
  "reveal_key c d =
     (if \<not> can_see_source_keys (wc_role c) then (no_store forbidden, d)
      else
        (case reveal_source_key (wc_team c) (id_param c) d of
           None \<Rightarrow> (no_store (refuse 404 ''Source not found''), d)
         | Some key \<Rightarrow> (no_store (ok 200 KeyBody key), d)))"

section \<open>Handlers: alert rules and maintenance windows\<close>

definition set_mute :: "ident \<Rightarrow> ident \<Rightarrow> millis option \<Rightarrow> db \<Rightarrow> (error + ident) \<times> db" where
  "set_mute i team m d =
     (case List.find (own_rule i team) (db_rules d) of
        None \<Rightarrow> (Inl RecordNotFound, d)
      | Some r \<Rightarrow> (Inr (r_id r),
                   d\<lparr>db_rules := update_first (own_rule i team) (\<lambda>r. r\<lparr>r_mute := m\<rparr>) (db_rules d)\<rparr>))"

definition mute_rule :: "team_env \<Rightarrow> int write_context \<Rightarrow> db \<Rightarrow> write_reply \<times> db" where
  "mute_rule E c d =
     (let until = te_now E + wc_input c * 60000 in
      settle (ok 200 (\<lambda>i. MuteBody i (Some until))) (missing ''Alert rule not found'')
        (set_mute (id_param c) (wc_team c) (Some until) d))"

definition unmute_rule :: "unit write_context \<Rightarrow> db \<Rightarrow> write_reply \<times> db" where
  "unmute_rule c d =
     settle (ok 200 (\<lambda>i. MuteBody i None)) (missing ''Alert rule not found'')
       (set_mute (id_param c) (wc_team c) None d)"

definition post_rule :: "team_env \<Rightarrow> (ident \<times> rule_input) write_context \<Rightarrow> db \<Rightarrow> write_reply \<times> db" where
  "post_rule E c d =
     (case create_rule (te_lib E) (clock_of E) (wc_team c) (snd (wc_input c)) d of
        (r, d1) \<Rightarrow> (ok 201 RuleBody r, d1))"

definition put_rule :: "team_env \<Rightarrow> rule_patch write_context \<Rightarrow> db \<Rightarrow> write_reply \<times> db" where
  "put_rule E c d =
     settle (ok 200 RuleBody) (or_throw handle_service_error)
       (update_rule (te_lib E) (id_param c) (wc_team c) (wc_input c) d)"

definition remove_rule :: "unit write_context \<Rightarrow> db \<Rightarrow> write_reply \<times> db" where
  "remove_rule c d =
     settle no_content (or_throw handle_service_error) (delete_rule (id_param c) (wc_team c) d)"

definition post_window :: "team_env \<Rightarrow> window_input write_context \<Rightarrow> db \<Rightarrow> write_reply \<times> db" where
  "post_window E c d =
     (case (date_parse (te_lib E) (wi_starts (wc_input c)), date_parse (te_lib E) (wi_ends (wc_input c))) of
        (Some starts, Some ends) \<Rightarrow>
          (let w = \<lparr>w_id = te_uuid E 0, w_team = wi_team (wc_input c), w_name = wi_name (wc_input c),
                    w_starts = starts, w_ends = ends\<rparr>
           in (ok 201 WindowBody w, d\<lparr>db_windows := db_windows d @ [w]\<rparr>))
      | _ \<Rightarrow> (unhandled (PlainError invalid_time), d))"

definition own_window :: "ident \<Rightarrow> ident \<Rightarrow> window_row \<Rightarrow> bool" where
  "own_window i team w \<longleftrightarrow> w_id w = i \<and> w_team w = team"

definition delete_window :: "ident \<Rightarrow> ident \<Rightarrow> db \<Rightarrow> (error + unit) \<times> db" where
  "delete_window i team d =
     (case List.find (own_window i team) (db_windows d) of
        None \<Rightarrow> (Inl RecordNotFound, d)
      | Some w \<Rightarrow> (Inr (), d\<lparr>db_windows := delete_first (own_window i team) (db_windows d)\<rparr>))"

definition remove_window :: "unit write_context \<Rightarrow> db \<Rightarrow> write_reply \<times> db" where
  "remove_window c d =
     settle no_content (missing ''Maintenance window not found'')
       (delete_window (id_param c) (wc_team c) d)"

section \<open>Handlers: incidents and issues\<close>

text \<open>A comment that does not validate is dropped, not refused.\<close>

definition comment_of :: "write_schemas \<Rightarrow> 'i write_context \<Rightarrow> string option" where
  "comment_of S c =
     (case sc_comment S (hr_body (wc_req c)) of Inl e \<Rightarrow> None | Inr comment \<Rightarrow> comment)"

definition incident_action ::
  "(clock \<Rightarrow> ident \<Rightarrow> ident \<Rightarrow> ident \<Rightarrow> string option \<Rightarrow> db \<Rightarrow> (error + incident_row) \<times> db) \<Rightarrow>
   team_env \<Rightarrow> write_schemas \<Rightarrow> unit write_context \<Rightarrow> db \<Rightarrow> write_reply \<times> db" where
  "incident_action act E S c d =
     settle (ok 200 IncidentBody) (or_throw handle_service_error)
       (act (clock_of E) (id_param c) (wc_team c) (wc_user c) (comment_of S c) d)"

definition assignee_known :: "ident \<Rightarrow> ident option \<Rightarrow> db \<Rightarrow> bool" where
  "assignee_known team a d = (case a of None \<Rightarrow> True | Some u \<Rightarrow> membership d team u \<noteq> None)"

definition put_assignee ::
  "issue_row option \<Rightarrow> issue_input write_context \<Rightarrow> db \<Rightarrow> write_reply \<times> db" where
  "put_assignee issue c d =
     (case ii_assignee (wc_input c) of
        None \<Rightarrow> (ok 200 IssueBody issue, d)
      | Some a \<Rightarrow>
          if \<not> assignee_known (wc_team c) a d
          then (refuse 400 ''Assignee is not a member of the issue's team'', d)
          else settle (\<lambda>r. ok 200 IssueBody (Some r)) unhandled (assign_issue (id_param c) a d))"

definition put_issue :: "issue_input write_context \<Rightarrow> db \<Rightarrow> write_reply \<times> db" where
  "put_issue c d =
     (case ii_status (wc_input c) of
        None \<Rightarrow> put_assignee None c d
      | Some st \<Rightarrow>
          (case update_issue_status (id_param c) st d of
             (Inl e, d1) \<Rightarrow> (unhandled e, d1)
           | (Inr r, d1) \<Rightarrow> put_assignee (Some r) c d1))"

section \<open>The route table\<close>

datatype write_endpoint =
    PostSource | PutSource | DeleteSource | RotateKey | RevealKey
  | MuteRule | UnmuteRule | PostRule | PutRule | DeleteRule
  | PostWindow | DeleteWindow
  | AcknowledgeIncident | ResolveIncident | ReopenIncident
  | PutIssue

abbreviation routed ::
  "team_env \<Rightarrow> (db \<Rightarrow> http_req \<Rightarrow> 'b reply + 'i team_target) \<Rightarrow>
   ('i write_context \<Rightarrow> db \<Rightarrow> 'b reply \<times> db) \<Rightarrow> http_req \<Rightarrow> db \<Rightarrow> 'b reply \<times> db" where
  "routed E \<equiv> write_route (require_auth (te_now E)) require_team_write_role"

fun serve_write ::
  "team_env \<Rightarrow> write_schemas \<Rightarrow> write_endpoint \<Rightarrow> http_req \<Rightarrow> db \<Rightarrow> write_reply \<times> db" where
  "serve_write E S PostSource = routed E (team_from_body (sc_source S) si_team) (post_source E)"
| "serve_write E S PutSource =
     routed E (team_from_resource load_source_team_id ''Source not found'' (sc_rename S)) (put_source E)"
| "serve_write E S DeleteSource =
     routed E (team_from_resource load_source_team_id ''Source not found'' no_schema) remove_source"
| "serve_write E S RotateKey =
     routed E (team_from_resource load_source_team_id ''Source not found'' no_schema) (rotate_key E)"
| "serve_write E S RevealKey =
     routed E (team_from_resource load_source_team_id ''Source not found'' no_schema) reveal_key"
| "serve_write E S MuteRule =
     routed E (team_from_resource load_rule_team_id ''Alert rule not found'' (sc_mute S)) (mute_rule E)"
| "serve_write E S UnmuteRule =
     routed E (team_from_resource load_rule_team_id ''Alert rule not found'' no_schema) unmute_rule"
| "serve_write E S PostRule = routed E (team_from_body (sc_rule S) fst) (post_rule E)"
| "serve_write E S PutRule =
     routed E (team_from_resource load_rule_team_id ''Alert rule not found'' (sc_rule_patch S)) (put_rule E)"
| "serve_write E S DeleteRule =
     routed E (team_from_resource load_rule_team_id ''Alert rule not found'' no_schema) remove_rule"
| "serve_write E S PostWindow = routed E (team_from_body (sc_window S) wi_team) (post_window E)"
| "serve_write E S DeleteWindow =
     routed E (team_from_resource load_window_team_id ''Maintenance window not found'' no_schema) remove_window"
| "serve_write E S AcknowledgeIncident =
     routed E (team_from_resource load_incident_team_id ''Incident not found'' no_schema)
       (incident_action acknowledge_incident E S)"
| "serve_write E S ResolveIncident =
     routed E (team_from_resource load_incident_team_id ''Incident not found'' no_schema)
       (incident_action resolve_incident E S)"
| "serve_write E S ReopenIncident =
     routed E (team_from_resource load_incident_team_id ''Incident not found'' no_schema)
       (incident_action reopen_incident E S)"
| "serve_write E S PutIssue =
     routed E (team_from_resource load_issue_team_id ''Issue not found'' (sc_issue S)) put_issue"

section \<open>The team a request acts on\<close>

text \<open>
  Read off the routes: the loader and not-found message of the by-id ones, the team the body
  names for the others, and nothing when the body does not validate or the id is unknown.
\<close>

fun resource_of :: "write_endpoint \<Rightarrow> ((ident \<Rightarrow> db \<Rightarrow> ident option) \<times> string) option" where
  "resource_of PostSource = None"
| "resource_of PostRule = None"
| "resource_of PostWindow = None"
| "resource_of PutSource = Some (load_source_team_id, ''Source not found'')"
| "resource_of DeleteSource = Some (load_source_team_id, ''Source not found'')"
| "resource_of RotateKey = Some (load_source_team_id, ''Source not found'')"
| "resource_of RevealKey = Some (load_source_team_id, ''Source not found'')"
| "resource_of MuteRule = Some (load_rule_team_id, ''Alert rule not found'')"
| "resource_of UnmuteRule = Some (load_rule_team_id, ''Alert rule not found'')"
| "resource_of PutRule = Some (load_rule_team_id, ''Alert rule not found'')"
| "resource_of DeleteRule = Some (load_rule_team_id, ''Alert rule not found'')"
| "resource_of DeleteWindow = Some (load_window_team_id, ''Maintenance window not found'')"
| "resource_of AcknowledgeIncident = Some (load_incident_team_id, ''Incident not found'')"
| "resource_of ResolveIncident = Some (load_incident_team_id, ''Incident not found'')"
| "resource_of ReopenIncident = Some (load_incident_team_id, ''Incident not found'')"
| "resource_of PutIssue = Some (load_issue_team_id, ''Issue not found'')"

definition accepts :: "'i body_schema \<Rightarrow> json option \<Rightarrow> bool" where
  "accepts schema b = (case schema b of Inl e \<Rightarrow> False | Inr i \<Rightarrow> True)"

fun valid_body :: "write_schemas \<Rightarrow> write_endpoint \<Rightarrow> json option \<Rightarrow> bool" where
  "valid_body S PostSource b = accepts (sc_source S) b"
| "valid_body S PutSource b = accepts (sc_rename S) b"
| "valid_body S MuteRule b = accepts (sc_mute S) b"
| "valid_body S PostRule b = accepts (sc_rule S) b"
| "valid_body S PutRule b = accepts (sc_rule_patch S) b"
| "valid_body S PostWindow b = accepts (sc_window S) b"
| "valid_body S PutIssue b = accepts (sc_issue S) b"
| "valid_body S _ b = True"

definition team_named :: "'i body_schema \<Rightarrow> ('i \<Rightarrow> ident) \<Rightarrow> json option \<Rightarrow> ident option" where
  "team_named schema team_of b = (case schema b of Inl e \<Rightarrow> None | Inr i \<Rightarrow> Some (team_of i))"

fun body_team :: "write_schemas \<Rightarrow> write_endpoint \<Rightarrow> json option \<Rightarrow> ident option" where
  "body_team S PostSource b = team_named (sc_source S) si_team b"
| "body_team S PostRule b = team_named (sc_rule S) fst b"
| "body_team S PostWindow b = team_named (sc_window S) wi_team b"
| "body_team S _ b = None"

definition target_team :: "write_schemas \<Rightarrow> write_endpoint \<Rightarrow> http_req \<Rightarrow> db \<Rightarrow> ident option" where
  "target_team S ep q d =
     (case resource_of ep of
        None \<Rightarrow> body_team S ep (hr_body q)
      | Some (load, msg) \<Rightarrow> if valid_body S ep (hr_body q) then load (hr_params q ''id'') d else None)"

definition stranger_reply :: "write_endpoint \<Rightarrow> write_reply" where
  "stranger_reply ep = (case resource_of ep of None \<Rightarrow> forbidden | Some (load, msg) \<Rightarrow> refuse 404 msg)"

section \<open>The gate in front of every route\<close>

text \<open>What the gate leaves of a request, \<open>r\<close> being its reply and the store after it.\<close>

definition gate_spec ::
  "millis \<Rightarrow> http_req \<Rightarrow> db \<Rightarrow> ident option \<Rightarrow> 'b reply \<Rightarrow> 'b reply \<times> db \<Rightarrow> bool" where
  "gate_spec t q d target stranger r =
     (case resolve_user_id t q d of
        None \<Rightarrow> r = (unauthorized, d)
      | Some u \<Rightarrow>
          (case target of
             None \<Rightarrow> snd r = d
           | Some team \<Rightarrow>
               (case resolve_team_role u team d of
                  None \<Rightarrow> r = (stranger, d)
                | Some role \<Rightarrow> role = Viewer \<longrightarrow> r = (forbidden, d))))"

lemma gate_spec_resource [guard_defs]:
  "gate_spec (te_now E) q d (if accepts schema (hr_body q) then load (hr_params q ''id'') d else None)
     (refuse 404 m) (routed E (team_from_resource load m schema) h q d)"
  by (auto simp: gate_spec_def write_route_def team_from_resource_def accepts_def
        require_auth_def require_team_write_role_def require_team_role_def can_write_iff
      split: option.splits sum.splits)

lemma gate_spec_body [guard_defs]:
  "gate_spec (te_now E) q d (team_named schema team_of (hr_body q)) forbidden
     (routed E (team_from_body schema team_of) h q d)"
  by (auto simp: gate_spec_def write_route_def team_from_body_def team_named_def
        require_auth_def require_team_write_role_def require_team_role_def can_write_iff
      split: option.splits sum.splits)

lemma accepts_no_schema [simp]: "accepts no_schema b"
  by (simp add: accepts_def no_schema_def)

lemma serve_write_gated: "gate_spec (te_now E) q d (target_team S ep q d) (stranger_reply ep) (serve_write E S ep q d)"
proof -
  note r = gate_spec_resource [of E q d no_schema, simplified]
  show ?thesis
    by (cases ep)
       (simp_all only: serve_write.simps target_team_def stranger_reply_def resource_of.simps
          option.case prod.case valid_body.simps body_team.simps if_True
          gate_spec_resource gate_spec_body r)
qed

lemma stranger_gone:
  assumes "resolve_user_id (te_now E) q d = Some u" and "accepts schema (hr_body q)"
    and "case load (hr_params q ''id'') d of None \<Rightarrow> True | Some t \<Rightarrow> resolve_team_role u t d = None"
  shows "routed E (team_from_resource load msg schema) h q d = (refuse 404 msg, d)"
proof -
  have "require_auth (te_now E) d q = Inr u" by (simp add: require_auth_ok assms(1))
  moreover obtain i where "schema (hr_body q) = Inr i"
    using assms(2) by (auto simp: accepts_def split: sum.splits)
  ultimately show ?thesis using assms(3) by (rule gate.no_oracle)
qed

text \<open>C1: the sixteen team-scoped mutating routes are closed to everyone who may not write. A caller
  without a live session gets 401; a request whose body does not validate or whose id is unknown
  changes nothing; a caller outside the team that owns the resource gets exactly the 404 an
  unknown id gets, or 403 where the body names the team; a VIEWER gets 403; and in none of these
  cases does the store change.\<close>

theorem team_writes_are_gated:
  "case resolve_user_id (te_now E) q d of
     None \<Rightarrow> serve_write E S ep q d = (unauthorized, d)
   | Some u \<Rightarrow>
       (case target_team S ep q d of
          None \<Rightarrow> snd (serve_write E S ep q d) = d
        | Some team \<Rightarrow>
            (case resolve_team_role u team d of
               None \<Rightarrow> serve_write E S ep q d = (stranger_reply ep, d)
             | Some role \<Rightarrow> if role = Viewer then serve_write E S ep q d = (forbidden, d) else can_write role))"
  using serve_write_gated [of E q d S ep]
  by (auto simp: gate_spec_def can_write_iff split: option.splits)

text \<open>C3: ids are no oracle. On every by-id route, a caller who is not a member of the team that owns
  the resource gets the same status and the same body as for an id that does not exist, whatever
  the store holds, and nothing changes.\<close>

theorem no_existence_oracle:
  assumes "resource_of ep = Some (load, msg)" and "valid_body S ep (hr_body q)"
    and "resolve_user_id (te_now E) q d = Some u"
    and "case load (hr_params q ''id'') d of None \<Rightarrow> True | Some t \<Rightarrow> resolve_team_role u t d = None"
  shows "serve_write E S ep q d = (refuse 404 msg, d)"
  using assms(1,2,4) by (cases ep) (auto intro!: stranger_gone [OF assms(3)])

end
