(* ===== verification/TeamIsolation.thy ===== *)
theory TeamIsolation imports TeamWrites begin

text \<open>
  What the mutating routes of \<open>TeamWrites\<close> leave alone and what they give away: everything outside
  the team they act on stays as it was, and an ingest key only appears in the answers that are
  meant to carry it.
\<close>

section \<open>A concrete request\<close>

definition call_as :: "string \<Rightarrow> ident \<Rightarrow> http_req" where
  "call_as tok i = \<lparr>hr_auth = Some tok, hr_api_key = None, hr_params = (\<lambda>_. i), hr_query = (\<lambda>_. None),
     hr_body = None, hr_ip = None\<rparr>"

definition two_teams :: db where
  "two_teams = empty_db\<lparr>db_sessions := [\<lparr>s_user = ''u1'', s_token = ''tok'', s_expires = 10\<rparr>],
     db_members := [\<lparr>m_team = ''t1'', m_user = ''u1'', m_role = Owner, m_joined = 0\<rparr>],
     db_sources := [\<lparr>src_id = ''s1'', src_team = ''t1'', src_name = ''api'', src_type = Http,
         src_config = JObj [], src_retention = 7, src_key = ''lf_1'', src_created = 0\<rparr>,
       \<lparr>src_id = ''s2'', src_team = ''t2'', src_name = ''web'', src_type = Http,
         src_config = JObj [], src_retention = 7, src_key = ''lf_2'', src_created = 0\<rparr>]\<rparr>"

definition sample_schemas :: write_schemas where
  "sample_schemas = \<lparr>sc_source = (\<lambda>_. Inl JNull), sc_rename = (\<lambda>_. Inr ''new''), sc_rule = (\<lambda>_. Inl JNull),
     sc_rule_patch = (\<lambda>_. Inl JNull), sc_mute = (\<lambda>_. Inr 5), sc_window = (\<lambda>_. Inl JNull),
     sc_comment = (\<lambda>_. Inr None), sc_issue = (\<lambda>_. Inl JNull)\<rparr>"

lemma parse_tok: "parse_token (Some ''tok'') = Some ''tok''"
  by code_simp

lemma parse_bearer: "parse_token (Some ''bEARER  tok'') = Some ''tok''"
  by code_simp

lemma caller_known: "resolve_user_id (te_now sample_team_env) (call_as ''tok'' i) two_teams = Some ''u1''"
  by (simp add: resolve_user_id_def call_as_def parse_tok session_user_def session_by_token_def
      two_teams_def sample_team_env_def)

lemma no_existence_oracle_witness:
  "serve_write sample_team_env sample_schemas RotateKey (call_as ''tok'' ''s2'') two_teams
     = (refuse 404 ''Source not found'', two_teams)"
proof (rule no_existence_oracle [where load = load_source_team_id and u = "''u1''"])
  show "case load_source_team_id (hr_params (call_as ''tok'' ''s2'') ''id'') two_teams of None \<Rightarrow> True
      | Some t \<Rightarrow> resolve_team_role ''u1'' t two_teams = None"
    by (simp add: call_as_def load_source_team_id_def source_by_id_def two_teams_def
        resolve_team_role_def membership_def)
qed (simp_all add: caller_known)

section \<open>Everything outside a team\<close>

definition team_rules :: "ident \<Rightarrow> db \<Rightarrow> ident list" where
  "team_rules team d = map r_id (filter (\<lambda>r. r_team r = team) (db_rules d))"

definition team_incidents :: "ident \<Rightarrow> db \<Rightarrow> ident list" where
  "team_incidents team d = map i_id (filter (\<lambda>x. i_rule x \<in> set (team_rules team d)) (db_incidents d))"

text \<open>
  \<open>outside team d0 d\<close> is the store \<open>d\<close> without the rows that belong to \<open>team\<close>: its sources, rules,
  issues and windows, and what hangs on the rules and incidents it had in \<open>d0\<close>. Users, sessions,
  teams, memberships, invites and views are all kept.
\<close>

definition outside :: "ident \<Rightarrow> db \<Rightarrow> db \<Rightarrow> db" where
  "outside team d0 d =
     d\<lparr>db_sources := filter (\<lambda>s. src_team s \<noteq> team) (db_sources d),
       db_rules := filter (\<lambda>r. r_team r \<noteq> team) (db_rules d),
       db_incidents := filter (\<lambda>x. i_rule x \<notin> set (team_rules team d0)) (db_incidents d),
       db_events := filter (\<lambda>e. e_incident e \<notin> set (team_incidents team d0)) (db_events d),
       db_subs := filter (\<lambda>s. sub_rule s \<notin> Some ` set (team_rules team d0)) (db_subs d),
       db_issues := filter (\<lambda>i. iss_team i \<noteq> team) (db_issues d),
       db_windows := filter (\<lambda>w. w_team w \<noteq> team) (db_windows d)\<rparr>"

definition frames :: "ident \<Rightarrow> db \<Rightarrow> db \<Rightarrow> bool" where
  "frames team d d' \<longleftrightarrow> outside team d d' = outside team d d"

named_theorems framing \<open>what each operation leaves alone\<close>

lemma frames_refl [framing, simp]: "frames team d d"
  by (simp add: frames_def)

lemma frames_create_source [framing]: "frames team d (snd (create_source E team n ty d))"
  by (simp add: create_source_def frames_def outside_def Let_def)

lemma frames_change_source [framing]: "frames team d (snd (change_source L team i c view d))"
  using source_table.update_foreign [of team i c "db_sources d"]
  by (auto simp: change_source_def frames_def outside_def own_source_def [abs_def] split: option.splits)

lemma frames_delete_source [framing]: "frames team d (snd (delete_source team i d))"
  using source_table.delete_foreign [of team i "db_sources d"]
  by (auto simp: delete_source_def frames_def outside_def own_source_def [abs_def] split: option.splits)

lemma frames_set_mute [framing]: "frames team d (snd (set_mute i team m d))"
proof -
  have "filter (\<lambda>r. r_team r \<noteq> team) (update_first (own_rule i team) (\<lambda>r. r\<lparr>r_mute := m\<rparr>) (db_rules d))
      = filter (\<lambda>r. r_team r \<noteq> team) (db_rules d)"
    by (rule filter_update_first_other) (auto simp: own_rule_def)
  then show ?thesis by (auto simp: set_mute_def frames_def outside_def split: option.splits)
qed

lemma frames_create_rule [framing]: "frames team d (snd (create_rule L C team i d))"
  by (simp add: create_rule_def frames_def outside_def Let_def)

lemma frames_update_rule [framing]: "frames team d (snd (update_rule L i team p d))"
  using rule_table.update_foreign [of team i p "db_rules d"]
  by (auto simp: update_rule_def frames_def outside_def own_rule_def [abs_def] split: option.splits)

lemma frames_delete_rule [framing]: "frames team d (snd (delete_rule i team d))"
proof (cases "exists_row (own_rule i team) (db_rules d)")
  case True
  then have mine: "i \<in> set (team_rules team d)"
    by (auto simp: own_rule_def team_rules_def)
  then have evt: "j \<in> set (team_incidents team d)" if "incident_rule_is e i j" "db_incidents e = db_incidents d" for e j
    using that by (auto simp: incident_rule_is_def team_incidents_def)
  have ev: "filter (\<lambda>x. e_incident x \<notin> set (team_incidents team d))
        (filter (\<lambda>x. \<not> incident_rule_is e i (e_incident x)) (db_events d))
      = filter (\<lambda>x. e_incident x \<notin> set (team_incidents team d)) (db_events d)"
    if e: "db_incidents e = db_incidents d" for e
  proof (rule filter_absorb)
    show "\<not> incident_rule_is e i (e_incident x)" if "e_incident x \<notin> set (team_incidents team d)" for x
      using evt [OF _ e] that by blast
  qed
  have inc: "filter (\<lambda>x. i_rule x \<notin> set (team_rules team d)) (filter (\<lambda>x. i_rule x \<noteq> i) (db_incidents d))
      = filter (\<lambda>x. i_rule x \<notin> set (team_rules team d)) (db_incidents d)"
    by (rule filter_absorb) (use mine in auto)
  have sub: "filter (\<lambda>s. sub_rule s \<notin> Some ` set (team_rules team d)) (filter (\<lambda>s. sub_rule s \<noteq> Some i) rs)
      = filter (\<lambda>s. sub_rule s \<notin> Some ` set (team_rules team d)) rs" for rs
    by (rule filter_absorb) (use mine in auto)
  have r: "exists_row (own_rule i team) (db_rules (d\<lparr>db_subs := x\<rparr>))" for x
    using True by simp
  show ?thesis
    using rule_table.delete_foreign [of team i "db_rules d"]
    by (simp add: delete_rule_def cascade_rule_def frames_def outside_def Let_def r ev inc sub
        own_rule_def [abs_def] del: exists_row_iff filter_filter)
next
  case False
  then show ?thesis by (auto simp: delete_rule_def Let_def)
qed

lemma frames_delete_window [framing]: "frames team d (snd (delete_window i team d))"
proof -
  have "filter (\<lambda>w. w_team w \<noteq> team) (delete_first (own_window i team) (db_windows d))
      = filter (\<lambda>w. w_team w \<noteq> team) (db_windows d)"
    by (rule filter_delete_first_other) (auto simp: own_window_def)
  then show ?thesis by (auto simp: delete_window_def frames_def outside_def split: option.splits)
qed

lemma rule_in_team_rules: "rule_in_team d r team \<Longrightarrow> r \<in> set (team_rules team d)"
  by (auto simp: rule_in_team_def rule_by_id_def team_rules_def split: option.splits dest!: find_SomeD)

lemma frames_transition [framing]: "frames team d (snd (transition_incident C a inc team u cm tg ev d))"
proof -
  have up: "filter (\<lambda>x. i_rule x \<notin> set (team_rules team d))
       (update_first (\<lambda>x. i_id x = inc \<and> i_status x = cur \<and> rule_in_team d (i_rule x) team)
          (\<lambda>x. x\<lparr>i_status := tg\<rparr>) (db_incidents d))
      = filter (\<lambda>x. i_rule x \<notin> set (team_rules team d)) (db_incidents d)" for cur
    by (rule filter_update_first_other) (auto dest: rule_in_team_rules)
  have mine: "List.find (\<lambda>x. i_id x = inc \<and> i_status x = cur \<and> rule_in_team d (i_rule x) team) (db_incidents d)
      = Some x \<Longrightarrow> inc \<in> set (team_incidents team d)" for cur x
    by (auto simp: team_incidents_def dest!: find_SomeD rule_in_team_rules)
  show ?thesis
    by (auto simp: transition_incident_def transition_commit_def frames_def outside_def Let_def up
        dest: mine split: sum.splits option.splits)
qed

lemma update_issue_team:
  assumes "load_issue_team_id i d = Some team" and "\<And>r. iss_team (f r) = iss_team r" and "\<And>r. iss_id (f r) = iss_id r"
  shows "frames team d (snd (update_issue i f d))
    \<and> load_issue_team_id i (snd (update_issue i f d)) = Some team
    \<and> db_members (snd (update_issue i f d)) = db_members d"
proof -
  obtain r where r: "List.find (\<lambda>r. iss_id r = i) (db_issues d) = Some r" "iss_team r = team"
    using assms(1) by (auto simp: load_issue_team_id_def issue_by_id_def)
  then have "iss_id r = i" by (auto dest: find_SomeD)
  then have "List.find (\<lambda>r. iss_id r = i) (update_first (\<lambda>r. iss_id r = i) f (db_issues d)) = Some (f r)"
    by (intro find_update_first_hit r(1)) (simp add: assms(3))
  moreover have "filter (\<lambda>x. iss_team x \<noteq> team) (update_first (\<lambda>r. iss_id r = i) f (db_issues d))
      = filter (\<lambda>x. iss_team x \<noteq> team) (db_issues d)"
    using r by (intro filter_update_first_found [OF r(1)]) (auto simp: assms(2))
  ultimately show ?thesis
    using r by (simp add: update_issue_def issue_by_id_def frames_def outside_def load_issue_team_id_def assms(2))
qed

lemma frames_issue_steps:
  "frames team d d1 \<Longrightarrow> db_rules d1 = db_rules d \<Longrightarrow> db_incidents d1 = db_incidents d \<Longrightarrow>
   frames team d1 d2 \<Longrightarrow> frames team d d2"
  by (simp add: frames_def outside_def team_rules_def team_incidents_def)

lemma update_issue_tables [simp]:
  "db_rules (snd (update_issue i f d)) = db_rules d"
  "db_incidents (snd (update_issue i f d)) = db_incidents d"
  by (simp_all add: update_issue_def split: option.splits)

lemma frames_put_assignee:
  assumes "load_issue_team_id (id_param c) d = Some (wc_team c)"
  shows "frames (wc_team c) d (snd (put_assignee issue c d))"
  using update_issue_team [OF assms]
  by (auto simp: put_assignee_def assign_issue_def split: option.splits)

lemma frames_put_issue [framing]:
  assumes "load_issue_team_id (id_param c) d = Some (wc_team c)"
  shows "frames (wc_team c) d (snd (put_issue c d))"
proof (cases "ii_status (wc_input c)")
  case None
  then show ?thesis using frames_put_assignee [OF assms] by (simp add: put_issue_def)
next
  case (Some st)
  let ?d = "snd (update_issue_status (id_param c) st d)"
  have step: "frames (wc_team c) d ?d" "load_issue_team_id (id_param c) ?d = Some (wc_team c)"
    using update_issue_team [OF assms, where f = "\<lambda>r. r\<lparr>iss_status := st\<rparr>"]
    by (simp_all add: update_issue_status_def)
  have "frames (wc_team c) d (snd (put_assignee issue c ?d))" for issue
    using step(1) by (rule frames_issue_steps)
      (simp_all add: update_issue_status_def frames_put_assignee [OF step(2), unfolded update_issue_status_def])
  with Some step show ?thesis
    by (cases "update_issue_status (id_param c) st d") (auto simp: put_issue_def split: sum.splits)
qed

section \<open>Each handler stays in its team\<close>

text \<open>
  A handler is confined when, called with the team its resolver found, it leaves everything
  outside that team alone. The wrapper passes nothing else to it.
\<close>

definition confined_by_id ::
  "(ident \<Rightarrow> db \<Rightarrow> ident option) \<Rightarrow> ('i write_context \<Rightarrow> db \<Rightarrow> 'b reply \<times> db) \<Rightarrow> bool" where
  "confined_by_id load h \<longleftrightarrow>
     (\<forall>c d. load (id_param c) d = Some (wc_team c) \<longrightarrow> frames (wc_team c) d (snd (h c d)))"

definition confined_by_body ::
  "('i \<Rightarrow> ident) \<Rightarrow> ('i write_context \<Rightarrow> db \<Rightarrow> 'b reply \<times> db) \<Rightarrow> bool" where
  "confined_by_body team_of h \<longleftrightarrow>
     (\<forall>c d. wc_team c = team_of (wc_input c) \<longrightarrow> frames (wc_team c) d (snd (h c d)))"

lemma frames_post_window:
  "frames (wi_team (wc_input c)) d (snd (post_window E c d))"
  by (auto simp: post_window_def frames_def outside_def Let_def split: option.splits)

lemma confined_by_body_handlers:
  "confined_by_body si_team (post_source E)"
  "confined_by_body fst (post_rule E)"
  "confined_by_body wi_team (post_window E)"
  by (simp_all add: confined_by_body_def post_source_def post_rule_def split_beta framing frames_post_window)

lemma confined_by_id_handlers:
  "confined_by_id L1 (put_source E)"
  "confined_by_id L2 remove_source"
  "confined_by_id L3 (rotate_key E)"
  "confined_by_id L4 reveal_key"
  "confined_by_id L5 (mute_rule E)"
  "confined_by_id L6 unmute_rule"
  "confined_by_id L7 (put_rule E)"
  "confined_by_id L8 remove_rule"
  "confined_by_id L9 remove_window"
  "confined_by_id load_issue_team_id put_issue"
  by (auto simp: confined_by_id_def put_source_def
      remove_source_def rotate_key_def reveal_key_def mute_rule_def unmute_rule_def put_rule_def
      remove_rule_def remove_window_def rename_source_def rotate_source_key_def Let_def
      split: option.splits intro: framing)

lemma confined_incident_actions:
  "confined_by_id L1 (incident_action acknowledge_incident E S)"
  "confined_by_id L2 (incident_action resolve_incident E S)"
  "confined_by_id L3 (incident_action reopen_incident E S)"
  by (simp_all add: confined_by_id_def incident_action_def acknowledge_incident_def
      resolve_incident_def reopen_incident_def framing)

lemma routed_by_id:
  assumes "confined_by_id load h"
  shows "case if accepts schema (hr_body q) then load (hr_params q ''id'') d else None of
           None \<Rightarrow> snd (routed E (team_from_resource load m schema) h q d) = d
         | Some team \<Rightarrow> frames team d (snd (routed E (team_from_resource load m schema) h q d))"
proof (cases "schema (hr_body q)")
  case (Inr i)
  have "frames t d (snd (h \<lparr>wc_req = q, wc_user = u, wc_team = t, wc_role = r, wc_input = i\<rparr> d))"
    if "load (hr_params q ''id'') d = Some t" for u r t
    using assms [unfolded confined_by_id_def, rule_format,
        of "\<lparr>wc_req = q, wc_user = u, wc_team = t, wc_role = r, wc_input = i\<rparr>" d] that
    by (simp add: id_param_def)
  with Inr show ?thesis
    by (simp add: write_route_def team_from_resource_def accepts_def split: sum.splits option.splits)
qed (simp add: write_route_def team_from_resource_def accepts_def split: sum.splits)

lemma routed_by_body:
  assumes "confined_by_body team_of h"
  shows "case team_named schema team_of (hr_body q) of
           None \<Rightarrow> snd (routed E (team_from_body schema team_of) h q d) = d
         | Some team \<Rightarrow> frames team d (snd (routed E (team_from_body schema team_of) h q d))"
proof (cases "schema (hr_body q)")
  case (Inr i)
  have "frames (team_of i) d (snd (h \<lparr>wc_req = q, wc_user = u, wc_team = team_of i, wc_role = r, wc_input = i\<rparr> d))"
    for u r
    using assms [unfolded confined_by_body_def, rule_format,
        of "\<lparr>wc_req = q, wc_user = u, wc_team = team_of i, wc_role = r, wc_input = i\<rparr>"] by simp
  with Inr show ?thesis
    by (simp add: write_route_def team_from_body_def team_named_def split: sum.splits)
qed (simp add: write_route_def team_from_body_def team_named_def split: sum.splits)

text \<open>C2: a team-scoped write stays in its team. Whatever the request and whoever sends it, one call of
  a mutating route changes nothing outside the team the request acts on: not the sources, rules,
  issues or maintenance windows of another team, not the incidents, timeline events or
  subscriptions of its rules, and no user, session, team, membership, invite or view at all.\<close>

theorem team_writes_stay_in_team:
  "case target_team S ep q d of
     None \<Rightarrow> snd (serve_write E S ep q d) = d
   | Some team \<Rightarrow> outside team d (snd (serve_write E S ep q d)) = outside team d d"
proof -
  note unvalidated = routed_by_id [where schema = no_schema, simplified accepts_no_schema if_True]
  have "case target_team S ep q d of None \<Rightarrow> snd (serve_write E S ep q d) = d
      | Some team \<Rightarrow> frames team d (snd (serve_write E S ep q d))"
    by (cases ep)
       (simp_all only: serve_write.simps target_team_def resource_of.simps option.case prod.case
          valid_body.simps body_team.simps accepts_no_schema if_True
          confined_by_id_handlers confined_incident_actions routed_by_id unvalidated routed_by_body [OF confined_by_body_handlers(1)]
          routed_by_body [OF confined_by_body_handlers(2)] routed_by_body [OF confined_by_body_handlers(3)])
  then show ?thesis by (simp add: frames_def split: option.splits)
qed

section \<open>Keys\<close>

fun keys_in :: "write_payload body \<Rightarrow> string list" where
  "keys_in (Payload (SourceBody s)) = (case ls_api_key s of None \<Rightarrow> [] | Some k \<Rightarrow> [k])"
| "keys_in (Payload (KeyBody k)) = [k]"
| "keys_in _ = []"

fun hints_in :: "write_payload body \<Rightarrow> string list" where
  "hints_in (Payload (SourceBody s)) = (case ls_key_hint s of None \<Rightarrow> [] | Some k \<Rightarrow> [k])"
| "hints_in _ = []"

definition role_of_caller :: "team_env \<Rightarrow> write_schemas \<Rightarrow> write_endpoint \<Rightarrow> http_req \<Rightarrow> db \<Rightarrow> team_role option" where
  "role_of_caller E S ep q d =
     (case (resolve_user_id (te_now E) q d, target_team S ep q d) of
        (Some u, Some team) \<Rightarrow> resolve_team_role u team d
      | _ \<Rightarrow> None)"

text \<open>What a handler that runs with role \<open>role\<close> in \<open>team\<close> may give away.\<close>

definition discreet :: "bool \<Rightarrow> team_role \<Rightarrow> ident \<Rightarrow> write_reply \<times> db \<Rightarrow> bool" where
  "discreet creating role team r \<longleftrightarrow>
     (let b = re_body (fst r) in
        (keys_in b = [] \<or> re_no_store (fst r))
      \<and> ((keys_in b = [] \<and> hints_in b = []) \<or> creating \<or> role = Owner \<or> role = Admin)
      \<and> list_all (\<lambda>k. exists_row (\<lambda>s. src_team s = team \<and> src_key s = k) (db_sources (snd r))) (keys_in b))"

lemma discreet_silent: "keys_in (re_body (fst r)) = [] \<Longrightarrow> hints_in (re_body (fst r)) = [] \<Longrightarrow> discreet b role team r"
  by (simp add: discreet_def Let_def)

lemma silent_refusals [simp]:
  "keys_in (re_body (refuse st m)) = []" "hints_in (re_body (refuse st m)) = []"
  "keys_in (re_body forbidden) = []" "hints_in (re_body forbidden) = []"
  "keys_in (re_body (unhandled e)) = []" "hints_in (re_body (unhandled e)) = []"
  "keys_in (re_body (missing m e)) = []" "hints_in (re_body (missing m e)) = []"
  "keys_in (re_body (or_throw handle_service_error e)) = []" "hints_in (re_body (or_throw handle_service_error e)) = []"
  "keys_in (re_body (no_content x)) = []" "hints_in (re_body (no_content x)) = []"
  "re_body (no_store r) = re_body r" "re_no_store (no_store r)"
  by (simp_all add: refuse_def answer_def forbidden_def unhandled_def missing_def or_throw_def
      handle_prisma_error_def handle_service_error_def no_content_def no_store_def split: option.splits error.splits)

lemma discreet_settle:
  assumes "\<And>e. keys_in (re_body (bad e)) = [] \<and> hints_in (re_body (bad e)) = []"
    and "\<And>x. fst r = Inr x \<Longrightarrow> discreet b role team (good x, snd r)"
  shows "discreet b role team (settle good bad r)"
  using assms by (cases r) (auto simp: settle_def intro!: discreet_silent split: sum.splits)

lemma rekeyed_row:
  assumes "List.find (own_source i team) rs = Some s"
  shows "apply_source_change c s \<in> set (update_first (own_source i team) (apply_source_change c) rs)"
proof -
  have "own_source i team (apply_source_change c s)"
    using find_SomeD [OF assms] by (simp add: own_source_def source_table.keeps_id source_table.keeps_team)
  then show ?thesis
    using find_SomeD [OF find_update_first_hit [OF assms]] by simp
qed

lemma discreet_change_source:
  assumes "\<And>x. no = (re_no_store (good x))" and "\<And>x. re_body (good x) = Payload (SourceBody x)"
    and "view = KeyFull \<Longrightarrow> no" and "view \<noteq> KeyNone \<Longrightarrow> b \<or> role = Owner \<or> role = Admin"
    and "fst (change_source L team i c view d) = Inr x"
  shows "discreet b role team (good x, snd (change_source L team i c view d))"
proof -
  obtain s where s: "List.find (own_source i team) (db_sources d) = Some s"
      "x = to_log_source L (apply_source_change c s) view"
    using assms(5) by (auto simp: change_source_def split: option.splits)
  then have "src_team s = team" by (auto simp: own_source_def dest: find_SomeD)
  moreover then have "\<exists>r \<in> set (update_first (own_source i team) (apply_source_change c) (db_sources d)).
      src_team r = team \<and> src_key r = src_key (apply_source_change c s)"
    using rekeyed_row [OF s(1), of c] by (auto simp: source_table.keeps_team intro: bexI [rotated])
  ultimately show ?thesis
    using assms(1-4) s
    by (cases view) (auto simp: discreet_def to_log_source_def change_source_def source_table.keeps_team)
qed

lemma discreet_sources:
  "discreet True (wc_role c1) (si_team (wc_input c1)) (post_source E c1 d)"
  "discreet False (wc_role c2) (wc_team c2) (put_source E c2 d)"
  "discreet False (wc_role c3) (wc_team c3) (remove_source c3 d)"
  "discreet False (wc_role c3) (wc_team c3) (rotate_key E c3 d)"
  "discreet False (wc_role c3) (wc_team c3) (reveal_key c3 d)"
proof -
  show "discreet True (wc_role c1) (si_team (wc_input c1)) (post_source E c1 d)"
    by (simp add: post_source_def create_source_def discreet_def ok_def answer_def to_log_source_def Let_def)
  show "discreet False (wc_role c2) (wc_team c2) (put_source E c2 d)"
    unfolding put_source_def rename_source_def
    by (rule discreet_settle)
       (auto intro!: discreet_change_source [where no = False]
          simp: ok_def answer_def key_view_def can_see_source_keys_def split: if_splits)
  show "discreet False (wc_role c3) (wc_team c3) (remove_source c3 d)"
    by (auto simp: remove_source_def ok_def intro!: discreet_silent discreet_settle)
  show "discreet False (wc_role c3) (wc_team c3) (rotate_key E c3 d)"
  proof (cases "can_manage_sources (wc_role c3)")
    case True
    then show ?thesis unfolding rotate_key_def rotate_source_key_def
      by (simp, intro discreet_settle discreet_change_source [where no = True])
         (auto simp: ok_def answer_def no_store_def can_manage_sources_def)
  qed (simp add: rotate_key_def discreet_silent)
  show "discreet False (wc_role c3) (wc_team c3) (reveal_key c3 d)"
    by (auto simp: reveal_key_def reveal_source_key_def discreet_def ok_def answer_def no_store_def own_source_def
        can_see_source_keys_def Let_def forbidden_def refuse_def split: option.splits dest!: find_SomeD)
qed

lemma discreet_put_assignee: "discreet b role team (put_assignee issue c d)"
  unfolding put_assignee_def
  by (auto simp: ok_def answer_def intro!: discreet_silent discreet_settle split: option.splits)

lemma discreet_others:
  "discreet b role team (mute_rule E c1 d)" "discreet b role team (unmute_rule c2 d)"
  "discreet b role team (post_rule E c3 d)" "discreet b role team (put_rule E c4 d)"
  "discreet b role team (remove_rule c5 d)" "discreet b role team (post_window E c6 d)"
  "discreet b role team (remove_window c7 d)" "discreet b role team (incident_action act E S c8 d)"
  "discreet b role team (put_issue c9 d)"
proof -
  show "discreet b role team (put_issue c9 d)"
    unfolding put_issue_def
    by (auto intro: discreet_put_assignee discreet_silent split: option.splits sum.splits prod.splits)
qed (auto simp: mute_rule_def unmute_rule_def post_rule_def put_rule_def remove_rule_def post_window_def
      remove_window_def incident_action_def ok_def answer_def split_beta Let_def
      intro!: discreet_silent discreet_settle split: option.splits)

text \<open>The wrapper adds refusals only, and calls the handler with the caller's role in the team.\<close>

definition discreet_for :: "bool \<Rightarrow> ident option \<Rightarrow> ident option \<Rightarrow> db \<Rightarrow> write_reply \<times> db \<Rightarrow> bool" where
  "discreet_for creating caller target d r =
     (case (caller, target) of
        (Some u, Some team) \<Rightarrow>
          (case resolve_team_role u team d of
             None \<Rightarrow> keys_in (re_body (fst r)) = [] \<and> hints_in (re_body (fst r)) = []
           | Some role \<Rightarrow> discreet creating role team r)
      | _ \<Rightarrow> keys_in (re_body (fst r)) = [] \<and> hints_in (re_body (fst r)) = [])"

lemma silent_gate:
  "require_auth t d q = Inl r \<Longrightarrow> keys_in (re_body r) = [] \<and> hints_in (re_body r) = []"
  "require_team_write_role d u team nf = Inl r \<Longrightarrow> keys_in (re_body r) = [] \<and> hints_in (re_body r) = []"
  by (auto simp: require_auth_fails unauthorized_def require_team_write_role_def require_team_role_def
      split: option.splits if_splits)

lemma silent_flat [simp]:
  "keys_in (re_body (answer st (FlatError e))) = []" "hints_in (re_body (answer st (FlatError e))) = []"
  by (simp_all add: answer_def)

lemma discreet_routed_by_id:
  assumes "\<And>c. discreet b (wc_role c) (wc_team c) (h c d)"
  shows "discreet_for b (resolve_user_id (te_now E) q d)
      (if accepts schema (hr_body q) then load (hr_params q ''id'') d else None) d
      (routed E (team_from_resource load m schema) h q d)"
proof -
  have h: "discreet b r t (h \<lparr>wc_req = q, wc_user = u, wc_team = t, wc_role = r, wc_input = i\<rparr> d)" for r t u i
    using assms [of "\<lparr>wc_req = q, wc_user = u, wc_team = t, wc_role = r, wc_input = i\<rparr>"] by simp
  show ?thesis
    using silent_gate(2)
    by (auto simp: discreet_for_def write_route_def team_from_resource_def accepts_def require_auth_def
        unauthorized_def h require_team_write_role_ok intro: discreet_silent
        split: option.splits sum.splits)
qed

lemma discreet_routed_by_body:
  assumes "\<And>c. discreet b (wc_role c) (team_of (wc_input c)) (h c d)"
  shows "discreet_for b (resolve_user_id (te_now E) q d) (team_named schema team_of (hr_body q)) d
      (routed E (team_from_body schema team_of) h q d)"
proof -
  have h: "discreet b r (team_of i) (h \<lparr>wc_req = q, wc_user = u, wc_team = t, wc_role = r, wc_input = i\<rparr> d)" for r t u i
    using assms [of "\<lparr>wc_req = q, wc_user = u, wc_team = t, wc_role = r, wc_input = i\<rparr>"] by simp
  show ?thesis
    using silent_gate(2)
    by (auto simp: discreet_for_def write_route_def team_from_body_def team_named_def require_auth_def
        unauthorized_def h require_team_write_role_ok intro: discreet_silent
        split: option.splits sum.splits)
qed


section \<open>A refused issue update is half done\<close>

text \<open>
  \<open>PUT /issues/:id\<close> writes the status before it looks at the assignee: a request with a new status
  and an assignee outside the team is answered 400, and the status has changed.
\<close>

lemma refused_issue_update_writes_status:
  assumes "ii_status (wc_input c) = Some st" and "ii_assignee (wc_input c) = Some (Some u)"
    and "membership d (wc_team c) u = None" and "issue_by_id (id_param c) d = Some r"
  shows "fst (put_issue c d) = refuse 400 ''Assignee is not a member of the issue's team''"
    and "issue_by_id (id_param c) (snd (put_issue c d)) = Some (r\<lparr>iss_status := st\<rparr>)"
proof -
  have i: "iss_id r = id_param c" using assms(4) by (auto simp: issue_by_id_def dest: find_SomeD)
  have f: "List.find (\<lambda>r. iss_id r = id_param c)
      (update_first (\<lambda>r. iss_id r = id_param c) (\<lambda>r. r\<lparr>iss_status := st\<rparr>) (db_issues d)) = Some (r\<lparr>iss_status := st\<rparr>)"
    using assms(4) i by (intro find_update_first_hit) (simp_all add: issue_by_id_def)
  have step: "update_issue_status (id_param c) st d = (Inr (r\<lparr>iss_status := st\<rparr>),
      d\<lparr>db_issues := update_first (\<lambda>r. iss_id r = id_param c) (\<lambda>r. r\<lparr>iss_status := st\<rparr>) (db_issues d)\<rparr>)"
    using assms(4) by (simp add: update_issue_status_def update_issue_def)
  show "fst (put_issue c d) = refuse 400 ''Assignee is not a member of the issue's team''"
    and "issue_by_id (id_param c) (snd (put_issue c d)) = Some (r\<lparr>iss_status := st\<rparr>)"
    using assms f step
    by (simp_all add: put_issue_def put_assignee_def assignee_known_def membership_def issue_by_id_def)
qed

end
