(* ===== verification/AccountRoutes.thy ===== *)
theory AccountRoutes imports WriteRoute Sources Invites begin

text \<open>
  The routes of \<open>backend/src/api/rest/router.ts\<close> about accounts and teams: registration and login,
  teams, the list of a team's sources, invites, and the admin API. \<open>prisma_text\<close> is the message of
  an error Prisma throws, which some of these handlers pass on. Foreign keys are not modelled, so
  the admin API's additions name users and teams that exist.
\<close>

section \<open>Inputs and answers\<close>

record credentials =
  cr_email :: string
  cr_password :: string
  cr_name :: string

record invite_input =
  iv_role :: team_role
  iv_email :: "string option"

record user_input =
  ui_role :: "user_role option"
  ui_status :: "user_status option"
  ui_disabled :: "bool option"

record account_env =
  ac_team :: team_env
  ac_prisma :: "error \<Rightarrow> string"
  ac_register :: "credentials body_schema"
  ac_login :: "(string \<times> string) body_schema"
  ac_new_team :: "(string \<times> string) body_schema"
  ac_invite :: "invite_input body_schema"
  ac_user :: "user_input body_schema"
  ac_add :: "(ident \<times> team_role) body_schema"

record member_team =
  mt_id :: ident
  mt_name :: string
  mt_slug :: string
  mt_role :: team_role
  mt_joined :: string

record membership_info =
  mi_team :: ident
  mi_user :: ident
  mi_role :: team_role
  mi_joined :: string

datatype account_payload =
    RegistrationBody registration_result
  | LoginBody string public_user
  | SettingsBody registration_mode
  | TeamsBody "(team_info \<times> team_role) list"
  | TeamBody team_info
  | SourcesBody "log_source list"
  | InviteBody team_invite
  | InvitesBody "team_invite list"
  | UsersBody "(public_user \<times> member_team list) list"
  | UserBody public_user
  | MembershipBody membership_info
  | AdminTeamsBody "(team_info \<times> nat) list"
  | MembersBody "(membership_info \<times> (ident \<times> string \<times> string) option) list"
  | StatsBody nat nat nat

type_synonym account_reply = "account_payload reply"

definition done_with :: "nat \<Rightarrow> 'b \<Rightarrow> 'b reply" where
  "done_with st b = answer st (Payload b)"

definition failed :: "account_env \<Rightarrow> nat \<Rightarrow> error \<Rightarrow> 'b reply" where
  "failed A st e = refuse st (message_of (ac_prisma A) e)"

section \<open>Accounts\<close>

definition post_register :: "account_env \<Rightarrow> http_req \<Rightarrow> db \<Rightarrow> account_reply \<times> db" where
  "post_register A q d =
     (case ac_register A (hr_body q) of
        Inl e \<Rightarrow> (answer 400 (FlatError e), d)
      | Inr c \<Rightarrow> settle (\<lambda>r. done_with 201 (RegistrationBody r)) (failed A 400)
                  (register (ac_team A) (cr_email c) (cr_password c) (cr_name c) d))"

definition get_auth_settings :: "account_env \<Rightarrow> account_reply" where
  "get_auth_settings A = done_with 200 (SettingsBody (tc_registration (te_cfg (ac_team A))))"

definition post_login :: "account_env \<Rightarrow> http_req \<Rightarrow> db \<Rightarrow> account_reply \<times> db" where
  "post_login A q d =
     (case ac_login A (hr_body q) of
        Inl e \<Rightarrow> (answer 400 (FlatError e), d)
      | Inr (email, password) \<Rightarrow>
          settle (\<lambda>(tok, u). done_with 200 (LoginBody tok u)) (failed A 401)
            (login (ac_team A) email password d))"

section \<open>Teams and their sources\<close>

abbreviation authed :: "account_env \<Rightarrow> http_req \<Rightarrow> db \<Rightarrow> 'b reply + ident" where
  "authed A q d \<equiv> require_auth (te_now (ac_team A)) d q"

definition get_teams :: "account_env \<Rightarrow> http_req \<Rightarrow> db \<Rightarrow> account_reply" where
  "get_teams A q d =
     (case authed A q d of
        Inl r \<Rightarrow> r
      | Inr u \<Rightarrow> done_with 200 (TeamsBody (list_teams_for_user (te_lib (ac_team A)) u d)))"

definition post_team :: "account_env \<Rightarrow> http_req \<Rightarrow> db \<Rightarrow> account_reply \<times> db" where
  "post_team A q d =
     (case authed A q d of
        Inl r \<Rightarrow> (r, d)
      | Inr u \<Rightarrow>
          (case ac_new_team A (hr_body q) of
             Inl e \<Rightarrow> (answer 400 (FlatError e), d)
           | Inr (name, slug) \<Rightarrow>
               (case parse_token (hr_auth q) of
                  None \<Rightarrow> (refuse 400 ''Missing authorization header'', d)
                | Some tok \<Rightarrow>
                    settle (\<lambda>t. done_with 201 (TeamBody t)) (failed A 400)
                      (create_team (ac_team A) tok name slug d))))"

definition get_sources :: "account_env \<Rightarrow> http_req \<Rightarrow> db \<Rightarrow> account_reply" where
  "get_sources A q d =
     (case authed A q d of
        Inl r \<Rightarrow> r
      | Inr u \<Rightarrow>
          (let team = query_text (te_lib (ac_team A)) q ''teamId'' in
           if team = [] then refuse 400 ''teamId is required''
           else
             (case require_team_role u team None d of
                Inl r \<Rightarrow> r
              | Inr role \<Rightarrow> done_with 200 (SourcesBody (list_sources (te_lib (ac_team A)) team
                  (if can_see_source_keys role then KeyHint else KeyNone) d)))))"

section \<open>Invites\<close>

definition managing_invites ::
  "account_env \<Rightarrow> ident \<Rightarrow> ident \<Rightarrow> (db \<Rightarrow> account_reply \<times> db) \<Rightarrow> db \<Rightarrow> account_reply \<times> db" where
  "managing_invites A u team k d =
     (case require_team_role u team None d of
        Inl r \<Rightarrow> (r, d)
      | Inr role \<Rightarrow> if \<not> can_manage_invites role then (forbidden, d) else k d)"

definition post_invite :: "account_env \<Rightarrow> http_req \<Rightarrow> db \<Rightarrow> account_reply \<times> db" where
  "post_invite A q d =
     (case authed A q d of
        Inl r \<Rightarrow> (r, d)
      | Inr u \<Rightarrow>
          (case ac_invite A (hr_body q) of
             Inl e \<Rightarrow> (answer 400 (FlatError e), d)
           | Inr i \<Rightarrow>
               managing_invites A u (hr_params q ''id'')
                 (\<lambda>d. settle (\<lambda>i. done_with 201 (InviteBody i)) (failed A 400)
                   (create_invite (ac_team A) (hr_params q ''id'') u (iv_role i) (iv_email i) d)) d))"

definition get_invites :: "account_env \<Rightarrow> http_req \<Rightarrow> db \<Rightarrow> account_reply \<times> db" where
  "get_invites A q d =
     (case authed A q d of
        Inl r \<Rightarrow> (r, d)
      | Inr u \<Rightarrow>
          managing_invites A u (hr_params q ''id'')
            (\<lambda>d. (done_with 200 (InvitesBody (list_invites (ac_team A) (hr_params q ''id'') d)), d)) d)"

definition post_accept :: "account_env \<Rightarrow> http_req \<Rightarrow> db \<Rightarrow> account_reply \<times> db" where
  "post_accept A q d =
     (case authed A q d of
        Inl r \<Rightarrow> (r, d)
      | Inr u \<Rightarrow>
          settle (\<lambda>t. done_with 200 (TeamBody t)) (failed A 400)
            (accept_invite (ac_team A) (hr_params q ''token'') u d))"

definition invite_gone :: "'b reply" where
  "invite_gone = refuse 404 ''Invite not found''"

definition delete_invite :: "account_env \<Rightarrow> http_req \<Rightarrow> db \<Rightarrow> account_reply \<times> db" where
  "delete_invite A q d =
     (case authed A q d of
        Inl r \<Rightarrow> (r, d)
      | Inr u \<Rightarrow>
          (case List.find (\<lambda>i. inv_id i = hr_params q ''id'') (db_invites d) of
             None \<Rightarrow> (invite_gone, d)
           | Some invite \<Rightarrow>
               (case require_team_role u (inv_team invite) (Some ''Invite not found'') d of
                  Inl r \<Rightarrow> (r, d)
                | Inr role \<Rightarrow>
                    if \<not> can_manage_invites role then (invite_gone, d)
                    else settle (\<lambda>_. answer 204 NoBody) (failed A 400)
                           (revoke_invite (hr_params q ''id'') (inv_team invite) d))))"

section \<open>The admin API\<close>

definition member_team_of :: "js_lib \<Rightarrow> db \<Rightarrow> member_row \<Rightarrow> member_team option" where
  "member_team_of L d m =
     map_option (\<lambda>t. \<lparr>mt_id = t_id t, mt_name = t_name t, mt_slug = t_slug t, mt_role = m_role m,
                      mt_joined = date_iso L (m_joined m)\<rparr>)
       (List.find (\<lambda>t. t_id t = m_team m) (db_teams d))"

definition admin_users :: "js_lib \<Rightarrow> db \<Rightarrow> (public_user \<times> member_team list) list" where
  "admin_users L d =
     map (\<lambda>u. (sanitize_user L u,
                List.map_filter (member_team_of L d)
                  (sort_key m_joined (filter (\<lambda>m. m_user m = u_id u) (db_members d)))))
       (sort_key (\<lambda>u. - u_created u) (db_users d))"

definition apply_user_input :: "user_input \<Rightarrow> user_row \<Rightarrow> user_row" where
  "apply_user_input i u =
     (let u1 = u\<lparr>u_role := the_or (u_role u) (ui_role i), u_status := the_or (u_status u) (ui_status i)\<rparr> in
      case ui_disabled i of
        None \<Rightarrow> u1
      | Some b \<Rightarrow> u1\<lparr>u_status := (if b then Disabled else Active)\<rparr>)"

definition update_user :: "js_lib \<Rightarrow> ident \<Rightarrow> user_input \<Rightarrow> db \<Rightarrow> (error + public_user) \<times> db" where
  "update_user L i p d =
     (case user_by_id d i of
        None \<Rightarrow> (Inl RecordNotFound, d)
      | Some u \<Rightarrow> (Inr (sanitize_user L (apply_user_input p u)),
                   d\<lparr>db_users := update_first (\<lambda>u. u_id u = i) (apply_user_input p) (db_users d)\<rparr>))"

definition membership_info_of :: "js_lib \<Rightarrow> member_row \<Rightarrow> membership_info" where
  "membership_info_of L m =
     \<lparr>mi_team = m_team m, mi_user = m_user m, mi_role = m_role m, mi_joined = date_iso L (m_joined m)\<rparr>"

definition admin_teams :: "js_lib \<Rightarrow> db \<Rightarrow> (team_info \<times> nat) list" where
  "admin_teams L d =
     map (\<lambda>t. (team_info_of L t, get_member_count (t_id t) d)) (sort_key (\<lambda>t. - t_created t) (db_teams d))"

definition admin_members :: "js_lib \<Rightarrow> ident \<Rightarrow> db \<Rightarrow> (membership_info \<times> (ident \<times> string \<times> string) option) list" where
  "admin_members L team d =
     map (\<lambda>m. (membership_info_of L m,
                map_option (\<lambda>u. (u_id u, u_email u, u_name u)) (user_by_id d (m_user m))))
       (filter (\<lambda>m. m_team m = team) (db_members d))"

datatype admin_endpoint =
    AdminUsers | AdminPutUser | AdminApprove | AdminAddToTeam | AdminRemoveFromTeam
  | AdminTeams | AdminMembers | AdminDeleteMember | AdminStats

fun run_admin :: "account_env \<Rightarrow> admin_endpoint \<Rightarrow> http_req \<Rightarrow> db \<Rightarrow> account_reply \<times> db" where
  "run_admin A AdminUsers q d = (done_with 200 (UsersBody (admin_users (te_lib (ac_team A)) d)), d)"
| "run_admin A AdminPutUser q d =
     (case ac_user A (hr_body q) of
        Inl e \<Rightarrow> (answer 400 (FlatError e), d)
      | Inr i \<Rightarrow>
          settle (\<lambda>u. done_with 200 (UserBody u))
            (or_throw (handle_prisma_error (Some ''User not found'') None))
            (update_user (te_lib (ac_team A)) (hr_params q ''id'') i d))"
| "run_admin A AdminApprove q d =
     settle (\<lambda>u. done_with 200 (UserBody u)) (failed A 400)
       (approve_user (ac_team A) (hr_params q ''id'') d)"
| "run_admin A AdminAddToTeam q d =
     (case ac_add A (hr_body q) of
        Inl e \<Rightarrow> (answer 400 (FlatError e), d)
      | Inr (team, role) \<Rightarrow>
          (case add_user_to_team (ac_team A) (hr_params q ''id'') team role d of
             (m, d1) \<Rightarrow> (done_with 201 (MembershipBody (membership_info_of (te_lib (ac_team A)) m)), d1)))"
| "run_admin A AdminRemoveFromTeam q d =
     settle (\<lambda>_. answer 204 NoBody) (\<lambda>_. refuse 404 ''Member not found'')
       (remove_user_from_team (hr_params q ''id'') (hr_params q ''teamId'') d)"
| "run_admin A AdminTeams q d = (done_with 200 (AdminTeamsBody (admin_teams (te_lib (ac_team A)) d)), d)"
| "run_admin A AdminMembers q d =
     (done_with 200 (MembersBody (admin_members (te_lib (ac_team A)) (hr_params q ''id'') d)), d)"
| "run_admin A AdminDeleteMember q d =
     settle (\<lambda>_. answer 204 NoBody) (or_throw (handle_prisma_error (Some ''Member not found'') None))
       (remove_user_from_team (hr_params q ''userId'') (hr_params q ''id'') d)"
| "run_admin A AdminStats q d =
     (done_with 200 (StatsBody (length (db_users d)) (length (db_teams d)) (length (db_sources d))), d)"

definition serve_admin :: "account_env \<Rightarrow> admin_endpoint \<Rightarrow> http_req \<Rightarrow> db \<Rightarrow> account_reply \<times> db" where
  "serve_admin A ep q d =
     (case require_admin (te_now (ac_team A)) d q of
        Inl r \<Rightarrow> (r, d)
      | Inr u \<Rightarrow> run_admin A ep q d)"

section \<open>Properties\<close>

lemma require_admin_ok:
  "require_admin t d q = Inr u \<longleftrightarrow>
   resolve_user_id t q d = Some u \<and> (\<exists>r. user_by_id d u = Some r \<and> u_role r = RoleAdmin)"
  by (auto simp: require_admin_def split: option.splits if_splits)

text \<open>C40: the admin API is for administrators. All nine admin routes answer a caller without a live
  session 401 and a caller whose account is not an ADMIN 403, changing nothing; no admin route
  touches sessions, sources, rules, incidents, issues or invites; and the routes that only read
  change nothing at all.\<close>

theorem admin_api_is_closed:
  "(case resolve_user_id (te_now (ac_team A)) q d of
      None \<Rightarrow> serve_admin A ep q d = (unauthorized, d)
    | Some u \<Rightarrow>
        if map_option u_role (user_by_id d u) = Some RoleAdmin then serve_admin A ep q d = run_admin A ep q d
        else serve_admin A ep q d = (refuse 403 ''Admin access required'', d))
   \<and> (snd (serve_admin A ep q d))\<lparr>db_users := [], db_teams := [], db_members := []\<rparr>
      = d\<lparr>db_users := [], db_teams := [], db_members := []\<rparr>
   \<and> (if ep = AdminUsers \<or> ep = AdminTeams \<or> ep = AdminMembers \<or> ep = AdminStats
      then snd (serve_admin A ep q d) = d else True)"
proof -
  have default_team: "(add_user_to_default_team E k u r e)\<lparr>db_users := [], db_teams := [], db_members := []\<rparr>
      = e\<lparr>db_users := [], db_teams := [], db_members := []\<rparr>" for E k u r e
    by (auto simp: add_user_to_default_team_def ensure_default_team_def upsert_member_def Let_def
        split: option.splits)
  have run: "(snd (run_admin A ep q d))\<lparr>db_users := [], db_teams := [], db_members := []\<rparr>
      = d\<lparr>db_users := [], db_teams := [], db_members := []\<rparr>"
    by (cases ep)
       (auto simp: update_user_def approve_user_def add_user_to_team_def remove_user_from_team_def Let_def
          default_team split: sum.splits option.splits prod.splits)
  have quiet: "snd (run_admin A ep q d) = d"
    if "ep = AdminUsers \<or> ep = AdminTeams \<or> ep = AdminMembers \<or> ep = AdminStats"
    using that by auto
  show ?thesis
    using run quiet
    by (auto simp: serve_admin_def require_admin_def split: option.splits)
qed

definition manages :: "ident \<Rightarrow> ident \<Rightarrow> db \<Rightarrow> bool" where
  "manages u team d \<longleftrightarrow> resolve_team_role u team d = Some Owner \<or> resolve_team_role u team d = Some Admin"

lemma manages_iff:
  "manages u team d \<longleftrightarrow> (\<exists>r. resolve_team_role u team d = Some r \<and> can_manage_invites r)"
  by (auto simp: manages_def can_manage_invites_def)

lemma managing_invites_cases:
  "managing_invites A u team k d = (if manages u team d then k d else (forbidden, d))"
  by (auto simp: managing_invites_def manages_iff require_team_role_def split: option.splits)

text \<open>invites are managed by the OWNERs and ADMINs of their team. Anyone else gets 403 on creating
  and listing, and on deleting exactly the 404 of an unknown invite, and changes nothing; a manager
  who deletes an invite removes that one and nothing else. Listing shows only invites of the
  team that are neither used nor expired.\<close>

theorem invites_managed_by_admins:
  "case resolve_user_id (te_now (ac_team A)) q d of
     None \<Rightarrow> post_invite A q d = (unauthorized, d) \<and> get_invites A q d = (unauthorized, d)
             \<and> delete_invite A q d = (unauthorized, d)
   | Some u \<Rightarrow>
       (if manages u (hr_params q ''id'') d
        then get_invites A q d =
               (done_with 200 (InvitesBody (list_invites (ac_team A) (hr_params q ''id'') d)), d)
             \<and> list_all (\<lambda>i. tv_team i = hr_params q ''id'' \<and> tv_used i = None)
                 (list_invites (ac_team A) (hr_params q ''id'') d)
        else get_invites A q d = (forbidden, d) \<and> snd (post_invite A q d) = d)
     \<and> (case List.find (\<lambda>i. inv_id i = hr_params q ''id'') (db_invites d) of
          None \<Rightarrow> delete_invite A q d = (invite_gone, d)
        | Some i \<Rightarrow>
            delete_invite A q d =
              (if manages u (inv_team i) d
               then (answer 204 NoBody, d\<lparr>db_invites :=
                       filter (\<lambda>r. \<not> (inv_id r = inv_id i \<and> inv_team r = inv_team i)) (db_invites d)\<rparr>)
               else (invite_gone, d)))"
proof (cases "resolve_user_id (te_now (ac_team A)) q d")
  case None
  then show ?thesis by (simp add: post_invite_def get_invites_def delete_invite_def require_auth_def)
next
  case (Some u)
  then have auth: "require_auth (te_now (ac_team A)) d q = Inr u" by (simp add: require_auth_ok)
  have listed: "list_all (\<lambda>i. tv_team i = t \<and> tv_used i = None) (list_invites E t d)" for E t
    by (auto simp: list_invites_def map_invite_def list_all_iff)
  have gone: "\<not> manages u t d \<Longrightarrow> (case require_team_role u t (Some ''Invite not found'') d of
      Inl r \<Rightarrow> (r, d) | Inr role \<Rightarrow> if \<not> can_manage_invites role then (invite_gone, d) else x) = (invite_gone, d)" for t x
    by (auto simp: manages_iff require_team_role_def invite_gone_def split: option.splits)
  have there: "manages u t d \<Longrightarrow> (case require_team_role u t (Some ''Invite not found'') d of
      Inl r \<Rightarrow> (r, d) | Inr role \<Rightarrow> if \<not> can_manage_invites role then (invite_gone, d) else x) = x" for t x
    by (auto simp: manages_iff require_team_role_def)
  have del: "List.find (\<lambda>i. inv_id i = hr_params q ''id'') (db_invites d) = Some i \<Longrightarrow>
      delete_invite A q d = (if manages u (inv_team i) d
        then (answer 204 NoBody, d\<lparr>db_invites :=
                filter (\<lambda>r. \<not> (inv_id r = inv_id i \<and> inv_team r = inv_team i)) (db_invites d)\<rparr>)
        else (invite_gone, d))" for i
    by (cases "manages u (inv_team i) d")
       (auto simp: delete_invite_def auth gone there revoke_invite_def settle_def Let_def dest!: find_SomeD)
  show ?thesis
    using Some listed del
    by (auto simp: auth get_invites_def post_invite_def managing_invites_cases delete_invite_def
        split: option.splits sum.splits)
qed

end
