(* ===== verification/LogViews.thy ===== *)
theory LogViews imports Database begin

text \<open>
  \<open>services/log-view/log-view-service.ts\<close>: saved log views and who may do what to them. The rules
  are judged on the loaded view, never on the request.
\<close>

section \<open>What the caller gets back\<close>

record view_stub =
  vs_id :: ident
  vs_team :: ident
  vs_owner :: "ident option"
  vs_shared :: bool
  vs_default :: bool
  vs_created :: string
  vs_updated :: string

datatype view_answer = FullView view_stub string json | StubView view_stub

definition map_view_stub :: "js_lib \<Rightarrow> view_row \<Rightarrow> view_stub" where
  "map_view_stub L v =
     \<lparr>vs_id = v_id v, vs_team = v_team v, vs_owner = v_owner v, vs_shared = v_shared v,
      vs_default = v_default v, vs_created = date_iso L (v_created v), vs_updated = date_iso L (v_updated v)\<rparr>"

definition map_view :: "js_lib \<Rightarrow> view_row \<Rightarrow> view_answer" where
  "map_view L v = FullView (map_view_stub L v) (v_name v) (v_def v)"

section \<open>The rules\<close>

definition can_read :: "view_row \<Rightarrow> ident \<Rightarrow> bool" where
  "can_read v user \<longleftrightarrow> v_shared v \<or> v_owner v = Some user"

definition is_team_wide_state :: "view_row \<Rightarrow> bool" where
  "is_team_wide_state v \<longleftrightarrow> v_shared v \<or> v_default v"

definition is_foreign_private_default :: "view_row \<Rightarrow> ident \<Rightarrow> bool" where
  "is_foreign_private_default v user \<longleftrightarrow> \<not> v_shared v \<and> v_default v \<and> v_owner v \<noteq> Some user"

definition can_mutate :: "view_row \<Rightarrow> ident \<Rightarrow> bool \<Rightarrow> bool" where
  "can_mutate v user manage =
     (if v_owner v = Some user then True
      else if is_team_wide_state v \<and> manage then True
      else False)"

record view_input =
  vi_name :: "string option"
  vi_shared :: "bool option"
  vi_default :: "bool option"
  vi_def :: "json option"

definition clears_default_only :: "view_input \<Rightarrow> bool" where
  "clears_default_only p \<longleftrightarrow>
     vi_default p = Some False \<and> vi_name p = None \<and> vi_shared p = None \<and> vi_def p = None"

definition view_not_found :: error where
  "view_not_found = NotFoundError ''Saved view not found''"

definition assert_visible :: "view_row \<Rightarrow> ident \<Rightarrow> bool \<Rightarrow> bool" where
  "assert_visible v user manage \<longleftrightarrow>
     \<not> (\<not> can_read v user \<and> \<not> (manage \<and> is_foreign_private_default v user))"

section \<open>Operations\<close>

definition view_by_id :: "ident \<Rightarrow> db \<Rightarrow> view_row option" where
  "view_by_id i d = List.find (\<lambda>v. v_id v = i) (db_views d)"

definition list_views :: "js_lib \<Rightarrow> ident \<Rightarrow> ident \<Rightarrow> db \<Rightarrow> view_answer list" where
  "list_views L team user d =
     map (map_view L)
       (sort_key (\<lambda>v. if v_default v then 0 else (1::nat))
         (sort_key (\<lambda>v. - v_updated v)
           (filter (\<lambda>v. v_team v = team \<and> (v_shared v \<or> v_owner v = Some user)) (db_views d))))"

text \<open>Making a view the default clears the flag of the caller's own and of every shared view.\<close>

definition in_default_scope :: "ident \<Rightarrow> ident \<Rightarrow> view_row \<Rightarrow> bool" where
  "in_default_scope team user v \<longleftrightarrow> v_team v = team \<and> (v_owner v = Some user \<or> v_shared v)"

definition clear_defaults :: "millis \<Rightarrow> ident \<Rightarrow> ident \<Rightarrow> db \<Rightarrow> db" where
  "clear_defaults t team user d =
     d\<lparr>db_views := update_all (in_default_scope team user) (\<lambda>v. v\<lparr>v_default := False, v_updated := t\<rparr>) (db_views d)\<rparr>"

record new_view =
  nv_name :: string
  nv_shared :: bool
  nv_default :: bool
  nv_def :: json

definition create_view :: "js_lib \<Rightarrow> clock \<Rightarrow> ident \<Rightarrow> ident \<Rightarrow> new_view \<Rightarrow> db \<Rightarrow> view_answer \<times> db" where
  "create_view L C team user n d =
     (let d1 = (if nv_default n then clear_defaults (now C) team user d else d);
          v = \<lparr>v_id = uuid C, v_team = team, v_owner = Some user, v_name = nv_name n,
               v_shared = nv_shared n, v_default = nv_default n, v_def = nv_def n,
               v_created = now C, v_updated = now C\<rparr>
      in (map_view L v, d1\<lparr>db_views := db_views d1 @ [v]\<rparr>))"

definition apply_view_input :: "millis \<Rightarrow> view_input \<Rightarrow> view_row \<Rightarrow> view_row" where
  "apply_view_input t p v =
     v\<lparr>v_name := the_or (v_name v) (vi_name p), v_shared := the_or (v_shared v) (vi_shared p),
       v_default := the_or (v_default v) (vi_default p), v_def := the_or (v_def v) (vi_def p),
       v_updated := t\<rparr>"

text \<open>\<open>prisma.logView.update\<close> by id.\<close>

definition write_view ::
  "ident \<Rightarrow> (view_row \<Rightarrow> view_row) \<Rightarrow> (view_row \<Rightarrow> view_answer) \<Rightarrow> db \<Rightarrow> (error + view_answer) \<times> db" where
  "write_view i f answer d =
     (case view_by_id i d of
        None \<Rightarrow> (Inl RecordNotFound, d)
      | Some v \<Rightarrow> (Inr (answer (f v)), d\<lparr>db_views := update_first (\<lambda>v. v_id v = i) f (db_views d)\<rparr>))"

definition update_view ::
  "js_lib \<Rightarrow> millis \<Rightarrow> ident \<Rightarrow> ident \<Rightarrow> ident \<Rightarrow> bool \<Rightarrow> view_input \<Rightarrow> db \<Rightarrow> (error + view_answer) \<times> db" where
  "update_view L t i team user manage p d =
     (case view_by_id i d of
        None \<Rightarrow> (Inl view_not_found, d)
      | Some existing \<Rightarrow>
          if v_team existing \<noteq> team then (Inl view_not_found, d)
          else if \<not> assert_visible existing user manage then (Inl view_not_found, d)
          else if is_team_wide_state existing \<and> \<not> manage then (Inl (ForbiddenError ''Forbidden''), d)
          else if \<not> can_mutate existing user manage then (Inl (ForbiddenError ''Forbidden''), d)
          else if is_foreign_private_default existing user then
            (if \<not> clears_default_only p then (Inl (ForbiddenError ''Forbidden''), d)
             else write_view i (\<lambda>v. v\<lparr>v_default := False, v_updated := t\<rparr>)
                    (\<lambda>v. StubView (map_view_stub L v)) d)
          else
            (let d1 = (if vi_default p = Some True then clear_defaults t team user d else d)
             in write_view i (apply_view_input t p) (map_view L) d1))"

definition duplicate_view ::
  "js_lib \<Rightarrow> clock \<Rightarrow> ident \<Rightarrow> ident \<Rightarrow> ident \<Rightarrow> bool \<Rightarrow> string option \<Rightarrow> db \<Rightarrow> (error + view_answer) \<times> db" where
  "duplicate_view L C i team user manage name d =
     (case view_by_id i d of
        None \<Rightarrow> (Inl view_not_found, d)
      | Some existing \<Rightarrow>
          if v_team existing \<noteq> team then (Inl view_not_found, d)
          else if \<not> can_read existing user then (Inl view_not_found, d)
          else
            (let trimmed = (case name of None \<Rightarrow> [] | Some s \<Rightarrow> trim s);
                 v = \<lparr>v_id = uuid C, v_team = team, v_owner = Some user,
                      v_name = (if trimmed \<noteq> [] then trimmed else v_name existing @ '' (copy)''),
                      v_shared = (v_shared existing \<and> manage), v_default = False,
                      v_def = (if v_def existing = JNull then JObj [] else v_def existing),
                      v_created = now C, v_updated = now C\<rparr>
             in (Inr (map_view L v), d\<lparr>db_views := db_views d @ [v]\<rparr>)))"

definition remove_view :: "ident \<Rightarrow> ident \<Rightarrow> ident \<Rightarrow> bool \<Rightarrow> db \<Rightarrow> (error + unit) \<times> db" where
  "remove_view i team user manage d =
     (case view_by_id i d of
        None \<Rightarrow> (Inl view_not_found, d)
      | Some existing \<Rightarrow>
          if v_team existing \<noteq> team then (Inl view_not_found, d)
          else if \<not> assert_visible existing user manage then (Inl view_not_found, d)
          else if is_team_wide_state existing \<and> \<not> manage then (Inl (ForbiddenError ''Forbidden''), d)
          else if \<not> can_mutate existing user manage then (Inl (ForbiddenError ''Forbidden''), d)
          else (Inr (), d\<lparr>db_views := delete_first (\<lambda>v. v_id v = i) (db_views d)\<rparr>))"

section \<open>The permission matrix\<close>

text \<open>
  The decision the three mutating operations share, as a table: what a caller may know of a view,
  and what they may do to it.
\<close>

datatype verdict = Hidden | Denied | CleanupOnly | Allowed

definition verdict :: "view_row \<Rightarrow> ident \<Rightarrow> bool \<Rightarrow> verdict" where
  "verdict v user manage =
     (if v_owner v = Some user then
        (if v_shared v \<or> v_default v then (if manage then Allowed else Denied) else Allowed)
      else if v_shared v then (if manage then Allowed else Denied)
      else if v_default v then (if manage then CleanupOnly else Hidden)
      else Hidden)"

lemmas view_rules = can_read_def is_team_wide_state_def is_foreign_private_default_def
  can_mutate_def assert_visible_def verdict_def

lemma view_by_id_row: "view_by_id i d = Some v \<Longrightarrow> v_id v = i \<and> v \<in> set (db_views d)"
  by (auto simp: view_by_id_def dest: find_SomeD)

lemma find_update_all:
  assumes "\<And>v. v_id (f v) = v_id v"
  shows "List.find (\<lambda>v. v_id v = i) (update_all P f rs)
    = map_option (\<lambda>v. if P v then f v else v) (List.find (\<lambda>v. v_id v = i) rs)"
  using assms by (induction rs) (auto simp: update_all_def)

lemma view_by_id_clear:
  "view_by_id i (clear_defaults t team user d) = None \<longleftrightarrow> view_by_id i d = None"
  by (simp add: view_by_id_def clear_defaults_def find_update_all)

text \<open>who may change a saved view. For every view of the caller's team the three operations follow
  one table: a private view of somebody else does not exist for the caller, except that a manager
  may clean up a private default; a shared or default view is for managers only, even its owner
  is refused without the role; everything else is the owner's. A view of another team and an
  unknown id are answered alike. A refused operation writes nothing, deleting removes that view
  alone, and the clean-up of somebody's private default can only clear its flag and never shows
  its name or definition.\<close>

theorem view_permission_matrix:
  "(case view_by_id i d of
      None \<Rightarrow> update_view L t i team user manage p d = (Inl view_not_found, d)
        \<and> remove_view i team user manage d = (Inl view_not_found, d)
    | Some v \<Rightarrow>
        if v_team v \<noteq> team then
          update_view L t i team user manage p d = (Inl view_not_found, d)
          \<and> remove_view i team user manage d = (Inl view_not_found, d)
        else (case verdict v user manage of
          Hidden \<Rightarrow> update_view L t i team user manage p d = (Inl view_not_found, d)
            \<and> remove_view i team user manage d = (Inl view_not_found, d)
        | Denied \<Rightarrow> update_view L t i team user manage p d = (Inl (ForbiddenError ''Forbidden''), d)
            \<and> remove_view i team user manage d = (Inl (ForbiddenError ''Forbidden''), d)
        | CleanupOnly \<Rightarrow>
            update_view L t i team user manage p d =
              (if clears_default_only p
               then (Inr (StubView (map_view_stub L (v\<lparr>v_default := False, v_updated := t\<rparr>))),
                     d\<lparr>db_views := update_first (\<lambda>w. v_id w = i)
                         (\<lambda>w. w\<lparr>v_default := False, v_updated := t\<rparr>) (db_views d)\<rparr>)
               else (Inl (ForbiddenError ''Forbidden''), d))
            \<and> remove_view i team user manage d =
                (Inr (), d\<lparr>db_views := delete_first (\<lambda>w. v_id w = i) (db_views d)\<rparr>)
        | Allowed \<Rightarrow>
            (\<exists>w. fst (update_view L t i team user manage p d) = Inr (map_view L (apply_view_input t p w))
               \<and> v_id w = i \<and> v_team w = team)
            \<and> remove_view i team user manage d =
                (Inr (), d\<lparr>db_views := delete_first (\<lambda>w. v_id w = i) (db_views d)\<rparr>)))"
proof (cases "view_by_id i d")
  case None
  then show ?thesis by (simp add: update_view_def remove_view_def)
next
  case (Some v)
  note found = view_by_id_row [OF Some]
  let ?d1 = "if vi_default p = Some True then clear_defaults t team user d else d"
  have keep: "\<exists>w. view_by_id i ?d1 = Some w \<and> v_id w = i \<and> v_team w = v_team v"
    using Some found
    by (auto simp: view_by_id_def clear_defaults_def find_update_all)
  show ?thesis
  proof (cases "v_team v = team")
    case False
    with Some show ?thesis by (simp add: update_view_def remove_view_def)
  next
    case True
    from keep obtain w where w: "view_by_id i ?d1 = Some w" "v_id w = i" "v_team w = team" using True by auto
    show ?thesis
      using Some True w
      by (cases "v_owner v = Some user"; cases "v_shared v"; cases "v_default v"; cases manage)
        (auto simp: update_view_def remove_view_def view_rules write_view_def Let_def)
  qed
qed

text \<open>One default at a time. After a user makes a view the default, by creating it so, no other
  view of theirs and no other shared view of the team is a default; other users' private views
  and other teams' views keep their flag.\<close>

theorem new_default_is_the_only_one:
  "filter (\<lambda>v. in_default_scope team user v \<and> v_default v)
      (db_views (snd (create_view L C team user (n\<lparr>nv_default := True\<rparr>) d)))
    = [\<lparr>v_id = uuid C, v_team = team, v_owner = Some user, v_name = nv_name n, v_shared = nv_shared n,
        v_default = True, v_def = nv_def n, v_created = now C, v_updated = now C\<rparr>]
   \<and> filter (\<lambda>v. \<not> in_default_scope team user v)
      (db_views (snd (create_view L C team user (n\<lparr>nv_default := True\<rparr>) d)))
    = filter (\<lambda>v. \<not> in_default_scope team user v) (db_views d)"
proof -
  have scope: "in_default_scope team user (v\<lparr>v_default := False, v_updated := now C\<rparr>) = in_default_scope team user v" for v
    by (simp add: in_default_scope_def)
  have a: "filter (\<lambda>v. in_default_scope team user v \<and> v_default v)
     (update_all (in_default_scope team user) (\<lambda>v. v\<lparr>v_default := False, v_updated := now C\<rparr>) vs) = []" for vs
    by (induction vs) (auto simp: update_all_def scope)
  have b: "filter (\<lambda>v. \<not> in_default_scope team user v)
     (update_all (in_default_scope team user) (\<lambda>v. v\<lparr>v_default := False, v_updated := now C\<rparr>) vs)
     = filter (\<lambda>v. \<not> in_default_scope team user v) vs" for vs
    by (rule filter_update_all_other) (simp_all add: scope)
  show ?thesis
    using a b by (simp add: create_view_def clear_defaults_def Let_def) (simp add: in_default_scope_def)
qed

end
