(* ===== verification/ViewRoutes.thy ===== *)
theory ViewRoutes imports AccountRoutes LogViews begin

text \<open>
  The saved-view routes of \<open>backend/src/api/rest/router.ts\<close>. They are open to every member, VIEWERs
  included, for private views; shared and default views are team-wide state that only OWNERs and
  ADMINs may create or change, which the routes and the service enforce together.
\<close>

section \<open>Handlers\<close>

record view_env =
  vw_lib :: js_lib
  vw_clock :: clock
  vw_create :: "(ident \<times> new_view) body_schema"
  vw_update :: "view_input body_schema"

datatype view_payload = ViewsBody "view_answer list" | ViewBody view_answer

type_synonym view_reply = "view_payload reply"

definition requests_shared_state :: "bool option \<Rightarrow> bool option \<Rightarrow> bool" where
  "requests_shared_state shared dflt \<longleftrightarrow> shared = Some True \<or> dflt = Some True"

text \<open>\<open>String(req.query.teamId ?? req.body?.teamId ?? "")\<close>.\<close>

definition defined_text :: "js_lib \<Rightarrow> json option \<Rightarrow> string option" where
  "defined_text L v = (case v of None \<Rightarrow> None | Some JNull \<Rightarrow> None | Some v \<Rightarrow> Some (to_text L v))"

definition body_field :: "http_req \<Rightarrow> string \<Rightarrow> json option" where
  "body_field q k = (case hr_body q of None \<Rightarrow> None | Some b \<Rightarrow> field k b)"

definition query_team :: "js_lib \<Rightarrow> http_req \<Rightarrow> string" where
  "query_team L q = query_text L q ''teamId''"

definition body_team_text :: "js_lib \<Rightarrow> http_req \<Rightarrow> string" where
  "body_team_text L q = the_or [] (defined_text L (body_field q ''teamId''))"

definition put_team :: "js_lib \<Rightarrow> http_req \<Rightarrow> string" where
  "put_team L q =
     the_or [] (orelse (defined_text L (hr_query q ''teamId'')) (defined_text L (body_field q ''teamId'')))"

text \<open>
  The common opening: the team the request names must be there (400), and the caller must be a
  member of it (403).
\<close>

definition as_member :: "string \<Rightarrow> ident \<Rightarrow> db \<Rightarrow> (team_role \<Rightarrow> 'b reply \<times> db) \<Rightarrow> 'b reply \<times> db" where
  "as_member team u d k =
     (case require_team_role u team None d of Inl r \<Rightarrow> (r, d) | Inr role \<Rightarrow> k role)"

definition get_views :: "view_env \<Rightarrow> ident \<Rightarrow> http_req \<Rightarrow> db \<Rightarrow> view_reply \<times> db" where
  "get_views V u q d =
     (let team = query_team (vw_lib V) q in
      if team = [] then (refuse 400 ''teamId is required'', d)
      else as_member team u d (\<lambda>role. (done_with 200 (ViewsBody (list_views (vw_lib V) team u d)), d)))"

definition post_view :: "view_env \<Rightarrow> ident \<Rightarrow> http_req \<Rightarrow> db \<Rightarrow> view_reply \<times> db" where
  "post_view V u q d =
     (case vw_create V (hr_body q) of
        Inl e \<Rightarrow> (answer 400 (FlatError e), d)
      | Inr (team, n) \<Rightarrow>
          as_member team u d (\<lambda>role.
            if requests_shared_state (Some (nv_shared n)) (Some (nv_default n)) \<and> \<not> can_manage_shared role
            then (forbidden, d)
            else (case create_view (vw_lib V) (vw_clock V) team u n d of
                    (v, d1) \<Rightarrow> (done_with 201 (ViewBody v), d1))))"

definition put_view :: "view_env \<Rightarrow> ident \<Rightarrow> http_req \<Rightarrow> db \<Rightarrow> view_reply \<times> db" where
  "put_view V u q d =
     (let team = put_team (vw_lib V) q in
      if team = [] then (refuse 400 ''teamId is required'', d)
      else
        (case vw_update V (hr_body q) of
           Inl e \<Rightarrow> (answer 400 (FlatError e), d)
         | Inr p \<Rightarrow>
             as_member team u d (\<lambda>role.
               if requests_shared_state (vi_shared p) (vi_default p) \<and> \<not> can_manage_shared role
               then (forbidden, d)
               else settle (\<lambda>v. done_with 200 (ViewBody v)) (or_throw handle_service_error)
                      (update_view (vw_lib V) (now (vw_clock V)) (hr_params q ''id'') team u
                         (can_manage_shared role) p d))))"

definition post_duplicate :: "view_env \<Rightarrow> ident \<Rightarrow> http_req \<Rightarrow> db \<Rightarrow> view_reply \<times> db" where
  "post_duplicate V u q d =
     (let team = body_team_text (vw_lib V) q; name = str_of (body_field q ''name'') in
      if team = [] then (refuse 400 ''teamId is required'', d)
      else as_member team u d (\<lambda>role.
             settle (\<lambda>v. done_with 201 (ViewBody v)) (or_throw handle_service_error)
               (duplicate_view (vw_lib V) (vw_clock V) (hr_params q ''id'') team u
                  (can_manage_shared role) name d)))"

definition delete_view :: "view_env \<Rightarrow> ident \<Rightarrow> http_req \<Rightarrow> db \<Rightarrow> view_reply \<times> db" where
  "delete_view V u q d =
     (let team = query_team (vw_lib V) q in
      if team = [] then (refuse 400 ''teamId is required'', d)
      else as_member team u d (\<lambda>role.
             settle (\<lambda>_. answer 204 NoBody) (or_throw handle_service_error)
               (remove_view (hr_params q ''id'') team u (can_manage_shared role) d)))"

datatype view_endpoint = GetViews | PostView | PutView | DuplicateView | DeleteView

fun run_view :: "view_env \<Rightarrow> view_endpoint \<Rightarrow> ident \<Rightarrow> http_req \<Rightarrow> db \<Rightarrow> view_reply \<times> db" where
  "run_view V GetViews = get_views V"
| "run_view V PostView = post_view V"
| "run_view V PutView = put_view V"
| "run_view V DuplicateView = post_duplicate V"
| "run_view V DeleteView = delete_view V"

definition serve_view :: "view_env \<Rightarrow> view_endpoint \<Rightarrow> http_req \<Rightarrow> db \<Rightarrow> view_reply \<times> db" where
  "serve_view V ep q d =
     (case require_auth (now (vw_clock V)) d q of
        Inl r \<Rightarrow> (r, d)
      | Inr u \<Rightarrow> run_view V ep u q d)"

section \<open>The team a request names\<close>

fun view_team :: "view_env \<Rightarrow> view_endpoint \<Rightarrow> http_req \<Rightarrow> ident" where
  "view_team V GetViews q = query_team (vw_lib V) q"
| "view_team V PostView q = (case vw_create V (hr_body q) of Inl e \<Rightarrow> [] | Inr (team, n) \<Rightarrow> team)"
| "view_team V PutView q = put_team (vw_lib V) q"
| "view_team V DuplicateView q = body_team_text (vw_lib V) q"
| "view_team V DeleteView q = query_team (vw_lib V) q"

definition kept_from :: "ident \<Rightarrow> view_row \<Rightarrow> bool" where
  "kept_from u v \<longleftrightarrow> v_owner v \<noteq> Some u \<or> is_team_wide_state v"

lemma can_manage_shared_iff [simp]: "can_manage_shared role = can_manage_invites role"
  by (simp add: can_manage_shared_def can_manage_invites_def)

lemma as_member_cases:
  "as_member team u d k = (case resolve_team_role u team d of None \<Rightarrow> (forbidden, d) | Some role \<Rightarrow> k role)"
  by (auto simp: as_member_def require_team_role_def split: option.splits)

lemma not_managing: "\<not> manages u team d \<Longrightarrow> resolve_team_role u team d = Some role \<Longrightarrow> \<not> can_manage_invites role"
  by (auto simp: manages_iff)

section \<open>What the operations leave alone\<close>

lemma foreign_write:
  assumes "view_by_id i d = Some v" and "v_team v = team" and "\<And>v. v_team (f v) = v_team v"
  shows "filter (\<lambda>v. v_team v \<noteq> team) (db_views (snd (write_view i f a d))) = filter (\<lambda>v. v_team v \<noteq> team) (db_views d)"
proof -
  have "filter (\<lambda>v. v_team v \<noteq> team) (update_first (\<lambda>v. v_id v = i) f (db_views d)) = filter (\<lambda>v. v_team v \<noteq> team) (db_views d)"
    using assms by (intro filter_update_first_found) (auto simp: view_by_id_def)
  with assms(1) show ?thesis by (simp add: write_view_def)
qed

lemma foreign_clear:
  "filter (\<lambda>v. v_team v \<noteq> team) (db_views (clear_defaults t team u d)) = filter (\<lambda>v. v_team v \<noteq> team) (db_views d)"
  by (auto simp: clear_defaults_def in_default_scope_def intro: filter_update_all_other)

lemma cleared_view:
  "view_by_id i d = Some v \<Longrightarrow> v_team v = team \<Longrightarrow>
   \<exists>w. view_by_id i (clear_defaults t team u d) = Some w \<and> v_team w = team"
  by (auto simp: view_by_id_def clear_defaults_def find_update_all)

lemma foreign_update:
  "filter (\<lambda>v. v_team v \<noteq> team) (db_views (snd (update_view L t i team u m p d)))
    = filter (\<lambda>v. v_team v \<noteq> team) (db_views d)"
proof (cases "view_by_id i d")
  case (Some v)
  have w: "v_team v = team \<Longrightarrow> filter (\<lambda>v. v_team v \<noteq> team)
      (db_views (snd (write_view i (apply_view_input t p) a (clear_defaults t team u d))))
      = filter (\<lambda>v. v_team v \<noteq> team) (db_views d)" for a
    using cleared_view [OF Some, of team t u] foreign_write [of i "clear_defaults t team u d" _ team "apply_view_input t p" a]
    by (auto simp: foreign_clear apply_view_input_def)
  show ?thesis
    using Some w
    by (auto simp: update_view_def Let_def apply_view_input_def intro!: foreign_write)
qed (simp add: update_view_def)

lemma filter_delete_first_found:
  "List.find P rs = Some v \<Longrightarrow> \<not> Q v \<Longrightarrow> filter Q (delete_first P rs) = filter Q rs"
  by (induction rs) (auto split: if_splits)

lemma foreign_remove:
  "filter (\<lambda>v. v_team v \<noteq> team) (db_views (snd (remove_view i team u m d))) = filter (\<lambda>v. v_team v \<noteq> team) (db_views d)"
  by (auto simp: remove_view_def view_by_id_def filter_delete_first_found split: option.splits)

lemma foreign_create:
  "filter (\<lambda>v. v_team v \<noteq> team) (db_views (snd (create_view L C team u n d))) = filter (\<lambda>v. v_team v \<noteq> team) (db_views d)"
  by (simp add: create_view_def Let_def foreign_clear)

lemma foreign_duplicate:
  "filter (\<lambda>v. v_team v \<noteq> team) (db_views (snd (duplicate_view L C i team u m n d))) = filter (\<lambda>v. v_team v \<noteq> team) (db_views d)"
  by (auto simp: duplicate_view_def Let_def split: option.splits)

lemmas view_rule_defs = can_read_def is_team_wide_state_def is_foreign_private_default_def can_mutate_def
  assert_visible_def kept_from_def

lemma kept_update:
  assumes "vi_shared p \<noteq> Some True" and "vi_default p \<noteq> Some True"
  shows "filter (kept_from u) (db_views (snd (update_view L t i team u False p d))) = filter (kept_from u) (db_views d)"
proof (cases "view_by_id i d")
  case (Some v)
  have own: "filter (kept_from u) (update_first (\<lambda>v. v_id v = i) (apply_view_input t p) (db_views d))
      = filter (kept_from u) (db_views d)" if "v_owner v = Some u" "\<not> is_team_wide_state v"
    using Some that assms
    by (intro filter_update_first_found [where r = v])
       (cases "vi_shared p"; cases "vi_default p";
        simp add: view_by_id_def kept_from_def is_team_wide_state_def apply_view_input_def)+
  have "v_owner v = Some u \<and> \<not> is_team_wide_state v" if "can_mutate v u False" "\<not> is_team_wide_state v"
    using that by (simp add: can_mutate_def split: if_splits)
  with Some own assms show ?thesis
    by (auto simp: update_view_def write_view_def is_foreign_private_default_def Let_def)
qed (simp add: update_view_def)

lemma kept_remove:
  "filter (kept_from u) (db_views (snd (remove_view i team u False d))) = filter (kept_from u) (db_views d)"
  by (auto simp: remove_view_def view_by_id_def view_rule_defs
      intro!: filter_delete_first_found split: option.splits if_splits)

lemma kept_create:
  "\<not> nv_shared n \<Longrightarrow> \<not> nv_default n \<Longrightarrow>
   filter (kept_from u) (db_views (snd (create_view L C team u n d))) = filter (kept_from u) (db_views d)"
  by (simp add: create_view_def Let_def kept_from_def is_team_wide_state_def)

lemma kept_duplicate:
  "filter (kept_from u) (db_views (snd (duplicate_view L C i team u False n d))) = filter (kept_from u) (db_views d)"
  by (auto simp: duplicate_view_def Let_def kept_from_def is_team_wide_state_def split: option.splits)

lemma service_only_views:
  "(snd (write_view i f a d))\<lparr>db_views := []\<rparr> = d\<lparr>db_views := []\<rparr>"
  "(clear_defaults t team u d)\<lparr>db_views := []\<rparr> = d\<lparr>db_views := []\<rparr>"
  by (auto simp: write_view_def clear_defaults_def split: option.splits)

lemma only_views_change:
  "(snd (run_view V ep u q d))\<lparr>db_views := []\<rparr> = d\<lparr>db_views := []\<rparr>"
  by (cases ep)
     (auto simp: get_views_def post_view_def put_view_def post_duplicate_def delete_view_def as_member_cases Let_def
        update_view_def remove_view_def create_view_def duplicate_view_def service_only_views
      split: sum.splits option.splits prod.splits)

text \<open>C39: saved views over the API. Without a session, or outside the team the request names, nothing
  changes. A member who is not OWNER or ADMIN, VIEWERs included, never changes a view of somebody
  else, a shared view or a default, neither by writing one nor by turning a private one into one;
  no caller changes a view of another team; and no view route touches any other table.\<close>

theorem view_routes_respect_ownership:
  "case resolve_user_id (now (vw_clock V)) q d of
     None \<Rightarrow> serve_view V ep q d = (unauthorized, d)
   | Some u \<Rightarrow>
       (let d' = snd (serve_view V ep q d); team = view_team V ep q in
          (if resolve_team_role u team d = None then d' = d else True)
        \<and> (if manages u team d then True
           else filter (kept_from u) (db_views d') = filter (kept_from u) (db_views d))
        \<and> filter (\<lambda>v. v_team v \<noteq> team) (db_views d') = filter (\<lambda>v. v_team v \<noteq> team) (db_views d)
        \<and> d'\<lparr>db_views := []\<rparr> = d\<lparr>db_views := []\<rparr>)"
proof (cases "resolve_user_id (now (vw_clock V)) q d")
  case (Some u)
  let ?d' = "snd (run_view V ep u q d)" and ?t = "view_team V ep q"
  have stranger: "resolve_team_role u ?t d = None \<Longrightarrow> ?d' = d"
    by (cases ep)
       (auto simp: get_views_def post_view_def put_view_def post_duplicate_def delete_view_def as_member_cases Let_def
        split: sum.splits)
  have foreign: "filter (\<lambda>v. v_team v \<noteq> ?t) (db_views ?d') = filter (\<lambda>v. v_team v \<noteq> ?t) (db_views d)"
    by (cases ep)
       (auto simp: get_views_def post_view_def put_view_def post_duplicate_def delete_view_def as_member_cases Let_def
          foreign_update foreign_remove foreign_create foreign_duplicate split_beta split: sum.splits option.splits)
  have kept: "filter (kept_from u) (db_views ?d') = filter (kept_from u) (db_views d)" if "\<not> manages u ?t d"
    using that
    by (cases ep)
       (auto simp: get_views_def post_view_def put_view_def post_duplicate_def delete_view_def as_member_cases Let_def
          kept_update kept_remove kept_create kept_duplicate split_beta requests_shared_state_def manages_iff
        split: sum.splits option.splits)
  from Some stranger foreign kept only_views_change [of V ep u q d] show ?thesis
    by (simp add: serve_view_def require_auth_def Let_def)
qed (simp add: serve_view_def require_auth_def)

end
