(* ===== verification/SubscriptionRoutes.thy ===== *)
theory SubscriptionRoutes imports ViewRoutes Alerts begin

text \<open>
  The subscription routes of \<open>backend/src/api/rest/router.ts\<close>: list, create, update, delete and the
  test notification, with the check of a webhook target before it is stored. The rate limiter in
  front of the test route is the one of \<open>express-rate-limit\<close>; its verdict is an argument.
\<close>

section \<open>Handlers\<close>

record new_sub_input =
  nsi_team :: ident
  nsi_rule :: "ident option"
  nsi_channel :: channel
  nsi_config :: json
  nsi_severities :: "severity list option"

record sub_env =
  sb_lib :: js_lib
  sb_clock :: clock
  sb_url :: "string \<Rightarrow> url option"
  sb_guard :: guard_env
  sb_dispatch :: dispatch_env
  sb_create :: "new_sub_input body_schema"
  sb_update :: "sub_patch body_schema"

datatype sub_payload =
    SubsBody "(sub_row \<times> (ident \<times> string) option) list"
  | SubBody sub_row
  | TestSent string

type_synonym sub_reply = "sub_payload reply"

fun channel_message :: "channel_error \<Rightarrow> string" where
  "channel_message (ChannelConfigError m) = m"
| "channel_message (ChannelHttpError m st txt) = m"
| "channel_message (OtherFailure m) = m"

definition url_key :: "channel option \<Rightarrow> string option" where
  "url_key ch =
     (if ch = Some Webhook then Some ''url''
      else if ch = Some Slack \<or> ch = Some MsTeams then Some ''webhook_url''
      else None)"

definition validate_subscription_webhook ::
  "(string \<Rightarrow> url option) \<Rightarrow> guard_env \<Rightarrow> channel option \<Rightarrow> json option \<Rightarrow> string option" where
  "validate_subscription_webhook parse_url G ch cfg =
     (case cfg of
        None \<Rightarrow> None
      | Some c \<Rightarrow>
          (case url_key ch of
             None \<Rightarrow> None
           | Some k \<Rightarrow>
               (case str_of (field k c) of
                  None \<Rightarrow> None
                | Some candidate \<Rightarrow>
                    if candidate = [] then None
                    else
                      (case assert_safe_url parse_url G candidate of
                         Inl e \<Rightarrow> Some (channel_message e)
                       | Inr _ \<Rightarrow> None))))"

definition get_subs :: "sub_env \<Rightarrow> ident \<Rightarrow> http_req \<Rightarrow> db \<Rightarrow> sub_reply \<times> db" where
  "get_subs S u q d =
     (let team = query_team (sb_lib S) q in
      if team = [] then (refuse 400 ''teamId is required'', d)
      else as_member team u d (\<lambda>role. (done_with 200 (SubsBody (list_by_user u team d)), d)))"

definition post_sub :: "sub_env \<Rightarrow> ident \<Rightarrow> http_req \<Rightarrow> db \<Rightarrow> sub_reply \<times> db" where
  "post_sub S u q d =
     (case sb_create S (hr_body q) of
        Inl e \<Rightarrow> (answer 400 (FlatError e), d)
      | Inr i \<Rightarrow>
          (let webhook_error = validate_subscription_webhook (sb_url S) (sb_guard S)
                                 (Some (nsi_channel i)) (Some (nsi_config i)) in
           if truthy webhook_error then (refuse 400 (the webhook_error), d)
           else as_member (nsi_team i) u d (\<lambda>role.
             if (case nsi_rule i of None \<Rightarrow> False
                 | Some r \<Rightarrow> List.find (own_rule r (nsi_team i)) (db_rules d) = None)
             then (refuse 404 ''Alert rule not found'', d)
             else
               (case create_sub (sb_clock S) \<lparr>ns_user = u, ns_team = nsi_team i, ns_rule = nsi_rule i,
                       ns_channel = nsi_channel i, ns_config = nsi_config i,
                       ns_severities = nsi_severities i\<rparr> d of
                  (s, d1) \<Rightarrow> (done_with 201 (SubBody s), d1)))))"

definition put_sub :: "sub_env \<Rightarrow> ident \<Rightarrow> http_req \<Rightarrow> db \<Rightarrow> sub_reply \<times> db" where
  "put_sub S u q d =
     (case sb_update S (hr_body q) of
        Inl e \<Rightarrow> (answer 400 (FlatError e), d)
      | Inr p \<Rightarrow>
          (let webhook_error = validate_subscription_webhook (sb_url S) (sb_guard S)
                                 (sp_channel p) (sp_config p) in
           if truthy webhook_error then (refuse 400 (the webhook_error), d)
           else settle (\<lambda>s. done_with 200 (SubBody s))
                  (or_throw (handle_prisma_error (Some ''Subscription not found'') None))
                  (update_sub (hr_params q ''id'') u p d)))"

definition remove_sub :: "sub_env \<Rightarrow> ident \<Rightarrow> http_req \<Rightarrow> db \<Rightarrow> sub_reply \<times> db" where
  "remove_sub S u q d =
     settle (\<lambda>_. answer 204 NoBody) (or_throw (handle_prisma_error (Some ''Subscription not found'') None))
       (delete_sub (hr_params q ''id'') u d)"

definition test_incident :: "sub_env \<Rightarrow> sub_row \<Rightarrow> incident_info" where
  "test_incident S s =
     \<lparr>in_id = ''test-incident-000'', in_rule = the_or ''test-rule'' (sub_rule s), in_team = sub_team s,
      in_severity = ''LOW'', in_status = ''OPEN'', in_message = ''This is a test notification from Telerithm'',
      in_created = date_iso (sb_lib S) (now (sb_clock S))\<rparr>"

fun test_failure :: "channel_error \<Rightarrow> sub_reply" where
  "test_failure (ChannelConfigError m) = refuse 500 m"
| "test_failure (ChannelHttpError m st txt) = refuse 500 ''The channel rejected the test notification''"
| "test_failure (OtherFailure m) = refuse 500 ''The channel could not be reached''"

text \<open>The answer, and the requests the test notification made.\<close>

definition test_sub :: "sub_env \<Rightarrow> ident \<Rightarrow> http_req \<Rightarrow> db \<Rightarrow> sub_reply \<times> http_request list" where
  "test_sub S u q d =
     (case List.find (own_sub (hr_params q ''id'') u) (db_subs d) of
        None \<Rightarrow> (refuse 404 ''Subscription not found'', [])
      | Some s \<Rightarrow>
          (case dispatch_to_subscription (sb_dispatch S) s (email_of d (sub_user s)) (test_incident S s) of
             (Inr _, sent) \<Rightarrow> (done_with 200 (TestSent ''Test notification sent''), sent)
           | (Inl e, sent) \<Rightarrow> (test_failure e, sent)))"

text \<open>
  \<open>requireAuthMiddleware\<close>, then the limiter, then the handler. \<open>limited\<close> says for a key whether its
  budget is used up and when it resets.
\<close>

definition serve_test ::
  "sub_env \<Rightarrow> (string \<Rightarrow> string) \<Rightarrow> (string \<Rightarrow> millis option option) \<Rightarrow> int \<Rightarrow> http_req \<Rightarrow> db \<Rightarrow>
   sub_reply \<times> http_request list" where
  "serve_test S ip_key limited window_ms q d =
     (case resolve_user_id (now (sb_clock S)) q d of
        None \<Rightarrow> (unauthorized, [])
      | Some u \<Rightarrow>
          (case limited (per_user_key ip_key (Some u) q) of
             Some reset \<Rightarrow>
               (rate_limit_handler ''Too many test notifications, try again later'' window_ms
                  (now (sb_clock S)) reset, [])
           | None \<Rightarrow> test_sub S u q d))"

datatype sub_endpoint = GetSubs | PostSub | PutSub | DeleteSub

fun run_sub :: "sub_env \<Rightarrow> sub_endpoint \<Rightarrow> ident \<Rightarrow> http_req \<Rightarrow> db \<Rightarrow> sub_reply \<times> db" where
  "run_sub S GetSubs = get_subs S"
| "run_sub S PostSub = post_sub S"
| "run_sub S PutSub = put_sub S"
| "run_sub S DeleteSub = remove_sub S"

definition serve_sub :: "sub_env \<Rightarrow> sub_endpoint \<Rightarrow> http_req \<Rightarrow> db \<Rightarrow> sub_reply \<times> db" where
  "serve_sub S ep q d =
     (case require_auth (now (sb_clock S)) d q of
        Inl r \<Rightarrow> (r, d)
      | Inr u \<Rightarrow> run_sub S ep u q d)"

section \<open>Properties\<close>

lemma refusal_has_text: "assert_safe_url pu G raw = Inl e \<Longrightarrow> channel_message e \<noteq> []"
  by (auto simp: assert_safe_url_def resolve_safe_target_def Let_def split: sum.splits option.splits if_splits)

definition target_checked :: "(string \<Rightarrow> url option) \<Rightarrow> guard_env \<Rightarrow> channel \<Rightarrow> json \<Rightarrow> bool" where
  "target_checked pu G ch cfg =
     (case url_key (Some ch) of
        None \<Rightarrow> True
      | Some k \<Rightarrow>
          (case str_of (field k cfg) of
             None \<Rightarrow> True
           | Some u \<Rightarrow> u = [] \<or> assert_safe_url pu G u = Inr ()))"

lemma webhook_check:
  "truthy (validate_subscription_webhook pu G (Some ch) (Some cfg)) \<longleftrightarrow> \<not> target_checked pu G ch cfg"
  by (auto simp: validate_subscription_webhook_def target_checked_def truthy_def
      dest!: refusal_has_text split: option.splits sum.splits)

lemma subs_of_others:
  "filter (\<lambda>s. sub_user s \<noteq> u) (db_subs (snd (run_sub S ep u q d))) = filter (\<lambda>s. sub_user s \<noteq> u) (db_subs d)
   \<and> (snd (run_sub S ep u q d))\<lparr>db_subs := []\<rparr> = d\<lparr>db_subs := []\<rparr>"
  using sub_table.update_foreign [of u "hr_params q ''id''" _ "db_subs d"]
    sub_table.delete_foreign [of u "hr_params q ''id''" "db_subs d"]
  by (cases ep)
     (auto simp: get_subs_def post_sub_def put_sub_def remove_sub_def create_sub_def update_sub_def delete_sub_def
        as_member_cases own_sub_eq Let_def split: sum.splits option.splits)

text \<open>what the subscription routes let through. Without a session nothing changes; nobody changes
  a subscription of another user or any other table; and a subscription is created exactly when
  the caller is a member of its team, its rule, if it names one, is a rule of that team, and its
  webhook target passes the guard: then one row is added, the caller's own, and otherwise nothing.\<close>

theorem subscription_routes_guard:
  "case resolve_user_id (now (sb_clock S)) q d of
     None \<Rightarrow> serve_sub S ep q d = (unauthorized, d)
   | Some u \<Rightarrow>
       filter (\<lambda>s. sub_user s \<noteq> u) (db_subs (snd (serve_sub S ep q d))) = filter (\<lambda>s. sub_user s \<noteq> u) (db_subs d)
     \<and> (snd (serve_sub S ep q d))\<lparr>db_subs := []\<rparr> = d\<lparr>db_subs := []\<rparr>
     \<and> (case sb_create S (hr_body q) of
          Inl e \<Rightarrow> snd (serve_sub S PostSub q d) = d
        | Inr i \<Rightarrow>
            if resolve_team_role u (nsi_team i) d \<noteq> None
               \<and> (case nsi_rule i of None \<Rightarrow> True | Some r \<Rightarrow> exists_row (own_rule r (nsi_team i)) (db_rules d))
               \<and> target_checked (sb_url S) (sb_guard S) (nsi_channel i) (nsi_config i)
            then \<exists>s. serve_sub S PostSub q d = (done_with 201 (SubBody s), d\<lparr>db_subs := db_subs d @ [s]\<rparr>)
                   \<and> sub_user s = u \<and> sub_team s = nsi_team i \<and> sub_rule s = nsi_rule i
                   \<and> sub_channel s = nsi_channel i \<and> sub_config s = nsi_config i
            else snd (serve_sub S PostSub q d) = d)"
proof (cases "resolve_user_id (now (sb_clock S)) q d")
  case (Some u)
  have rule: "(case r of None \<Rightarrow> False | Some i \<Rightarrow> List.find (own_rule i t) (db_rules d) = None)
      = (\<not> (case r of None \<Rightarrow> True | Some i \<Rightarrow> exists_row (own_rule i t) (db_rules d)))" for r t
    by (simp add: find_None_iff' split: option.splits)
  show ?thesis
    using Some subs_of_others [of u S ep q d]
    by (auto simp: serve_sub_def require_auth_def post_sub_def rule webhook_check as_member_cases create_sub_def Let_def
        simp del: exists_row_iff split: sum.splits option.splits)
qed (simp add: serve_sub_def require_auth_def)

text \<open>the test notification. It goes out only for the caller's own subscription and within the
  caller's budget, so that every session of a user draws on the same one; it makes at most three
  requests, none to an address the guard blocks; and the answer says nothing of the remote host
  but that it rejected the notification or could not be reached.\<close>

theorem test_notification_is_private:
  "(case resolve_user_id (now (sb_clock S)) q d of
      None \<Rightarrow> serve_test S ip_key limited w q d = (unauthorized, [])
    | Some u \<Rightarrow>
        if limited (per_user_key ip_key (Some u) q) = None \<and> exists_row (own_sub (hr_params q ''id'') u) (db_subs d)
        then length (snd (serve_test S ip_key limited w q d)) \<le> 3
           \<and> (\<exists>s. own_sub (hr_params q ''id'') u s
               \<and> list_all (\<lambda>rq. list_ex (\<lambda>k. safe_request (sb_dispatch S) (sub_id s) k rq) [1 ..< 4])
                   (snd (serve_test S ip_key limited w q d)))
        else snd (serve_test S ip_key limited w q d) = [])
   \<and> test_failure (ChannelHttpError m st txt) = refuse 500 ''The channel rejected the test notification''
   \<and> test_failure (OtherFailure m) = refuse 500 ''The channel could not be reached''"
proof (cases "resolve_user_id (now (sb_clock S)) q d")
  case (Some u)
  have sent: "snd (case r of (Inr x, sent) \<Rightarrow> (f x, sent) | (Inl e, sent) \<Rightarrow> (g e, sent)) = snd r"
    for r :: sent and f g
    by (cases r) (simp split: sum.splits)
  show ?thesis
  proof (cases "List.find (own_sub (hr_params q ''id'') u) (db_subs d)")
    case None
    then have "\<not> exists_row (own_sub (hr_params q ''id'') u) (db_subs d)" by (simp add: find_None_iff')
    with None Some show ?thesis by (simp add: serve_test_def test_sub_def split: option.splits)
  next
    case (Some s)
    then have s: "own_sub (hr_params q ''id'') u s" "s \<in> set (db_subs d)" by (auto dest: find_SomeD)
    then have "exists_row (own_sub (hr_params q ''id'') u) (db_subs d)" by auto
    then show ?thesis
      using Some s(1) \<open>resolve_user_id (now (sb_clock S)) q d = Some u\<close>
        retry_requests [of "sb_dispatch S" s "email_of d (sub_user s)" "test_incident S s"]
      by (auto simp: serve_test_def test_sub_def dispatch_to_subscription_def sent simp del: exists_row_iff
          split: option.splits)
  qed
qed (simp add: serve_test_def)

text \<open>
  \<open>PUT /subscriptions/:id\<close> looks at the new target only when the body also names the channel: an
  update of the configuration alone is stored without the check.
\<close>

lemma config_only_update_is_unchecked:
  assumes "sb_update S (hr_body q) = Inr p" and "sp_channel p = None"
    and "List.find (own_sub (hr_params q ''id'') u) (db_subs d) = Some s"
  shows "put_sub S u q d = (done_with 200 (SubBody (apply_sub_patch p s)),
      d\<lparr>db_subs := update_first (own_sub (hr_params q ''id'') u) (apply_sub_patch p) (db_subs d)\<rparr>)"
proof -
  have "validate_subscription_webhook (sb_url S) (sb_guard S) (sp_channel p) (sp_config p) = None"
    using assms(2) by (simp add: validate_subscription_webhook_def url_key_def split: option.splits)
  with assms show ?thesis by (simp add: put_sub_def truthy_def update_sub_def settle_def)
qed

end
