(* ===== verification/IngestRoutes.thy ===== *)
theory IngestRoutes imports SubscriptionRoutes begin

text \<open>
  The routes of \<open>backend/src/api/rest/router.ts\<close> logs come in and go out through: the two ingest
  routes behind the API key of a source, and the live stream. A body that the text parser left
  alone is not a string; \<open>not_text\<close> is then whether \<open>req.is("text/*")\<close> answered \<open>false\<close>.
\<close>

section \<open>Ingest\<close>

record ingest_routes_env =
  ir_env :: ingest_env
  ir_prisma :: "error \<Rightarrow> string"
  ir_schema :: "ingest_payload body_schema"

type_synonym ingest_reply = "ingest_response reply"

text \<open>The middleware: an answer, or the source whose key the request carries.\<close>

definition api_key_gate :: "http_req \<Rightarrow> db \<Rightarrow> 'b reply + source_row" where
  "api_key_gate q d =
     (case authenticate_api_key (hr_api_key q) (hr_params q ''sourceId'') d of
        KeyMissing \<Rightarrow> Inl (refuse 401 ''Missing X-API-Key header'')
      | KeyInvalid \<Rightarrow> Inl (refuse 403 ''Invalid API key'')
      | KeyMismatch \<Rightarrow> Inl (refuse 403 ''API key does not match source'')
      | KeyAccepted s \<Rightarrow> Inr s)"

definition run_ingest ::
  "ingest_routes_env \<Rightarrow> http_req \<Rightarrow> ingest_payload \<Rightarrow> ingest_state \<Rightarrow> ingest_reply \<times> ingest_state" where
  "run_ingest R q payload s =
     (case ingest (ir_env R) (hr_params q ''sourceId'') payload s of
        (Inl e, s1) \<Rightarrow> (refuse 404 (message_of (ir_prisma R) e), s1)
      | (Inr resp, s1) \<Rightarrow> (done_with 202 resp, s1))"

definition enveloped :: "json option \<Rightarrow> json option" where
  "enveloped b = (case b of Some (JArr vs) \<Rightarrow> Some (JObj [(''logs'', JArr vs)]) | _ \<Rightarrow> b)"

definition post_ingest ::
  "ingest_routes_env \<Rightarrow> http_req \<Rightarrow> ingest_state \<Rightarrow> ingest_reply \<times> ingest_state" where
  "post_ingest R q s =
     (case api_key_gate q (ig_db s) of
        Inl r \<Rightarrow> (r, s)
      | Inr src \<Rightarrow>
          (case ir_schema R (enveloped (hr_body q)) of
             Inl e \<Rightarrow> (answer 400 (FlatError e), s)
           | Inr payload \<Rightarrow> run_ingest R q payload s))"

text \<open>\<^verbatim>\<open>body.split(/\r?\n/)\<close>\<close>

function split_lines :: "string \<Rightarrow> string list" where
  "split_lines [] = [[]]"
| "split_lines (c # cs) =
     (if code c = 10 then [] # split_lines cs
      else if code c = 13 \<and> (case cs of [] \<Rightarrow> False | x # _ \<Rightarrow> code x = 10) then [] # split_lines (tl cs)
      else (case split_lines cs of [] \<Rightarrow> [[c]] | l # ls \<Rightarrow> (c # l) # ls))"
  by pat_completeness auto
termination by (relation "measure length") auto

definition raw_lines :: "string \<Rightarrow> string list" where
  "raw_lines body = filter (\<lambda>l. length (trim l) > 0) (split_lines body)"

definition post_raw ::
  "ingest_routes_env \<Rightarrow> http_req \<Rightarrow> string option \<Rightarrow> bool \<Rightarrow> ingest_state \<Rightarrow> ingest_reply \<times> ingest_state" where
  "post_raw R q text not_text s =
     (case api_key_gate q (ig_db s) of
        Inl r \<Rightarrow> (r, s)
      | Inr src \<Rightarrow>
          (case text of
             None \<Rightarrow>
               if not_text then (refuse 415 ''Content-Type must be text/plain'', s)
               else (refuse 400 ''Empty body'', s)
           | Some body \<Rightarrow>
               (let lines = raw_lines body in
                if length lines = 0 then (refuse 400 ''Empty body'', s)
                else run_ingest R q
                       \<lparr>pl_logs = map RawItem lines, pl_format = None, pl_batch = None\<rparr> s)))"

section \<open>The live stream\<close>

text \<open>\<open>Streaming conn\<close> leaves the answer open; every other answer ends the request.\<close>

datatype stream_answer = StreamOpen | StreamRefused "unit reply"

definition stream_logs :: "js_lib \<Rightarrow> millis \<Rightarrow> nat \<Rightarrow> http_req \<Rightarrow> db \<Rightarrow> bus \<Rightarrow> stream_answer \<times> bus" where
  "stream_logs L t i q d b =
     (case require_stream_auth t d q of
        Inl r \<Rightarrow> (StreamRefused r, b)
      | Inr u \<Rightarrow>
          (let team = query_text L q ''teamId'' in
           if team = [] then (StreamRefused (refuse 400 ''teamId is required''), b)
           else
             (case require_team_role u team None d of
                Inl r \<Rightarrow> (StreamRefused r, b)
              | Inr role \<Rightarrow>
                  (StreamOpen,
                   subscribe i team
                     \<lparr>sf_source = query_string q ''sourceId'', sf_service = query_string q ''service'',
                      sf_host = query_string q ''host'', sf_level = query_string q ''level'',
                      sf_query = query_string q ''query''\<rparr> b))))"

section \<open>Lines\<close>

declare split_lines.simps(2) [simp del]

lemma split_lines_step:
  "code c \<noteq> 10 \<Longrightarrow> code c \<noteq> 13 \<Longrightarrow>
     split_lines (c # cs) = (case split_lines cs of [] \<Rightarrow> [[c]] | l # ls \<Rightarrow> (c # l) # ls)"
  "code c = 10 \<Longrightarrow> split_lines (c # cs) = [] # split_lines cs"
  "code c = 13 \<Longrightarrow> code n = 10 \<Longrightarrow> split_lines (c # n # cs) = [] # split_lines cs"
  by (simp_all add: split_lines.simps(2) [of c])

abbreviation plain_line :: "string \<Rightarrow> bool" where
  "plain_line l \<equiv> list_all (\<lambda>c. code c \<noteq> 10 \<and> code c \<noteq> 13) l"

lemma split_lines_plain: "plain_line l \<Longrightarrow> split_lines l = [l]"
  by (induction l) (auto simp: split_lines_step)

lemma split_lines_lf: "plain_line l \<Longrightarrow> code n = 10 \<Longrightarrow> split_lines (l @ n # r) = l # split_lines r"
  by (induction l) (auto simp: split_lines_step)

lemma split_lines_crlf:
  "plain_line l \<Longrightarrow> code c = 13 \<Longrightarrow> code n = 10 \<Longrightarrow> split_lines (l @ c # n # r) = l # split_lines r"
  by (induction l) (auto simp: split_lines_step)

lemma split_lines_no_lf: "list_all (list_all (\<lambda>c. code c \<noteq> 10)) (split_lines s)"
proof (induction s rule: split_lines.induct)
  case (2 c cs)
  show ?case
    using 2 by (subst split_lines.simps(2)) (auto split: list.splits)
qed simp

lemma split_lines_join:
  assumes "list_all plain_line ls" and "ls \<noteq> []" and "sep = [CHR 10] \<or> sep = [CHR 13, CHR 10]"
  shows "split_lines (join sep ls) = ls"
  using assms(1,2)
proof (induction ls)
  case (Cons l ls)
  have c: "code CHR 10 = 10" "code CHR 13 = 13" by (simp_all add: code_def)
  show ?case
  proof (cases ls)
    case Nil
    with Cons.prems show ?thesis by (simp add: split_lines_plain)
  next
    case (Cons m ms)
    with Cons.IH Cons.prems assms(3) c show ?thesis
      by (auto simp: split_lines_lf split_lines_crlf)
  qed
qed simp

text \<open>a raw text body is its lines. A body of non-blank lines, joined by newlines or by carriage
  return and newline, is ingested as exactly those lines; and whatever the body, no ingested line
  is blank or contains a newline.\<close>

theorem raw_body_is_its_lines:
  assumes "list_all plain_line ls" and "list_all (\<lambda>l. trim l \<noteq> []) ls"
    and "sep = [CHR 10] \<or> sep = [CHR 13, CHR 10]"
  shows "raw_lines (join sep ls) = ls
    \<and> list_all (\<lambda>l. trim l \<noteq> [] \<and> list_all (\<lambda>c. code c \<noteq> 10) l) (raw_lines body)"
proof -
  have "raw_lines (join sep ls) = ls"
  proof (cases "ls = []")
    case False
    have "filter (\<lambda>l. length (trim l) > 0) ls = ls"
      using assms(2) by (induction ls) auto
    then show ?thesis using split_lines_join [OF assms(1) False assms(3)] by (simp add: raw_lines_def)
  qed (simp add: raw_lines_def trim_def trim_start_def)
  then show ?thesis
    using split_lines_no_lf [of body] by (auto simp: raw_lines_def list_all_iff)
qed

lemma raw_body_is_its_lines_witness:
  "raw_lines (join [CHR 13, CHR 10] [''a'', ''b'']) = [''a'', ''b'']
    \<and> list_all (\<lambda>l. trim l \<noteq> [] \<and> list_all (\<lambda>c. code c \<noteq> 10) l) (raw_lines [CHR 10, CHR ''x''])"
  by (rule raw_body_is_its_lines) (simp_all add: code_def trim_def trim_start_def is_space_def)

text \<open>logs come in only with the source's own key. Without a key, with an unknown key or with the
  key of another source the two ingest routes answer 401 or 403 and neither the log store, nor
  the issues, nor the cache, nor any live stream sees anything; with the key, the source the path
  names is the one that owns the key.\<close>

theorem ingest_needs_the_sources_key:
  "case List.find (\<lambda>x. Some (src_key x) = hr_api_key q) (db_sources (ig_db s)) of
     None \<Rightarrow> snd (post_ingest R q s) = s \<and> snd (post_raw R q text nt s) = s
           \<and> re_status (fst (post_ingest R q s)) \<in> {401, 403}
           \<and> re_status (fst (post_raw R q text nt s)) \<in> {401, 403}
   | Some src \<Rightarrow>
       if src_id src = hr_params q ''sourceId'' \<and> hr_api_key q \<noteq> Some []
       then api_key_gate q (ig_db s) = (Inr src :: unit reply + source_row)
       else snd (post_ingest R q s) = s \<and> snd (post_raw R q text nt s) = s
          \<and> re_status (fst (post_ingest R q s)) \<in> {401, 403}
          \<and> re_status (fst (post_raw R q text nt s)) \<in> {401, 403}"
  by (cases "hr_api_key q")
     (auto simp: post_ingest_def post_raw_def api_key_gate_def authenticate_api_key_def refuse_def answer_def
      dest: find_SomeD split: option.splits)

text \<open>A live stream opens only for a member of the team it streams. Every other request leaves the
  open streams as they are; and the one that opens carries the team the caller is a member of,
  with the token taken from the header or, when that gives none, from the URL.\<close>

theorem stream_needs_membership:
  "case resolve_stream_user_id t q d of
     None \<Rightarrow> stream_logs L t i q d b = (StreamRefused unauthorized, b)
   | Some u \<Rightarrow>
       (let team = query_text L q ''teamId'' in
        if team \<noteq> [] \<and> resolve_team_role u team d \<noteq> None
        then fst (stream_logs L t i q d b) = StreamOpen
           \<and> (\<exists>f. snd (stream_logs L t i q d b) = subscribe i team f b)
        else snd (stream_logs L t i q d b) = b \<and> fst (stream_logs L t i q d b) \<noteq> StreamOpen)"
  by (auto simp: stream_logs_def require_stream_auth_def require_team_role_def Let_def split: option.splits)

end
