(* ===== verification/ReadRoutes.thy ===== *)
theory ReadRoutes imports AccountRoutes TeamWrites begin

text \<open>
  The reading routes of \<open>backend/src/api/rest/router.ts\<close> over the relational store: alert rules,
  incidents and their timeline, maintenance windows and issues. Each answers members of the
  team only, and the by-id ones answer a stranger like an unknown id.
\<close>

section \<open>Handlers\<close>

record issue_query =
  iq_team :: ident
  iq_filters :: issue_filters
  iq_sort :: issue_sort
  iq_ascending :: bool
  iq_limit :: nat
  iq_offset :: nat

record read_env =
  rd_lib :: js_lib
  rd_now :: millis
  rd_contains :: "string \<Rightarrow> string \<Rightarrow> bool"
  rd_rank :: "string \<Rightarrow> int"
  rd_issue_query :: "(string \<Rightarrow> json option) \<Rightarrow> json + issue_query"

datatype read_payload =
    RulesBody "alert_rule list"
  | IncidentsBody "incident_row list"
  | WindowsBody "window_row list"
  | TimelineBody "(event_row \<times> user_row option) list"
  | IssuesBody "issue_row list" nat
  | IssueFound issue_row

type_synonym read_reply = "read_payload reply"

text \<open>The opening of the list routes: \<open>teamId\<close> in the query, and membership.\<close>

definition for_team ::
  "read_env \<Rightarrow> ident \<Rightarrow> http_req \<Rightarrow> db \<Rightarrow> (ident \<Rightarrow> read_payload) \<Rightarrow> read_reply" where
  "for_team R u q d payload =
     (let team = query_text (rd_lib R) q ''teamId'' in
      if team = [] then refuse 400 ''teamId is required''
      else (case require_team_role u team None d of
              Inl r \<Rightarrow> r
            | Inr role \<Rightarrow> done_with 200 (payload team)))"

definition list_windows :: "ident \<Rightarrow> db \<Rightarrow> window_row list" where
  "list_windows team d = take 20 (sort_key (\<lambda>w. - w_starts w) (filter (\<lambda>w. w_team w = team) (db_windows d)))"

definition require_incident_team :: "ident \<Rightarrow> ident \<Rightarrow> db \<Rightarrow> 'b reply + ident" where
  "require_incident_team = require_resource_team load_incident_team_id ''Incident not found''"

definition get_timeline :: "ident \<Rightarrow> http_req \<Rightarrow> db \<Rightarrow> read_reply" where
  "get_timeline u q d =
     (case require_incident_team (hr_params q ''id'') u d of
        Inl r \<Rightarrow> r
      | Inr team \<Rightarrow> done_with 200 (TimelineBody (incident_timeline (hr_params q ''id'') team d)))"

definition get_issues :: "read_env \<Rightarrow> ident \<Rightarrow> http_req \<Rightarrow> db \<Rightarrow> read_reply" where
  "get_issues R u q d =
     (case rd_issue_query R (hr_query q) of
        Inl e \<Rightarrow> answer 400 (FlatError e)
      | Inr i \<Rightarrow>
          (case require_team_role u (iq_team i) None d of
             Inl r \<Rightarrow> r
           | Inr role \<Rightarrow>
               (case list_issues (rd_contains R) (rd_rank R) (iq_team i) (iq_filters i) (Some (iq_sort i))
                       (Some (iq_ascending i)) (iq_limit i) (iq_offset i) d of
                  (rows, n) \<Rightarrow> done_with 200 (IssuesBody rows n))))"

definition get_issue :: "ident \<Rightarrow> http_req \<Rightarrow> db \<Rightarrow> read_reply" where
  "get_issue u q d =
     (case issue_by_id (hr_params q ''id'') d of
        None \<Rightarrow> refuse 404 ''Issue not found''
      | Some i \<Rightarrow>
          (case require_team_role u (iss_team i) (Some ''Issue not found'') d of
             Inl r \<Rightarrow> r
           | Inr role \<Rightarrow> done_with 200 (IssueFound i)))"

datatype read_endpoint = GetRules | GetIncidents | GetWindows | GetTimeline | GetIssues | GetIssue

fun run_read :: "read_env \<Rightarrow> read_endpoint \<Rightarrow> ident \<Rightarrow> http_req \<Rightarrow> db \<Rightarrow> read_reply" where
  "run_read R GetRules u q d = for_team R u q d (\<lambda>team. RulesBody (list_rules (rd_lib R) team d))"
| "run_read R GetIncidents u q d = for_team R u q d (\<lambda>team. IncidentsBody (list_incidents team d))"
| "run_read R GetWindows u q d = for_team R u q d (\<lambda>team. WindowsBody (list_windows team d))"
| "run_read R GetTimeline u q d = get_timeline u q d"
| "run_read R GetIssues u q d = get_issues R u q d"
| "run_read R GetIssue u q d = get_issue u q d"

definition serve_read :: "read_env \<Rightarrow> read_endpoint \<Rightarrow> http_req \<Rightarrow> db \<Rightarrow> read_reply" where
  "serve_read R ep q d =
     (case require_auth (rd_now R) d q of
        Inl r \<Rightarrow> r
      | Inr u \<Rightarrow> run_read R ep u q d)"

section \<open>What an answer shows\<close>

text \<open>\<open>belongs team d p\<close>: everything in the payload is the team's, read in the store \<open>d\<close>.\<close>

fun belongs :: "ident \<Rightarrow> db \<Rightarrow> read_payload \<Rightarrow> bool" where
  "belongs team d (RulesBody rs) = list_all (\<lambda>r. ar_team r = team) rs"
| "belongs team d (IncidentsBody xs) = list_all (\<lambda>x. rule_in_team d (i_rule x) team) xs"
| "belongs team d (WindowsBody ws) = list_all (\<lambda>w. w_team w = team) ws"
| "belongs team d (TimelineBody es) =
     list_all (\<lambda>(e, u). exists_row (\<lambda>x. i_id x = e_incident e \<and> rule_in_team d (i_rule x) team) (db_incidents d)) es"
| "belongs team d (IssuesBody xs n) = list_all (\<lambda>i. iss_team i = team) xs"
| "belongs team d (IssueFound i) = (iss_team i = team)"

definition carries :: "'b reply \<Rightarrow> 'b option" where
  "carries r = (case re_body r of Payload p \<Rightarrow> Some p | _ \<Rightarrow> None)"

lemma carries_simps [simp]:
  "carries (refuse st m) = None" "carries forbidden = None" "carries unauthorized = None"
  "carries (done_with st p) = Some p" "carries (answer st (FlatError e)) = None"
  by (simp_all add: carries_def refuse_def forbidden_def unauthorized_def done_with_def answer_def)

lemma listed_issues_team:
  "list_all (\<lambda>i. iss_team i = team) (fst (list_issues c r team f s a l n d))"
proof -
  have "i \<in> set (fst (list_issues c r team f s a l n d)) \<Longrightarrow> iss_team i = team" for i
    by (auto simp: list_issues_def issue_where_def Let_def dest!: in_set_takeD in_set_dropD split: if_splits)
  then show ?thesis by (simp add: list_all_iff)
qed

text \<open>C38: reading is for members. An answer of the reading routes carries data only if the caller has a
  live session and is a member of a team everything in it belongs to; and the two by-id routes
  answer a caller outside the owning team exactly as they answer an unknown id.\<close>

theorem reads_are_for_members:
  "(case carries (serve_read R ep q d) of
      None \<Rightarrow> True
    | Some p \<Rightarrow> (\<exists>u team. resolve_user_id (rd_now R) q d = Some u \<and> resolve_team_role u team d \<noteq> None
                  \<and> belongs team d p))
   \<and> (case resolve_user_id (rd_now R) q d of
        None \<Rightarrow> serve_read R ep q d = unauthorized
      | Some u \<Rightarrow>
          (case load_issue_team_id (hr_params q ''id'') d of
             None \<Rightarrow> serve_read R GetIssue q d = refuse 404 ''Issue not found''
           | Some t \<Rightarrow> if resolve_team_role u t d = None
                        then serve_read R GetIssue q d = refuse 404 ''Issue not found'' else True)
        \<and> (case load_incident_team_id (hr_params q ''id'') d of
             None \<Rightarrow> serve_read R GetTimeline q d = refuse 404 ''Incident not found''
           | Some t \<Rightarrow> if resolve_team_role u t d = None
                        then serve_read R GetTimeline q d = refuse 404 ''Incident not found'' else True))"
proof (cases "resolve_user_id (rd_now R) q d")
  case None
  then show ?thesis by (simp add: serve_read_def require_auth_def)
next
  case (Some u)
  have t: "list_all (\<lambda>r. ar_team r = team) (list_rules (rd_lib R) team d)"
    "list_all (\<lambda>x. rule_in_team d (i_rule x) team) (list_incidents team d)"
    "list_all (\<lambda>w. w_team w = team) (list_windows team d)" for team
    by (auto simp: list_rules_def to_alert_rule_def list_incidents_def list_windows_def list_all_iff
        dest!: in_set_takeD)
  have tl: "belongs team d (TimelineBody (incident_timeline i team d))" for i team
    by (auto simp: incident_timeline_def list_all_iff)
  have "(case carries (run_read R ep u q d) of None \<Rightarrow> True
      | Some p \<Rightarrow> (\<exists>team. resolve_team_role u team d \<noteq> None \<and> belongs team d p))"
    using t tl listed_issues_team
    by (cases ep)
       (auto simp: for_team_def get_timeline_def get_issues_def get_issue_def require_incident_team_def
          require_resource_team_def require_team_role_def Let_def split_beta
          split: option.splits sum.splits)
  with Some show ?thesis
    by (auto simp: serve_read_def require_auth_def get_issue_def get_timeline_def require_incident_team_def
        require_resource_team_def require_team_role_def load_issue_team_id_def split: option.splits)
qed

end
