(* ===== verification/LogStore.thy ===== *)
theory LogStore imports Issues Domain "HOL-Library.AList" begin

text \<open>
  The ClickHouse side of the log repository: query parameters, the typed answers of the store, and
  the predicates over the \<open>logs\<close> table as data. ClickHouse itself is a parameter
  (\<open>log_store\<close>): the text and the parameters of a statement go in, rows or an error message come out.

  The repository builds SQL text by concatenation. What that text means is stated on \<open>sql_cond\<close>,
  the conditions the text is meant to be the rendering of.
\<close>

section \<open>Parameters and rows\<close>

type_synonym params = "(string \<times> filter_value) list"

text \<open>\<open>params[name] = value\<close>.\<close>

definition set_param :: "string \<Rightarrow> filter_value \<Rightarrow> params \<Rightarrow> params" where
  "set_param = AList.update"

abbreviation num_param :: "int \<Rightarrow> filter_value" where
  "num_param n \<equiv> VNum (Fin (of_int n))"

lemma map_of_set_param [simp]: "map_of (set_param k v p) = (map_of p)(k \<mapsto> v)"
  by (simp add: set_param_def update_conv')

record log_row =
  row_id :: ident
  row_team :: ident
  row_source :: ident
  row_timestamp :: string
  row_level :: string
  row_service :: string
  row_host :: string
  row_message :: string
  row_fields :: "json option"

record pattern_row =
  pr_signature :: string
  pr_sample :: string
  pr_count :: nat
  pr_latest :: string
  pr_service :: string
  pr_level :: string
  pr_host :: string

text \<open>
  One field per shape of answer: \<open>SELECT count()\<close>, \<open>SELECT *\<close>, a value with its count, and the
  pattern groups. Counts are \<open>UInt64\<close>, sent as decimal strings that \<open>Number\<close> reads back.
\<close>

record log_store =
  st_counts :: "string \<Rightarrow> params \<Rightarrow> string + nat list"
  st_rows :: "string \<Rightarrow> params \<Rightarrow> string + log_row list"
  st_groups :: "string \<Rightarrow> params \<Rightarrow> string + (string \<times> nat) list"
  st_patterns :: "string \<Rightarrow> params \<Rightarrow> string + pattern_row list"

section \<open>Conditions as data\<close>

datatype sql_column = Column string | MapKey string | Signature

datatype sql_cond =
    Compare sql_column string string
  | AnyText "string list"

definition bs2 :: string where
  "bs2 = [CHR 0x5C, CHR 0x5C]"

definition tick :: string where
  "tick = [CHR 0x27]"

definition quoted :: "string \<Rightarrow> string" where
  "quoted s = tick @ s @ tick"

text \<open>\<open>patternSignatureSqlExpression\<close>: the six replacements around the lower-cased column.\<close>

definition pattern_signature_sql :: "string \<Rightarrow> string" where
  "pattern_signature_sql column =
     concat (replicate 6 ''replaceRegexpAll('') @ ''lowerUTF8('' @ column @ ''),'' @
     quoted (''(?i)'' @ bs2 @ ''b[0-9a-f]{8}-[0-9a-f]{4}-[0-9a-f]{4}-[0-9a-f]{4}-[0-9a-f]{12}'' @ bs2 @ ''b'')
       @ '','' @ quoted ''<uuid>'' @ ''),'' @
     quoted (bs2 @ ''b'' @ bs2 @ ''d{4}-'' @ bs2 @ ''d{2}-'' @ bs2 @ ''d{2}[t ]'' @ bs2 @ ''d{2}:'' @ bs2 @
       ''d{2}:'' @ bs2 @ ''d{2}(?:[.,]'' @ bs2 @ ''d+)?(?:z|[+-]'' @ bs2 @ ''d{2}:'' @ bs2 @ ''d{2})?'' @ bs2 @ ''b'')
       @ '','' @ quoted ''<ts>'' @ ''),'' @
     quoted ([CHR 0x22] @ ''[^'' @ [CHR 0x22] @ '']*'' @ [CHR 0x22] @ ''|'' @
       tick @ tick @ ''[^'' @ tick @ tick @ '']*'' @ tick @ tick)
       @ '','' @ quoted ''<quoted>'' @ ''),'' @
     quoted (''(?i)'' @ bs2 @ ''b0x[0-9a-f]+'' @ bs2 @ ''b'') @ '','' @ quoted ''<hex>'' @ ''),'' @
     quoted (bs2 @ ''b[a-zA-Z_][a-zA-Z0-9_-]*'' @ bs2 @ ''d+[a-zA-Z0-9_-]*'' @ bs2 @ ''b'')
       @ '','' @ quoted ''<id>'' @ ''),'' @
     quoted (bs2 @ ''b'' @ bs2 @ ''d+'' @ bs2 @ ''b'') @ '','' @ quoted ''<n>'' @ '')''"

definition bound :: "string \<Rightarrow> string" where
  "bound p = ''{'' @ p @ '':String}''"

fun render_column :: "sql_column \<Rightarrow> string" where
  "render_column (Column c) = c"
| "render_column (MapKey k) = ''fields['' @ quoted k @ '']''"
| "render_column Signature = pattern_signature_sql ''message''"

definition any_text :: "string \<Rightarrow> string" where
  "any_text p = ''(message ILIKE '' @ bound p @ '' OR service ILIKE '' @ bound p @
     '' OR host ILIKE '' @ bound p @ '')''"

fun render :: "sql_cond \<Rightarrow> string" where
  "render (Compare c op p) = render_column c @ '' '' @ op @ '' '' @ bound p"
| "render (AnyText ps) = ''('' @ join '' OR '' (map any_text ps) @ '')''"

definition where_text :: "sql_cond list \<Rightarrow> string" where
  "where_text cs = join '' AND '' (map render cs)"

text \<open>
  What a well-formed condition may consist of. A map key is a non-empty word over the allow-list,
  so it cannot end the literal it stands in; parameter names are words too.
\<close>

definition key_char :: "char \<Rightarrow> bool" where
  "key_char c \<longleftrightarrow> is_lower c \<or> is_digit c \<or> c = CHR ''_'' \<or> c = CHR ''-''"

definition table_columns :: "string list" where
  "table_columns = [''team_id'', ''source_id'', ''timestamp'', ''level'', ''service'', ''host'', ''message'']"

definition sql_operators :: "string list" where
  "sql_operators = [''='', ''!='', ''>'', ''<'', ''>='', ''<='', ''ILIKE'']"

fun safe_column :: "sql_column \<Rightarrow> bool" where
  "safe_column (Column c) \<longleftrightarrow> c \<in> set table_columns"
| "safe_column (MapKey k) \<longleftrightarrow> k \<noteq> [] \<and> list_all key_char k"
| "safe_column Signature \<longleftrightarrow> True"

fun cond_params :: "sql_cond \<Rightarrow> string list" where
  "cond_params (Compare c op p) = [p]"
| "cond_params (AnyText ps) = ps"

fun safe_cond :: "sql_cond \<Rightarrow> bool" where
  "safe_cond (Compare c op p) \<longleftrightarrow> safe_column c \<and> op \<in> set sql_operators \<and> list_all is_word p"
| "safe_cond (AnyText ps) \<longleftrightarrow> ps \<noteq> [] \<and> list_all (list_all is_word) ps"

definition bound_in :: "params \<Rightarrow> sql_cond \<Rightarrow> bool" where
  "bound_in p c \<longleftrightarrow> list_all (\<lambda>x. map_of p x \<noteq> None) (cond_params c)"

definition team_cond :: sql_cond where
  "team_cond = Compare (Column ''team_id'') ''='' ''teamId''"

text \<open>
  The behaviour of ClickHouse that tenant isolation rests on: a \<open>SELECT\<close> whose \<open>WHERE\<close> is a
  conjunction of well-formed conditions, \<open>team_id = {teamId:String}\<close> among them, returns rows of
  the team bound to \<open>teamId\<close> only. White space separates tokens and nothing else.
\<close>

definition honours_where :: "log_store \<Rightarrow> bool" where
  "honours_where S \<longleftrightarrow>
     (\<forall>sql cols cs tail p rows t.
        st_rows S sql p = Inr rows \<longrightarrow>
        split_spaces sql =
          split_spaces (''SELECT '' @ cols @ '' FROM logs WHERE '' @ where_text cs @ tail) \<longrightarrow>
        list_all safe_cond cs \<longrightarrow> list_all (bound_in p) cs \<longrightarrow> team_cond \<in> set cs \<longrightarrow>
        map_of p ''teamId'' = Some (VStr t) \<longrightarrow> list_all (\<lambda>r. row_team r = t) rows)"

lemma join_Cons: "xs \<noteq> [] \<Longrightarrow> join s (x # xs) = x @ s @ join s xs"
  by (cases xs) auto

lemma join_append:
  "xs \<noteq> [] \<Longrightarrow> ys \<noteq> [] \<Longrightarrow> join s (xs @ ys) = join s xs @ s @ join s ys"
proof (induction xs)
  case (Cons x xs)
  then show ?case by (cases "xs = []") (simp_all add: join_Cons)
qed simp

lemma where_text_append:
  "cs \<noteq> [] \<Longrightarrow> ds \<noteq> [] \<Longrightarrow> where_text (cs @ ds) = where_text cs @ '' AND '' @ where_text ds"
  by (simp add: where_text_def join_append)

text \<open>The allow-list leaves nothing that could close the quoted key.\<close>

lemma key_char_no_quote: "key_char c \<Longrightarrow> c \<noteq> CHR 0x27 \<and> c \<noteq> CHR 0x5C \<and> c \<noteq> CHR '']''"
  by (auto simp: key_char_def is_lower_def is_digit_def code_def)

end
