(* ===== verification/LogRepository.thy ===== *)
theory LogRepository imports LogStore begin

text \<open>
  \<open>repositories/log-repository.ts\<close>: every read and write of log entries. The class's private
  builders come first (time stamps, filters, free text, the scoped \<open>WHERE\<close>, page tokens), then its
  methods. Offsets are JavaScript numbers because a page token may carry any non-negative one.
\<close>

section \<open>Queries\<close>

datatype sort_column = ByTimestamp | ByLevel | ByService | ByHost

datatype facet_field =
  FcService | FcLevel | FcHost | FcSourceId | FcEnv | FcRegion | FcStatusCode | FcRoute

datatype histogram_interval = EveryMinute | Every5m | Every15m | EveryHour | EveryDay

datatype pattern_grouping = GroupNone | GroupService | GroupLevel | GroupServiceLevel

datatype context_scope = InSource | InService | InHost

record query_context =
  qc_range :: "(string \<times> string) option"
  qc_filters :: "(string \<times> string) list option"
  qc_duration :: "string option"

record log_scope =
  lq_team :: ident
  lq_source :: "string option"
  lq_start :: "string option"
  lq_end :: "string option"
  lq_query :: "string option"
  lq_type :: query_type
  lq_filters :: "log_filter list option"

record log_query = log_scope +
  lq_sort :: "sort_column option"
  lq_ascending :: "bool option"
  lq_limit :: "int option"
  lq_offset :: "int option"
  lq_token :: "string option"
  lq_context :: "query_context option"

record facet_query = log_scope +
  fq_fields :: "facet_field list option"
  fq_limit :: "int option"

record histogram_query = log_scope +
  hq_interval :: histogram_interval

record patterns_query = log_scope +
  pq_group :: "pattern_grouping option"
  pq_limit :: "int option"

record context_query =
  cq_team :: ident
  cq_source :: ident
  cq_timestamp :: string
  cq_before :: int
  cq_after :: int
  cq_scope :: context_scope
  cq_service :: "string option"
  cq_host :: "string option"

section \<open>Registries\<close>

definition searchable_columns :: "string list" where
  "searchable_columns = [''level'', ''service'', ''host'', ''message'']"

fun facet_name :: "facet_field \<Rightarrow> string" where
  "facet_name FcService = ''service''"
| "facet_name FcLevel = ''level''"
| "facet_name FcHost = ''host''"
| "facet_name FcSourceId = ''sourceId''"
| "facet_name FcEnv = ''env''"
| "facet_name FcRegion = ''region''"
| "facet_name FcStatusCode = ''status_code''"
| "facet_name FcRoute = ''route''"

fun facet_column :: "facet_field \<Rightarrow> sql_column" where
  "facet_column FcService = Column ''service''"
| "facet_column FcLevel = Column ''level''"
| "facet_column FcHost = Column ''host''"
| "facet_column FcSourceId = Column ''source_id''"
| "facet_column FcEnv = MapKey ''env''"
| "facet_column FcRegion = MapKey ''region''"
| "facet_column FcStatusCode = MapKey ''status_code''"
| "facet_column FcRoute = MapKey ''route''"

definition search_term_variants :: "(string \<times> string list) list" where
  "search_term_variants =
     [(''fail'', [''failed'', ''failure'', ''failures'', ''failing'']),
      (''failed'', [''fail'', ''failure'', ''failures'', ''failing'']),
      (''failure'', [''fail'', ''failed'', ''failures'', ''failing'']),
      (''failures'', [''fail'', ''failed'', ''failure'', ''failing'']),
      (''failing'', [''fail'', ''failed'', ''failure'', ''failures''])]"

fun interval_sql :: "histogram_interval \<Rightarrow> string" where
  "interval_sql EveryMinute = ''INTERVAL 1 MINUTE''"
| "interval_sql Every5m = ''INTERVAL 5 MINUTE''"
| "interval_sql Every15m = ''INTERVAL 15 MINUTE''"
| "interval_sql EveryHour = ''INTERVAL 1 HOUR''"
| "interval_sql EveryDay = ''INTERVAL 1 DAY''"

fun interval_ms :: "histogram_interval \<Rightarrow> int" where
  "interval_ms EveryMinute = 60000"
| "interval_ms Every5m = 5 * 60000"
| "interval_ms Every15m = 15 * 60000"
| "interval_ms EveryHour = 60 * 60000"
| "interval_ms EveryDay = 24 * 60 * 60000"

section \<open>Time stamps\<close>

text \<open>\<open>s.replace(c, t)\<close> for a one-character string: the first occurrence.\<close>

fun replace_first :: "char \<Rightarrow> string \<Rightarrow> string \<Rightarrow> string" where
  "replace_first c t [] = []"
| "replace_first c t (x # xs) = (if x = c then t @ xs else x # replace_first c t xs)"

definition to_ch_timestamp :: "js_lib \<Rightarrow> string \<Rightarrow> string + string" where
  "to_ch_timestamp L ts =
     map_sum id (\<lambda>s. replace_first (CHR ''Z'') [] (replace_first (CHR ''T'') '' '' s)) (iso_of L ts)"

definition to_iso_timestamp :: "js_lib \<Rightarrow> string \<Rightarrow> string + string" where
  "to_iso_timestamp L v =
     (let normalized = (if str_includes v ''T'' then v else replace_first (CHR '' '') ''T'' v)
      in iso_of L (if ends_with ''Z'' normalized then normalized else normalized @ ''Z''))"

section \<open>Filters\<close>

definition safe_key :: "string \<Rightarrow> string" where
  "safe_key s = filter key_char (lower s)"

definition value_text :: "js_lib \<Rightarrow> filter_value \<Rightarrow> string" where
  "value_text L v = (case v of VStr s \<Rightarrow> s | VNum n \<Rightarrow> num_str L n)"

definition percent :: "string \<Rightarrow> string" where
  "percent s = ''%'' @ s @ ''%''"

definition op_text :: "filter_op \<Rightarrow> string" where
  "op_text op = (case op of OpEq \<Rightarrow> ''='' | OpNeq \<Rightarrow> ''!='' | OpGt \<Rightarrow> ''>'' | OpLt \<Rightarrow> ''<''
                          | OpContains \<Rightarrow> ''ILIKE'')"

definition filter_column :: "string \<Rightarrow> string option" where
  "filter_column f =
     (if f \<in> set searchable_columns then Some f
      else (let key = safe_key f in
            if key = [] then None else Some (''fields['' @ quoted key @ '']'')))"

text \<open>The condition of one filter, and the parameters with what it added to them.\<close>

definition pattern_condition ::
  "js_lib \<Rightarrow> log_filter \<Rightarrow> string \<Rightarrow> params \<Rightarrow> string option \<times> params" where
  "pattern_condition L f name p =
     (let signature = pattern_signature_sql ''message'';
          wanted = lower (value_text L (f_value f)) in
      case f_op f of
        OpEq \<Rightarrow> (Some (signature @ '' = '' @ bound name), set_param name (VStr wanted) p)
      | OpNeq \<Rightarrow> (Some (signature @ '' != '' @ bound name), set_param name (VStr wanted) p)
      | OpContains \<Rightarrow> (Some (signature @ '' ILIKE '' @ bound name), set_param name (VStr (percent wanted)) p)
      | _ \<Rightarrow> (None, p))"

definition build_filter_condition ::
  "js_lib \<Rightarrow> log_filter \<Rightarrow> nat \<Rightarrow> params \<Rightarrow> string option \<times> params" where
  "build_filter_condition L f index p =
     (let name = ''f'' @ nat_str index in
      if f_field f = ''__pattern'' then pattern_condition L f name p
      else
        (case filter_column (f_field f) of
           None \<Rightarrow> (None, p)
         | Some column \<Rightarrow>
             (let p1 = set_param name (f_value f) p;
                  p2 = (if f_op f = OpContains
                        then set_param name (VStr (percent (value_text L (f_value f)))) p1 else p1)
              in (Some (column @ '' '' @ op_text (f_op f) @ '' '' @ bound name), p2))))"

fun filter_conditions ::
  "js_lib \<Rightarrow> nat \<Rightarrow> log_filter list \<Rightarrow> params \<Rightarrow> string list \<times> params" where
  "filter_conditions L i [] p = ([], p)"
| "filter_conditions L i (f # fs) p =
     (let (c, p1) = build_filter_condition L f i p;
          (cs, p2) = filter_conditions L (Suc i) fs p1
      in (case c of None \<Rightarrow> cs | Some s \<Rightarrow> s # cs, p2))"

section \<open>Free text\<close>

definition raw_tokens :: "string \<Rightarrow> string list" where
  "raw_tokens q =
     filter (\<lambda>t. 1 < length t) (map (\<lambda>t. trim (filter key_char (lower t))) (split_spaces q))"

text \<open>
  \<open>TABLE[key]\<close> on an object literal also finds what every object inherits. None of it is iterable,
  so a \<open>for ... of\<close> over it throws a \<open>TypeError\<close>.
\<close>

definition inherited_keys :: "string list" where
  "inherited_keys =
     [''constructor'', ''__proto__'', ''hasOwnProperty'', ''isPrototypeOf'', ''propertyIsEnumerable'',
      ''toString'', ''toLocaleString'', ''valueOf'', ''__defineGetter__'', ''__defineSetter__'',
      ''__lookupGetter__'', ''__lookupSetter__'']"

definition mapped_variants :: "(string \<times> 'a list) list \<Rightarrow> string \<Rightarrow> string + 'a list" where
  "mapped_variants table key =
     (case map_of table key of
        Some vs \<Rightarrow> Inr vs
      | None \<Rightarrow> if key \<in> set inherited_keys then Inl ''mappedVariants is not iterable'' else Inr [])"

definition strip_suffix :: "string \<Rightarrow> nat \<Rightarrow> string \<Rightarrow> string list" where
  "strip_suffix suffix longer t =
     (if ends_with suffix t \<and> longer < length t then [take (length t - length suffix) t] else [])"

definition expand_search_token_variants :: "string \<Rightarrow> string + string list" where
  "expand_search_token_variants t =
     map_sum id
       (\<lambda>vs. uniq ([t] @ vs @ strip_suffix ''s'' 4 t @ strip_suffix ''ed'' 4 t @ strip_suffix ''ing'' 5 t))
       (mapped_variants search_term_variants t)"

definition search_param :: "nat \<Rightarrow> nat \<Rightarrow> string" where
  "search_param ti vi = ''search_'' @ nat_str ti @ ''_'' @ nat_str vi"

fun variant_conditions :: "nat \<Rightarrow> nat \<Rightarrow> string list \<Rightarrow> params \<Rightarrow> string list \<times> params" where
  "variant_conditions ti vi [] p = ([], p)"
| "variant_conditions ti vi (v # vs) p =
     (let name = search_param ti vi;
          (cs, p1) = variant_conditions ti (Suc vi) vs (set_param name (VStr (percent v)) p)
      in (any_text name # cs, p1))"

fun token_conditions :: "nat \<Rightarrow> string list \<Rightarrow> params \<Rightarrow> string + string list \<times> params" where
  "token_conditions ti [] p = Inr ([], p)"
| "token_conditions ti (t # ts) p =
     (case expand_search_token_variants t of
        Inl e \<Rightarrow> Inl e
      | Inr vs \<Rightarrow>
          (let (cs, p1) = variant_conditions ti 0 vs p in
           case token_conditions (Suc ti) ts p1 of
             Inl e \<Rightarrow> Inl e
           | Inr (rest, p2) \<Rightarrow> Inr ((''('' @ join '' OR '' cs @ '')'') # rest, p2)))"

definition build_search_condition :: "string \<Rightarrow> params \<Rightarrow> string + string option \<times> params" where
  "build_search_condition q p =
     (if raw_tokens q = [] then Inr (None, p)
      else map_sum id (\<lambda>(cs, p1). (Some (join '' AND '' cs), p1)) (token_conditions 0 (raw_tokens q) p))"

section \<open>The scoped WHERE\<close>

text \<open>A time bound, when the query has one.\<close>

definition time_condition ::
  "js_lib \<Rightarrow> string \<Rightarrow> string \<Rightarrow> string option \<Rightarrow> string list \<times> params \<Rightarrow> string + string list \<times> params" where
  "time_condition L cmp name bnd st =
     (if truthy bnd then
        map_sum id (\<lambda>ts. (fst st @ [''timestamp '' @ cmp @ '' '' @ bound name], set_param name (VStr ts) (snd st)))
          (to_ch_timestamp L (the bnd))
      else Inr st)"

definition scope_base :: "'a log_scope_scheme \<Rightarrow> string list \<times> params" where
  "scope_base Q =
     (if truthy (lq_source Q)
      then ([''team_id = {teamId:String}'', ''source_id = {sourceId:String}''],
            set_param ''sourceId'' (VStr (the (lq_source Q))) [(''teamId'', VStr (lq_team Q))])
      else ([''team_id = {teamId:String}''], [(''teamId'', VStr (lq_team Q))]))"

definition add_filters ::
  "js_lib \<Rightarrow> log_filter list option \<Rightarrow> string list \<times> params \<Rightarrow> string list \<times> params" where
  "add_filters L fs st =
     (case fs of
        None \<Rightarrow> st
      | Some fs \<Rightarrow> (case filter_conditions L 0 fs (snd st) of (cs, p) \<Rightarrow> (fst st @ cs, p)))"

definition add_search ::
  "'a log_scope_scheme \<Rightarrow> string list \<times> params \<Rightarrow> string + string list \<times> params" where
  "add_search Q st =
     (if truthy (lq_query Q) \<and> lq_type Q = Sql then
        map_sum id (\<lambda>(c, p). (case c of None \<Rightarrow> fst st | Some s \<Rightarrow> fst st @ [s], p))
          (build_search_condition (the (lq_query Q)) (snd st))
      else Inr st)"

definition build_scoped_where :: "js_lib \<Rightarrow> 'a log_scope_scheme \<Rightarrow> string + string \<times> params" where
  "build_scoped_where L Q =
     (case time_condition L ''>='' ''startTime'' (lq_start Q) (scope_base Q) of
        Inl e \<Rightarrow> Inl e
      | Inr st1 \<Rightarrow>
          (case time_condition L ''<='' ''endTime'' (lq_end Q) st1 of
             Inl e \<Rightarrow> Inl e
           | Inr st2 \<Rightarrow>
               map_sum id (\<lambda>(conds, p). (join '' AND '' conds, p))
                 (add_search Q (add_filters L (lq_filters Q) st2))))"

end
