(* ===== verification/LogScope.thy ===== *)
theory LogScope imports LogRepository begin

text \<open>
  What the \<open>WHERE\<close> text of the log repository means. \<open>scope_conds\<close> is the query's conditions as
  data; the text the builders concatenate is its rendering, every condition is well formed, and
  the parameters bind every placeholder without ever touching the team.
\<close>

section \<open>The conditions of a query\<close>

definition filter_cond :: "log_filter \<Rightarrow> nat \<Rightarrow> sql_cond option" where
  "filter_cond f i =
     (let name = ''f'' @ nat_str i in
      if f_field f = ''__pattern'' then
        (if f_op f = OpGt \<or> f_op f = OpLt then None else Some (Compare Signature (op_text (f_op f)) name))
      else if f_field f \<in> set searchable_columns then Some (Compare (Column (f_field f)) (op_text (f_op f)) name)
      else if safe_key (f_field f) = [] then None
      else Some (Compare (MapKey (safe_key (f_field f))) (op_text (f_op f)) name))"

fun filter_conds :: "nat \<Rightarrow> log_filter list \<Rightarrow> sql_cond list" where
  "filter_conds i [] = []"
| "filter_conds i (f # fs) =
     (case filter_cond f i of None \<Rightarrow> filter_conds (Suc i) fs | Some c \<Rightarrow> c # filter_conds (Suc i) fs)"

definition token_cond :: "nat \<Rightarrow> string \<Rightarrow> sql_cond" where
  "token_cond ti t =
     (case expand_search_token_variants t of
        Inl e \<Rightarrow> AnyText []
      | Inr vs \<Rightarrow> AnyText (map (search_param ti) [0..<length vs]))"

fun token_conds :: "nat \<Rightarrow> string list \<Rightarrow> sql_cond list" where
  "token_conds ti [] = []"
| "token_conds ti (t # ts) = token_cond ti t # token_conds (Suc ti) ts"

definition optional :: "bool \<Rightarrow> 'c \<Rightarrow> 'c list" where
  "optional b c = (if b then [c] else [])"

definition scope_conds :: "'a log_scope_scheme \<Rightarrow> sql_cond list" where
  "scope_conds Q =
     [team_cond]
     @ optional (truthy (lq_source Q)) (Compare (Column ''source_id'') ''='' ''sourceId'')
     @ optional (truthy (lq_start Q)) (Compare (Column ''timestamp'') ''>='' ''startTime'')
     @ optional (truthy (lq_end Q)) (Compare (Column ''timestamp'') ''<='' ''endTime'')
     @ filter_conds 0 (the_or [] (lq_filters Q))
     @ (if truthy (lq_query Q) \<and> lq_type Q = Sql then token_conds 0 (raw_tokens (the (lq_query Q))) else [])"

section \<open>Parameters only grow, and the team stays\<close>

definition grows :: "params \<Rightarrow> params \<Rightarrow> bool" where
  "grows p q \<longleftrightarrow> dom (map_of p) \<subseteq> dom (map_of q) \<and> map_of q ''teamId'' = map_of p ''teamId''"

lemma grows_refl [simp]: "grows p p"
  by (simp add: grows_def)

lemma grows_trans: "grows p q \<Longrightarrow> grows q r \<Longrightarrow> grows p r"
  by (auto simp: grows_def)

lemma grows_set [simp]: "k \<noteq> ''teamId'' \<Longrightarrow> grows p q \<Longrightarrow> grows p (set_param k v q)"
  by (auto simp: grows_def)

lemma bound_in_grows: "bound_in p c \<Longrightarrow> grows p q \<Longrightarrow> bound_in q c"
  by (auto simp: bound_in_def grows_def list_all_iff dom_def)

lemma all_bound_grows: "list_all (bound_in p) cs \<Longrightarrow> grows p q \<Longrightarrow> list_all (bound_in q) cs"
  by (auto simp: list_all_iff intro: bound_in_grows)

lemma nat_str_word: "list_all is_word (nat_str n)"
  by (auto simp: list_all_iff is_word_def dest: nat_str_digits)

lemma filter_param_word: "list_all is_word (''f'' @ nat_str i)"
  using nat_str_word [of i] by (simp add: is_word_def is_lower_def code_def)

lemma search_param_word: "list_all is_word (search_param ti vi)"
  using nat_str_word [of ti] nat_str_word [of vi]
  by (simp add: search_param_def is_word_def is_lower_def is_digit_def code_def)

lemma filter_param_not_team: "''f'' @ nat_str i \<noteq> ''teamId''"
  by simp

lemma search_param_not_team: "search_param ti vi \<noteq> ''teamId''"
  by (simp add: search_param_def)

section \<open>Filters\<close>

lemma op_text_ok: "op_text op \<in> set sql_operators"
  by (cases op) (simp_all add: op_text_def sql_operators_def)

lemma safe_filter_cond: "filter_cond f i = Some c \<Longrightarrow> safe_cond c"
  using filter_param_word [of i] op_text_ok [of "f_op f"]
  by (auto simp: filter_cond_def Let_def searchable_columns_def table_columns_def safe_key_def
      list_all_iff split: if_splits)

lemma filter_step:
  assumes "build_filter_condition L f i p = (s, q)"
  shows "s = map_option render (filter_cond f i) \<and> grows p q
     \<and> (\<forall>c. filter_cond f i = Some c \<longrightarrow> bound_in q c)"
  using assms filter_param_not_team [of i]
  by (cases "f_op f")
    (auto simp: build_filter_condition_def pattern_condition_def filter_cond_def filter_column_def
      bound_in_def op_text_def Let_def split: if_splits intro: grows_trans)

lemma filters_refine:
  assumes "filter_conditions L i fs p = (ss, q)"
  shows "ss = map render (filter_conds i fs) \<and> grows p q \<and> list_all (bound_in q) (filter_conds i fs)"
  using assms
proof (induction fs arbitrary: i p ss q)
  case (Cons f fs)
  obtain s p1 where b: "build_filter_condition L f i p = (s, p1)" by fastforce
  obtain rest p2 where r: "filter_conditions L (Suc i) fs p1 = (rest, p2)" by fastforce
  note step = filter_step [OF b] and ih = Cons.IH [OF r]
  have "q = p2" and "ss = (case s of None \<Rightarrow> rest | Some x \<Rightarrow> x # rest)"
    using Cons.prems b r by auto
  moreover have "list_all (bound_in p2) (filter_conds (Suc i) fs)" and "grows p1 p2" using ih by auto
  ultimately show ?case
    using step ih by (auto split: option.splits intro: grows_trans bound_in_grows)
qed simp

lemma safe_filter_conds: "list_all safe_cond (filter_conds i fs)"
  by (induction fs arbitrary: i) (auto split: option.splits simp: safe_filter_cond)

section \<open>Free text\<close>

lemma variants_refine:
  assumes "variant_conditions ti vi vs p = (ss, q)"
  shows "ss = map any_text (map (search_param ti) [vi..<vi + length vs]) \<and> grows p q
     \<and> list_all (\<lambda>x. map_of q x \<noteq> None) (map (search_param ti) [vi..<vi + length vs])"
  using assms
proof (induction vs arbitrary: vi p ss q)
  case (Cons v vs)
  let ?p = "set_param (search_param ti vi) (VStr (percent v)) p"
  obtain rest p1 where r: "variant_conditions ti (Suc vi) vs ?p = (rest, p1)" by fastforce
  note ih = Cons.IH [OF r]
  have g: "grows p ?p" using search_param_not_team by simp
  have "map_of ?p (search_param ti vi) \<noteq> None" by simp
  then have "map_of p1 (search_param ti vi) \<noteq> None" using ih by (auto simp: grows_def dom_def)
  moreover have "[vi..<vi + length (v # vs)] = vi # [Suc vi..<Suc vi + length vs]"
    by (simp add: upt_conv_Cons del: upt_Suc)
  ultimately show ?case
    using Cons.prems r ih g by (auto simp: Let_def simp del: upt_Suc intro: grows_trans)
qed simp

lemma expand_nonempty: "expand_search_token_variants t = Inr vs \<Longrightarrow> vs \<noteq> []"
  by (cases "mapped_variants search_term_variants t")
    (auto simp: expand_search_token_variants_def uniq_def)

lemma tokens_refine:
  assumes "token_conditions ti ts p = Inr (ss, q)"
  shows "ss = map render (token_conds ti ts) \<and> grows p q
     \<and> list_all (bound_in q) (token_conds ti ts) \<and> list_all safe_cond (token_conds ti ts)"
  using assms
proof (induction ts arbitrary: ti p ss q)
  case (Cons t ts)
  then obtain vs where vs: "expand_search_token_variants t = Inr vs" by (auto split: sum.splits)
  obtain cs p1 where v: "variant_conditions ti 0 vs p = (cs, p1)" by fastforce
  from Cons.prems vs v obtain rest where r: "token_conditions (Suc ti) ts p1 = Inr (rest, q)"
    and ss: "ss = (''('' @ join '' OR '' cs @ '')'') # rest"
    by (auto simp: Let_def split: sum.splits)
  note ih = Cons.IH [OF r] and var = variants_refine [OF v]
  have "bound_in p1 (token_cond ti t)" using var vs by (simp add: token_cond_def bound_in_def)
  then have "bound_in q (token_cond ti t)" using ih by (auto intro: bound_in_grows)
  moreover have "safe_cond (token_cond ti t)"
    using vs expand_nonempty [OF vs] search_param_word by (auto simp: token_cond_def list_all_iff)
  ultimately show ?case using ih var vs ss by (auto simp: token_cond_def intro: grows_trans)
qed simp

lemma search_refine:
  assumes "build_search_condition txt p = Inr (s, q)"
  shows "(case s of None \<Rightarrow> token_conds 0 (raw_tokens txt) = []
          | Some x \<Rightarrow> token_conds 0 (raw_tokens txt) \<noteq> [] \<and> x = where_text (token_conds 0 (raw_tokens txt)))
     \<and> grows p q \<and> list_all (bound_in q) (token_conds 0 (raw_tokens txt))
     \<and> list_all safe_cond (token_conds 0 (raw_tokens txt))"
proof (cases "raw_tokens txt")
  case (Cons t ts)
  with assms obtain cs where "token_conditions 0 (raw_tokens txt) p = Inr (cs, q)"
    and "s = Some (join '' AND '' cs)"
    by (cases "token_conditions 0 (raw_tokens txt) p") (auto simp: build_search_condition_def)
  with tokens_refine [OF this(1)] Cons show ?thesis by (simp add: where_text_def)
qed (use assms in \<open>simp add: build_search_condition_def\<close>)

section \<open>The whole WHERE\<close>

text \<open>What holds of the conditions and parameters collected so far.\<close>

definition collected :: "ident \<Rightarrow> sql_cond list \<Rightarrow> string list \<times> params \<Rightarrow> bool" where
  "collected team cs st \<longleftrightarrow>
     fst st = map render cs \<and> list_all (bound_in (snd st)) cs
     \<and> map_of (snd st) ''teamId'' = Some (VStr team)"

lemma map_sum_InrE:
  assumes "map_sum id f x = Inr y"
  obtains z where "x = Inr z" and "y = f z"
  using assms by (cases x) auto

lemma collectedI:
  assumes "collected team cs st" and "grows (snd st) q" and "list_all (bound_in q) ds"
  shows "collected team (cs @ ds) (fst st @ map render ds, q)"
  using assms by (auto simp: collected_def grows_def intro: all_bound_grows [OF _ assms(2)])

lemma time_step:
  assumes "time_condition L cmp name bnd st = Inr st'" and "name \<noteq> ''teamId''" and "collected team cs st"
  shows "collected team (cs @ optional (truthy bnd) (Compare (Column ''timestamp'') cmp name)) st'"
proof (cases "truthy bnd")
  case True
  let ?c = "Compare (Column ''timestamp'') cmp name"
  from True assms(1) obtain ts where st': "st' = (fst st @ map render [?c], set_param name (VStr ts) (snd st))"
    by (cases "to_ch_timestamp L (the bnd)") (auto simp: time_condition_def)
  have "collected team (cs @ [?c]) (fst st @ map render [?c], set_param name (VStr ts) (snd st))"
    by (rule collectedI [OF assms(3)]) (use assms(2) in \<open>simp_all add: bound_in_def\<close>)
  then show ?thesis using True st' by (simp only: optional_def if_True)
qed (use assms in \<open>simp add: time_condition_def optional_def\<close>)

lemma safe_base: "safe_cond team_cond"
  by code_simp

lemma safe_optional: "safe_cond c \<Longrightarrow> list_all safe_cond (optional b c)"
  by (simp add: optional_def)

lemma safe_scope_prefix:
  "safe_cond (Compare (Column ''source_id'') ''='' ''sourceId'')"
  "safe_cond (Compare (Column ''timestamp'') ''>='' ''startTime'')"
  "safe_cond (Compare (Column ''timestamp'') ''<='' ''endTime'')"
  by code_simp+

lemma collected_base:
  "collected (lq_team Q)
     ([team_cond] @ optional (truthy (lq_source Q)) (Compare (Column ''source_id'') ''='' ''sourceId''))
     (scope_base Q)"
  by (simp add: collected_def optional_def team_cond_def bound_in_def bound_def scope_base_def)

definition text_conds :: "'a log_scope_scheme \<Rightarrow> sql_cond list" where
  "text_conds Q =
     (if truthy (lq_query Q) \<and> lq_type Q = Sql then token_conds 0 (raw_tokens (the (lq_query Q))) else [])"

lemma filters_step:
  assumes "collected team cs st"
  shows "collected team (cs @ filter_conds 0 (the_or [] fs)) (add_filters L fs st)"
proof (cases fs)
  case (Some l)
  obtain ss q where f: "filter_conditions L 0 l (snd st) = (ss, q)" by fastforce
  with filters_refine [OF this] Some show ?thesis
    using collectedI [OF assms, of q "filter_conds 0 l"] by (simp add: add_filters_def)
qed (use assms in \<open>simp add: add_filters_def\<close>)

lemma search_step:
  assumes "add_search Q st = Inr st'" and "collected team cs st" and "cs \<noteq> []"
  shows "\<exists>ss. collected team (cs @ text_conds Q) (ss, snd st') \<and> join '' AND '' (fst st') = join '' AND '' ss
     \<and> list_all safe_cond (text_conds Q)"
proof (cases "truthy (lq_query Q) \<and> lq_type Q = Sql")
  case True
  let ?tcs = "token_conds 0 (raw_tokens (the (lq_query Q)))"
  from True assms(1) obtain c p where b: "build_search_condition (the (lq_query Q)) (snd st) = Inr (c, p)"
    and st': "st' = (case c of None \<Rightarrow> fst st | Some s \<Rightarrow> fst st @ [s], p)"
    by (cases "build_search_condition (the (lq_query Q)) (snd st)") (auto simp: add_search_def)
  note sr = search_refine [OF b]
  have nonempty: "fst st \<noteq> []" using assms(2,3) by (auto simp: collected_def)
  have "join '' AND '' (fst st') = join '' AND '' (fst st @ map render ?tcs)"
  proof (cases c)
    case (Some x)
    then have tcs: "map render ?tcs \<noteq> []" and x: "x = join '' AND '' (map render ?tcs)"
      using sr by (simp_all add: where_text_def)
    show ?thesis unfolding st' Some
      by (simp add: x join_append [OF nonempty tcs] join_append [OF nonempty, of "[z]" for z])
  qed (use sr st' in simp)
  moreover have "collected team (cs @ ?tcs) (fst st @ map render ?tcs, p)"
    using collectedI [OF assms(2), of p ?tcs] sr by simp
  ultimately show ?thesis using sr True st' by (auto simp: text_conds_def)
qed (use assms in \<open>auto simp: add_search_def text_conds_def intro!: exI [of _ "fst st'"]\<close>)

lemma scope_conds_text: "scope_conds Q =
     ((([team_cond]
     @ optional (truthy (lq_source Q)) (Compare (Column ''source_id'') ''='' ''sourceId''))
     @ optional (truthy (lq_start Q)) (Compare (Column ''timestamp'') ''>='' ''startTime''))
     @ optional (truthy (lq_end Q)) (Compare (Column ''timestamp'') ''<='' ''endTime''))
     @ filter_conds 0 (the_or [] (lq_filters Q)) @ text_conds Q"
  by (simp add: scope_conds_def text_conds_def)

lemma scoped_where_state:
  assumes "build_scoped_where L Q = Inr (w, p)"
  shows "\<exists>ss. w = join '' AND '' ss \<and> collected (lq_team Q) (scope_conds Q) (ss, p)
     \<and> list_all safe_cond (text_conds Q)"
proof -
  from assms obtain st1 st2 st3 where t1: "time_condition L ''>='' ''startTime'' (lq_start Q) (scope_base Q) = Inr st1"
    and t2: "time_condition L ''<='' ''endTime'' (lq_end Q) st1 = Inr st2"
    and s: "add_search Q (add_filters L (lq_filters Q) st2) = Inr st3"
    and w: "w = join '' AND '' (fst st3)" "p = snd st3"
    by (auto simp: build_scoped_where_def split: sum.splits elim!: map_sum_InrE)
  note c = filters_step [OF time_step [OF t2 _ time_step [OF t1 _ collected_base]], of "lq_filters Q" L]
  from search_step [OF s c] show ?thesis unfolding w scope_conds_text by simp metis
qed

lemma scoped_where_facts:
  assumes "build_scoped_where L Q = Inr (w, p)"
  shows "w = where_text (scope_conds Q)" and "list_all safe_cond (scope_conds Q)"
    and "list_all (bound_in p) (scope_conds Q)" and "map_of p ''teamId'' = Some (VStr (lq_team Q))"
proof -
  from scoped_where_state [OF assms] obtain ss where w: "w = join '' AND '' ss"
    and c: "collected (lq_team Q) (scope_conds Q) (ss, p)" and t: "list_all safe_cond (text_conds Q)" by blast
  show "w = where_text (scope_conds Q)" using w c by (simp add: collected_def where_text_def)
  show "list_all (bound_in p) (scope_conds Q)" "map_of p ''teamId'' = Some (VStr (lq_team Q))"
    using c by (simp_all add: collected_def)
  show "list_all safe_cond (scope_conds Q)"
    unfolding scope_conds_text using t safe_base safe_scope_prefix safe_filter_conds
    by (simp add: safe_optional del: safe_cond.simps)
qed

text \<open>C6: the tenant scope of every log query is unbreakable. Whatever the filters (fields,
  operators, values) and the free text contain, the \<open>WHERE\<close> text is the rendering of the query's
  conditions, the first of which is \<open>team_id = {teamId:String}\<close>; every condition is well formed
  (columns of the table, map keys over the allow-list, known operators), every placeholder is
  bound, and \<open>teamId\<close> is still bound to the query's team.\<close>

theorem where_refines_scope:
  assumes "build_scoped_where L Q = Inr (w, p)"
  shows "w = where_text (scope_conds Q) \<and> hd (scope_conds Q) = team_cond
     \<and> list_all safe_cond (scope_conds Q) \<and> list_all (bound_in p) (scope_conds Q)
     \<and> map_of p ''teamId'' = Some (VStr (lq_team Q))"
  using scoped_where_facts [OF assms] by (simp add: scope_conds_def)

definition hostile_scope :: log_scope where
  "hostile_scope = \<lparr>lq_team = ''t1'', lq_source = None, lq_start = None, lq_end = None,
     lq_query = Some ''teamId) OR 1=1'', lq_type = Sql,
     lq_filters = Some [\<lparr>f_field = ''x'' @ tick @ ''] OR (1=1'', f_op = OpEq, f_value = VStr ''t2''\<rparr>]\<rparr>"

definition silent_lib :: js_lib where
  "silent_lib = \<lparr>json_parse = (\<lambda>_. Inl []), json_stringify = (\<lambda>_. []), date_parse = (\<lambda>_. None),
     date_iso = (\<lambda>_. []), num_str = (\<lambda>_. [])\<rparr>"

theorem where_refines_scope_witness:
  "case build_scoped_where silent_lib hostile_scope of Inl e \<Rightarrow> False
   | Inr (w, p) \<Rightarrow> w = where_text (scope_conds hostile_scope) \<and> list_all safe_cond (scope_conds hostile_scope)
       \<and> map_of p ''teamId'' = Some (VStr ''t1'')"
proof -
  have "\<not> isl (build_scoped_where silent_lib hostile_scope)" by code_simp
  then obtain w p where b: "build_scoped_where silent_lib hostile_scope = Inr (w, p)"
    by (cases "build_scoped_where silent_lib hostile_scope") auto
  from where_refines_scope [OF b] show ?thesis unfolding b by (simp add: hostile_scope_def)
qed

end
