(* ===== verification/Base64Url.thy ===== *)
theory Base64Url imports JsString begin

text \<open>
  \<open>Buffer\<close> as the log repository uses it for page tokens: UTF-8 bytes of a string and back, and the
  \<open>base64url\<close> coding of bytes, whose decoder skips what is not in the alphabet and stops at a
  padding character. A byte is a number below 256.
\<close>

section \<open>Bytes of a string\<close>

definition utf8_bytes :: "string \<Rightarrow> nat list" where
  "utf8_bytes s =
     concat (map (\<lambda>c. if code c < 128 then [code c] else [192 + code c div 64, 128 + code c mod 64]) s)"

text \<open>
  A byte from 128 on stands for a code unit outside ASCII, which \<open>?\<close> represents: what the token's
  JSON text means to the code, its \<open>offset\<close>, is ASCII.
\<close>

definition utf8_text :: "nat list \<Rightarrow> string" where
  "utf8_text bs = map (\<lambda>b. if b < 128 then char_of b else CHR ''?'') bs"

definition ascii :: "string \<Rightarrow> bool" where
  "ascii s \<longleftrightarrow> list_all (\<lambda>c. code c < 128) s"

lemma char_of_code [simp]: "char_of (code c) = c"
  by (simp add: code_def)

lemma utf8_round_trip: "ascii s \<Longrightarrow> utf8_text (utf8_bytes s) = s"
  by (induction s) (auto simp: ascii_def utf8_text_def utf8_bytes_def)

lemma utf8_bytes_bound: "b \<in> set (utf8_bytes s) \<Longrightarrow> b < 256"
proof (induction s)
  case (Cons c s)
  have "code c < 256" by (simp add: code_def)
  with Cons show ?case by (auto simp: utf8_bytes_def split: if_splits)
qed (simp add: utf8_bytes_def)

section \<open>The alphabet\<close>

definition b64_char :: "nat \<Rightarrow> char" where
  "b64_char v =
     (if v < 26 then char_of (65 + v)
      else if v < 52 then char_of (71 + v)
      else if v < 62 then char_of (v - 4)
      else if v = 62 then CHR ''-'' else CHR ''_'')"

text \<open>The decoder also takes the two characters of plain base64.\<close>

definition b64_val :: "char \<Rightarrow> nat option" where
  "b64_val c =
     (if is_upper c then Some (code c - 65)
      else if is_lower c then Some (code c - 71)
      else if is_digit c then Some (code c + 4)
      else if c = CHR ''-'' \<or> c = CHR ''+'' then Some 62
      else if c = CHR ''_'' \<or> c = CHR ''/'' then Some 63
      else None)"

lemma code_char_of: "n < 256 \<Longrightarrow> code (char_of n) = n"
  by (simp add: code_def)

lemma b64_val_char: "v < 64 \<Longrightarrow> b64_val (b64_char v) = Some v"
proof -
  assume "v < 64"
  then consider "v < 26" | "26 \<le> v \<and> v < 52" | "52 \<le> v \<and> v < 62" | "v = 62" | "v = 63" by linarith
  then show ?thesis
  proof cases
    case 3
    then have "v - 4 < 256" by linarith
    with 3 have "b64_char v = char_of (v - 4)" and "code (char_of (v - 4)) = v - 4"
      by (simp_all add: b64_char_def code_char_of del: of_nat_diff)
    moreover from 3 have "48 \<le> v - 4" "v - 4 \<le> 57" "v - 4 + 4 = v" by auto
    ultimately show ?thesis by (simp add: b64_val_def is_upper_def is_lower_def is_digit_def)
  qed (simp_all add: b64_char_def b64_val_def is_upper_def is_lower_def is_digit_def code_char_of,
      simp_all add: code_def)
qed

lemma b64_char_no_pad: "v < 64 \<Longrightarrow> b64_char v \<noteq> CHR ''=''"
  using b64_val_char [of v] by (auto simp: b64_val_def is_upper_def is_lower_def is_digit_def code_def)

section \<open>Coding\<close>

fun sextets :: "nat list \<Rightarrow> nat list" where
  "sextets [] = []"
| "sextets [a] = [a div 4, (a mod 4) * 16]"
| "sextets [a, b] = [a div 4, (a mod 4) * 16 + b div 16, (b mod 16) * 4]"
| "sextets (a # b # c # bs) =
     [a div 4, (a mod 4) * 16 + b div 16, (b mod 16) * 4 + c div 64, c mod 64] @ sextets bs"

fun octets :: "nat list \<Rightarrow> nat list" where
  "octets (w # x # y # z # vs) =
     [w * 4 + x div 16, (x mod 16) * 16 + y div 4, (y mod 4) * 64 + z] @ octets vs"
| "octets [w, x, y] = [w * 4 + x div 16, (x mod 16) * 16 + y div 4]"
| "octets [w, x] = [w * 4 + x div 16]"
| "octets _ = []"

definition base64url_encode :: "nat list \<Rightarrow> string" where
  "base64url_encode bs = map b64_char (sextets bs)"

definition base64url_decode :: "string \<Rightarrow> nat list" where
  "base64url_decode s = octets (List.map_filter b64_val (takeWhile (\<lambda>c. c \<noteq> CHR ''='') s))"

lemma sextets_bound: "list_all (\<lambda>b. b < 256) bs \<Longrightarrow> v \<in> set (sextets bs) \<Longrightarrow> v < 64"
  by (induction bs rule: sextets.induct) auto

lemma byte_parts:
  fixes b c :: nat
  shows "b < 256 \<Longrightarrow> b div 16 div 16 = 0" "b < 256 \<Longrightarrow> b div 16 mod 16 * 16 + b mod 16 = b"
    "b < 256 \<Longrightarrow> c < 256 \<Longrightarrow> b div 16 mod 16 * 16 + (b mod 16 + c div 64 div 4) = b"
    "c < 256 \<Longrightarrow> c div 64 mod 4 * 64 + c mod 64 = c"
proof -
  have 1: "b div 16 < 16" if "b < 256" using that by (simp add: div_less_iff_less_mult)
  have 2: "c div 64 < 4" if "c < 256" using that by (simp add: div_less_iff_less_mult)
  show "b div 16 div 16 = 0" if "b < 256" using 1 [OF that] by simp
  show "b div 16 mod 16 * 16 + b mod 16 = b" if "b < 256" using 1 [OF that] by simp
  show "b div 16 mod 16 * 16 + (b mod 16 + c div 64 div 4) = b" if "b < 256" "c < 256"
    using 1 [OF that(1)] 2 [OF that(2)] by simp
  show "c div 64 mod 4 * 64 + c mod 64 = c" if "c < 256" using 2 [OF that] by simp
qed

lemma octets_sextets: "list_all (\<lambda>b. b < 256) bs \<Longrightarrow> octets (sextets bs) = bs"
  by (induction bs rule: sextets.induct) (auto simp: byte_parts)

lemma map_filter_char:
  "list_all (\<lambda>v. v < 64) vs \<Longrightarrow> List.map_filter b64_val (map b64_char vs) = vs"
  by (induction vs) (simp_all add: map_filter_simps b64_val_char)

lemma base64url_decode_encode:
  assumes "list_all (\<lambda>b. b < 256) bs"
  shows "base64url_decode (base64url_encode bs) = bs"
proof -
  let ?s = "map b64_char (sextets bs)"
  have all: "list_all (\<lambda>v. v < 64) (sextets bs)"
    using sextets_bound [OF assms] by (auto simp: list_all_iff)
  then have "takeWhile (\<lambda>c. c \<noteq> CHR ''='') ?s = ?s"
    by (intro takeWhile_eq_all_conv [THEN iffD2]) (auto simp: list_all_iff b64_char_no_pad)
  then show ?thesis
    unfolding base64url_decode_def base64url_encode_def
    using map_filter_char [OF all] octets_sextets [OF assms] by (simp only:)
qed

end
