(* ===== verification/LogReads.thy ===== *)
theory LogReads imports LogScope Base64Url begin

text \<open>
  The methods of \<open>LogRepository\<close>: insert, search with its page tokens, facets, histogram, patterns,
  stats, context and the lookup by id. A rejected promise is \<open>Inl\<close> of its message. Where the code
  awaits several statements at once, the first one that fails in the order of the text decides.
\<close>

section \<open>Insert\<close>

definition insert_row :: "js_lib \<Rightarrow> log_entry \<Rightarrow> string + log_row" where
  "insert_row L e =
     map_sum id (\<lambda>ts. \<lparr>row_id = le_id e, row_team = le_team e, row_source = le_source e, row_timestamp = ts,
         row_level = level_str (le_level e), row_service = le_service e, row_host = le_host e,
         row_message = le_message e, row_fields = Some (le_fields e)\<rparr>)
       (to_ch_timestamp L (le_timestamp e))"

text \<open>\<open>put\<close> is the client's insert: the message of its failure, if it fails.\<close>

definition insert_logs :: "js_lib \<Rightarrow> (log_row list \<Rightarrow> string option) \<Rightarrow> log_entry list \<Rightarrow> string option" where
  "insert_logs L put es =
     (if es = [] then None
      else (case traverse (\<lambda>i. insert_row L) 0 es of Inl e \<Rightarrow> Some e | Inr rows \<Rightarrow> put rows))"

section \<open>Offsets and page tokens\<close>

fun jn_add :: "jnum \<Rightarrow> jnum \<Rightarrow> jnum" where
  "jn_add (Fin a) (Fin b) = Fin (a + b)"
| "jn_add NaN y = NaN"
| "jn_add x NaN = NaN"
| "jn_add PosInf NegInf = NaN"
| "jn_add NegInf PosInf = NaN"
| "jn_add PosInf y = PosInf"
| "jn_add x PosInf = PosInf"
| "jn_add NegInf y = NegInf"
| "jn_add x NegInf = NegInf"

fun jn_less :: "jnum \<Rightarrow> jnum \<Rightarrow> bool" where
  "jn_less (Fin a) (Fin b) \<longleftrightarrow> a < b"
| "jn_less NegInf (Fin b) \<longleftrightarrow> True"
| "jn_less NegInf PosInf \<longleftrightarrow> True"
| "jn_less (Fin a) PosInf \<longleftrightarrow> True"
| "jn_less x y \<longleftrightarrow> False"

fun jn_nonneg :: "jnum \<Rightarrow> bool" where
  "jn_nonneg (Fin a) \<longleftrightarrow> 0 \<le> a"
| "jn_nonneg PosInf \<longleftrightarrow> True"
| "jn_nonneg x \<longleftrightarrow> False"

abbreviation jn :: "int \<Rightarrow> jnum" where
  "jn n \<equiv> Fin (of_int n)"

definition offset_json :: "jnum \<Rightarrow> json" where
  "offset_json n = JObj [(''offset'', JNum n)]"

definition encode_page_token :: "js_lib \<Rightarrow> jnum \<Rightarrow> string" where
  "encode_page_token L n = base64url_encode (utf8_bytes (json_stringify L (offset_json n)))"

text \<open>
  The offset in a token, if it is usable: the text may not parse, and reading \<open>.offset\<close> of \<open>null\<close>
  throws, which is caught like a parse error.
\<close>

definition token_offset :: "js_lib \<Rightarrow> string \<Rightarrow> jnum option" where
  "token_offset L t =
     (case json_parse L (utf8_text (base64url_decode t)) of
        Inl e \<Rightarrow> None
      | Inr v \<Rightarrow> (case field ''offset'' v of
                   Some (JNum n) \<Rightarrow> if jn_nonneg n then Some n else None
                 | _ \<Rightarrow> None))"

definition resolve_offset :: "js_lib \<Rightarrow> log_query \<Rightarrow> jnum" where
  "resolve_offset L Q =
     (if \<not> truthy (lq_token Q) then jn (the_or 0 (lq_offset Q))
      else the_or (jn (the_or 0 (lq_offset Q))) (token_offset L (the (lq_token Q))))"

section \<open>Search\<close>

fun sort_name :: "sort_column \<Rightarrow> string" where
  "sort_name ByTimestamp = ''timestamp''"
| "sort_name ByLevel = ''level''"
| "sort_name ByService = ''service''"
| "sort_name ByHost = ''host''"

definition order_text :: "log_query \<Rightarrow> string" where
  "order_text Q =
     (let dir = (if lq_ascending Q = Some True then ''ASC'' else ''DESC'')
      in '' ORDER BY '' @ sort_name (the_or ByTimestamp (lq_sort Q)) @ '' '' @ dir @ '', source_id '' @ dir)"

definition count_sql :: "string \<Rightarrow> string" where
  "count_sql w = ''SELECT count() as total FROM logs WHERE '' @ w"

definition data_sql :: "log_query \<Rightarrow> string \<Rightarrow> string" where
  "data_sql Q w = ''SELECT * FROM logs WHERE '' @ w @ order_text Q @
     '' LIMIT {limit:UInt32} OFFSET {offset:UInt32}''"

text \<open>A row as an entry: only missing fields change.\<close>

definition map_row :: "log_row \<Rightarrow> log_row" where
  "map_row r = r\<lparr>row_fields := Some (the_or (JObj []) (row_fields r))\<rparr>"

record search_result =
  sr_logs :: "log_row list"
  sr_total :: nat
  sr_request :: ident
  sr_partial :: bool
  sr_query :: string
  sr_ms :: rat
  sr_cached :: bool
  sr_next :: "string option"

definition first_count :: "nat list \<Rightarrow> nat" where
  "first_count ns = (case ns of [] \<Rightarrow> 0 | n # _ \<Rightarrow> n)"

definition page_limit :: "log_query \<Rightarrow> int" where
  "page_limit Q = the_or 100 (lq_limit Q)"

definition next_token :: "js_lib \<Rightarrow> log_query \<Rightarrow> nat \<Rightarrow> string option" where
  "next_token L Q n =
     (let after = jn_add (resolve_offset L Q) (jn (page_limit Q))
      in if jn_less after (jn (int n)) then Some (encode_page_token L after) else None)"

text \<open>\<open>elapsed\<close> is the difference of the two readings of the performance clock.\<close>

definition search_logs :: "js_lib \<Rightarrow> log_store \<Rightarrow> rat \<Rightarrow> log_query \<Rightarrow> string + search_result" where
  "search_logs L S elapsed Q =
     (case build_scoped_where L Q of
        Inl e \<Rightarrow> Inl e
      | Inr (w, p0) \<Rightarrow>
          (let offset = resolve_offset L Q;
               p = set_param ''offset'' (VNum offset) (set_param ''limit'' (num_param (page_limit Q)) p0)
           in case st_counts S (count_sql w) p of
                Inl e \<Rightarrow> Inl e
              | Inr counts \<Rightarrow>
                  (case st_rows S (data_sql Q w) p of
                     Inl e \<Rightarrow> Inl e
                   | Inr rows \<Rightarrow> Inr
                       \<lparr>sr_logs = map map_row rows, sr_total = first_count counts, sr_request = [],
                        sr_partial = False,
                        sr_query = ''SELECT * FROM logs WHERE '' @ w @ order_text Q @ '' LIMIT '' @
                          num_str L (jn (page_limit Q)) @ '' OFFSET '' @ num_str L offset,
                        sr_ms = of_int (round (elapsed * 100)) / 100, sr_cached = False,
                        sr_next = next_token L Q (first_count counts)\<rparr>)))"

section \<open>Facets, histogram, patterns\<close>

definition facet_sql :: "string \<Rightarrow> facet_field \<Rightarrow> string" where
  "facet_sql w f =
     (let e = render_column (facet_column f) in
      ''SELECT toString('' @ e @ '') as value, count() as count FROM logs WHERE '' @ w @
      '' AND lengthUTF8(toString('' @ e @ '')) > 0 GROUP BY value ORDER BY count DESC LIMIT {facetLimit:UInt32}'')"

type_synonym facet = "facet_field \<times> (string \<times> nat) list"

definition get_facets :: "js_lib \<Rightarrow> log_store \<Rightarrow> facet_query \<Rightarrow> string + facet list" where
  "get_facets L S Q =
     (let requested = uniq (the_or [FcService, FcLevel, FcHost, FcSourceId] (fq_fields Q)) in
      if requested = [] then Inr []
      else
        (case build_scoped_where L Q of
           Inl e \<Rightarrow> Inl e
         | Inr (w, p) \<Rightarrow>
             traverse (\<lambda>i f. map_sum id (Pair f)
                 (st_groups S (facet_sql w f) (set_param ''facetLimit'' (num_param (the_or 10 (fq_limit Q))) p)))
               0 requested))"

record bucket =
  bk_start :: string
  bk_end :: string
  bk_count :: nat

definition histogram_sql :: "histogram_interval \<Rightarrow> string \<Rightarrow> string" where
  "histogram_sql i w = ''SELECT toStartOfInterval(timestamp, '' @ interval_sql i @
     '') as bucket_start, count() as count FROM logs WHERE '' @ w @
     '' GROUP BY bucket_start ORDER BY bucket_start ASC''"

definition to_bucket :: "js_lib \<Rightarrow> histogram_interval \<Rightarrow> string \<times> nat \<Rightarrow> string + bucket" where
  "to_bucket L i row =
     (case to_iso_timestamp L (fst row) of
        Inl e \<Rightarrow> Inl e
      | Inr start \<Rightarrow>
          (case date_parse L start of
             None \<Rightarrow> Inl invalid_time
           | Some t \<Rightarrow> Inr \<lparr>bk_start = start, bk_end = date_iso L (t + interval_ms i), bk_count = snd row\<rparr>))"

definition get_histogram ::
  "js_lib \<Rightarrow> log_store \<Rightarrow> histogram_query \<Rightarrow> string + histogram_interval \<times> bucket list" where
  "get_histogram L S Q =
     (case build_scoped_where L Q of
        Inl e \<Rightarrow> Inl e
      | Inr (w, p) \<Rightarrow>
          (case st_groups S (histogram_sql (hq_interval Q) w) p of
             Inl e \<Rightarrow> Inl e
           | Inr rows \<Rightarrow> map_sum id (Pair (hq_interval Q)) (traverse (\<lambda>i. to_bucket L (hq_interval Q)) 0 rows)))"

record log_pattern =
  lp_key :: string
  lp_signature :: string
  lp_sample :: string
  lp_count :: nat
  lp_latest :: string
  lp_service :: "string option"
  lp_level :: "string option"
  lp_host :: "string option"

definition nonempty :: "string \<Rightarrow> string option" where
  "nonempty s = (if s = [] then None else Some s)"

definition to_pattern :: "js_lib \<Rightarrow> pattern_row \<Rightarrow> string + log_pattern" where
  "to_pattern L r =
     map_sum id (\<lambda>latest.
       \<lparr>lp_key = join ''|'' (filter (\<lambda>s. s \<noteq> []) [pr_level r, pr_service r] @ [pr_signature r]),
        lp_signature = pr_signature r, lp_sample = pr_sample r, lp_count = pr_count r, lp_latest = latest,
        lp_service = nonempty (pr_service r), lp_level = nonempty (pr_level r), lp_host = nonempty (pr_host r)\<rparr>)
       (to_iso_timestamp L (pr_latest r))"

definition groups_by_service :: "pattern_grouping \<Rightarrow> bool" where
  "groups_by_service g \<longleftrightarrow> g = GroupService \<or> g = GroupServiceLevel"

definition groups_by_level :: "pattern_grouping \<Rightarrow> bool" where
  "groups_by_level g \<longleftrightarrow> g = GroupLevel \<or> g = GroupServiceLevel"

definition patterns_sql :: "pattern_grouping \<Rightarrow> string \<Rightarrow> string" where
  "patterns_sql g w =
     (let empty_as = (\<lambda>c. tick @ tick @ '' as '' @ c);
          select = [pattern_signature_sql ''message'' @ '' as signature'', ''any(message) as sample_message'',
                    ''count() as count'', ''max(timestamp) as latest_timestamp'', ''any(host) as sample_host'',
                    if groups_by_service g then ''service'' else empty_as ''service'',
                    if groups_by_level g then ''level'' else empty_as ''level''];
          group = [''signature''] @ (if groups_by_service g then [''service''] else [])
                    @ (if groups_by_level g then [''level''] else [])
      in ''SELECT '' @ join '', '' select @ '' FROM logs WHERE '' @ w @ '' GROUP BY '' @ join '', '' group @
         '' ORDER BY count DESC, latest_timestamp DESC LIMIT {patternLimit:UInt32}'')"

definition get_patterns :: "js_lib \<Rightarrow> log_store \<Rightarrow> patterns_query \<Rightarrow> string + log_pattern list" where
  "get_patterns L S Q =
     (case build_scoped_where L Q of
        Inl e \<Rightarrow> Inl e
      | Inr (w, p) \<Rightarrow>
          (case st_patterns S (patterns_sql (the_or GroupServiceLevel (pq_group Q)) w)
                  (set_param ''patternLimit'' (num_param (the_or 50 (pq_limit Q))) p) of
             Inl e \<Rightarrow> Inl e
           | Inr rows \<Rightarrow> traverse (\<lambda>i. to_pattern L) 0 rows))"

section \<open>Stats, context and one entry\<close>

record log_stats =
  ls_total :: nat
  ls_error_rate :: rat
  ls_services :: "(string \<times> nat) list"

definition team_where :: string where
  "team_where = ''WHERE team_id = {teamId:String}''"

text \<open>\<open>Number(x.toFixed(1))\<close>, on exact quotients: the nearer tenth, the larger one of two.\<close>

definition to_fixed_1 :: "rat \<Rightarrow> rat" where
  "to_fixed_1 x = of_int (round (x * 10)) / 10"

definition error_rate :: "nat \<Rightarrow> nat \<Rightarrow> rat" where
  "error_rate errs n = (if n = 0 then 0 else to_fixed_1 (of_nat errs / of_nat n * 100))"

definition get_stats :: "log_store \<Rightarrow> ident \<Rightarrow> string + log_stats" where
  "get_stats S team =
     (let p = [(''teamId'', VStr team)] in
      case st_counts S (''SELECT count() as total FROM logs '' @ team_where) p of
        Inl e \<Rightarrow> Inl e
      | Inr totals \<Rightarrow>
          (case st_counts S (''SELECT count() as errors FROM logs '' @ team_where @ '' AND level IN ('' @
                  quoted ''error'' @ '', '' @ quoted ''fatal'' @ '')'') p of
             Inl e \<Rightarrow> Inl e
           | Inr errors \<Rightarrow>
               (case st_groups S (''SELECT service, count() as cnt FROM logs '' @ team_where @
                       '' GROUP BY service ORDER BY cnt DESC LIMIT 5'') p of
                  Inl e \<Rightarrow> Inl e
                | Inr services \<Rightarrow> Inr
                    \<lparr>ls_total = first_count totals,
                     ls_error_rate = error_rate (first_count errors) (first_count totals),
                     ls_services = services\<rparr>)))"

text \<open>The condition of the context's scope next to the team, and the parameter it adds.\<close>

definition context_scope_cond :: "context_query \<Rightarrow> params \<Rightarrow> string \<times> params" where
  "context_scope_cond Q p =
     (if cq_scope Q = InSource then (''source_id = {sourceId:String}'', p)
        else if cq_scope Q = InService \<and> truthy (cq_service Q)
        then (''service = {service:String}'', set_param ''service'' (VStr (the (cq_service Q))) p)
        else if cq_scope Q = InHost \<and> truthy (cq_host Q)
        then (''host = {host:String}'', set_param ''host'' (VStr (the (cq_host Q))) p)
        else (''source_id = {sourceId:String}'', p))"

definition context_before_sql :: "string \<Rightarrow> string" where
  "context_before_sql w = ''SELECT * FROM logs WHERE '' @ w @
     '' AND timestamp < {ts:String} ORDER BY timestamp DESC, source_id DESC LIMIT {beforeLimit:UInt32}''"

definition context_after_sql :: "string \<Rightarrow> string" where
  "context_after_sql w = ''SELECT * FROM logs WHERE '' @ w @
     '' AND timestamp > {ts:String} ORDER BY timestamp ASC, source_id ASC LIMIT {afterLimit:UInt32}''"

definition get_context ::
  "js_lib \<Rightarrow> log_store \<Rightarrow> context_query \<Rightarrow> string + log_row list \<times> log_row list" where
  "get_context L S Q =
     (case to_ch_timestamp L (cq_timestamp Q) of
        Inl e \<Rightarrow> Inl e
      | Inr ts \<Rightarrow>
          (let p0 = [(''teamId'', VStr (cq_team Q)), (''sourceId'', VStr (cq_source Q)), (''ts'', VStr ts),
                     (''beforeLimit'', num_param (cq_before Q)), (''afterLimit'', num_param (cq_after Q))];
               (scope, p) = context_scope_cond Q p0;
               w = join '' AND '' [''team_id = {teamId:String}'', scope]
           in case st_rows S (context_before_sql w) p of
                Inl e \<Rightarrow> Inl e
              | Inr earlier \<Rightarrow>
                  (case st_rows S (context_after_sql w) p of
                     Inl e \<Rightarrow> Inl e
                   | Inr later \<Rightarrow> Inr (rev (map map_row earlier), map map_row later))))"

definition break_line :: "nat \<Rightarrow> string" where
  "break_line n = CHR 10 # replicate n CHR '' ''"

definition find_sql :: string where
  "find_sql = ''SELECT id, team_id, source_id, timestamp, level, service, host, message, fields'' @
     break_line 14 @ ''FROM logs'' @ break_line 14 @ ''WHERE team_id = {teamId:String}'' @
     break_line 16 @ ''AND id = {logId:String}'' @ break_line 14 @ ''LIMIT 1''"

definition find_log :: "log_store \<Rightarrow> ident \<Rightarrow> ident \<Rightarrow> string + log_row option" where
  "find_log S team i =
     (case st_rows S find_sql [(''teamId'', VStr team), (''logId'', VStr i)] of
        Inl e \<Rightarrow> Inl e
      | Inr [] \<Rightarrow> Inr None
      | Inr (r # _) \<Rightarrow> Inr (Some (map_row r)))"

end
