(* ===== verification/AiService.thy ===== *)
theory AiService imports LogReads Streaming begin

text \<open>
  \<open>services/ai/ai-service.ts\<close> and the stop words of \<open>constants/nlq.ts\<close>: a natural-language query
  becomes filters, a time range and text terms, by the language model or, when it is not configured
  or keeps failing, by word rules. The model and the response schema's parser are parameters; the
  wording of the prompt is not modelled, the values it is made from are.
\<close>

section \<open>Constants\<close>

definition domain_stopwords :: "string list" where
  "domain_stopwords =
     [''log'', ''logs'', ''entry'', ''entries'', ''event'', ''events'', ''record'', ''records'', ''item'', ''items'',
      ''row'', ''rows'', ''show'', ''find'', ''search'', ''get'', ''list'', ''display'', ''give'', ''fetch'',
      ''retrieve'', ''pull'', ''me'', ''my'', ''all'', ''the'', ''a'', ''an'', ''recent'', ''latest'', ''newest'',
      ''oldest'']"

definition default_openai_model :: string where
  "default_openai_model = ''openai/gpt-oss-120b''"

definition is_reasoning_model :: "string \<Rightarrow> bool" where
  "is_reasoning_model m \<longleftrightarrow> starts_with ''openai/gpt-oss-'' m"

definition allowed_filter_fields :: "string list" where
  "allowed_filter_fields =
     [''level'', ''service'', ''host'', ''message'', ''sourceId'', ''env'', ''region'', ''status_code'', ''route'']"

definition operator_of :: "string \<Rightarrow> filter_op option" where
  "operator_of s =
     (if s = ''eq'' then Some OpEq else if s = ''neq'' then Some OpNeq else if s = ''gt'' then Some OpGt
      else if s = ''lt'' then Some OpLt else if s = ''contains'' then Some OpContains else None)"

definition ai_max_retries :: nat where
  "ai_max_retries = 2"

definition backoff_ms :: "nat \<Rightarrow> int" where
  "backoff_ms i = [1000, 3000] ! i"

section \<open>Translations\<close>

record translation =
  tr_explanation :: string
  tr_filters :: "log_filter list"
  tr_range :: "(string \<times> string) option"
  tr_terms :: "string list option"
  tr_warnings :: "string list option"

record facet_hints =
  fh_service :: "string list option"
  fh_host :: "string list option"
  fh_level :: "string list option"

definition no_hints :: facet_hints where
  "no_hints = \<lparr>fh_service = None, fh_host = None, fh_level = None\<rparr>"

section \<open>The model's side\<close>

datatype llm_error =
    ConnectionFailed
  | ApiFailed "nat option"
  | BadSyntax string
  | BadShape
  | OtherFailure string

record llm_request =
  rq_team :: ident
  rq_query :: string
  rq_hour_ago :: string
  rq_now :: string
  rq_hints :: string
  rq_context :: string
  rq_model :: string
  rq_low_effort :: bool

text \<open>What the schema's parser lets through: the optional keys, and filters with any operator text.\<close>

record raw_filter =
  rf_field :: string
  rf_operator :: string
  rf_value :: filter_value

record llm_answer =
  la_explanation :: "string option"
  la_filters :: "raw_filter list option"
  la_range :: "(string \<times> string) option"
  la_terms :: "string list option"
  la_warnings :: "string list option"

record ai_env =
  ai_lib :: js_lib
  ai_now :: millis
  ai_key :: "string option"
  ai_model :: "string option"
  ai_complete :: "nat \<Rightarrow> llm_request \<Rightarrow> llm_error + string option"
  ai_schema :: "json \<Rightarrow> llm_answer option"

definition classify_error :: "llm_error \<Rightarrow> string" where
  "classify_error e =
     (case e of
        ConnectionFailed \<Rightarrow> ''timeout''
      | ApiFailed st \<Rightarrow>
          if st = Some 401 \<or> st = Some 403 then ''auth''
          else if st = Some 429 then ''rate_limit''
          else if st = Some 400 \<or> st = Some 404 then ''model_or_request''
          else (case st of Some n \<Rightarrow> if n \<noteq> 0 \<and> n \<ge> 500 then ''server'' else ''unknown'' | None \<Rightarrow> ''unknown'')
      | BadSyntax m \<Rightarrow> ''parse''
      | BadShape \<Rightarrow> ''parse''
      | OtherFailure m \<Rightarrow> ''unknown'')"

definition is_retryable :: "string \<Rightarrow> bool" where
  "is_retryable t \<longleftrightarrow> t = ''timeout'' \<or> t = ''rate_limit'' \<or> t = ''server''"

definition format_facet_hint_values :: "string list option \<Rightarrow> string" where
  "format_facet_hint_values vs =
     (case vs of None \<Rightarrow> ''(none)'' | Some [] \<Rightarrow> ''(none)'' | Some vs \<Rightarrow> join '', '' (take 20 vs))"

definition facet_hint_text :: "facet_hints \<Rightarrow> string" where
  "facet_hint_text h =
     join newline
       [''Known services in current scope: '' @ format_facet_hint_values (fh_service h),
        ''Known hosts in current scope: '' @ format_facet_hint_values (fh_host h),
        ''Known levels in current scope: '' @ format_facet_hint_values (fh_level h)]"

definition context_section :: "query_context option \<Rightarrow> string" where
  "context_section ctx =
     (case ctx of
        None \<Rightarrow> []
      | Some c \<Rightarrow>
          newline @ ''Current UI state (override if the query implies different values):'' @
          (case qc_range c of
             None \<Rightarrow> []
           | Some (a, b) \<Rightarrow> newline @ ''  Time range: '' @ the_or ''custom'' (qc_duration c) @ '' ('' @ a @ '' to '' @ b @ '')'') @
          (case qc_filters c of
             None \<Rightarrow> []
           | Some fs \<Rightarrow>
               (let active = filter (\<lambda>(k, v). v \<noteq> []) fs in
                if active = [] then []
                else newline @ ''  Active filters: '' @ join '', '' (map (\<lambda>(k, v). k @ ''='' @ v) active))))"

text \<open>\<open>config.openaiModel?.trim() || DEFAULT_OPENAI_MODEL\<close>\<close>

definition chosen_model :: "ai_env \<Rightarrow> string" where
  "chosen_model E =
     (case ai_model E of
        None \<Rightarrow> default_openai_model
      | Some m \<Rightarrow> if trim m = [] then default_openai_model else trim m)"

definition llm_request_of ::
  "ai_env \<Rightarrow> string \<Rightarrow> ident \<Rightarrow> facet_hints \<Rightarrow> query_context option \<Rightarrow> llm_request" where
  "llm_request_of E q team h ctx =
     \<lparr>rq_team = team, rq_query = q, rq_hour_ago = date_iso (ai_lib E) (ai_now E - 60 * 60 * 1000),
      rq_now = date_iso (ai_lib E) (ai_now E), rq_hints = facet_hint_text h, rq_context = context_section ctx,
      rq_model = chosen_model E, rq_low_effort = is_reasoning_model (chosen_model E)\<rparr>"

section \<open>Reading the model's answer\<close>

definition normalize_filter :: "raw_filter \<Rightarrow> log_filter option" where
  "normalize_filter f =
     (case operator_of (rf_operator f) of
        None \<Rightarrow> None
      | Some op \<Rightarrow>
          if rf_field f \<notin> set allowed_filter_fields then None
          else
            (let name = (if rf_field f = ''sourceId'' then ''source_id'' else rf_field f) in
             Some \<lparr>f_field = name, f_op = op,
                   f_value = (if name = ''level''
                              then (case rf_value f of VStr s \<Rightarrow> VStr (lower s) | v \<Rightarrow> v) else rf_value f)\<rparr>))"

definition is_iso_date :: "js_lib \<Rightarrow> string \<Rightarrow> bool" where
  "is_iso_date L s \<longleftrightarrow> date_parse L s \<noteq> None"

definition read_answer :: "js_lib \<Rightarrow> llm_answer \<Rightarrow> translation" where
  "read_answer L a =
     \<lparr>tr_explanation =
        (case la_explanation a of
           Some s \<Rightarrow> if trim s \<noteq> [] then s else ''AI interpretation generated from natural-language query.''
         | None \<Rightarrow> ''AI interpretation generated from natural-language query.''),
      tr_filters = List.map_filter normalize_filter (the_or [] (la_filters a)),
      tr_range =
        (case la_range a of
           Some (s, e) \<Rightarrow> if is_iso_date L s \<and> is_iso_date L e then Some (s, e) else None
         | None \<Rightarrow> None),
      tr_terms =
        map_option (\<lambda>ts. filter (\<lambda>t. 1 < length t) (map trim (concat (map split_spaces ts)))) (la_terms a),
      tr_warnings = map_option (filter (\<lambda>w. trim w \<noteq> [])) (la_warnings a)\<rparr>"

definition translate_with_llm ::
  "ai_env \<Rightarrow> string \<Rightarrow> ident \<Rightarrow> facet_hints \<Rightarrow> query_context option \<Rightarrow> nat \<Rightarrow> llm_error + translation" where
  "translate_with_llm E q team h ctx i =
     (case ai_complete E i (llm_request_of E q team h ctx) of
        Inl e \<Rightarrow> Inl e
      | Inr content \<Rightarrow>
          if \<not> truthy content then Inl (OtherFailure ''No response from LLM'')
          else
            (case json_parse (ai_lib E) (the content) of
               Inl m \<Rightarrow> Inl (BadSyntax m)
             | Inr raw \<Rightarrow>
                 (case ai_schema E raw of
                    None \<Rightarrow> Inl BadShape
                  | Some a \<Rightarrow> Inr (read_answer (ai_lib E) a))))"

section \<open>Word rules\<close>

definition heuristic_stop_words :: "string list" where
  "heuristic_stop_words =
     domain_stopwords @ [''from'', ''last'', ''hour'', ''hours'', ''service'', ''count'', ''with'']"

definition time_words :: "string list" where
  "time_words = [''the'', ''last'', ''past'', ''next'', ''this'', ''today'', ''yesterday'', ''ago'']"

definition more_time_words :: "string list" where
  "more_time_words =
     time_words @ [''hour'', ''hours'', ''minute'', ''minutes'', ''day'', ''days'']"

definition is_service_char :: "char \<Rightarrow> bool" where
  "is_service_char c \<longleftrightarrow> is_lower c \<or> is_digit c \<or> c = CHR ''-''"

text \<open>\<^verbatim>\<open>/(?:service|from)\s+([a-z0-9-]+)/\<close> and \<^verbatim>\<open>/[a-z0-9-]+/g\<close>\<close>

definition service_re :: re where
  "service_re = seqs [Alt (lit ''service'') (lit ''from''), plus space, Grp 1 (plus (Cls is_service_char))]"

definition service_tokens :: "string \<Rightarrow> string list" where
  "service_tokens s = filter (\<lambda>w. w \<noteq> []) (split_on (\<lambda>c. \<not> is_service_char c) s)"

definition text_filter :: "string \<Rightarrow> filter_op \<Rightarrow> string \<Rightarrow> log_filter" where
  "text_filter name op v = \<lparr>f_field = name, f_op = op, f_value = VStr v\<rparr>"

definition level_filters :: "string \<Rightarrow> log_filter list" where
  "level_filters s =
     (if str_includes s ''error'' then [text_filter ''level'' OpEq ''error''] else [])
     @ (if str_includes s ''warn'' then [text_filter ''level'' OpEq ''warn''] else [])"

definition service_filters :: "string \<Rightarrow> log_filter list" where
  "service_filters s =
     (let named = (case exec service_re s of None \<Rightarrow> None | Some q \<Rightarrow> Some (cap 1 q));
          candidate = List.find (\<lambda>w. w \<notin> set heuristic_stop_words \<and> w \<notin> set more_time_words
             \<and> w \<noteq> ''errors'' \<and> w \<noteq> ''error'' \<and> w \<noteq> ''warnings'' \<and> w \<noteq> ''warning'') (service_tokens s)
      in if named \<noteq> None \<and> the named \<notin> set time_words \<and> the named \<notin> set heuristic_stop_words
         then [text_filter ''service'' OpContains (the named)]
         else (case candidate of None \<Rightarrow> [] | Some c \<Rightarrow> [text_filter ''service'' OpContains c]))"

definition translate_heuristic :: "string \<Rightarrow> ident \<Rightarrow> translation" where
  "translate_heuristic q team =
     \<lparr>tr_explanation = ''Heuristic interpretation for team '' @ team @
        '' using level/service intent extracted from natural language.'',
      tr_filters = level_filters (lower q) @ service_filters (lower q),
      tr_range = None,
      tr_terms = Some (take 5 (filter (\<lambda>t. 2 < length t \<and> lower t \<notin> set heuristic_stop_words)
                                 (map trim (split_spaces q)))),
      tr_warnings = Some [''AI fallback mode active: heuristic interpretation was used.'']\<rparr>"

section \<open>Attempts\<close>

text \<open>
  The retry loop, from attempt \<open>i\<close> with \<open>k\<close> attempts left: the outcome, and how long it waited after
  which attempts. No attempt left is the throw after the loop, which is never reached.
\<close>

fun llm_attempts ::
  "(nat \<Rightarrow> llm_error + translation) \<Rightarrow> nat \<Rightarrow> nat \<Rightarrow> (llm_error + translation) \<times> int list" where
  "llm_attempts f i 0 = (Inl (OtherFailure ''Retry loop exited unexpectedly''), [])"
| "llm_attempts f i (Suc k) =
     (case f i of
        Inr t \<Rightarrow> (Inr t, [])
      | Inl e \<Rightarrow>
          if i = ai_max_retries \<or> \<not> is_retryable (classify_error e) then (Inl e, [])
          else (case llm_attempts f (Suc i) k of (r, waits) \<Rightarrow> (r, backoff_ms i # waits)))"

definition translate_query ::
  "ai_env \<Rightarrow> string \<Rightarrow> ident \<Rightarrow> facet_hints \<Rightarrow> query_context option \<Rightarrow> translation \<times> int list" where
  "translate_query E q team h ctx =
     (if truthy (ai_key E) then
        (case llm_attempts (translate_with_llm E q team h ctx) 0 (Suc ai_max_retries) of
           (Inr t, waits) \<Rightarrow> (t, waits)
         | (Inl e, waits) \<Rightarrow> (translate_heuristic q team, waits))
      else (translate_heuristic q team, []))"

section \<open>Facts\<close>

lemma normalize_filter_allowed:
  assumes "normalize_filter r = Some f"
  shows "f_field f \<in> set (remove1 ''sourceId'' allowed_filter_fields) \<or> f_field f = ''source_id''"
  using assms by (auto simp: normalize_filter_def Let_def allowed_filter_fields_def
      split: option.splits if_splits)

lemma normalize_filter_level:
  assumes "normalize_filter r = Some f" and "f_field f = ''level''" and "f_value f = VStr s"
  shows "\<exists>u. s = lower u"
  using assms by (auto simp: normalize_filter_def Let_def split: option.splits if_splits filter_value.splits)

lemma llm_attempts_waits:
  "i + k = Suc ai_max_retries \<Longrightarrow>
   sum_list (snd (llm_attempts f i k)) \<le> sum_list (map backoff_ms [i..<ai_max_retries])
   \<and> length (snd (llm_attempts f i k)) \<le> ai_max_retries - i"
proof (induction k arbitrary: i)
  case 0
  then show ?case by simp
next
  case (Suc k)
  have nonneg: "0 \<le> sum_list (map backoff_ms [j..<ai_max_retries])" for j
    by (cases "j = 0"; cases "j = 1") (auto simp: ai_max_retries_def backoff_ms_def upt_conv_Cons eval_nat_numeral)
  show ?case
  proof (cases "i = ai_max_retries")
    case True
    then show ?thesis by (auto split: sum.splits)
  next
    case False
    with Suc.prems have "i < ai_max_retries" by simp
    then have u: "[i..<ai_max_retries] = i # [Suc i..<ai_max_retries]" by (simp add: upt_conv_Cons)
    from Suc.IH [of "Suc i"] Suc.prems nonneg [of i] show ?thesis
      using \<open>i < ai_max_retries\<close> by (auto simp: u split: sum.splits prod.splits)
  qed
qed

end
