(* ===== verification/LogIsolation.thy ===== *)
theory LogIsolation imports LogReads begin

text \<open>
  What the log repository promises its callers: rows of the query's team only, context around an
  entry without leaving the team, pages that cover the result exactly once, and a bounded error
  rate. Also the one free-text word that makes a search fail.
\<close>

section \<open>Only the team's rows\<close>

lemma row_team_map_row [simp]: "row_team (map_row r) = row_team r"
  by (simp add: map_row_def)

lemma honours_whereD:
  assumes "honours_where S" and "st_rows S sql p = Inr rows"
    and "split_spaces sql = split_spaces (''SELECT '' @ cols @ '' FROM logs WHERE '' @ where_text cs @ tail)"
    and "list_all safe_cond cs" and "list_all (bound_in p) cs" and "team_cond \<in> set cs"
    and "map_of p ''teamId'' = Some (VStr t)"
  shows "list_all (\<lambda>r. row_team r = t) rows"
  using assms unfolding honours_where_def by blast

lemma team_cond_in_scope: "team_cond \<in> set (scope_conds Q)"
  by (simp add: scope_conds_def)

lemma search_in_team:
  assumes "honours_where S" and "search_logs L S elapsed Q = Inr r"
  shows "list_all (\<lambda>x. row_team x = lq_team Q) (sr_logs r)"
proof -
  from assms(2) obtain w p0 where b: "build_scoped_where L Q = Inr (w, p0)"
    by (auto simp: search_logs_def split: sum.splits)
  define p where "p = set_param ''offset'' (VNum (resolve_offset L Q))
      (set_param ''limit'' (num_param (page_limit Q)) p0)"
  from assms(2) b obtain rows where rows: "st_rows S (data_sql Q w) p = Inr rows"
    and r: "sr_logs r = map map_row rows"
    by (auto simp: search_logs_def Let_def p_def split: sum.splits)
  note w = scoped_where_facts [OF b]
  have g: "grows p0 p" by (simp add: p_def)
  have "list_all (\<lambda>r. row_team r = lq_team Q) rows"
  proof (rule honours_whereD [OF assms(1) rows])
    show "split_spaces (data_sql Q w) = split_spaces (''SELECT '' @ ''*'' @ '' FROM logs WHERE '' @
        where_text (scope_conds Q) @ order_text Q @ '' LIMIT {limit:UInt32} OFFSET {offset:UInt32}'')"
      by (simp add: data_sql_def w(1))
    show "list_all (bound_in p) (scope_conds Q)" by (rule all_bound_grows [OF w(3) g])
    show "map_of p ''teamId'' = Some (VStr (lq_team Q))" using g w(4) by (simp add: grows_def)
  qed (rule w(2) team_cond_in_scope)+
  then show ?thesis by (simp add: r list_all_iff)
qed

section \<open>Context\<close>

definition context_conds :: "context_query \<Rightarrow> sql_cond list" where
  "context_conds Q =
     [team_cond,
      if cq_scope Q = InService \<and> truthy (cq_service Q) then Compare (Column ''service'') ''='' ''service''
      else if cq_scope Q = InHost \<and> truthy (cq_host Q) then Compare (Column ''host'') ''='' ''host''
      else Compare (Column ''source_id'') ''='' ''sourceId'']"

lemma context_safe: "list_all safe_cond (context_conds Q)"
  by (simp add: context_conds_def team_cond_def table_columns_def sql_operators_def is_word_def is_lower_def
      is_upper_def code_def)

lemma context_scope_cond_facts:
  assumes "context_scope_cond Q p0 = (scope, p)" and "map_of p0 ''sourceId'' \<noteq> None"
    and "map_of p0 ''teamId'' = Some (VStr t)"
  shows "join '' AND '' [''team_id = {teamId:String}'', scope] = where_text (context_conds Q)"
    and "list_all (bound_in p) (context_conds Q)" and "map_of p ''teamId'' = Some (VStr t)"
  using assms
  by (auto simp: context_scope_cond_def context_conds_def where_text_def team_cond_def bound_def bound_in_def
      split: if_splits)

lemma context_in_team:
  assumes "honours_where S" and "get_context L S Q = Inr (earlier, later)"
  shows "list_all (\<lambda>x. row_team x = cq_team Q) (earlier @ later)"
proof -
  from assms(2) obtain ts where ts: "to_ch_timestamp L (cq_timestamp Q) = Inr ts"
    by (auto simp: get_context_def split: sum.splits)
  define p0 where "p0 = [(''teamId'', VStr (cq_team Q)), (''sourceId'', VStr (cq_source Q)), (''ts'', VStr ts),
      (''beforeLimit'', num_param (cq_before Q)), (''afterLimit'', num_param (cq_after Q))]"
  obtain scope p where sc: "context_scope_cond Q p0 = (scope, p)" by fastforce
  let ?w = "join '' AND '' [''team_id = {teamId:String}'', scope]"
  from assms(2) ts sc obtain e l where e: "st_rows S (context_before_sql ?w) p = Inr e"
    and l: "st_rows S (context_after_sql ?w) p = Inr l" and r: "earlier = rev (map map_row e)" "later = map map_row l"
    by (auto simp: get_context_def Let_def p0_def simp del: join.simps split: sum.splits)
  have f: "?w = where_text (context_conds Q)" "list_all (bound_in p) (context_conds Q)"
    "map_of p ''teamId'' = Some (VStr (cq_team Q))"
    by (rule context_scope_cond_facts [OF sc]; simp add: p0_def)+
  have tc: "team_cond \<in> set (context_conds Q)" by (simp add: context_conds_def)
  have "split_spaces (context_before_sql ?w) = split_spaces (''SELECT '' @ ''*'' @ '' FROM logs WHERE '' @
      where_text (context_conds Q) @ '' AND timestamp < {ts:String} ORDER BY timestamp DESC, source_id DESC LIMIT {beforeLimit:UInt32}'')"
    unfolding f(1) context_before_sql_def by simp
  from honours_whereD [OF assms(1) e this context_safe f(2) tc f(3)]
  have 1: "list_all (\<lambda>r. row_team r = cq_team Q) e" .
  have "split_spaces (context_after_sql ?w) = split_spaces (''SELECT '' @ ''*'' @ '' FROM logs WHERE '' @
      where_text (context_conds Q) @ '' AND timestamp > {ts:String} ORDER BY timestamp ASC, source_id ASC LIMIT {afterLimit:UInt32}'')"
    unfolding f(1) context_after_sql_def by simp
  from honours_whereD [OF assms(1) l this context_safe f(2) tc f(3)]
  have 2: "list_all (\<lambda>r. row_team r = cq_team Q) l" .
  from 1 2 show ?thesis by (auto simp: r list_all_iff)
qed

section \<open>One entry\<close>

lemma find_sql_words:
  "split_spaces find_sql = split_spaces (''SELECT '' @
     ''id, team_id, source_id, timestamp, level, service, host, message, fields'' @ '' FROM logs WHERE '' @
     where_text [team_cond] @ '' AND id = {logId:String} LIMIT 1'')"
  by code_simp

lemma find_in_team:
  assumes "honours_where S" and "find_log S team i = Inr (Some r)"
  shows "row_team r = team"
proof -
  from assms(2) obtain x xs where rows: "st_rows S find_sql [(''teamId'', VStr team), (''logId'', VStr i)] = Inr (x # xs)"
    and r: "r = map_row x"
    by (auto simp: find_log_def split: sum.splits list.splits)
  have "list_all (\<lambda>r. row_team r = team) (x # xs)"
    by (rule honours_whereD [OF assms(1) rows find_sql_words])
      (simp_all add: safe_base bound_in_def team_cond_def del: safe_cond.simps, use safe_base in \<open>simp add: team_cond_def\<close>)
  then show ?thesis by (simp add: r)
qed

section \<open>The properties\<close>

text \<open>No read of log entries leaves the team. With a store that honours its \<open>WHERE\<close>, whatever a
  search, a context request or a lookup by id answers with is entries of the team it was made for.\<close>

theorem logs_stay_in_team:
  assumes "honours_where S"
  shows "(case search_logs L S elapsed Q of Inl e \<Rightarrow> True
          | Inr r \<Rightarrow> list_all (\<lambda>x. row_team x = lq_team Q) (sr_logs r))
     \<and> (case get_context L S C of Inl e \<Rightarrow> True
          | Inr (earlier, later) \<Rightarrow> list_all (\<lambda>x. row_team x = cq_team C) (earlier @ later))
     \<and> (case find_log S team i of Inr (Some r) \<Rightarrow> row_team r = team | _ \<Rightarrow> True)"
  using search_in_team [OF assms] context_in_team [OF assms] find_in_team [OF assms]
  by (simp split: sum.splits option.splits prod.splits)

text \<open>A store over a table, for the witnesses: every statement answers with the bound team's rows.\<close>

definition table_store :: "log_row list \<Rightarrow> log_store" where
  "table_store rows =
     (let mine = (\<lambda>p. filter (\<lambda>r. map_of p ''teamId'' = Some (VStr (row_team r))) rows) in
      \<lparr>st_counts = (\<lambda>sql p. Inr [length (mine p)]), st_rows = (\<lambda>sql p. Inr (mine p)),
       st_groups = (\<lambda>sql p. Inr []), st_patterns = (\<lambda>sql p. Inr [])\<rparr>)"

lemma table_store_honours: "honours_where (table_store rows)"
  by (auto simp: honours_where_def table_store_def list_all_iff)

definition sample_row :: "ident \<Rightarrow> ident \<Rightarrow> log_row" where
  "sample_row team i = \<lparr>row_id = i, row_team = team, row_source = ''s1'', row_timestamp = ''2026-01-01 00:00:00.000'',
     row_level = ''info'', row_service = ''api'', row_host = ''h1'', row_message = ''boom'', row_fields = None\<rparr>"

definition sample_log_query :: log_query where
  "sample_log_query = \<lparr>lq_team = ''t1'', lq_source = None, lq_start = None, lq_end = None,
     lq_query = None, lq_type = Sql, lq_filters = None, lq_sort = None, lq_ascending = None,
     lq_limit = Some 2, lq_offset = None, lq_token = None, lq_context = None\<rparr>"

theorem logs_stay_in_team_witness:
  "find_log (table_store [sample_row ''t2'' ''l1'', sample_row ''t1'' ''l2'']) ''t1'' ''l1''
     = Inr (Some (map_row (sample_row ''t1'' ''l2''))) \<and> row_team (map_row (sample_row ''t1'' ''l2'')) = ''t1''"
  using logs_stay_in_team [OF table_store_honours [of "[sample_row ''t2'' ''l1'', sample_row ''t1'' ''l2'']"],
      where team = "''t1''" and i = "''l1''"]
  by (simp add: find_log_def table_store_def sample_row_def)

text \<open>
  A free-text search with the word \<open>constructor\<close> (or \<open>__proto__\<close>) fails: the table of word variants
  is an object literal, and what it inherits is found under that name.
\<close>

lemma constructor_search_fails:
  assumes "lq_query Q = Some ''constructor''" and "lq_type Q = Sql"
    and "\<not> truthy (lq_start Q)" and "\<not> truthy (lq_end Q)"
  shows "search_logs L S elapsed Q = Inl ''mappedVariants is not iterable''"
proof -
  have "raw_tokens ''constructor'' = [''constructor'']" by code_simp
  moreover have "expand_search_token_variants ''constructor'' = Inl ''mappedVariants is not iterable''"
    by (simp add: expand_search_token_variants_def mapped_variants_def search_term_variants_def inherited_keys_def)
  ultimately have "build_search_condition ''constructor'' p = Inl ''mappedVariants is not iterable''" for p
    by (simp add: build_search_condition_def)
  with assms show ?thesis
    by (simp add: search_logs_def build_scoped_where_def time_condition_def add_search_def truthy_def [of "Some x" for x])
qed

text \<open>A filter on a name that is no column looks up its lower-cased key, whatever the stored case.\<close>

lemma source_filter_reads_a_field:
  "filter_column ''sourceId'' = Some (''fields['' @ quoted ''sourceid'' @ '']'')
   \<and> filter_column ''source_id'' = Some (''fields['' @ quoted ''source_id'' @ '']'')"
  by code_simp

lemma to_fixed_1_near: "\<bar>to_fixed_1 x - x\<bar> \<le> 1 / 20"
proof -
  have "\<bar>of_int (round (x * 10)) - x * 10\<bar> \<le> 1 / 2" by (rule of_int_round_abs_le)
  then have "of_int (round (x * 10)) - x * 10 \<le> 1 / 2" and "- (1 / 2) \<le> of_int (round (x * 10)) - x * 10"
    by linarith+
  moreover have "to_fixed_1 x * 10 = of_int (round (x * 10))" by (simp add: to_fixed_1_def)
  ultimately show ?thesis unfolding abs_le_iff by linarith
qed

text \<open>The dashboard's error rate is a percentage: zero without logs, between 0 and 100 when the
  errors are among the logs, and within a twentieth of the exact quotient.\<close>

theorem error_rate_is_percentage:
  assumes "errs \<le> n"
  shows "0 \<le> error_rate errs n \<and> error_rate errs n \<le> 100 \<and> error_rate errs 0 = 0
     \<and> (if n = 0 then True else \<bar>error_rate errs n - of_nat errs / of_nat n * 100\<bar> \<le> 1 / 20)"
proof (cases "n = 0")
  case False
  let ?x = "of_nat errs / of_nat n * 100 :: rat"
  have "0 \<le> ?x" and "?x \<le> 100" using assms False by (simp_all add: divide_le_eq)
  then have "round (0 :: rat) \<le> round (?x * 10)" and "round (?x * 10) \<le> round (1000 :: rat)"
    by (intro round_mono; simp)+
  then have r: "0 \<le> round (?x * 10)" "round (?x * 10) \<le> 1000" by simp_all
  then have "(0 :: rat) \<le> of_int (round (?x * 10))" and "(of_int (round (?x * 10)) :: rat) \<le> of_int 1000"
    by (simp_all only: of_int_le_iff of_int_0_le_iff)
  then have "0 \<le> to_fixed_1 ?x" and "to_fixed_1 ?x \<le> 100" by (simp_all add: to_fixed_1_def)
  with to_fixed_1_near [of ?x] False show ?thesis by (simp only: error_rate_def if_False) simp
qed (simp add: error_rate_def)

theorem error_rate_is_percentage_witness: "0 \<le> error_rate 1 4 \<and> error_rate 1 4 = 25"
  using error_rate_is_percentage [of 1 4] by (simp add: error_rate_def to_fixed_1_def)

end
