(* ===== verification/QueryService.thy ===== *)
theory QueryService imports AiService LogIsolation Alerts Ingestion Dispatcher begin

text \<open>
  \<open>services/query/query-service.ts\<close> and the dashboard service on top of it: manual and
  natural-language search, the pruning of generated filters against the facets in scope, the cached
  dashboard summary, and the asynchronous jobs. Counters of \<open>metrics\<close> are not modelled.
\<close>

section \<open>Pruning generated filters\<close>

datatype prune_reason = PruneEmpty | PruneUnknown | PruneRedundant

record pruned_filter =
  pf_field :: string
  pf_value :: string
  pf_reason :: prune_reason

definition known :: "string list option \<Rightarrow> string list" where
  "known h = the_or [] h"

definition prune :: "log_filter \<Rightarrow> string \<Rightarrow> prune_reason \<Rightarrow> log_filter + pruned_filter" where
  "prune f v r = Inr \<lparr>pf_field = f_field f, pf_value = trim v, pf_reason = r\<rparr>"

text \<open>One round of the loop: the filter that is kept, or what is pruned and why.\<close>

definition judge_filter :: "facet_hints \<Rightarrow> log_filter \<Rightarrow> log_filter + pruned_filter" where
  "judge_filter h f =
     (case f_value f of
        VNum n \<Rightarrow> Inl f
      | VStr s \<Rightarrow>
          (let v = lower (trim s) in
           if v = [] then prune f s PruneEmpty
           else if f_field f = ''service'' then
             (if known (fh_service h) = [] then Inl f
              else if list_ex (\<lambda>x. str_includes x v) (known (fh_service h))
              then Inl (f\<lparr>f_op := if f_op f = OpEq then OpContains else f_op f\<rparr>)
              else prune f s PruneUnknown)
           else if f_field f = ''host'' then
             (if known (fh_host h) = [] then Inl f
              else if (if f_op f = OpContains then list_ex (\<lambda>x. str_includes x v) (known (fh_host h))
                       else v \<in> set (known (fh_host h)))
              then Inl f else prune f s PruneUnknown)
           else if f_field f = ''level'' then
             (if known (fh_level h) = [] \<or> v \<in> set (known (fh_level h)) then Inl f
              else prune f s PruneUnknown)
           else if f_field f = ''message'' then prune f s PruneRedundant
           else Inl f))"

fun validate_generated_filters :: "facet_hints \<Rightarrow> log_filter list \<Rightarrow> log_filter list \<times> pruned_filter list" where
  "validate_generated_filters h [] = ([], [])"
| "validate_generated_filters h (f # fs) =
     (case validate_generated_filters h fs of (kept, pruned) \<Rightarrow>
        (case judge_filter h f of Inl k \<Rightarrow> (k # kept, pruned) | Inr p \<Rightarrow> (kept, p # pruned)))"

section \<open>Facet hints\<close>

definition hint_values :: "(string \<times> nat) list \<Rightarrow> string list" where
  "hint_values buckets = uniq (filter (\<lambda>v. v \<noteq> []) (map (\<lambda>(v, n). lower (trim v)) buckets))"

definition add_hint :: "facet \<Rightarrow> facet_hints \<Rightarrow> facet_hints" where
  "add_hint fc h =
     (case fst fc of
        FcService \<Rightarrow> h\<lparr>fh_service := Some (hint_values (snd fc))\<rparr>
      | FcHost \<Rightarrow> h\<lparr>fh_host := Some (hint_values (snd fc))\<rparr>
      | FcLevel \<Rightarrow> h\<lparr>fh_level := Some (hint_values (snd fc))\<rparr>
      | _ \<Rightarrow> h)"

definition hints_query :: "log_query \<Rightarrow> facet_query" where
  "hints_query Q =
     \<lparr>lq_team = lq_team Q, lq_source = lq_source Q, lq_start = lq_start Q, lq_end = lq_end Q, lq_query = None,
      lq_type = Sql, lq_filters = lq_filters Q, fq_fields = Some [FcService, FcHost, FcLevel], fq_limit = Some 100\<rparr>"

definition load_facet_hints :: "js_lib \<Rightarrow> log_store \<Rightarrow> log_query \<Rightarrow> string + facet_hints" where
  "load_facet_hints L S Q =
     map_sum id (\<lambda>fs. fold add_hint fs no_hints) (get_facets L S (hints_query Q))"

section \<open>Search\<close>

record query_env =
  qe_ai :: ai_env
  qe_store :: log_store
  qe_uuid :: ident
  qe_elapsed :: rat

definition qe_lib :: "query_env \<Rightarrow> js_lib" where
  "qe_lib E = ai_lib (qe_ai E)"

definition repo_search :: "query_env \<Rightarrow> log_query \<Rightarrow> string + search_result" where
  "repo_search E Q = search_logs (qe_lib E) (qe_store E) (qe_elapsed E) Q"

definition with_request :: "query_env \<Rightarrow> search_result \<Rightarrow> search_result" where
  "with_request E r = r\<lparr>sr_request := qe_uuid E\<rparr>"

definition search_manual :: "query_env \<Rightarrow> log_query \<Rightarrow> string + search_result" where
  "search_manual E Q = map_sum id (with_request E) (repo_search E Q)"

text \<open>The text terms that no filter covers and that say something about the content.\<close>

definition planned_terms :: "js_lib \<Rightarrow> translation \<Rightarrow> log_filter list \<Rightarrow> string" where
  "planned_terms L t filters =
     (let covered = concat (map (\<lambda>f. split_spaces (lower (value_text L (f_value f)))) filters)
      in trim (join '' '' (uniq (filter (\<lambda>w. lower w \<notin> set covered)
                 (filter (\<lambda>w. lower w \<notin> set domain_stopwords) (the_or [] (tr_terms t)))))))"

text \<open>The model's time range, else the form's, else the query's.\<close>

definition planned_start :: "translation \<Rightarrow> log_query \<Rightarrow> string option" where
  "planned_start t Q =
     orelse (map_option fst (tr_range t))
       (orelse (case lq_context Q of None \<Rightarrow> None | Some c \<Rightarrow> map_option fst (qc_range c)) (lq_start Q))"

definition planned_end :: "translation \<Rightarrow> log_query \<Rightarrow> string option" where
  "planned_end t Q =
     orelse (map_option snd (tr_range t))
       (orelse (case lq_context Q of None \<Rightarrow> None | Some c \<Rightarrow> map_option snd (qc_range c)) (lq_end Q))"

definition planned_query :: "js_lib \<Rightarrow> translation \<Rightarrow> log_filter list \<Rightarrow> log_query \<Rightarrow> log_query" where
  "planned_query L t filters Q =
     Q\<lparr>lq_filters := Some filters, lq_start := planned_start t Q, lq_end := planned_end t Q, lq_type := Sql,
       lq_query := nonempty (planned_terms L t filters)\<rparr>"

definition plan_search :: "query_env \<Rightarrow> log_query \<Rightarrow> string + log_query" where
  "plan_search E Q =
     (case load_facet_hints (qe_lib E) (qe_store E) (Q\<lparr>lq_filters := Some []\<rparr>) of
        Inl e \<Rightarrow> Inl e
      | Inr hints \<Rightarrow>
          (let (t, waits) = translate_query (qe_ai E) (the_or [] (lq_query Q)) (lq_team Q) hints (lq_context Q);
               (filters, pruned) = validate_generated_filters hints (tr_filters t)
           in Inr (planned_query (qe_lib E) t filters Q)))"

definition search_natural :: "query_env \<Rightarrow> log_query \<Rightarrow> string + search_result" where
  "search_natural E Q =
     (case plan_search E Q of
        Inl e \<Rightarrow> Inl e
      | Inr plan \<Rightarrow>
          (case repo_search E plan of
             Inl e \<Rightarrow> Inl e
           | Inr r \<Rightarrow>
               if sr_total r = 0 \<and> lq_filters plan \<noteq> Some [] then
                 (case repo_search E (plan\<lparr>lq_filters := Some []\<rparr>) of
                    Inl e \<Rightarrow> Inl e
                  | Inr relaxed \<Rightarrow>
                      if sr_total relaxed > 0 then Inr (with_request E relaxed) else Inr (with_request E r))
               else Inr (with_request E r)))"

definition search :: "query_env \<Rightarrow> log_query \<Rightarrow> string + search_result" where
  "search E Q =
     (if lq_type Q = Natural \<and> truthy (lq_query Q) then search_natural E Q else search_manual E Q)"

definition explain_natural_query :: "query_env \<Rightarrow> ident \<Rightarrow> string \<Rightarrow> translation" where
  "explain_natural_query E team q = fst (translate_query (qe_ai E) q team no_hints None)"

section \<open>Asynchronous jobs\<close>

datatype job_status = JobPending | JobCompleted | JobFailed

record 'd job =
  jb_id :: ident
  jb_team :: ident
  jb_status :: job_status
  jb_created :: millis
  jb_data :: "'d option"
  jb_error :: "string option"

type_synonym 'd jobs = "(ident \<times> 'd job) list"

definition async_ttl_ms :: int where
  "async_ttl_ms = 5 * 60 * 1000"

definition cleanup_async_jobs :: "millis \<Rightarrow> 'd jobs \<Rightarrow> 'd jobs" where
  "cleanup_async_jobs t js = filter (\<lambda>(i, j). \<not> jb_created j < t - async_ttl_ms) js"

definition start_async_job :: "millis \<Rightarrow> ident \<Rightarrow> ident \<Rightarrow> 'd jobs \<Rightarrow> 'd jobs" where
  "start_async_job t i team js =
     AList.update i \<lparr>jb_id = i, jb_team = team, jb_status = JobPending, jb_created = t, jb_data = None, jb_error = None\<rparr>
       (cleanup_async_jobs t js)"

text \<open>What the promise's \<open>then\<close> and \<open>catch\<close> do when the producer settles; \<open>i\<close> and \<open>team\<close> are the closure's.\<close>

definition settle_async_job :: "millis \<Rightarrow> ident \<Rightarrow> ident \<Rightarrow> string + 'd \<Rightarrow> 'd jobs \<Rightarrow> 'd jobs" where
  "settle_async_job t i team r js =
     AList.update i
       (case r of
          Inr x \<Rightarrow> \<lparr>jb_id = i, jb_team = team, jb_status = JobCompleted, jb_created = t, jb_data = Some x, jb_error = None\<rparr>
        | Inl e \<Rightarrow> \<lparr>jb_id = i, jb_team = team, jb_status = JobFailed, jb_created = t, jb_data = None, jb_error = Some e\<rparr>)
       js"

definition get_async_job :: "millis \<Rightarrow> ident \<Rightarrow> 'd jobs \<Rightarrow> 'd job option \<times> 'd jobs" where
  "get_async_job t i js = (let kept = cleanup_async_jobs t js in (map_of kept i, kept))"

section \<open>The dashboard\<close>

record dashboard_summary =
  ds_team :: ident
  ds_stats :: log_stats
  ds_incidents :: "incident_row list"

definition dashboard_cache_ttl :: int where
  "dashboard_cache_ttl = 30"

text \<open>
  The summary is cached as JSON; \<open>write\<close> and \<open>read\<close> are \<open>JSON.stringify\<close> and \<open>JSON.parse\<close> at the type
  of the summary.
\<close>

definition get_dashboard_summary ::
  "js_lib \<Rightarrow> (dashboard_summary \<Rightarrow> json) \<Rightarrow> (json \<Rightarrow> dashboard_summary) \<Rightarrow> log_store \<Rightarrow> millis \<Rightarrow> ident \<Rightarrow> db \<Rightarrow> redis \<Rightarrow>
   (string + dashboard_summary) \<times> redis" where
  "get_dashboard_summary L write read S t team d r =
     (let key = ''dashboard:overview:'' @ team in
      if truthy_json (cache_get L t r key) then (Inr (read (the (cache_get L t r key))), r)
      else
          (case get_stats S team of
             Inl e \<Rightarrow> (Inl e, r)
           | Inr stats \<Rightarrow>
               (let summary = \<lparr>ds_team = team, ds_stats = stats, ds_incidents = take 5 (list_incidents team d)\<rparr>
                in (Inr summary, cache_set L t key (write summary) dashboard_cache_ttl r))))"

section \<open>Facts\<close>

lemma judge_field: "judge_filter h f = Inl k \<Longrightarrow> f_field k = f_field f \<and> f_value k = f_value f"
  by (auto simp: judge_filter_def prune_def Let_def split: filter_value.splits if_splits)

lemma plan_team: "plan_search E Q = Inr plan \<Longrightarrow> lq_team plan = lq_team Q"
  by (auto simp: plan_search_def planned_query_def Let_def split: sum.splits prod.splits)

lemma search_natural_result:
  assumes "search_natural E Q = Inr r"
  shows "\<exists>plan r0. lq_team plan = lq_team Q \<and> repo_search E plan = Inr r0 \<and> r = with_request E r0"
proof -
  from assms obtain plan r0 where p: "plan_search E Q = Inr plan" and r0: "repo_search E plan = Inr r0"
    by (auto simp: search_natural_def split: sum.splits)
  then have "r = with_request E r0 \<or> (\<exists>r1. repo_search E (plan\<lparr>lq_filters := Some []\<rparr>) = Inr r1 \<and> r = with_request E r1)"
    using assms by (auto simp: search_natural_def split: sum.splits if_splits)
  moreover have "lq_team (plan\<lparr>lq_filters := Some []\<rparr>) = lq_team Q" using plan_team [OF p] by simp
  ultimately show ?thesis using plan_team [OF p] r0 by blast
qed

lemma jobs_distinct_cleanup: "distinct (map fst js) \<Longrightarrow> distinct (map fst (cleanup_async_jobs t js))"
  by (simp add: cleanup_async_jobs_def distinct_map inj_on_def)

end
