(* ===== verification/QueryJobs.thy ===== *)
theory QueryJobs imports QueryService begin

text \<open>
  What the query service guarantees over time and over everything the language model may answer:
  generated plans stay within the allow-list, searches stay in the team, pruning loses no filter,
  asynchronous jobs keep their team and are served until they expire, and the dashboard summary is
  never older than its cache time.
\<close>

section \<open>Plans\<close>

definition plan_field :: "string \<Rightarrow> bool" where
  "plan_field f \<longleftrightarrow> f \<in> set [''level'', ''service'', ''host'', ''message'', ''source_id'', ''env'', ''region'',
     ''status_code'', ''route'']"

lemma heuristic_fields: "list_all (\<lambda>f. plan_field (f_field f)) (tr_filters (translate_heuristic q team))"
  by (auto simp: translate_heuristic_def level_filters_def service_filters_def text_filter_def plan_field_def
      list_all_iff Let_def split: option.splits if_splits)

lemma normalize_plan_field: "normalize_filter r = Some f \<Longrightarrow> plan_field (f_field f)"
  using normalize_filter_allowed [of r f] by (auto simp: plan_field_def allowed_filter_fields_def)

lemma llm_fields:
  "translate_with_llm E q team h ctx i = Inr t \<Longrightarrow> list_all (\<lambda>f. plan_field (f_field f)) (tr_filters t)"
proof -
  assume "translate_with_llm E q team h ctx i = Inr t"
  then obtain a where "t = read_answer (ai_lib E) a"
    by (auto simp: translate_with_llm_def split: sum.splits option.splits if_splits)
  then have "tr_filters t = List.map_filter normalize_filter (the_or [] (la_filters a))"
    by (simp add: read_answer_def)
  then show ?thesis by (auto simp: list_all_iff map_filter_def intro: normalize_plan_field)
qed

lemma llm_attempts_result:
  "fst (llm_attempts f i k) = Inr t \<Longrightarrow> \<exists>j. f j = Inr t"
proof (induction k arbitrary: i)
  case (Suc k)
  then show ?case
    by (auto split: sum.splits if_splits prod.splits) (metis fst_conv)
qed simp

lemma translate_fields: "list_all (\<lambda>f. plan_field (f_field f)) (tr_filters (fst (translate_query E q team h ctx)))"
proof (cases "truthy (ai_key E)")
  case True
  obtain r w where a: "llm_attempts (translate_with_llm E q team h ctx) 0 (Suc ai_max_retries) = (r, w)"
    by fastforce
  show ?thesis
  proof (cases r)
    case (Inr t)
    with a obtain j where "translate_with_llm E q team h ctx j = Inr t"
      by (metis fst_conv llm_attempts_result)
    from llm_fields [OF this] show ?thesis using True a Inr
      by (simp add: translate_query_def del: llm_attempts.simps)
  qed (use True a heuristic_fields in \<open>simp add: translate_query_def del: llm_attempts.simps\<close>)
qed (simp add: translate_query_def heuristic_fields)


section \<open>Searches\<close>

lemma search_service_in_team:
  assumes "honours_where (qe_store E)" and "search E Q = Inr r"
  shows "list_all (\<lambda>x. row_team x = lq_team Q) (sr_logs r)"
proof (cases "lq_type Q = Natural \<and> truthy (lq_query Q)")
  case True
  then have "search_natural E Q = Inr r" using assms(2) by (simp add: search_def)
  from search_natural_result [OF this] obtain plan r0
    where p: "lq_team plan = lq_team Q" and r0: "repo_search E plan = Inr r0" and r: "r = with_request E r0" by blast
  from search_in_team [OF assms(1) r0 [unfolded repo_search_def]] p r show ?thesis
    by (simp add: with_request_def)
next
  case False
  with assms(2) obtain r0 where "repo_search E Q = Inr r0" "r = with_request E r0"
    by (auto simp: search_def search_manual_def elim: map_sum_InrE)
  with search_in_team [OF assms(1)] show ?thesis by (auto simp: repo_search_def with_request_def)
qed

text \<open>What a filter that survives the pruning satisfies.\<close>

definition filter_in_scope :: "facet_hints \<Rightarrow> log_filter \<Rightarrow> bool" where
  "filter_in_scope h k \<longleftrightarrow>
     (case f_value k of VNum n \<Rightarrow> True
      | VStr s \<Rightarrow> trim s \<noteq> [] \<and> f_field k \<noteq> ''message''
          \<and> (f_field k = ''service'' \<and> known (fh_service h) \<noteq> [] \<longrightarrow>
               f_op k \<noteq> OpEq \<and> list_ex (\<lambda>x. str_includes x (lower (trim s))) (known (fh_service h)))
          \<and> (f_field k = ''host'' \<and> known (fh_host h) \<noteq> [] \<longrightarrow>
               list_ex (\<lambda>x. x = lower (trim s) \<or> str_includes x (lower (trim s))) (known (fh_host h)))
          \<and> (f_field k = ''level'' \<and> known (fh_level h) \<noteq> [] \<longrightarrow> lower (trim s) \<in> set (known (fh_level h))))"

lemma lower_Nil [simp]: "lower s = [] \<longleftrightarrow> s = []"
  by (simp add: lower_def)

lemma judge_kept:
  assumes "judge_filter h f = Inl k"
  shows "filter_in_scope h k"
proof (cases "f_value f")
  case (VStr s)
  consider "f_field f = ''service''" | "f_field f = ''host''" | "f_field f = ''level''" | "f_field f = ''message''"
    | "f_field f \<notin> {''service'', ''host'', ''level'', ''message''}" by blast
  then show ?thesis
  proof cases
    case 1
    with VStr assms show ?thesis
      by (auto simp: judge_filter_def Let_def prune_def filter_in_scope_def split: if_splits)
  next
    case 2
    with VStr assms show ?thesis
      by (auto simp: judge_filter_def Let_def prune_def filter_in_scope_def list_ex_iff split: if_splits)
  next
    case 3
    with VStr assms show ?thesis
      by (auto simp: judge_filter_def Let_def prune_def filter_in_scope_def split: if_splits)
  next
    case 4
    with VStr assms show ?thesis by (simp add: judge_filter_def Let_def prune_def split: if_splits)
  next
    case 5
    with VStr assms show ?thesis
      by (auto simp: judge_filter_def Let_def prune_def filter_in_scope_def split: if_splits)
  qed
qed (use assms in \<open>simp add: judge_filter_def filter_in_scope_def\<close>)

text \<open>pruning generated filters loses none and keeps none that is out of scope. Every filter is
  kept or pruned; a kept text filter is not blank, is not on \<open>message\<close>, and where the scope's
  services, hosts or levels are known its value occurs among them (for services as a part).\<close>

theorem pruning_keeps_filters_in_scope:
  "case validate_generated_filters h fs of (kept, pruned) \<Rightarrow>
     length kept + length pruned = length fs \<and> list_all (filter_in_scope h) kept"
  by (induction fs) (auto split: prod.splits sum.splits simp: judge_kept)

section \<open>Jobs over time\<close>

datatype 'd job_event =
    StartJob millis ident ident
  | SettleJob millis ident ident "string + 'd"
  | PollJob millis ident

fun job_step :: "'d jobs \<Rightarrow> 'd job_event \<Rightarrow> 'd jobs" where
  "job_step js (StartJob t i team) = start_async_job t i team js"
| "job_step js (SettleJob t i team r) = settle_async_job t i team r js"
| "job_step js (PollJob t i) = snd (get_async_job t i js)"

definition jobs_run :: "'d jobs \<Rightarrow> 'd job_event list \<Rightarrow> 'd jobs" where
  "jobs_run js evs = foldl job_step js evs"

fun job_event_ok :: "(ident \<Rightarrow> ident) \<Rightarrow> 'd job_event \<Rightarrow> bool" where
  "job_event_ok owner (StartJob t i team) \<longleftrightarrow> team = owner i"
| "job_event_ok owner (SettleJob t i team r) \<longleftrightarrow> team = owner i"
| "job_event_ok owner (PollJob t i) \<longleftrightarrow> True"

definition job_ok :: "(ident \<Rightarrow> ident) \<Rightarrow> 'd job_event set \<Rightarrow> ident \<times> 'd job \<Rightarrow> bool" where
  "job_ok owner evs e \<longleftrightarrow>
     (case e of (i, j) \<Rightarrow> jb_id j = i \<and> jb_team j = owner i
        \<and> (\<forall>x. jb_data j = Some x \<longrightarrow> (\<exists>t. SettleJob t i (owner i) (Inr x) \<in> evs)))"

lemma set_update_mem: "e \<in> set (AList.update k v al) \<Longrightarrow> e = (k, v) \<or> e \<in> set al"
  by (induction al) (auto split: if_splits)

lemma job_ok_step:
  assumes "\<forall>e \<in> set js. job_ok owner evs e" and "job_event_ok owner ev"
  shows "\<forall>e \<in> set (job_step js ev). job_ok owner (insert ev evs) e"
proof
  fix e assume e: "e \<in> set (job_step js ev)"
  have mono: "job_ok owner (insert ev evs) x" if "x \<in> set js" for x
    using assms(1) that by (fastforce simp: job_ok_def)
  show "job_ok owner (insert ev evs) e"
  proof (cases ev)
    case (SettleJob t i team r)
    with e mono assms(2) show ?thesis
      by (auto simp: settle_async_job_def job_ok_def dest!: set_update_mem split: sum.splits)
  qed (use e mono assms(2) in \<open>auto simp: start_async_job_def get_async_job_def cleanup_async_jobs_def job_ok_def
      Let_def dest!: set_update_mem\<close>)
qed

lemma job_ok_run:
  "\<forall>e \<in> set js. job_ok owner E e \<Longrightarrow> list_all (job_event_ok owner) evs \<Longrightarrow>
   \<forall>e \<in> set (jobs_run js evs). job_ok owner (E \<union> set evs) e"
proof (induction evs arbitrary: js E)
  case (Cons ev evs)
  have "\<forall>e \<in> set (job_step js ev). job_ok owner (insert ev E) e"
    by (rule job_ok_step) (use Cons.prems in auto)
  from Cons.IH [OF this] Cons.prems(2) show ?case by (simp add: jobs_run_def)
qed (simp add: jobs_run_def)

text \<open>an asynchronous job belongs to one team and expires. When every job id belongs to one team
  (ids are fresh, and a producer settles the job it was started for), whatever jobs start, settle
  and are polled in whatever order, a poll that finds a job finds it under its own id and team, no
  older than five minutes, and any data in it was produced for that very job.\<close>

theorem jobs_keep_their_team:
  assumes "list_all (job_event_ok owner) evs"
  shows "case fst (get_async_job t i (jobs_run [] evs)) of None \<Rightarrow> True
     | Some j \<Rightarrow> jb_id j = i \<and> jb_team j = owner i \<and> t - 300000 \<le> jb_created j
        \<and> (case jb_data j of None \<Rightarrow> True
           | Some x \<Rightarrow> list_ex (\<lambda>ev. case ev of SettleJob s k team r \<Rightarrow> k = i \<and> team = owner i \<and> r = Inr x | _ \<Rightarrow> False) evs)"
proof (cases "fst (get_async_job t i (jobs_run [] evs))")
  case (Some j)
  then have "map_of (cleanup_async_jobs t (jobs_run [] evs)) i = Some j"
    by (simp add: get_async_job_def Let_def)
  then have mem: "(i, j) \<in> set (jobs_run [] evs)" and fresh: "t - 300000 \<le> jb_created j"
    by (auto simp: cleanup_async_jobs_def async_ttl_ms_def dest!: map_of_SomeD)
  have "job_ok owner (set evs) (i, j)"
    using job_ok_run [of "[]" owner "{}" evs] assms mem by auto
  then have ids: "jb_id j = i" "jb_team j = owner i"
    and data: "\<And>x. jb_data j = Some x \<Longrightarrow> \<exists>s. SettleJob s i (owner i) (Inr x) \<in> set evs"
    by (auto simp: job_ok_def)
  have "case jb_data j of None \<Rightarrow> True
      | Some x \<Rightarrow> list_ex (\<lambda>ev. case ev of SettleJob s k team r \<Rightarrow> k = i \<and> team = owner i \<and> r = Inr x | _ \<Rightarrow> False) evs"
  proof (cases "jb_data j")
    case (Some x)
    from data [OF this] obtain s where "SettleJob s i (owner i) (Inr x) \<in> set evs" by blast
    then show ?thesis unfolding Some list_ex_iff by force
  qed simp
  then show ?thesis using fresh Some ids by simp
qed simp

theorem jobs_keep_their_team_witness:
  "map_option jb_team (fst (get_async_job 10 ''j1'' (jobs_run []
     [StartJob 0 ''j1'' ''t1'', SettleJob 5 ''j1'' ''t1'' (Inr (7::nat))]))) = Some ''t1''"
  using jobs_keep_their_team [of "\<lambda>_. ''t1''" "[StartJob 0 ''j1'' ''t1'', SettleJob 5 ''j1'' ''t1'' (Inr (7::nat))]" "''j1''" 10]
  by (simp add: jobs_run_def start_async_job_def settle_async_job_def get_async_job_def cleanup_async_jobs_def
      async_ttl_ms_def)

text \<open>A settled job stays until it expires, whatever happens to other jobs.\<close>

fun quiet_event :: "ident \<Rightarrow> millis \<Rightarrow> 'd job_event \<Rightarrow> bool" where
  "quiet_event i till (StartJob t k team) \<longleftrightarrow> k \<noteq> i \<and> t \<le> till"
| "quiet_event i till (SettleJob t k team r) \<longleftrightarrow> k \<noteq> i"
| "quiet_event i till (PollJob t k) \<longleftrightarrow> t \<le> till"

lemma map_of_cleanup:
  assumes "map_of js i = Some j" and "t - async_ttl_ms \<le> jb_created j" and "distinct (map fst js)"
  shows "map_of (cleanup_async_jobs t js) i = Some j"
  using assms by (auto simp: cleanup_async_jobs_def intro!: map_of_is_SomeI [OF jobs_distinct_cleanup
        [unfolded cleanup_async_jobs_def]] dest: map_of_SomeD)

lemma distinct_step: "distinct (map fst js) \<Longrightarrow> distinct (map fst (job_step js ev))"
  by (cases ev) (auto simp: start_async_job_def settle_async_job_def get_async_job_def Let_def
      jobs_distinct_cleanup distinct_update)

lemma distinct_run: "distinct (map fst js) \<Longrightarrow> distinct (map fst (jobs_run js evs))"
  by (induction evs arbitrary: js) (simp_all add: jobs_run_def distinct_step)

lemma quiet_run:
  assumes "map_of js i = Some j" and "distinct (map fst js)" and "list_all (quiet_event i (jb_created j + async_ttl_ms)) evs"
  shows "map_of (jobs_run js evs) i = Some j"
  using assms
proof (induction evs arbitrary: js)
  case (Cons ev evs)
  have "map_of (job_step js ev) i = Some j"
  proof (cases ev)
    case (StartJob t k team)
    with Cons.prems show ?thesis
      by (auto simp: start_async_job_def update_conv' intro!: map_of_cleanup)
  next
    case (SettleJob t k team r)
    with Cons.prems show ?thesis by (auto simp: settle_async_job_def update_conv')
  next
    case (PollJob t k)
    with Cons.prems show ?thesis by (auto simp: get_async_job_def Let_def intro!: map_of_cleanup)
  qed
  from Cons.IH [OF this distinct_step [OF Cons.prems(2)]] Cons.prems(3) show ?case
    by (simp add: jobs_run_def)
qed (simp add: jobs_run_def)

text \<open>the result of a job is delivered. Once the producer of a job has settled, however late and
  whatever happened before, every poll within five minutes of that finds the job settled with the
  producer's data or error, no matter which other jobs start, settle or are polled meanwhile.\<close>

theorem settled_job_is_delivered:
  assumes "list_all (quiet_event i (t1 + 300000)) later" and "t2 \<le> t1 + 300000"
  shows "case fst (get_async_job t2 i (jobs_run [] (before @ [SettleJob t1 i team r] @ later))) of
       None \<Rightarrow> False
     | Some j \<Rightarrow> (case r of Inr x \<Rightarrow> jb_status j = JobCompleted \<and> jb_data j = Some x
                          | Inl e \<Rightarrow> jb_status j = JobFailed \<and> jb_error j = Some e)"
proof -
  let ?js = "jobs_run [] before"
  obtain j where j: "map_of (settle_async_job t1 i team r ?js) i = Some j" and c: "jb_created j = t1"
    and s: "case r of Inr x \<Rightarrow> jb_status j = JobCompleted \<and> jb_data j = Some x
                          | Inl e \<Rightarrow> jb_status j = JobFailed \<and> jb_error j = Some e"
    by (cases r) (auto simp: settle_async_job_def update_conv')
  have d: "distinct (map fst (settle_async_job t1 i team r ?js))"
    by (simp add: settle_async_job_def distinct_update distinct_run)
  have run: "jobs_run [] (before @ [SettleJob t1 i team r] @ later) = jobs_run (settle_async_job t1 i team r ?js) later"
    by (simp add: jobs_run_def)
  have "map_of (jobs_run (settle_async_job t1 i team r ?js) later) i = Some j"
    by (rule quiet_run [OF j d]) (use assms(1) c in \<open>simp add: async_ttl_ms_def\<close>)
  then have "map_of (cleanup_async_jobs t2 (jobs_run (settle_async_job t1 i team r ?js) later)) i = Some j"
    by (rule map_of_cleanup) (use assms(2) c d in \<open>simp_all add: async_ttl_ms_def distinct_run\<close>)
  then show ?thesis using s by (simp add: get_async_job_def Let_def run [unfolded append.simps])
qed

theorem settled_job_is_delivered_witness:
  "map_option jb_data (fst (get_async_job 300004 ''j1'' (jobs_run []
     ([StartJob 0 ''j1'' ''t1''] @ [SettleJob 5 ''j1'' ''t1'' (Inr (7::nat))] @ [StartJob 9 ''j2'' ''t2''])))) = Some (Some 7)"
  using settled_job_is_delivered [of "''j1''" 5 "[StartJob 9 ''j2'' ''t2'']" 300004 "Inr (7::nat)" "[StartJob 0 ''j1'' ''t1'']" "''t1''"]
  by (simp split: option.splits)

section \<open>The dashboard\<close>

text \<open>The dashboard is computed from the team's own logs and incidents and cached for thirty
  seconds. When nothing is cached for the team and the runtime reads back what it wrote, a call
  answers with fresh numbers; a second call less than thirty seconds later answers the same, and
  from thirty seconds on it computes again.\<close>

theorem dashboard_is_cached_30s:
  assumes "cache_get L t r (''dashboard:overview:'' @ team) = None" and "get_stats S team = Inr stats"
    and "s = \<lparr>ds_team = team, ds_stats = stats, ds_incidents = take 5 (list_incidents team d)\<rparr>"
    and "json_parse L (json_stringify L (write s)) = Inr (write s)" and "json_stringify L (write s) \<noteq> []"
    and "read (write s) = s" and "truthy_json (Some (write s))"
  shows "case get_dashboard_summary L write read S t team d r of (res, r1) \<Rightarrow>
       res = Inr s
     \<and> fst (get_dashboard_summary L write read S' t' team d' r1) =
         (if t' < t + 30000 then Inr s
          else map_sum id (\<lambda>st. \<lparr>ds_team = team, ds_stats = st, ds_incidents = take 5 (list_incidents team d')\<rparr>)
                 (get_stats S' team))"
proof -
  have "truthy_json None = False" by (simp add: truthy_json_def)
  with assms show ?thesis
    by (auto simp: get_dashboard_summary_def Let_def cache_get_def cache_set_def redis_get_def dashboard_cache_ttl_def
        split: sum.splits)
qed

definition yes_lib :: js_lib where
  "yes_lib = \<lparr>json_parse = (\<lambda>_. Inr (JBool True)), json_stringify = (\<lambda>_. ''true''), date_parse = (\<lambda>_. None),
     date_iso = (\<lambda>_. []), num_str = (\<lambda>_. [])\<rparr>"

definition sample_summary :: dashboard_summary where
  "sample_summary = \<lparr>ds_team = ''t1'', ds_stats = \<lparr>ls_total = 1, ls_error_rate = 100, ls_services = []\<rparr>, ds_incidents = []\<rparr>"

definition one_error_store :: log_store where
  "one_error_store = \<lparr>st_counts = (\<lambda>sql p. Inr [1]), st_rows = (\<lambda>sql p. Inr []), st_groups = (\<lambda>sql p. Inr []),
     st_patterns = (\<lambda>sql p. Inr [])\<rparr>"

definition down_store :: log_store where
  "down_store = \<lparr>st_counts = (\<lambda>sql p. Inl ''down''), st_rows = (\<lambda>sql p. Inl ''down''), st_groups = (\<lambda>sql p. Inl ''down''),
     st_patterns = (\<lambda>sql p. Inl ''down'')\<rparr>"

theorem dashboard_is_cached_30s_witness:
  "fst (get_dashboard_summary yes_lib (\<lambda>_. JBool True) (\<lambda>_. sample_summary) down_store 29999 ''t1'' empty_db
      (snd (get_dashboard_summary yes_lib (\<lambda>_. JBool True) (\<lambda>_. sample_summary) one_error_store 0 ''t1'' empty_db (\<lambda>_. None))))
    = Inr sample_summary"
proof -
  have "error_rate 1 1 = 100" by (simp add: error_rate_def to_fixed_1_def)
  then have "get_stats one_error_store ''t1'' = Inr (ds_stats sample_summary)"
    by (simp add: get_stats_def one_error_store_def sample_summary_def first_count_def)
  from dashboard_is_cached_30s [of yes_lib 0 "\<lambda>_. None" "''t1''" one_error_store, OF _ this,
      of sample_summary empty_db "\<lambda>_. JBool True" "\<lambda>_. sample_summary" down_store 29999 empty_db]
  show ?thesis
    by (auto simp: yes_lib_def cache_get_def redis_get_def truthy_json_def sample_summary_def list_incidents_def
        empty_db_def split: prod.splits)
qed

end
