(* ===== verification/LogRoutes.thy ===== *)
theory LogRoutes imports ReadRoutes TeamIsolation QueryJobs begin

text \<open>
  The log and query routes of \<open>backend/src/api/rest/router.ts\<close>: search, context, facets, histogram and
  patterns with their asynchronous variants, job polling, one entry, natural-language explanation,
  the dashboard and the health check. The state next to the database is the job table with the
  producers still running, and the cache.
\<close>

section \<open>Search windows\<close>

definition default_search_lookback_ms :: int where
  "default_search_lookback_ms = 60 * 60 * 1000"

text \<open>The own properties of an object or array, which is what a spread copies.\<close>

definition own_fields :: "json \<Rightarrow> (string \<times> json) list" where
  "own_fields v =
     (case v of
        JObj kvs \<Rightarrow> kvs
      | JArr vs \<Rightarrow> map (\<lambda>(i, x). (nat_str i, x)) (enumerate 0 vs)
      | _ \<Rightarrow> [])"

definition is_object :: "json option \<Rightarrow> bool" where
  "is_object v = (case v of Some (JObj _) \<Rightarrow> True | Some (JArr _) \<Rightarrow> True | _ \<Rightarrow> False)"

definition string_or :: "json option \<Rightarrow> string \<Rightarrow> json" where
  "string_or v dflt = (case v of Some (JStr s) \<Rightarrow> JStr s | _ \<Rightarrow> JStr dflt)"

definition with_default_search_range :: "js_lib \<Rightarrow> millis \<Rightarrow> json option \<Rightarrow> json option" where
  "with_default_search_range L t input =
     (if \<not> is_object input then input
      else
        (let payload = the input in
         if truthy_json (field ''startTime'' payload) \<and> truthy_json (field ''endTime'' payload) then input
         else Some (JObj (own_fields payload
           @ [(''startTime'', string_or (field ''startTime'' payload) (date_iso L (t - default_search_lookback_ms))),
              (''endTime'', string_or (field ''endTime'' payload) (date_iso L t))]))))"

definition enforce_search_limits ::
  "js_lib \<Rightarrow> int \<Rightarrow> int \<Rightarrow> string option \<Rightarrow> string option \<Rightarrow> int option \<Rightarrow> string option" where
  "enforce_search_limits L max_page max_lookback start stop limit =
     (if (case limit of Some n \<Rightarrow> n > max_page | None \<Rightarrow> False)
      then Some (''limit exceeds maximum of '' @ num_str L (jn max_page))
      else if truthy start \<and> truthy stop then
        (case (date_parse L (the start), date_parse L (the stop)) of
           (Some a, Some b) \<Rightarrow>
             if b \<ge> a \<and> b - a > max_lookback
             then Some ''Time range cannot exceed 7 days. Please narrow your selection.'' else None
         | _ \<Rightarrow> None)
      else None)"

section \<open>Environment, state and answers\<close>

datatype producer = FacetsJob facet_query | HistogramJob histogram_query | PatternsJob patterns_query

datatype job_data =
    FacetsData "facet list"
  | HistogramData "histogram_interval \<times> bucket list"
  | PatternsData "log_pattern list"

definition run_producer :: "js_lib \<Rightarrow> log_store \<Rightarrow> producer \<Rightarrow> string + job_data" where
  "run_producer L S p =
     (case p of
        FacetsJob q \<Rightarrow> map_sum id FacetsData (get_facets L S q)
      | HistogramJob q \<Rightarrow> map_sum id HistogramData (get_histogram L S q)
      | PatternsJob q \<Rightarrow> map_sum id PatternsData (get_patterns L S q))"

record log_env =
  lg_query :: query_env
  lg_now :: millis
  lg_max_page :: int
  lg_max_lookback :: int
  lg_times_out :: bool
  lg_number :: "json \<Rightarrow> jnum"
  lg_search :: "log_query body_schema"
  lg_facets :: "(facet_query \<times> bool) body_schema"
  lg_histogram :: "(histogram_query \<times> bool) body_schema"
  lg_patterns :: "(patterns_query \<times> bool) body_schema"
  lg_context :: "context_query body_schema"
  lg_natural :: "(ident \<times> string) body_schema"
  lg_write :: "dashboard_summary \<Rightarrow> json"
  lg_read :: "json \<Rightarrow> dashboard_summary"

abbreviation lg_lib :: "log_env \<Rightarrow> js_lib" where
  "lg_lib E \<equiv> qe_lib (lg_query E)"

abbreviation lg_store :: "log_env \<Rightarrow> log_store" where
  "lg_store E \<equiv> qe_store (lg_query E)"

record log_state =
  lt_jobs :: "job_data jobs"
  lt_running :: "(ident \<times> ident \<times> producer) list"
  lt_cache :: redis

datatype log_payload =
    SearchBody search_result
  | ContextBody "log_row list" "log_row list"
  | DataBody ident job_data
  | JobStarted ident
  | JobBody ident job_status "job_data option" "string option"
  | LogBody log_row
  | TranslationBody translation
  | OverviewBody dashboard_summary

type_synonym log_reply = "log_payload reply"

section \<open>Handlers\<close>

text \<open>The membership check every handler makes after its body is parsed.\<close>

definition for_member ::
  "ident \<Rightarrow> ident \<Rightarrow> string option \<Rightarrow> db \<Rightarrow> log_state \<Rightarrow> (unit \<Rightarrow> log_reply \<times> log_state) \<Rightarrow> log_reply \<times> log_state" where
  "for_member u team nf d st k =
     (case require_team_role u team nf d of Inl r \<Rightarrow> (r, st) | Inr role \<Rightarrow> k ())"

text \<open>An awaited result as the answer; a rejection reaches the central error handler.\<close>

definition respond :: "('a \<Rightarrow> log_payload) \<Rightarrow> string + 'a \<Rightarrow> log_reply" where
  "respond f r = (case r of Inl e \<Rightarrow> unhandled (PlainError e) | Inr x \<Rightarrow> done_with 200 (f x))"

definition run_search :: "log_env \<Rightarrow> ident \<Rightarrow> json option \<Rightarrow> db \<Rightarrow> log_state \<Rightarrow> log_reply \<times> log_state" where
  "run_search E u input d st =
     (case lg_search E (with_default_search_range (lg_lib E) (lg_now E) input) of
        Inl e \<Rightarrow> (answer 400 (FlatError e), st)
      | Inr Q \<Rightarrow>
          for_member u (lq_team Q) None d st (\<lambda>_.
            case enforce_search_limits (lg_lib E) (lg_max_page E) (lg_max_lookback E) (lq_start Q) (lq_end Q) (lq_limit Q) of
              Some e \<Rightarrow> (refuse 400 e, st)
            | None \<Rightarrow> (respond SearchBody (search (lg_query E) Q), st)))"

definition post_search :: "log_env \<Rightarrow> ident \<Rightarrow> http_req \<Rightarrow> db \<Rightarrow> log_state \<Rightarrow> log_reply \<times> log_state" where
  "post_search E u q d st = run_search E u (hr_body q) d st"

definition query_fields :: "http_req \<Rightarrow> string list \<Rightarrow> (string \<times> json) list" where
  "query_fields q ks = concat (map (\<lambda>k. case hr_query q k of None \<Rightarrow> [] | Some v \<Rightarrow> [(k, v)]) ks)"

text \<open>A query value read as a number when it is truthy.\<close>

definition number_or :: "log_env \<Rightarrow> json option \<Rightarrow> int \<Rightarrow> json" where
  "number_or E v dflt = JNum (if truthy_json v then lg_number E (the v) else jn dflt)"

definition logs_input :: "log_env \<Rightarrow> http_req \<Rightarrow> json" where
  "logs_input E q =
     JObj (query_fields q [''teamId'', ''sourceId'', ''startTime'', ''endTime'', ''query''] @
       [(''queryType'', case hr_query q ''queryType'' of None \<Rightarrow> JStr ''sql'' | Some JNull \<Rightarrow> JStr ''sql'' | Some v \<Rightarrow> v),
        (''limit'', number_or E (hr_query q ''limit'') 100),
        (''offset'', number_or E (hr_query q ''offset'') 0)] @ query_fields q [''pageToken''])"

definition get_logs :: "log_env \<Rightarrow> ident \<Rightarrow> http_req \<Rightarrow> db \<Rightarrow> log_state \<Rightarrow> log_reply \<times> log_state" where
  "get_logs E u q d st = run_search E u (Some (logs_input E q)) d st"

definition post_context :: "log_env \<Rightarrow> ident \<Rightarrow> http_req \<Rightarrow> db \<Rightarrow> log_state \<Rightarrow> log_reply \<times> log_state" where
  "post_context E u q d st =
     (case lg_context E (hr_body q) of
        Inl e \<Rightarrow> (answer 400 (FlatError e), st)
      | Inr Q \<Rightarrow>
          for_member u (cq_team Q) None d st (\<lambda>_.
            (respond (\<lambda>(a, b). ContextBody a b) (get_context (lg_lib E) (lg_store E) Q), st)))"

definition start_job :: "log_env \<Rightarrow> ident \<Rightarrow> producer \<Rightarrow> log_state \<Rightarrow> log_reply \<times> log_state" where
  "start_job E team p st =
     (done_with 202 (JobStarted (qe_uuid (lg_query E))),
      st\<lparr>lt_jobs := start_async_job (lg_now E) (qe_uuid (lg_query E)) team (lt_jobs st),
         lt_running := lt_running st @ [(qe_uuid (lg_query E), team, p)]\<rparr>)"

text \<open>Asynchronous on request or when the budget for a synchronous answer runs out first.\<close>

definition answer_or_start :: "log_env \<Rightarrow> ident \<Rightarrow> bool \<Rightarrow> producer \<Rightarrow> log_state \<Rightarrow> log_reply \<times> log_state" where
  "answer_or_start E team async p st =
     (if async then start_job E team p st
      else if lg_times_out E then start_job E team p st
      else (respond (DataBody (qe_uuid (lg_query E))) (run_producer (lg_lib E) (lg_store E) p), st))"

definition serve_data ::
  "log_env \<Rightarrow> ident \<Rightarrow> json + 'a log_scope_scheme \<times> bool \<Rightarrow> ('a log_scope_scheme \<Rightarrow> int option) \<Rightarrow>
   ('a log_scope_scheme \<Rightarrow> producer) \<Rightarrow> db \<Rightarrow> log_state \<Rightarrow> log_reply \<times> log_state" where
  "serve_data E u parsed limit p d st =
     (case parsed of
        Inl e \<Rightarrow> (answer 400 (FlatError e), st)
      | Inr (Q, async) \<Rightarrow>
          for_member u (lq_team Q) None d st (\<lambda>_.
            case enforce_search_limits (lg_lib E) (lg_max_page E) (lg_max_lookback E) (lq_start Q) (lq_end Q) (limit Q) of
              Some e \<Rightarrow> (refuse 400 e, st)
            | None \<Rightarrow> answer_or_start E (lq_team Q) async (p Q) st))"

definition post_facets :: "log_env \<Rightarrow> ident \<Rightarrow> http_req \<Rightarrow> db \<Rightarrow> log_state \<Rightarrow> log_reply \<times> log_state" where
  "post_facets E u q d st =
     serve_data E u (lg_facets E (with_default_search_range (lg_lib E) (lg_now E) (hr_body q))) fq_limit FacetsJob d st"

definition post_histogram :: "log_env \<Rightarrow> ident \<Rightarrow> http_req \<Rightarrow> db \<Rightarrow> log_state \<Rightarrow> log_reply \<times> log_state" where
  "post_histogram E u q d st =
     serve_data E u (lg_histogram E (with_default_search_range (lg_lib E) (lg_now E) (hr_body q)))
       (\<lambda>Q. None) HistogramJob d st"

definition post_patterns :: "log_env \<Rightarrow> ident \<Rightarrow> http_req \<Rightarrow> db \<Rightarrow> log_state \<Rightarrow> log_reply \<times> log_state" where
  "post_patterns E u q d st =
     serve_data E u (lg_patterns E (with_default_search_range (lg_lib E) (lg_now E) (hr_body q))) pq_limit PatternsJob d st"

definition get_job :: "log_env \<Rightarrow> ident \<Rightarrow> http_req \<Rightarrow> db \<Rightarrow> log_state \<Rightarrow> log_reply \<times> log_state" where
  "get_job E u q d st =
     (case get_async_job (lg_now E) (hr_params q ''id'') (lt_jobs st) of
        (None, js) \<Rightarrow> (refuse 404 ''Job not found'', st\<lparr>lt_jobs := js\<rparr>)
      | (Some j, js) \<Rightarrow>
          for_member u (jb_team j) (Some ''Job not found'') d (st\<lparr>lt_jobs := js\<rparr>) (\<lambda>_.
            (done_with 200 (JobBody (jb_id j) (jb_status j) (jb_data j) (jb_error j)), st\<lparr>lt_jobs := js\<rparr>)))"

text \<open>\<open>String(Array.isArray(teamId) ? teamId[0] : (teamId ?? ""))\<close>\<close>

definition log_team_param :: "js_lib \<Rightarrow> http_req \<Rightarrow> string" where
  "log_team_param L q =
     (case hr_query q ''teamId'' of
        Some (JArr []) \<Rightarrow> ''undefined''
      | Some (JArr (v # _)) \<Rightarrow> to_text L v
      | _ \<Rightarrow> query_text L q ''teamId'')"

definition get_log :: "log_env \<Rightarrow> ident \<Rightarrow> http_req \<Rightarrow> db \<Rightarrow> log_state \<Rightarrow> log_reply \<times> log_state" where
  "get_log E u q d st =
     (let team = log_team_param (lg_lib E) q; i = hr_params q ''id'' in
      if team = [] \<or> i = [] then (refuse 400 ''teamId and id are required'', st)
      else for_member u team None d st (\<lambda>_.
        (case find_log (lg_store E) team i of
           Inl e \<Rightarrow> unhandled (PlainError e)
         | Inr None \<Rightarrow> refuse 404 ''Log not found''
         | Inr (Some r) \<Rightarrow> done_with 200 (LogBody r), st)))"

definition post_natural :: "log_env \<Rightarrow> ident \<Rightarrow> http_req \<Rightarrow> db \<Rightarrow> log_state \<Rightarrow> log_reply \<times> log_state" where
  "post_natural E u q d st =
     (case lg_natural E (hr_body q) of
        Inl e \<Rightarrow> (answer 400 (FlatError e), st)
      | Inr (team, text) \<Rightarrow>
          for_member u team None d st (\<lambda>_.
            (done_with 200 (TranslationBody (explain_natural_query (lg_query E) team text)), st)))"

definition get_overview :: "log_env \<Rightarrow> ident \<Rightarrow> http_req \<Rightarrow> db \<Rightarrow> log_state \<Rightarrow> log_reply \<times> log_state" where
  "get_overview E u q d st =
     (let team = query_text (lg_lib E) q ''teamId'' in
      if team = [] then (refuse 400 ''teamId is required'', st)
      else for_member u team None d st (\<lambda>_.
        (case get_dashboard_summary (lg_lib E) (lg_write E) (lg_read E) (lg_store E) (lg_now E) team d (lt_cache st) of
           (r, c) \<Rightarrow> (respond OverviewBody r, st\<lparr>lt_cache := c\<rparr>))))"

datatype log_endpoint =
    PostSearch | GetLogs | PostContext | PostFacets | PostHistogram | PostPatterns
  | GetJob | GetLog | PostNatural | GetOverview

fun run_log :: "log_env \<Rightarrow> log_endpoint \<Rightarrow> ident \<Rightarrow> http_req \<Rightarrow> db \<Rightarrow> log_state \<Rightarrow> log_reply \<times> log_state" where
  "run_log E PostSearch = post_search E"
| "run_log E GetLogs = get_logs E"
| "run_log E PostContext = post_context E"
| "run_log E PostFacets = post_facets E"
| "run_log E PostHistogram = post_histogram E"
| "run_log E PostPatterns = post_patterns E"
| "run_log E GetJob = get_job E"
| "run_log E GetLog = get_log E"
| "run_log E PostNatural = post_natural E"
| "run_log E GetOverview = get_overview E"

definition serve_log :: "log_env \<Rightarrow> log_endpoint \<Rightarrow> http_req \<Rightarrow> db \<Rightarrow> log_state \<Rightarrow> log_reply \<times> log_state" where
  "serve_log E ep q d st =
     (case require_auth (lg_now E) d q of
        Inl r \<Rightarrow> (r, st)
      | Inr u \<Rightarrow> run_log E ep u q d st)"

text \<open>The first running producer settles; \<open>S\<close> is the log store at that time.\<close>

definition settle_first :: "js_lib \<Rightarrow> log_store \<Rightarrow> millis \<Rightarrow> log_state \<Rightarrow> log_state" where
  "settle_first L S t st =
     (case lt_running st of
        [] \<Rightarrow> st
      | (i, team, p) # rest \<Rightarrow>
          st\<lparr>lt_jobs := settle_async_job t i team (run_producer L S p) (lt_jobs st), lt_running := rest\<rparr>)"

section \<open>Health\<close>

datatype check = CheckOk | CheckError

text \<open>Each probe is whether it neither threw nor, for ClickHouse, reported failure.\<close>

definition health :: "bool \<Rightarrow> bool \<Rightarrow> bool \<Rightarrow> nat \<times> string \<times> check list" where
  "health postgres clickhouse redis =
     (let checks = map (\<lambda>b. if b then CheckOk else CheckError) [postgres, clickhouse, redis];
          healthy = list_all (\<lambda>c. c = CheckOk) checks
      in (if healthy then 200 else 503, if healthy then ''ok'' else ''degraded'', checks))"

section \<open>Who sees what\<close>

definition producer_team :: "producer \<Rightarrow> ident" where
  "producer_team p = (case p of FacetsJob q \<Rightarrow> lq_team q | HistogramJob q \<Rightarrow> lq_team q | PatternsJob q \<Rightarrow> lq_team q)"

text \<open>What makes a payload \<open>team\<close>'s: its rows, the team of the query or job its data came from, or the
  team's cache key. A translation and the number of a started job carry no log data.\<close>

definition log_belongs :: "log_env \<Rightarrow> log_state \<Rightarrow> ident \<Rightarrow> log_payload \<Rightarrow> bool" where
  "log_belongs E st team p =
     (case p of
        SearchBody r \<Rightarrow> list_all (\<lambda>x. row_team x = team) (sr_logs r)
      | ContextBody a b \<Rightarrow> list_all (\<lambda>x. row_team x = team) (a @ b)
      | LogBody r \<Rightarrow> row_team r = team
      | DataBody i x \<Rightarrow> (\<exists>pr. producer_team pr = team \<and> run_producer (lg_lib E) (lg_store E) pr = Inr x)
      | JobBody i s x e \<Rightarrow> list_ex (\<lambda>(k, j). jb_team j = team \<and> jb_id j = i \<and> jb_data j = x) (lt_jobs st)
      | OverviewBody s \<Rightarrow> ds_team s = team
          \<or> (\<exists>v. cache_get (lg_lib E) (lg_now E) (lt_cache st) (''dashboard:overview:'' @ team) = Some v \<and> lg_read E v = s)
      | JobStarted i \<Rightarrow> True
      | TranslationBody t \<Rightarrow> True)"

definition shown_to_member :: "log_env \<Rightarrow> log_state \<Rightarrow> ident \<Rightarrow> db \<Rightarrow> log_reply \<Rightarrow> bool" where
  "shown_to_member E st u d r \<longleftrightarrow>
     (case carries r of None \<Rightarrow> True
      | Some p \<Rightarrow> (\<exists>team. resolve_team_role u team d \<noteq> None \<and> log_belongs E st team p))"

lemma carries_unhandled [simp]: "carries (unhandled e) = None"
  by (simp add: unhandled_def)

lemma shown_refusals [simp]:
  "shown_to_member E st u d (refuse n m)" "shown_to_member E st u d (answer n (FlatError e))"
  "shown_to_member E st u d forbidden" "shown_to_member E st u d (unhandled x)"
  by (simp_all add: shown_to_member_def)

lemma shown_done:
  "resolve_team_role u team d \<noteq> None \<Longrightarrow> log_belongs E st team p \<Longrightarrow> shown_to_member E st u d (done_with n p)"
  by (auto simp: shown_to_member_def)

lemma shown_done_Some:
  "resolve_team_role u team d = Some r \<Longrightarrow> log_belongs E st team p \<Longrightarrow> shown_to_member E st u d (done_with n p)"
  by (rule shown_done [of _ team]) simp_all

lemma shown_for_member:
  assumes "resolve_team_role u team d \<noteq> None \<Longrightarrow> shown_to_member E st u d (fst (k ()))"
  shows "shown_to_member E st u d (fst (for_member u team nf d st' k))"
  using assms by (auto simp: for_member_def require_team_role_def split: option.splits)

lemma shown_respond:
  assumes "resolve_team_role u team d \<noteq> None" and "\<And>x. r = Inr x \<Longrightarrow> log_belongs E st team (f x)"
  shows "shown_to_member E st u d (respond f r)"
  using assms by (auto simp: respond_def intro: shown_done split: sum.splits)

lemma shown_run_search:
  assumes "honours_where (lg_store E)"
  shows "shown_to_member E st u d (fst (run_search E u input d st))"
  using search_service_in_team [OF assms]
  by (auto simp: run_search_def log_belongs_def intro!: shown_for_member shown_respond
      split: sum.splits option.splits)

lemma shown_serve_data:
  assumes "\<And>Q. producer_team (p Q) = lq_team Q"
  shows "shown_to_member E st u d (fst (serve_data E u parsed limit p d st))"
proof -
  have "shown_to_member E st u d (fst (answer_or_start E (lq_team Q) async (p Q) st))"
    if m: "resolve_team_role u (lq_team Q) d \<noteq> None" for Q async
  proof -
    have started: "shown_to_member E st u d (fst (start_job E (lq_team Q) (p Q) st))"
      using m by (auto simp: start_job_def log_belongs_def intro: shown_done)
    have "log_belongs E st (lq_team Q) (DataBody i x)" if "run_producer (lg_lib E) (lg_store E) (p Q) = Inr x" for i x
      using that assms [of Q] by (auto simp: log_belongs_def)
    then have "shown_to_member E st u d (respond (DataBody (qe_uuid (lg_query E))) (run_producer (lg_lib E) (lg_store E) (p Q)))"
      by (rule shown_respond [OF m])
    with started show ?thesis by (simp add: answer_or_start_def)
  qed
  then show ?thesis
    by (auto simp: serve_data_def intro!: shown_for_member split: sum.splits option.splits prod.splits)
qed

lemma shown_get_job: "shown_to_member E st u d (fst (get_job E u q d st))"
proof (cases "get_async_job (lg_now E) (hr_params q ''id'') (lt_jobs st)")
  case (Pair jo js)
  show ?thesis
  proof (cases jo)
    case (Some j)
    with Pair have "(hr_params q ''id'', j) \<in> set (lt_jobs st)"
      by (auto simp: get_async_job_def cleanup_async_jobs_def Let_def dest!: map_of_SomeD)
    then have "log_belongs E st (jb_team j) (JobBody (jb_id j) (jb_status j) (jb_data j) (jb_error j))"
      by (auto simp: log_belongs_def list_ex_iff)
    then show ?thesis
      using Pair Some by (auto simp: get_job_def intro!: shown_for_member intro: shown_done_Some)
  qed (use Pair in \<open>simp add: get_job_def\<close>)
qed

lemma shown_get_overview: "shown_to_member E st u d (fst (get_overview E u q d st))"
proof -
  have "log_belongs E st team (OverviewBody s)"
    if "get_dashboard_summary (lg_lib E) (lg_write E) (lg_read E) (lg_store E) (lg_now E) team d (lt_cache st) = (Inr s, c)"
    for team s c
    using that by (auto simp: get_dashboard_summary_def log_belongs_def truthy_json_def Let_def
        split: if_splits sum.splits option.splits)
  then show ?thesis
    by (auto simp: get_overview_def Let_def intro!: shown_for_member split: prod.splits intro!: shown_respond)
qed

lemma shown_get_log:
  assumes "honours_where (lg_store E)"
  shows "shown_to_member E st u d (fst (get_log E u q d st))"
proof -
  have lb: "log_belongs E st team (LogBody r)" if "find_log (lg_store E) team i = Inr (Some r)" for team i r
    using find_in_team [OF assms that] by (simp add: log_belongs_def)
  show ?thesis
    by (auto simp: get_log_def Let_def intro!: shown_for_member shown_done_Some [OF _ lb]
        split: sum.splits option.splits)
qed

lemma shown_run_log:
  assumes "honours_where (lg_store E)"
  shows "shown_to_member E st u d (fst (run_log E ep u q d st))"
proof (cases ep)
  case PostContext
  then show ?thesis using context_in_team [OF assms]
    by (auto simp: post_context_def log_belongs_def intro!: shown_for_member shown_respond
        split: sum.splits prod.splits)
next
  case PostNatural
  have lb: "log_belongs E st team (TranslationBody t)" for team t by (simp add: log_belongs_def)
  with PostNatural show ?thesis
    by (auto simp: post_natural_def intro!: shown_for_member shown_done_Some [OF _ lb]
        split: sum.splits prod.splits)
qed (simp_all add: post_search_def get_logs_def shown_run_search [OF assms] post_facets_def post_histogram_def
    post_patterns_def shown_serve_data producer_team_def shown_get_job shown_get_overview shown_get_log [OF assms])


definition sample_log_env :: log_env where
  "sample_log_env =
     \<lparr>lg_query =
        \<lparr>qe_ai = \<lparr>ai_lib = yes_lib, ai_now = 0, ai_key = None, ai_model = None,
             ai_complete = (\<lambda>i r. Inl ConnectionFailed), ai_schema = (\<lambda>_. None)\<rparr>,
         qe_store = table_store [sample_row ''t2'' ''l1'', sample_row ''t1'' ''l2''], qe_uuid = ''r1'', qe_elapsed = 0\<rparr>,
      lg_now = 0, lg_max_page = 500, lg_max_lookback = 604800000, lg_times_out = False, lg_number = (\<lambda>_. NaN),
      lg_search = (\<lambda>_. Inl JNull), lg_facets = (\<lambda>_. Inl JNull), lg_histogram = (\<lambda>_. Inl JNull),
      lg_patterns = (\<lambda>_. Inl JNull), lg_context = (\<lambda>_. Inl JNull), lg_natural = (\<lambda>_. Inl JNull),
      lg_write = (\<lambda>_. JNull), lg_read = (\<lambda>_. sample_summary)\<rparr>"

definition idle_log_state :: log_state where
  "idle_log_state = \<lparr>lt_jobs = [], lt_running = [], lt_cache = (\<lambda>_. None)\<rparr>"

definition log_call :: http_req where
  "log_call = (call_as ''tok'' ''l1'')\<lparr>hr_query := [''teamId'' \<mapsto> JStr ''t1'']\<rparr>"

lemma log_caller: "resolve_user_id 0 log_call two_teams = Some ''u1''"
  by (simp add: resolve_user_id_def log_call_def call_as_def parse_tok session_user_def session_by_token_def two_teams_def)


end
