(* ===== verification/Paging.thy ===== *)
theory Paging imports LogIsolation begin

text \<open>
  Following the page tokens of a search. A client asks for a page, and while the answer carries a
  token asks again with it. \<open>pager\<close> is what such a client relies on; the log repository's search
  provides it when the store applies its limit and offset to one ordering of the rows.
\<close>

section \<open>A client\<close>

text \<open>Fuel bounds the number of requests; running out of it is the error \<open>None\<close>.\<close>

fun follow_pages :: "('q \<Rightarrow> 'e + 'r list \<times> 'q option) \<Rightarrow> nat \<Rightarrow> 'q \<Rightarrow> 'e option + 'r list" where
  "follow_pages fetch 0 q = Inl None"
| "follow_pages fetch (Suc n) q =
     (case fetch q of
        Inl e \<Rightarrow> Inl (Some e)
      | Inr (xs, None) \<Rightarrow> Inr xs
      | Inr (xs, Some q') \<Rightarrow>
          (case follow_pages fetch n q' of Inl e \<Rightarrow> Inl e | Inr ys \<Rightarrow> Inr (xs @ ys)))"

locale pager =
  fixes fetch :: "'q \<Rightarrow> 'e + 'r list \<times> 'q option"
    and good :: "'q \<Rightarrow> bool"
    and pos :: "'q \<Rightarrow> nat"
    and width :: "'q \<Rightarrow> nat"
    and rows :: "'r list"
  assumes serves: "good q \<Longrightarrow> \<exists>nxt. fetch q = Inr (take (width q) (drop (pos q) rows), nxt)
      \<and> (nxt = None \<longleftrightarrow> length rows \<le> pos q + width q)"
    and continues: "good q \<Longrightarrow> fetch q = Inr (xs, Some q') \<Longrightarrow>
      good q' \<and> pos q' = pos q + width q \<and> width q' = width q"
    and positive: "good q \<Longrightarrow> 0 < width q"
begin

lemma pages_cover:
  "good q \<Longrightarrow> length rows - pos q < fuel \<Longrightarrow> follow_pages fetch fuel q = Inr (drop (pos q) rows)"
proof (induction fuel arbitrary: q)
  case (Suc n)
  from serves [OF Suc.prems(1)] obtain nxt
    where f: "fetch q = Inr (take (width q) (drop (pos q) rows), nxt)"
      and l: "nxt = None \<longleftrightarrow> length rows \<le> pos q + width q" by blast
  show ?case
  proof (cases nxt)
    case None
    with f l show ?thesis by simp
  next
    case (Some q')
    from continues [OF Suc.prems(1) f [unfolded Some]]
    have c: "good q'" "pos q' = pos q + width q" by auto
    have "length rows - pos q' < n"
      using Suc.prems(2) l Some c(2) positive [OF Suc.prems(1)] by auto
    from Suc.IH [OF c(1) this] f Some
    have "follow_pages fetch (Suc n) q
        = Inr (take (width q) (drop (pos q) rows) @ drop (width q) (drop (pos q) rows))"
      by (simp add: c(2) add.commute)
    then show ?thesis by (simp only: append_take_drop_id)
  qed
qed simp

end

section \<open>The search as a pager\<close>

text \<open>
  The store serves \<open>rows\<close>: it counts them, and answers a page statement with the slice its \<open>LIMIT\<close>
  and \<open>OFFSET\<close> name. The runtime reads the tokens it writes.
\<close>

definition serves_rows :: "log_store \<Rightarrow> log_row list \<Rightarrow> bool" where
  "serves_rows S rows \<longleftrightarrow>
     (\<forall>w p. st_counts S (count_sql w) p = Inr [length rows])
     \<and> (\<forall>Q w p off lim. map_of p ''offset'' = Some (num_param (int off)) \<longrightarrow>
          map_of p ''limit'' = Some (num_param (int lim)) \<longrightarrow>
          st_rows S (data_sql Q w) p = Inr (take lim (drop off rows)))"

definition reads_tokens :: "js_lib \<Rightarrow> bool" where
  "reads_tokens L \<longleftrightarrow>
     (\<forall>n. ascii (json_stringify L (offset_json (jn (int n)))) \<and> json_stringify L (offset_json (jn (int n))) \<noteq> []
        \<and> json_parse L (json_stringify L (offset_json (jn (int n)))) = Inr (offset_json (jn (int n))))"

lemma token_offset_encode:
  assumes "reads_tokens L"
  shows "token_offset L (encode_page_token L (jn (int n))) = Some (jn (int n))"
proof -
  let ?s = "json_stringify L (offset_json (jn (int n)))"
  have "list_all (\<lambda>b. b < 256) (utf8_bytes ?s)" by (auto simp: list_all_iff utf8_bytes_bound)
  then have "base64url_decode (base64url_encode (utf8_bytes ?s)) = utf8_bytes ?s"
    by (rule base64url_decode_encode)
  then show ?thesis
    using assms by (simp add: token_offset_def encode_page_token_def reads_tokens_def utf8_round_trip
        offset_json_def field_def)
qed

lemma encode_truthy: "reads_tokens L \<Longrightarrow> truthy (Some (encode_page_token L (jn (int n))))"
proof -
  assume "reads_tokens L"
  then obtain c cs where "json_stringify L (offset_json (jn (int n))) = c # cs"
    by (meson reads_tokens_def list.exhaust)
  then have "utf8_bytes (json_stringify L (offset_json (jn (int n)))) \<noteq> []"
    by (simp add: utf8_bytes_def)
  then have "sextets (utf8_bytes (json_stringify L (offset_json (jn (int n))))) \<noteq> []"
    by (cases "utf8_bytes (json_stringify L (offset_json (jn (int n))))" rule: sextets.cases) auto
  then show ?thesis by (simp add: truthy_def encode_page_token_def base64url_encode_def)
qed

lemma resolve_offset_token:
  "reads_tokens L \<Longrightarrow>
   resolve_offset L (Q\<lparr>lq_token := Some (encode_page_token L (jn (int n)))\<rparr>) = jn (int n)"
  by (simp add: resolve_offset_def encode_truthy token_offset_encode del: of_int_of_nat_eq)

lemma scope_parts_token [simp]:
  "scope_base (Q\<lparr>lq_token := t\<rparr>) = scope_base Q" "add_search (Q\<lparr>lq_token := t\<rparr>) = add_search Q"
  by (rule ext | simp add: scope_base_def add_search_def)+

lemma scoped_where_token [simp]: "build_scoped_where L (Q\<lparr>lq_token := t\<rparr>) = build_scoped_where L Q"
  by (simp add: build_scoped_where_def cong: sum.case_cong)

text \<open>A search as a client sees it: its entries, and the query for the next page.\<close>

definition fetch_page :: "js_lib \<Rightarrow> log_store \<Rightarrow> log_query \<Rightarrow> string + log_row list \<times> log_query option" where
  "fetch_page L S Q =
     map_sum id (\<lambda>r. (sr_logs r, map_option (\<lambda>t. Q\<lparr>lq_token := Some t\<rparr>) (sr_next r))) (search_logs L S 0 Q)"

definition page_pos :: "js_lib \<Rightarrow> log_query \<Rightarrow> nat" where
  "page_pos L Q = (case resolve_offset L Q of Fin r \<Rightarrow> nat \<lfloor>r\<rfloor> | _ \<Rightarrow> 0)"

lemma page_posI: "resolve_offset L Q = jn (int k) \<Longrightarrow> page_pos L Q = k"
  by (simp add: page_pos_def)

definition pageable :: "js_lib \<Rightarrow> log_store \<Rightarrow> log_row list \<Rightarrow> log_query \<Rightarrow> bool" where
  "pageable L S rows Q \<longleftrightarrow>
     serves_rows S rows \<and> reads_tokens L \<and> (\<exists>w p. build_scoped_where L Q = Inr (w, p)) \<and> 0 < page_limit Q
     \<and> resolve_offset L Q = jn (int (page_pos L Q))"

lemma page_limit_token [simp]: "page_limit (Q\<lparr>lq_token := t\<rparr>) = page_limit Q"
  by (simp add: page_limit_def)

lemma next_token_pageable:
  assumes "resolve_offset L Q = jn (int k)" and "0 < page_limit Q"
  shows "next_token L Q n = (if k + nat (page_limit Q) < n
     then Some (encode_page_token L (jn (int (k + nat (page_limit Q))))) else None)"
proof -
  have "jn_add (jn (int k)) (jn (page_limit Q)) = jn (int (k + nat (page_limit Q)))"
    using assms(2) by simp
  moreover have "jn_less (jn (int a)) (jn (int b)) = (a < b)" for a b by simp
  ultimately show ?thesis unfolding next_token_def assms(1) Let_def by presburger
qed

lemma fetch_pageable:
  assumes "pageable L S rows Q"
  shows "fetch_page L S Q = Inr (map map_row (take (nat (page_limit Q)) (drop (page_pos L Q) rows)),
     if page_pos L Q + nat (page_limit Q) < length rows
     then Some (Q\<lparr>lq_token := Some (encode_page_token L (jn (int (page_pos L Q + nat (page_limit Q)))))\<rparr>)
     else None)"
proof -
  let ?k = "page_pos L Q" and ?l = "page_limit Q"
  from assms obtain w p where w: "build_scoped_where L Q = Inr (w, p)"
    and off: "resolve_offset L Q = jn (int ?k)" and pos: "0 < ?l" and S: "serves_rows S rows"
    by (auto simp: pageable_def)
  let ?p = "set_param ''offset'' (VNum (jn (int ?k))) (set_param ''limit'' (num_param ?l) p)"
  have "map_of ?p ''offset'' = Some (num_param (int ?k))" and "map_of ?p ''limit'' = Some (num_param (int (nat ?l)))"
    using pos by simp_all
  then have rows: "st_rows S (data_sql Q w) ?p = Inr (take (nat ?l) (drop ?k rows))"
    and count: "st_counts S (count_sql w) ?p = Inr [length rows]"
    using S unfolding serves_rows_def by blast+
  show ?thesis
    unfolding fetch_page_def search_logs_def w off Let_def
    by (simp add: rows count first_count_def next_token_pageable [OF off pos] del: of_int_of_nat_eq)
qed

interpretation log_pages: pager "fetch_page L S" "pageable L S rows" "page_pos L" "\<lambda>Q. nat (page_limit Q)"
  "map map_row rows" for L S rows
proof
  fix q assume g: "pageable L S rows q"
  show "\<exists>nxt. fetch_page L S q = Inr (take (nat (page_limit q)) (drop (page_pos L q) (map map_row rows)), nxt)
      \<and> (nxt = None \<longleftrightarrow> length (map map_row rows) \<le> page_pos L q + nat (page_limit q))"
    unfolding fetch_pageable [OF g] by (auto simp: take_map drop_map)
  show "0 < nat (page_limit q)" using g by (simp add: pageable_def)
next
  fix q xs q' assume g: "pageable L S rows q" and f: "fetch_page L S q = Inr (xs, Some q')"
  then have q': "q' = q\<lparr>lq_token := Some (encode_page_token L (jn (int (page_pos L q + nat (page_limit q)))))\<rparr>"
    unfolding fetch_pageable [OF g] by (auto split: if_splits)
  have off: "resolve_offset L q' = jn (int (page_pos L q + nat (page_limit q)))"
    unfolding q' by (rule resolve_offset_token) (use g in \<open>simp add: pageable_def\<close>)
  have pos: "page_pos L q' = page_pos L q + nat (page_limit q)"
    by (rule page_posI [OF off])
  show "pageable L S rows q' \<and> page_pos L q' = page_pos L q + nat (page_limit q)
      \<and> nat (page_limit q') = nat (page_limit q)"
    using g pos off by (simp add: pageable_def q')
qed


definition slicing_store :: "log_row list \<Rightarrow> log_store" where
  "slicing_store rows =
     \<lparr>st_counts = (\<lambda>sql p. Inr [length rows]),
      st_rows = (\<lambda>sql p. case (map_of p ''offset'', map_of p ''limit'') of
         (Some (VNum (Fin o')), Some (VNum (Fin l))) \<Rightarrow> Inr (take (nat \<lfloor>l\<rfloor>) (drop (nat \<lfloor>o'\<rfloor>) rows)) | _ \<Rightarrow> Inr []),
      st_groups = (\<lambda>sql p. Inr []), st_patterns = (\<lambda>sql p. Inr [])\<rparr>"

lemma slicing_store_serves: "serves_rows (slicing_store rows) rows"
  by (simp add: serves_rows_def slicing_store_def)

text \<open>A runtime whose JSON numbers are naturals: printing and parsing of \<open>{"offset":n}\<close> alone.\<close>

definition offset_lib :: js_lib where
  "offset_lib = \<lparr>json_parse = (\<lambda>s. Inr (offset_json (jn (int (nat_of_digits s))))),
     json_stringify = (\<lambda>v. case v of JObj [(k, JNum (Fin r))] \<Rightarrow> nat_str (nat \<lfloor>r\<rfloor>) | _ \<Rightarrow> ''0''),
     date_parse = (\<lambda>_. None), date_iso = (\<lambda>_. []), num_str = (\<lambda>_. [])\<rparr>"

lemma offset_lib_reads: "reads_tokens offset_lib"
  using nat_str_digits
  by (auto simp: reads_tokens_def offset_lib_def offset_json_def ascii_def list_all_iff is_digit_def
      dest!: nat_str_digits)


end
