(* ===== verification/TrustProxy.thy ===== *)
theory TrustProxy imports UrlGuard begin

text \<open>
  \<open>config/index.ts\<close>, the \<open>TRUST_PROXY\<close> setting: which peers Express may take the client's address
  from. \<open>net.isIP\<close> is the one of the URL guard; whether Express can use a list is a parameter.
  A thrown error is \<open>Inl\<close> of which of the checks threw it.
\<close>

section \<open>Constants\<close>

datatype trust_proxy = Hops nat | Loopback | Proxies "string list"

datatype trust_error = TrustTrue | TooManyHops string | TooBroad string string | Unusable string string | Invalid string

definition trust_proxy_max_hops :: nat where
  "trust_proxy_max_hops = 10"

definition min_ipv4_prefix :: nat where
  "min_ipv4_prefix = 8"

definition min_ipv6_prefix :: nat where
  "min_ipv6_prefix = 32"

definition ipv4_mapped_base :: nat where
  "ipv4_mapped_base = 0xffff * 2 ^ 32"

definition max_safe_integer :: nat where
  "max_safe_integer = 2 ^ 53 - 1"

section \<open>Reading an IPv6 literal\<close>

text \<open>
  \<open>(acc << 16n) | g\<close> on groups below \<open>2^16\<close> is \<open>acc * 65536 + g\<close>, and \<open>(a << 8) | b\<close> on octets
  \<open>a * 256 + b\<close>; the texts are valid literals here, so groups and octets are in range.
\<close>

definition dotted_tail_re :: re where
  "dotted_tail_re = seqs [Bol, Grp 1 (seqs [Star dot, colon]), Grp 2 (plus digit), chr CHR ''.'',
     Grp 3 (plus digit), chr CHR ''.'', Grp 4 (plus digit), chr CHR ''.'', Grp 5 (plus digit), Eol]"

definition undotted :: "string \<Rightarrow> string" where
  "undotted text =
     (case exec dotted_tail_re text of
        None \<Rightarrow> text
      | Some m \<Rightarrow>
          (let octet = (\<lambda>k. nat_of_digits (cap k m)) in
           cap 1 m @ hex_str (octet 2 * 256 + octet 3) @ '':'' @ hex_str (octet 4 * 256 + octet 5)))"

definition to_groups :: "string \<Rightarrow> string list" where
  "to_groups part = (if part = [] then [] else split_on is_colon part)"

definition ipv6_groups :: "string \<Rightarrow> string list" where
  "ipv6_groups text =
     (case split_dcolon text of
        (l, None) \<Rightarrow> to_groups l
      | (l, Some r) \<Rightarrow>
          to_groups l @ replicate (8 - length (to_groups l) - length (to_groups r)) ''0'' @ to_groups r)"

definition ipv6_to_big_int :: "string \<Rightarrow> nat" where
  "ipv6_to_big_int address =
     foldl (\<lambda>acc g. acc * 65536 + nat_of_hex g) 0
       (ipv6_groups (undotted (takeWhile (\<lambda>c. \<not> is_percent c) address)))"

section \<open>Entries\<close>

text \<open>The text before the first slash, and the text after it.\<close>

definition entry_parts :: "string \<Rightarrow> string \<times> string option" where
  "entry_parts e =
     (case index_of (CHR ''/'') e of None \<Rightarrow> (e, None) | Some i \<Rightarrow> (take i e, Some (drop (Suc i) e)))"

definition too_broad :: "string \<Rightarrow> string option" where
  "too_broad e =
     (case entry_parts e of
        (a, None) \<Rightarrow> None
      | (address, Some p) \<Rightarrow>
          (let prefix = nat_of_digits p; value = ipv6_to_big_int address in
           if is_ip address = 4 then
             (if prefix < min_ipv4_prefix then Some ''IPv4 prefix is too short'' else None)
           else if prefix < min_ipv6_prefix then Some ''IPv6 prefix is too short''
           else if prefix \<le> 96 \<and> value div 2 ^ (128 - prefix) = ipv4_mapped_base div 2 ^ (128 - prefix)
           then Some ''the IPv6 range contains the IPv4-mapped block''
           else if value div 2 ^ 32 = ipv4_mapped_base div 2 ^ 32 \<and> int prefix - 96 < int min_ipv4_prefix
           then Some ''the IPv4-mapped prefix is too short''
           else None))"

definition is_ip_or_cidr :: "string \<Rightarrow> bool" where
  "is_ip_or_cidr e =
     (case entry_parts e of
        (a, None) \<Rightarrow> is_ip e \<noteq> 0
      | (a, Some p) \<Rightarrow>
          if is_ip a = 0 \<or> \<not> (1 \<le> length p \<and> length p \<le> 3 \<and> list_all is_digit p) then False
          else nat_of_digits p \<le> (if is_ip a = 4 then 32 else 128))"

fun first_broad :: "string list \<Rightarrow> trust_error option" where
  "first_broad [] = None"
| "first_broad (e # es) = (case too_broad e of Some r \<Rightarrow> Some (TooBroad e r) | None \<Rightarrow> first_broad es)"

definition parse_trust_proxy ::
  "(string list \<Rightarrow> string option) \<Rightarrow> string option \<Rightarrow> trust_error + trust_proxy option" where
  "parse_trust_proxy express_rejects raw =
     (let value = trim (the_or [] raw) in
      if value = [] then Inr None
      else if lower value = ''true'' then Inl TrustTrue
      else if list_all is_digit value then
        (if nat_of_digits value > max_safe_integer \<or> nat_of_digits value > trust_proxy_max_hops
         then Inl (TooManyHops value) else Inr (Some (Hops (nat_of_digits value))))
      else if value = ''loopback'' then Inr (Some Loopback)
      else
        (let entries = map trim (split_on is_comma value) in
         if list_all (\<lambda>e. e \<noteq> [] \<and> is_ip_or_cidr e) entries then
           (case first_broad entries of
              Some err \<Rightarrow> Inl err
            | None \<Rightarrow>
                (let unusable = express_rejects entries in
                 if (case unusable of None \<Rightarrow> False | Some m \<Rightarrow> m \<noteq> [])
                 then Inl (Unusable value (the unusable)) else Inr (Some (Proxies entries))))
         else Inl (Invalid value)))"

section \<open>What an entry trusts\<close>

text \<open>
  The numeric value of an address, and the peers an entry covers. An IPv4 peer matches an IPv6
  entry as its IPv4-mapped form.
\<close>

definition ipv4_value :: "string \<Rightarrow> nat" where
  "ipv4_value a = foldl (\<lambda>acc p. acc * 256 + nat_of_digits p) 0 (split_on is_dot a)"

definition same_prefix :: "nat \<Rightarrow> nat \<Rightarrow> nat \<Rightarrow> nat \<Rightarrow> bool" where
  "same_prefix width p x y \<longleftrightarrow> x div 2 ^ (width - p) = y div 2 ^ (width - p)"

definition trusts_ipv4 :: "string \<Rightarrow> nat \<Rightarrow> bool" where
  "trusts_ipv4 e peer =
     (case entry_parts e of
        (a, None) \<Rightarrow> if is_ip a = 4 then peer = ipv4_value a
                     else ipv4_mapped_base + peer = ipv6_to_big_int a
      | (a, Some p) \<Rightarrow>
          if is_ip a = 4 then same_prefix 32 (nat_of_digits p) peer (ipv4_value a)
          else same_prefix 128 (nat_of_digits p) (ipv4_mapped_base + peer) (ipv6_to_big_int a))"

definition trusted_ipv4_peers :: "string \<Rightarrow> nat set" where
  "trusted_ipv4_peers e = {peer. peer < 2 ^ 32 \<and> trusts_ipv4 e peer}"

lemma block_card:
  fixes d k v :: nat
  shows "card {x. (k + x) div 2 ^ d = v} \<le> 2 ^ d" and "finite {x. (k + x) div 2 ^ d = v}"
proof -
  have sub: "{x. (k + x) div 2 ^ d = v} \<subseteq> (\<lambda>y. y - k) ` {v * 2 ^ d ..< v * 2 ^ d + 2 ^ d}"
  proof
    fix x assume "x \<in> {x. (k + x) div 2 ^ d = v}"
    then have v: "(k + x) div 2 ^ d = v" by simp
    have "k + x = v * 2 ^ d + (k + x) mod 2 ^ d" using v by (metis div_mult_mod_eq)
    moreover have "(k + x) mod 2 ^ d < 2 ^ d" by simp
    ultimately have "v * 2 ^ d \<le> k + x" and "k + x < v * 2 ^ d + 2 ^ d" by linarith+
    then have "k + x \<in> {v * 2 ^ d ..< v * 2 ^ d + 2 ^ d}" by simp
    then show "x \<in> (\<lambda>y. y - k) ` {v * 2 ^ d ..< v * 2 ^ d + 2 ^ d}"
      by (metis add_diff_cancel_left' image_eqI)
  qed
  have fin: "finite ((\<lambda>y. y - k) ` {v * 2 ^ d ..< v * 2 ^ d + 2 ^ d})" by simp
  from sub fin show "finite {x. (k + x) div 2 ^ d = v}" by (rule finite_subset)
  have "card {x. (k + x) div 2 ^ d = v} \<le> card ((\<lambda>y. y - k) ` {v * 2 ^ d ..< v * 2 ^ d + 2 ^ d})"
    by (rule card_mono [OF fin sub])
  also have "\<dots> \<le> card {v * 2 ^ d ..< v * 2 ^ d + 2 ^ d}" by (rule card_image_le) simp
  finally show "card {x. (k + x) div 2 ^ d = v} \<le> 2 ^ d" by simp
qed

lemma block_bound:
  fixes d k v :: nat
  assumes "d \<le> 24"
  shows "card {x. x < 2 ^ 32 \<and> (k + x) div 2 ^ d = v} \<le> 2 ^ 24"
proof -
  have "card {x. x < 2 ^ 32 \<and> (k + x) div 2 ^ d = v} \<le> card {x. (k + x) div 2 ^ d = v}"
    by (rule card_mono [OF block_card(2)]) auto
  also have "\<dots> \<le> 2 ^ d" by (rule block_card(1))
  also have "\<dots> \<le> 2 ^ 24" using assms by (intro power_increasing) auto
  finally show ?thesis .
qed

text \<open>All mapped addresses share what is left of them after dropping 32 bits or more.\<close>

lemma mapped_shift:
  assumes "32 \<le> s" and "peer < 2 ^ 32"
  shows "(ipv4_mapped_base + peer) div 2 ^ s = ipv4_mapped_base div 2 ^ s"
proof -
  obtain t where s: "s = 32 + t" using assms(1) le_Suc_ex by blast
  have "(ipv4_mapped_base + peer) div 2 ^ 32 = 0xffff" and "ipv4_mapped_base div 2 ^ 32 = 0xffff"
    using assms(2) by (simp_all add: ipv4_mapped_base_def)
  then show ?thesis unfolding s power_add by (simp only: div_mult2_eq)
qed

lemma accepted_entry_bound:
  assumes "is_ip_or_cidr e" and "too_broad e = None"
  shows "card (trusted_ipv4_peers e) \<le> 2 ^ 24"
proof -
  obtain a q where e: "entry_parts e = (a, q)" by fastforce
  show ?thesis
  proof (cases q)
    case None
    then have "trusted_ipv4_peers e \<subseteq> {if is_ip a = 4 then ipv4_value a else ipv6_to_big_int a - ipv4_mapped_base}"
      using e by (auto simp: trusted_ipv4_peers_def trusts_ipv4_def)
    then have "card (trusted_ipv4_peers e) \<le> card {if is_ip a = 4 then ipv4_value a else ipv6_to_big_int a - ipv4_mapped_base}"
      by (intro card_mono) auto
    then show ?thesis by simp
  next
    case (Some p)
    let ?n = "nat_of_digits p" and ?v = "ipv6_to_big_int a"
    show ?thesis
    proof (cases "is_ip a = 4")
      case True
      with assms(2) e Some have "8 \<le> ?n"
        by (auto simp: too_broad_def min_ipv4_prefix_def Let_def split: if_splits)
      then have "32 - ?n \<le> 24" by simp
      from block_bound [OF this, of 0] show ?thesis
        using e Some True by (simp add: trusted_ipv4_peers_def trusts_ipv4_def same_prefix_def)
    next
      case False
      then have tr: "trusted_ipv4_peers e = {x. x < 2 ^ 32 \<and> (ipv4_mapped_base + x) div 2 ^ (128 - ?n) = ?v div 2 ^ (128 - ?n)}"
        using e Some by (simp add: trusted_ipv4_peers_def trusts_ipv4_def same_prefix_def)
      show ?thesis
      proof (cases "?n \<le> 96")
        case True
        with assms(2) e Some False have ne: "?v div 2 ^ (128 - ?n) \<noteq> ipv4_mapped_base div 2 ^ (128 - ?n)"
          by (auto simp: too_broad_def Let_def split: if_splits)
        have "trusted_ipv4_peers e = {}"
          unfolding tr using ne mapped_shift [of "128 - ?n"] True by auto
        then show ?thesis by simp
      next
        case big: False
        show ?thesis
        proof (cases "?v div 2 ^ 32 = ipv4_mapped_base div 2 ^ 32")
          case True
          with assms(2) e Some False big have "104 \<le> ?n"
            by (auto simp: too_broad_def Let_def min_ipv4_prefix_def split: if_splits)
          then show ?thesis unfolding tr by (intro block_bound) simp
        next
          case ne: False
          have "trusted_ipv4_peers e = {}"
          proof (rule ccontr)
            assume "trusted_ipv4_peers e \<noteq> {}"
            then obtain x where x: "x < 2 ^ 32" and eq: "(ipv4_mapped_base + x) div 2 ^ (128 - ?n) = ?v div 2 ^ (128 - ?n)"
              unfolding tr by blast
            define d where "d = 128 - ?n"
            have "d \<le> 32" using big by (simp add: d_def)
            then have pw: "(2::nat) ^ 32 = 2 ^ d * 2 ^ (32 - d)" by (simp flip: power_add)
            have "(ipv4_mapped_base + x) div 2 ^ 32 = ?v div 2 ^ 32"
              unfolding pw div_mult2_eq using eq by (simp add: d_def)
            with ne mapped_shift [of 32 x] x show False by simp
          qed
          then show ?thesis by simp
        qed
      qed
    qed
  qed
qed

lemma first_broad_None: "first_broad es = None \<Longrightarrow> list_all (\<lambda>e. too_broad e = None) es"
  by (induction es) (auto split: option.splits)

lemma accepted_setting:
  fixes raw rej
  defines "v \<equiv> trim (the_or [] raw)"
  defines "es \<equiv> map trim (split_on is_comma v)"
  assumes "parse_trust_proxy rej raw = Inr r"
  shows "r = None \<or> (\<exists>n \<le> 10. r = Some (Hops n)) \<or> r = Some Loopback
    \<or> (r = Some (Proxies es) \<and> list_all (\<lambda>e. e \<noteq> [] \<and> is_ip_or_cidr e) es \<and> first_broad es = None)"
proof -
  note p = assms(3) [unfolded parse_trust_proxy_def Let_def, folded v_def, folded es_def]
  consider "v = []" | "v \<noteq> []" "list_all is_digit v" | "v \<noteq> []" "\<not> list_all is_digit v" "v = ''loopback''"
    | "v \<noteq> []" "\<not> list_all is_digit v" "v \<noteq> ''loopback''" by blast
  then show ?thesis
  proof cases
    case 1
    with p show ?thesis by simp
  next
    case 2
    with p show ?thesis by (simp add: trust_proxy_max_hops_def split: if_split_asm) auto
  next
    case 3
    with p show ?thesis by (simp split: if_split_asm)
  next
    case 4
    then have 1: "(if v = [] then a else b) = b" "(if list_all is_digit v then a else b) = b"
      "(if v = ''loopback'' then a else b) = b" for a b :: "trust_error + trust_proxy option"
      by simp_all
    have "lower v \<noteq> ''true''" using p by (metis 1(1) Inl_Inr_False)
    then have 2: "(if lower v = ''true'' then a else b) = b" for a b :: "trust_error + trust_proxy option" by simp
    note q = p [unfolded 1 2]
    then have ok: "list_all (\<lambda>e. e \<noteq> [] \<and> is_ip_or_cidr e) es" by (metis Inl_Inr_False)
    note q' = q [unfolded if_P [OF ok]]
    then have fb: "first_broad es = None" by (cases "first_broad es") simp_all
    from q' have "r = Some (Proxies es)" unfolding fb option.case by (metis Inl_Inr_False sum.inject(2))
    with ok fb show ?thesis by blast
  qed
qed

text \<open>C34: no accepted proxy setting lets the internet choose its own address. Whatever the environment
  holds, a setting that is accepted trusts nobody, at most ten hops, the loopback range, or a list
  each of whose entries is an address or block that covers at most \<open>2^24\<close> of the \<open>2^32\<close> IPv4 peers,
  whether it is written as IPv4, as IPv6, or as an IPv4-mapped range.\<close>

theorem trust_proxy_is_narrow:
  "case parse_trust_proxy express_rejects raw of
     Inr (Some (Hops n)) \<Rightarrow> n \<le> 10
   | Inr (Some (Proxies entries)) \<Rightarrow>
       entries \<noteq> [] \<and> list_all (\<lambda>e. is_ip_or_cidr e \<and> card (trusted_ipv4_peers e) \<le> 2 ^ 24) entries
   | _ \<Rightarrow> True"
proof -
  let ?v = "trim (the_or [] raw)"
  let ?es = "map trim (split_on is_comma ?v)"
  have narrow: "list_all (\<lambda>e. is_ip_or_cidr e \<and> card (trusted_ipv4_peers e) \<le> 2 ^ 24) ?es"
    if "list_all (\<lambda>e. e \<noteq> [] \<and> is_ip_or_cidr e) ?es" and "first_broad ?es = None"
    using that(1) first_broad_None [OF that(2)] accepted_entry_bound unfolding list_all_iff by blast
  have ne: "?es \<noteq> []" by simp
  show ?thesis
  proof (cases "parse_trust_proxy express_rejects raw")
    case (Inr r)
    from accepted_setting [OF Inr]
    consider "r = None" | n where "r = Some (Hops n)" "n \<le> 10" | "r = Some Loopback"
      | "r = Some (Proxies ?es)" "list_all (\<lambda>e. e \<noteq> [] \<and> is_ip_or_cidr e) ?es" "first_broad ?es = None"
      by (elim disjE exE conjE) simp_all
    then show ?thesis
      by cases (use narrow ne in \<open>simp_all add: Inr\<close>)
  qed simp
qed

end
