(* ===== verification/Startup.thy ===== *)
theory Startup imports TrustProxy begin

text \<open>
  \<open>server.ts\<close>, the parts of \<open>app.ts\<close> that compute something, and the correction \<open>config/index.ts\<close> makes
  to a parsed configuration: connecting with retries, the allowed origins, and the redaction of
  stream tokens in the access log. Express, helmet, cors and the process signals are not modelled.
\<close>

section \<open>Connecting\<close>

text \<open>
  \<open>connect n\<close> is what the \<open>n\<close>-th call of the connect function throws, if it throws. The result is the
  error that is rethrown, if any, with the delays waited for.
\<close>

function connect_from :: "(nat \<Rightarrow> 'e option) \<Rightarrow> nat \<Rightarrow> int \<Rightarrow> nat \<Rightarrow> 'e option \<times> int list" where
  "connect_from connect max_retries delay attempt =
     (if attempt > max_retries then (None, [])
      else
        (case connect attempt of
           None \<Rightarrow> (None, [])
         | Some e \<Rightarrow>
             if attempt = max_retries then (Some e, [])
             else (case connect_from connect max_retries delay (Suc attempt) of
                     (r, waits) \<Rightarrow> (r, delay # waits))))"
  by pat_completeness auto
termination by (relation "measure (\<lambda>(c, m, d, a). Suc m - a)") auto

declare connect_from.simps [simp del]

definition connect_with_retry :: "(nat \<Rightarrow> 'e option) \<Rightarrow> 'e option \<times> int list" where
  "connect_with_retry connect = connect_from connect 10 3000 1"

text \<open>\<open>Promise.all\<close> over the three stores: the server listens when all of them are connected.\<close>

definition listens :: "(nat \<Rightarrow> 'e option) list \<Rightarrow> bool" where
  "listens cs = list_all (\<lambda>c. fst (connect_with_retry c) = None) cs"

lemma connect_from_outcome:
  assumes "a \<le> m"
  shows "(fst (connect_from c m d a) = None \<longleftrightarrow> (\<exists>k. a \<le> k \<and> k \<le> m \<and> c k = None))
     \<and> (fst (connect_from c m d a) \<noteq> None \<longrightarrow> fst (connect_from c m d a) = c m)
     \<and> length (snd (connect_from c m d a)) \<le> m - a \<and> set (snd (connect_from c m d a)) \<subseteq> {d}"
  using assms
proof (induction "m - a" arbitrary: a)
  case 0
  then show ?case by (subst (1 2 3 4 5) connect_from.simps) (auto split: option.splits simp: le_antisym)
next
  case (Suc k)
  then have lt: "a < m" by simp
  have ih: "(fst (connect_from c m d (Suc a)) = None \<longleftrightarrow> (\<exists>k. Suc a \<le> k \<and> k \<le> m \<and> c k = None))
     \<and> (fst (connect_from c m d (Suc a)) \<noteq> None \<longrightarrow> fst (connect_from c m d (Suc a)) = c m)
     \<and> length (snd (connect_from c m d (Suc a))) \<le> m - Suc a \<and> set (snd (connect_from c m d (Suc a))) \<subseteq> {d}"
    by (rule Suc.hyps(1)) (use Suc.hyps(2) lt in auto)
  show ?case
  proof (cases "c a")
    case None
    then have "connect_from c m d a = (None, [])" using lt by (simp add: connect_from.simps)
    then show ?thesis using None lt by auto
  next
    case (Some e)
    then have step: "connect_from c m d a = (fst (connect_from c m d (Suc a)), d # snd (connect_from c m d (Suc a)))"
      using lt by (subst connect_from.simps) (auto split: prod.splits)
    have "(\<exists>k. a \<le> k \<and> k \<le> m \<and> c k = None) \<longleftrightarrow> (\<exists>k. Suc a \<le> k \<and> k \<le> m \<and> c k = None)"
    proof -
      have "c k = None \<Longrightarrow> a \<le> k \<Longrightarrow> Suc a \<le> k" for k using Some by (cases "k = a") auto
      then show ?thesis using Suc_leD by blast
    qed
    then show ?thesis using ih lt unfolding step by auto
  qed
qed

text \<open>Connecting ends. A store is tried at most ten times with three seconds in between; the
  attempt succeeds exactly when one of the ten calls does, and otherwise ends with the error of the
  tenth after 27 seconds of waiting at most.\<close>

theorem connecting_ends:
  "case connect_with_retry connect of (r, waits) \<Rightarrow>
     (r = None) = list_ex (\<lambda>k. connect k = None) [1..<11]
     \<and> (case r of None \<Rightarrow> True | Some e \<Rightarrow> connect 10 = Some e)
     \<and> sum_list waits \<le> 27000"
proof -
  obtain r waits where rw: "connect_with_retry connect = (r, waits)" by fastforce
  have le: "1 \<le> (10 :: nat)" and diff_10: "10 - 1 = (9 :: nat)" by simp_all
  have o: "(r = None \<longleftrightarrow> (\<exists>k. 1 \<le> k \<and> k \<le> 10 \<and> connect k = None))"
    "r \<noteq> None \<longrightarrow> r = connect 10" "length waits \<le> 9" "set waits \<subseteq> {3000}"
    using connect_from_outcome [OF le, of connect 3000, unfolded rw [unfolded connect_with_retry_def] fst_conv snd_conv]
    by (blast, blast, simp only: diff_10, blast)
  have "waits = replicate (length waits) 3000" using o(4) by (intro replicate_eqI) auto
  then have "sum_list waits = sum_list (replicate (length waits) (3000 :: int))" by simp
  then have "sum_list waits \<le> 27000" using o(3) by (simp add: sum_list_replicate)
  moreover have "{1..<11} = {k. 1 \<le> k \<and> k \<le> (10 :: nat)}" by auto
  then have "(\<exists>k. 1 \<le> k \<and> k \<le> 10 \<and> connect k = None) \<longleftrightarrow> list_ex (\<lambda>k. connect k = None) [1..<11]"
    unfolding list_ex_iff set_upt by blast
  moreover have "case r of None \<Rightarrow> True | Some e \<Rightarrow> connect 10 = Some e"
  proof (cases r)
    case (Some e)
    with o(2) show ?thesis by (metis option.case(2) option.distinct(1))
  qed simp
  ultimately show ?thesis using o(1) unfolding rw prod.case by simp
qed

section \<open>Configuration\<close>

definition search_limit_ceiling :: int where
  "search_limit_ceiling = 500"

text \<open>The corrected page size, and whether a warning is recorded.\<close>

definition clamp_page_size :: "int \<Rightarrow> int \<times> bool" where
  "clamp_page_size n = (if n > search_limit_ceiling then (search_limit_ceiling, True) else (n, False))"

datatype node_env = Development | Production | TestEnv

datatype cors_origin = AnyOrigin | Origins "string list"

definition cors_origin_of :: "node_env \<Rightarrow> string \<Rightarrow> cors_origin" where
  "cors_origin_of env origins =
     (if env = Development then AnyOrigin else Origins (map trim (split_on is_comma origins)))"

section \<open>Redaction\<close>

text \<open>\<^verbatim>\<open>/([?&])token=[^&#]*/gi\<close> replaced by \<^verbatim>\<open>$1token=REDACTED\<close>, from the left.\<close>

definition ends_value :: "char \<Rightarrow> bool" where
  "ends_value c \<longleftrightarrow> c = CHR ''&'' \<or> c = CHR ''#''"

definition opens_param :: "char \<Rightarrow> bool" where
  "opens_param c \<longleftrightarrow> c = CHR ''?'' \<or> c = CHR ''&''"

definition token_name :: string where
  "token_name = ''token=''"

lemma dropWhile_shorter: "length (dropWhile P (drop n xs)) < Suc (length xs)"
  by (metis diff_le_self le_imp_less_Suc le_trans length_drop length_dropWhile_le)

function redact_token_query :: "string \<Rightarrow> string" where
  "redact_token_query [] = []"
| "redact_token_query (c # cs) =
     (if opens_param c \<and> lower (take 6 cs) = token_name
      then c # ''token=REDACTED'' @ redact_token_query (dropWhile (\<lambda>x. \<not> ends_value x) (drop 6 cs))
      else c # redact_token_query cs)"
  by pat_completeness auto
termination by (relation "measure length") (auto simp: dropWhile_shorter simp del: length_drop)

text \<open>Copied text stays text: up to the first parameter separator, the output is the input.\<close>

lemma redact_prefix:
  "list_all (\<lambda>c. \<not> opens_param c) (take n (redact_token_query s)) \<Longrightarrow> take n (redact_token_query s) = take n s"
proof (induction n arbitrary: s)
  case (Suc n)
  show ?case
  proof (cases s)
    case (Cons c cs)
    have "\<not> opens_param c" using Suc.prems Cons by (auto split: if_splits)
    then show ?thesis using Suc Cons by (auto split: if_splits)
  qed simp
qed simp

lemma token_name_chars: "lower w = token_name \<Longrightarrow> list_all (\<lambda>c. \<not> opens_param c) w"
proof (rule ccontr)
  assume w: "lower w = token_name" and "\<not> list_all (\<lambda>c. \<not> opens_param c) w"
  then obtain c where "c \<in> set w" "opens_param c" by (auto simp: list_all_iff)
  then have "lower_char c \<in> set token_name" and "lower_char c = c"
    using w by (auto simp: lower_def opens_param_def lower_char_def is_upper_def code_def simp flip: w)
  then show False using \<open>opens_param c\<close> by (auto simp: token_name_def opens_param_def)
qed

lemma append_skip: "p @ r = a @ c # z \<Longrightarrow> c \<notin> set p \<Longrightarrow> \<exists>a'. a = p @ a' \<and> r = a' @ c # z"
proof (induction p arbitrary: a)
  case (Cons q p)
  then show ?case by (cases a) auto
qed simp

lemma redact_after:
  assumes "redact_token_query s = a @ c # w @ rest" and "opens_param c" and "lower w = token_name"
  shows "\<exists>t. rest = ''REDACTED'' @ t \<and> (t = [] \<or> ends_value (hd t)) \<and> w = token_name"
  using assms(1)
proof (induction s arbitrary: a rule: redact_token_query.induct)
  case (2 x xs)
  have "length (lower w) = length token_name" by (simp only: assms(3))
  then have lw: "length w = 6" by (simp add: token_name_def)
  show ?case
  proof (cases "opens_param x \<and> lower (take 6 xs) = token_name")
    case True
    define d where "d = dropWhile (\<lambda>x. \<not> ends_value x) (drop 6 xs)"
    let ?R = "redact_token_query d"
    from True have out: "redact_token_query (x # xs) = x # (token_name @ ''REDACTED'') @ ?R"
      by (simp add: d_def token_name_def)
    have plain: "c \<notin> set (token_name @ ''REDACTED'')"
      using assms(2) by (auto simp: token_name_def opens_param_def)
    show ?thesis
    proof (cases a)
      case Nil
      with "2.prems" out have eq: "w @ rest = token_name @ ''REDACTED'' @ ?R" by simp
      have len: "length w = length token_name" using lw by (simp add: token_name_def)
      from eq have "w = token_name" and "rest = ''REDACTED'' @ ?R"
        by (simp_all only: append_eq_append_conv [OF disjI1 [OF len]])
      moreover have "d = [] \<or> ends_value (hd d)" unfolding d_def using hd_dropWhile by blast
      then have "?R = [] \<or> ends_value (hd ?R)" by (cases d) auto
      ultimately show ?thesis by blast
    next
      case (Cons y a1)
      with "2.prems" out have eq: "(token_name @ ''REDACTED'') @ ?R = a1 @ c # w @ rest" by simp
      then obtain a' where "a1 = (token_name @ ''REDACTED'') @ a'" and "?R = a' @ c # w @ rest"
        using append_skip [OF eq plain] by blast
      then show ?thesis using "2.IH"(1) [OF True] by (simp add: d_def)
    qed
  next
    case False
    then have out: "redact_token_query (x # xs) = x # redact_token_query xs" by auto
    show ?thesis
    proof (cases a)
      case Nil
      with "2.prems" out have x: "x = c" and r: "redact_token_query xs = w @ rest" by simp_all
      then have t: "take 6 (redact_token_query xs) = w" using lw by simp
      have "take 6 xs = w"
        using redact_prefix [of 6 xs] token_name_chars [OF assms(3)] unfolding t by simp
      with False x assms(2,3) show ?thesis by simp
    next
      case (Cons y a1)
      with "2.prems" out have "redact_token_query xs = a1 @ c # w @ rest" by simp
      then show ?thesis by (rule "2.IH"(2) [OF False])
    qed
  qed
qed simp

text \<open>stream tokens stay out of the access log. Whatever URL is requested, wherever the logged
  text has a query parameter named \<open>token\<close> (in any case), its value is the word \<open>REDACTED\<close> and
  nothing else.\<close>

theorem logged_urls_carry_no_token:
  assumes "redact_token_query url = before @ sep # name @ value @ after"
    and "sep \<in> set ''?&''" and "lower name = ''token=''"
    and "list_all (\<lambda>c. c \<notin> set ''&#'') value" and "after = [] \<or> hd after \<in> set ''&#''"
  shows "value = ''REDACTED''"
proof -
  have op: "opens_param sep" using assms(2) by (simp add: opens_param_def)
  have nm: "lower name = token_name" using assms(3) by (simp add: token_name_def)
  from redact_after [OF assms(1) op nm] obtain t where eq: "value @ after = ''REDACTED'' @ t"
    and t: "t = [] \<or> ends_value (hd t)" by blast
  have v: "list_all (\<lambda>c. \<not> ends_value c) value" using assms(4) by (simp add: ends_value_def)
  have a: "after = [] \<or> ends_value (hd after)" using assms(5) by (auto simp: ends_value_def)
  have "takeWhile (\<lambda>c. \<not> ends_value c) (value @ after) = value"
    using v a by (cases after) (auto simp: takeWhile_append list_all_iff)
  moreover have "takeWhile (\<lambda>c. \<not> ends_value c) (''REDACTED'' @ t) = ''REDACTED''"
    using t by (cases t) (auto simp: ends_value_def)
  ultimately show ?thesis unfolding eq by simp
qed

theorem logged_urls_carry_no_token_witness:
  "redact_token_query ''/stream/logs?a=1&Token=secret&b=2'' = ''/stream/logs?a=1&token=REDACTED&b=2''"
proof -
  have "redact_token_query ''/stream/logs?a=1&Token=secret&b=2'' = ''/stream/logs?a=1&token=REDACTED&b=2''"
    by code_simp
  moreover have "redact_token_query ''?token=x'' = [] @ CHR ''?'' # ''token='' @ ''REDACTED'' @ []"
    by code_simp
  then have "''REDACTED'' = ''REDACTED''"
    by (rule logged_urls_carry_no_token) code_simp+
  ultimately show ?thesis by simp
qed

end
