(* ===== verification/Sdk.thy ===== *)
theory Sdk imports Issues Domain "HOL-Library.AList" begin

text \<open>
  The JavaScript SDK (\<open>packages/sdk-js/src\<close>): the client with its queue and timer
  (\<open>client.ts\<close>), the breadcrumbs and the console it instruments (\<open>integrations/breadcrumbs.ts\<close>),
  the global error handlers (\<open>integrations/global-error.ts\<close>), the transport
  (\<open>transports/fetch.ts\<close>) and the module's default client (\<open>index.ts\<close>).

  A client is a record; its operations run to their end at once, as they do up to the first
  \<open>await\<close>, which is the request. \<open>sc_sent\<close> is the trace of the requests made. JavaScript objects
  with text keys are association lists in insertion order.
\<close>

section \<open>Data\<close>

datatype field_value = FStr string | FNum jnum | FBool bool

type_synonym log_fields = "(string \<times> field_value) list"
type_synonym text_map = "(string \<times> string) list"
type_synonym crumb = "(string \<times> json) list"

record queued_log =
  ql_timestamp :: string
  ql_level :: log_level
  ql_service :: string
  ql_host :: "string option"
  ql_message :: string
  ql_fields :: log_fields

record transport =
  tp_endpoint :: string
  tp_key :: string
  tp_timeout :: "int option"

text \<open>One call of \<open>fetch\<close>; the body is \<open>JSON.stringify({ logs })\<close>.\<close>

record sdk_request =
  rq_endpoint :: string
  rq_key :: string
  rq_logs :: "queued_log list"
  rq_timeout :: int

text \<open>\<open>bt_cleanups\<close> holds, per instrumentation, the console functions to put back.\<close>

record tracker =
  bt_crumbs :: "crumb list"
  bt_max :: int
  bt_cleanups :: "nat list list"

record sdk_options =
  so_dsn :: "string option"
  so_endpoint :: "string option"
  so_key :: "string option"
  so_source :: "string option"
  so_service :: "string option"
  so_release :: "string option"
  so_environment :: "string option"
  so_auto_capture :: "bool option"
  so_breadcrumbs :: "bool option"
  so_max_breadcrumbs :: "int option"
  so_batch_size :: "int option"
  so_flush_interval :: "int option"
  so_timeout :: "int option"

record sdk_client =
  sc_transport :: transport
  sc_queue :: "queued_log list"
  sc_timer :: "int option"
  sc_handlers :: bool
  sc_crumbs :: "tracker option"
  sc_service :: string
  sc_release :: "string option"
  sc_environment :: "string option"
  sc_batch :: int
  sc_tags :: text_map
  sc_user :: text_map
  sc_sent :: "sdk_request list"

record js_error =
  er_name :: string
  er_message :: string
  er_stack :: "string option"

text \<open>
  What the runtime gives: the parts of \<open>new URL(dsn)\<close> (\<open>None\<close> when it throws), the host name
  (\<open>window.location?.hostname\<close>, or \<open>"node"\<close>), whether \<open>window\<close> and \<open>process.on\<close> exist, and the
  stack of a new \<open>Error\<close>.
\<close>

record dsn_url =
  du_protocol :: string
  du_host :: string
  du_username :: string
  du_pathname :: string

record sdk_env =
  se_lib :: js_lib
  se_url :: "string \<Rightarrow> dsn_url option"
  se_window :: "string option option"
  se_process :: bool
  se_stack :: "string \<Rightarrow> string option"

section \<open>Construction\<close>

definition strip_slash :: "string \<Rightarrow> string" where
  "strip_slash s = (case s of [] \<Rightarrow> [] | c # cs \<Rightarrow> if c = CHR ''/'' then cs else s)"

definition parse_dsn :: "sdk_env \<Rightarrow> string \<Rightarrow> string + string \<times> string" where
  "parse_dsn E dsn =
     (case se_url E dsn of
        None \<Rightarrow> Inl ''Invalid URL''
      | Some u \<Rightarrow> Inr
          (du_protocol u @ ''//'' @ du_host u @ ''/api/v1/ingest/'' @ strip_slash (du_pathname u), du_username u))"

definition transport_of :: "sdk_env \<Rightarrow> sdk_options \<Rightarrow> string + transport" where
  "transport_of E opts =
     (if truthy (so_dsn opts) then
        (case parse_dsn E (the_or [] (so_dsn opts)) of
           Inl e \<Rightarrow> Inl e
         | Inr (endpoint, key) \<Rightarrow> Inr \<lparr>tp_endpoint = endpoint, tp_key = key, tp_timeout = so_timeout opts\<rparr>)
      else if truthy (so_endpoint opts) \<and> truthy (so_key opts) then
        Inr \<lparr>tp_endpoint = the_or [] (so_endpoint opts) @ ''/api/v1/ingest/'' @ the_or [] (so_source opts),
             tp_key = the_or [] (so_key opts), tp_timeout = so_timeout opts\<rparr>
      else Inl ''Telerithm: provide either `dsn` or `endpoint` + `apiKey`'')"

text \<open>The tracker of a new client, attached to the console as it is, and the client itself.\<close>

definition new_tracker :: "int option \<Rightarrow> nat list \<Rightarrow> tracker" where
  "new_tracker limit console = \<lparr>bt_crumbs = [], bt_max = the_or 20 limit, bt_cleanups = [console]\<rparr>"

definition new_client :: "sdk_env \<Rightarrow> sdk_options \<Rightarrow> nat list \<Rightarrow> string + sdk_client" where
  "new_client E opts console =
     (case transport_of E opts of
        Inl e \<Rightarrow> Inl e
      | Inr tp \<Rightarrow> Inr
          \<lparr>sc_transport = tp, sc_queue = [], sc_timer = Some (the_or 5000 (so_flush_interval opts)),
           sc_handlers = (so_auto_capture opts \<noteq> Some False),
           sc_crumbs = (if so_breadcrumbs opts \<noteq> Some False
                        then Some (new_tracker (so_max_breadcrumbs opts) console) else None),
           sc_service = the_or ''unknown'' (so_service opts), sc_release = so_release opts,
           sc_environment = so_environment opts, sc_batch = the_or 10 (so_batch_size opts),
           sc_tags = [], sc_user = [], sc_sent = []\<rparr>)"

section \<open>Breadcrumbs\<close>

definition add_crumb :: "string \<Rightarrow> crumb \<Rightarrow> tracker \<Rightarrow> tracker" where
  "add_crumb stamp crumb t =
     (let crumbs = bt_crumbs t @ [AList.update ''timestamp'' (JStr stamp) crumb] in
      t\<lparr>bt_crumbs := (if int (length crumbs) > bt_max t then tl crumbs else crumbs)\<rparr>)"

text \<open>What a wrapped \<open>console.warn\<close> or \<open>console.error\<close> records of its arguments.\<close>

definition console_crumb :: "string \<Rightarrow> string list \<Rightarrow> crumb" where
  "console_crumb level args =
     [(''category'', JStr ''console''), (''message'', JStr (join '' '' args)), (''level'', JStr level)]"

definition crumbs_json :: "crumb list \<Rightarrow> json" where
  "crumbs_json crumbs = JArr (map JObj crumbs)"

section \<open>Logging\<close>

definition set_user :: "text_map \<Rightarrow> sdk_client \<Rightarrow> sdk_client" where
  "set_user data c = c\<lparr>sc_user := data\<rparr>"

text \<open>Assigning a text to \<open>__proto__\<close> changes nothing.\<close>

definition set_tag :: "string \<Rightarrow> string \<Rightarrow> sdk_client \<Rightarrow> sdk_client" where
  "set_tag k v c = (if k = ''__proto__'' then c else c\<lparr>sc_tags := AList.update k v (sc_tags c)\<rparr>)"

definition add_breadcrumb :: "string \<Rightarrow> crumb \<Rightarrow> sdk_client \<Rightarrow> sdk_client" where
  "add_breadcrumb stamp crumb c = c\<lparr>sc_crumbs := map_option (add_crumb stamp crumb) (sc_crumbs c)\<rparr>"

definition spread :: "('k \<times> 'v) list \<Rightarrow> ('k \<times> 'v) list \<Rightarrow> ('k \<times> 'v) list" where
  "spread base extra = foldl (\<lambda>ob (k, v). AList.update k v ob) base extra"

definition set_if :: "string \<Rightarrow> string option \<Rightarrow> log_fields \<Rightarrow> log_fields" where
  "set_if k v fs = (if truthy v then AList.update k (FStr (the_or [] v)) fs else fs)"

definition tag_fields :: "text_map \<Rightarrow> log_fields" where
  "tag_fields tags = map (map_prod id FStr) tags"

definition entry_fields :: "sdk_client \<Rightarrow> log_fields option \<Rightarrow> log_fields" where
  "entry_fields c extra =
     set_if ''_userEmail'' (map_of (sc_user c) ''email'')
       (set_if ''_userId'' (map_of (sc_user c) ''id'')
         (set_if ''_environment'' (sc_environment c)
           (set_if ''_release'' (sc_release c)
             (spread (spread [] (the_or [] extra)) (tag_fields (sc_tags c))))))"

definition host_name :: "sdk_env \<Rightarrow> string option" where
  "host_name E = (case se_window E of None \<Rightarrow> Some ''node'' | Some h \<Rightarrow> h)"

definition entry_of ::
  "sdk_env \<Rightarrow> string \<Rightarrow> sdk_client \<Rightarrow> log_level \<Rightarrow> string \<Rightarrow> log_fields option \<Rightarrow> queued_log" where
  "entry_of E stamp c level message extra =
     \<lparr>ql_timestamp = stamp, ql_level = level, ql_service = sc_service c, ql_host = host_name E,
      ql_message = message, ql_fields = entry_fields c extra\<rparr>"

text \<open>
  \<open>sendBatch\<close>: the request, and whether the answer was ok; a rejected \<open>fetch\<close> (\<open>None\<close>) is
  \<open>false\<close>.
\<close>

definition send_batch :: "transport \<Rightarrow> queued_log list \<Rightarrow> bool option \<Rightarrow> sdk_request \<times> bool" where
  "send_batch tp logs answer =
     (\<lparr>rq_endpoint = tp_endpoint tp, rq_key = tp_key tp, rq_logs = logs,
       rq_timeout = the_or 10000 (tp_timeout tp)\<rparr>,
      the_or False answer)"

definition flush :: "bool option \<Rightarrow> sdk_client \<Rightarrow> sdk_client" where
  "flush answer c =
     (if sc_queue c = [] then c
      else (let batch = sc_queue c; (request, ok) = send_batch (sc_transport c) batch answer in
            c\<lparr>sc_queue := [], sc_sent := sc_sent c @ [request]\<rparr>))"

definition log_entry_at ::
  "sdk_env \<Rightarrow> string \<Rightarrow> bool option \<Rightarrow> log_level \<Rightarrow> string \<Rightarrow> log_fields option \<Rightarrow> sdk_client \<Rightarrow> sdk_client" where
  "log_entry_at E stamp answer level message extra c =
     (let c1 = c\<lparr>sc_queue := sc_queue c @ [entry_of E stamp c level message extra]\<rparr> in
      if int (length (sc_queue c1)) \<ge> sc_batch c1 then flush answer c1 else c1)"

definition error_fields :: "sdk_env \<Rightarrow> js_error \<Rightarrow> log_fields option \<Rightarrow> sdk_client \<Rightarrow> log_fields" where
  "error_fields E err extra c =
     (let fields = set_if ''_stack'' (er_stack err)
                     (AList.update ''_errorName'' (FStr (er_name err)) (spread [] (the_or [] extra)))
      in case sc_crumbs c of
           None \<Rightarrow> fields
         | Some t \<Rightarrow>
             if length (bt_crumbs t) > 0
             then AList.update ''_breadcrumbs'' (FStr (json_stringify (se_lib E) (crumbs_json (bt_crumbs t)))) fields
             else fields)"

definition capture_error ::
  "sdk_env \<Rightarrow> string \<Rightarrow> bool option \<Rightarrow> js_error \<Rightarrow> log_fields option \<Rightarrow> sdk_client \<Rightarrow> sdk_client" where
  "capture_error E stamp answer err extra c =
     log_entry_at E stamp answer LError (er_message err) (Some (error_fields E err extra c)) c"

section \<open>Global errors\<close>

text \<open>A rejection with an \<open>Error\<close>, or with another value and its \<open>String(reason)\<close>.\<close>

datatype rejection = ErrorReason js_error | OtherReason string

datatype global_event =
    WindowError "js_error option" string string jnum jnum
  | WindowRejection rejection
  | UncaughtException js_error
  | UnhandledRejection rejection

definition new_error :: "sdk_env \<Rightarrow> string \<Rightarrow> js_error" where
  "new_error E message = \<lparr>er_name = ''Error'', er_message = message, er_stack = se_stack E message\<rparr>"

fun reason_error :: "sdk_env \<Rightarrow> rejection \<Rightarrow> js_error" where
  "reason_error E (ErrorReason e) = e"
| "reason_error E (OtherReason s) = new_error E s"

fun captured :: "sdk_env \<Rightarrow> global_event \<Rightarrow> js_error \<times> log_fields" where
  "captured E (WindowError err message file line col) =
     (the_or (new_error E message) err,
      [(''source'', FStr file), (''lineno'', FNum line), (''colno'', FNum col)])"
| "captured E (WindowRejection r) = (reason_error E r, [(''type'', FStr ''unhandledrejection'')])"
| "captured E (UncaughtException e) = (e, [(''type'', FStr ''uncaughtException'')])"
| "captured E (UnhandledRejection r) = (reason_error E r, [(''type'', FStr ''unhandledRejection'')])"

text \<open>Which events the handlers are registered for.\<close>

fun hears :: "sdk_env \<Rightarrow> global_event \<Rightarrow> bool" where
  "hears E (WindowError err message file line col) = (se_window E \<noteq> None)"
| "hears E (WindowRejection r) = (se_window E \<noteq> None)"
| "hears E (UncaughtException e) = se_process E"
| "hears E (UnhandledRejection r) = se_process E"

definition on_global :: "sdk_env \<Rightarrow> string \<Rightarrow> bool option \<Rightarrow> global_event \<Rightarrow> sdk_client \<Rightarrow> sdk_client" where
  "on_global E stamp answer ev c =
     (if sc_handlers c \<and> hears E ev
      then (let (err, extra) = captured E ev in capture_error E stamp answer err (Some extra) c)
      else c)"

section \<open>Closing\<close>

text \<open>The console is the list of the clients whose wrappers are on it, outermost first.\<close>

definition close_client :: "bool option \<Rightarrow> sdk_client \<Rightarrow> nat list \<Rightarrow> sdk_client \<times> nat list" where
  "close_client answer c console =
     (let c1 = c\<lparr>sc_timer := None, sc_handlers := False,
                 sc_crumbs := map_option (\<lambda>t. t\<lparr>bt_cleanups := []\<rparr>) (sc_crumbs c)\<rparr>;
          saved = (case sc_crumbs c of None \<Rightarrow> [] | Some t \<Rightarrow> bt_cleanups t)
      in (flush answer c1, foldl (\<lambda>_ put_back. put_back) console saved))"

section \<open>The module and its default client\<close>

record sdk_module =
  sm_clients :: "sdk_client list"
  sm_default :: "nat option"
  sm_console :: "nat list"

definition create_client :: "sdk_env \<Rightarrow> sdk_options \<Rightarrow> sdk_module \<Rightarrow> (string + nat) \<times> sdk_module" where
  "create_client E opts m =
     (case new_client E opts (sm_console m) of
        Inl e \<Rightarrow> (Inl e, m)
      | Inr c \<Rightarrow>
          (let i = length (sm_clients m) in
           (Inr i, m\<lparr>sm_clients := sm_clients m @ [c],
                     sm_console := (if sc_crumbs c = None then sm_console m else i # sm_console m)\<rparr>)))"

definition close_at :: "bool option \<Rightarrow> nat \<Rightarrow> sdk_module \<Rightarrow> sdk_module" where
  "close_at answer i m =
     (if i < length (sm_clients m) then
        (let (c, console) = close_client answer (sm_clients m ! i) (sm_console m) in
         m\<lparr>sm_clients := (sm_clients m)[i := c], sm_console := console\<rparr>)
      else m)"

definition sdk_init :: "sdk_env \<Rightarrow> bool option \<Rightarrow> sdk_options \<Rightarrow> sdk_module \<Rightarrow> (string + nat) \<times> sdk_module" where
  "sdk_init E answer opts m =
     (let m1 = (case sm_default m of None \<Rightarrow> m | Some i \<Rightarrow> close_at answer i m) in
      case create_client E opts m1 of
        (Inl e, m2) \<Rightarrow> (Inl e, m2)
      | (Inr i, m2) \<Rightarrow> (Inr i, m2\<lparr>sm_default := Some i\<rparr>))"

text \<open>
  \<open>close()\<close> of the module waits for the client's last request before it forgets the client, so it
  has two steps.
\<close>

definition sdk_close_start :: "bool option \<Rightarrow> sdk_module \<Rightarrow> sdk_module" where
  "sdk_close_start answer m = (case sm_default m of None \<Rightarrow> m | Some i \<Rightarrow> close_at answer i m)"

definition sdk_close_end :: "sdk_module \<Rightarrow> sdk_module" where
  "sdk_close_end m = m\<lparr>sm_default := None\<rparr>"

text \<open>The functions of the module that act on the default client.\<close>

definition with_default :: "(sdk_client \<Rightarrow> sdk_client) \<Rightarrow> sdk_module \<Rightarrow> sdk_module" where
  "with_default f m =
     (case sm_default m of
        None \<Rightarrow> m
      | Some i \<Rightarrow> if i < length (sm_clients m)
                  then m\<lparr>sm_clients := (sm_clients m)[i := f (sm_clients m ! i)]\<rparr> else m)"

text \<open>A call of the instrumented \<open>console.warn\<close> or \<open>console.error\<close> passes through every wrapper.\<close>

definition console_call :: "string \<Rightarrow> string \<Rightarrow> string list \<Rightarrow> sdk_module \<Rightarrow> sdk_module" where
  "console_call stamp level args m =
     m\<lparr>sm_clients := foldl (\<lambda>cs i. if i < length cs
         then cs[i := add_breadcrumb stamp (console_crumb level args) (cs ! i)] else cs)
       (sm_clients m) (sm_console m)\<rparr>"

section \<open>A client's life\<close>

datatype sdk_op =
    LogOp log_level string "log_fields option"
  | CaptureOp js_error "log_fields option"
  | UserOp text_map
  | TagOp string string
  | CrumbOp crumb
  | GlobalOp global_event
  | FlushOp
  | TickOp
  | CloseOp

text \<open>A call with the time it is made at and the answer to a request it may make.\<close>

type_synonym sdk_call = "string \<times> bool option \<times> sdk_op"

fun run_op :: "sdk_env \<Rightarrow> sdk_call \<Rightarrow> sdk_client \<Rightarrow> sdk_client" where
  "run_op E (stamp, answer, LogOp level message extra) c = log_entry_at E stamp answer level message extra c"
| "run_op E (stamp, answer, CaptureOp err extra) c = capture_error E stamp answer err extra c"
| "run_op E (stamp, answer, UserOp data) c = set_user data c"
| "run_op E (stamp, answer, TagOp k v) c = set_tag k v c"
| "run_op E (stamp, answer, CrumbOp crumb) c = add_breadcrumb stamp crumb c"
| "run_op E (stamp, answer, GlobalOp ev) c = on_global E stamp answer ev c"
| "run_op E (stamp, answer, FlushOp) c = flush answer c"
| "run_op E (stamp, answer, TickOp) c = (if sc_timer c = None then c else flush answer c)"
| "run_op E (stamp, answer, CloseOp) c = fst (close_client answer c [])"

fun run_calls :: "sdk_env \<Rightarrow> sdk_call list \<Rightarrow> sdk_client \<Rightarrow> sdk_client" where
  "run_calls E [] c = c"
| "run_calls E (x # xs) c = run_calls E xs (run_op E x c)"

section \<open>Every entry is sent once, in order\<close>

text \<open>The entries a call logs, and all that a sequence of calls logs.\<close>

fun written :: "sdk_env \<Rightarrow> sdk_call \<Rightarrow> sdk_client \<Rightarrow> queued_log list" where
  "written E (stamp, answer, LogOp level message extra) c = [entry_of E stamp c level message extra]"
| "written E (stamp, answer, CaptureOp err extra) c =
     [entry_of E stamp c LError (er_message err) (Some (error_fields E err extra c))]"
| "written E (stamp, answer, GlobalOp ev) c =
     (if sc_handlers c \<and> hears E ev
      then (let (err, extra) = captured E ev in
            [entry_of E stamp c LError (er_message err) (Some (error_fields E err (Some extra) c))])
      else [])"
| "written E _ c = []"

fun history :: "sdk_env \<Rightarrow> sdk_call list \<Rightarrow> sdk_client \<Rightarrow> queued_log list" where
  "history E [] c = []"
| "history E (x # xs) c = written E x c @ history E xs (run_op E x c)"

definition delivered :: "sdk_client \<Rightarrow> queued_log list" where
  "delivered c = concat (map rq_logs (sc_sent c))"

definition request_fits :: "transport \<Rightarrow> sdk_request \<Rightarrow> bool" where
  "request_fits tp r \<longleftrightarrow> rq_logs r \<noteq> [] \<and> rq_endpoint r = tp_endpoint tp \<and> rq_key r = tp_key tp
     \<and> rq_timeout r = the_or 10000 (tp_timeout tp)"

definition sdk_ok :: "sdk_client \<Rightarrow> queued_log list \<Rightarrow> sdk_client \<Rightarrow> bool" where
  "sdk_ok c0 h c \<longleftrightarrow> delivered c @ sc_queue c = h \<and> list_all (request_fits (sc_transport c0)) (sc_sent c)
     \<and> int (length (sc_queue c)) < max 1 (sc_batch c0)
     \<and> sc_transport c = sc_transport c0 \<and> sc_batch c = sc_batch c0"

lemma flush_ok:
  assumes "delivered c @ sc_queue c = h" and "list_all (request_fits (sc_transport c0)) (sc_sent c)"
    and "sc_transport c = sc_transport c0" and "sc_batch c = sc_batch c0"
  shows "sdk_ok c0 h (flush answer c)"
  using assms by (auto simp: sdk_ok_def flush_def send_batch_def delivered_def request_fits_def)

lemma sdk_ok_flush: "sdk_ok c0 h c \<Longrightarrow> sdk_ok c0 h (flush answer c)"
  by (rule flush_ok) (simp_all add: sdk_ok_def)

lemma sdk_ok_log:
  assumes "sdk_ok c0 h c"
  shows "sdk_ok c0 (h @ [entry_of E stamp c level message extra]) (log_entry_at E stamp answer level message extra c)"
proof (cases "int (length (sc_queue c)) + 1 \<ge> sc_batch c")
  case True
  let ?c = "c\<lparr>sc_queue := sc_queue c @ [entry_of E stamp c level message extra]\<rparr>"
  have "log_entry_at E stamp answer level message extra c = flush answer ?c"
    using True assms by (simp add: log_entry_at_def sdk_ok_def)
  moreover have "sdk_ok c0 (h @ [entry_of E stamp c level message extra]) (flush answer ?c)"
    by (rule flush_ok) (use assms in \<open>auto simp: sdk_ok_def delivered_def\<close>)
  ultimately show ?thesis by simp
next
  case False
  then show ?thesis using assms by (auto simp: log_entry_at_def sdk_ok_def delivered_def)
qed

lemma sdk_ok_same:
  "sdk_ok c0 h c \<Longrightarrow> sc_queue c' = sc_queue c \<Longrightarrow> sc_sent c' = sc_sent c \<Longrightarrow> sc_transport c' = sc_transport c \<Longrightarrow>
   sc_batch c' = sc_batch c \<Longrightarrow> sdk_ok c0 h c'"
  by (simp add: sdk_ok_def delivered_def)

lemma sdk_ok_op: "sdk_ok c0 h c \<Longrightarrow> sdk_ok c0 (h @ written E x c) (run_op E x c)"
proof (induction E x c rule: written.induct)
  case (3 E stamp answer ev c)
  then show ?case by (auto simp: on_global_def capture_error_def case_prod_beta intro!: sdk_ok_log)
qed (auto simp: capture_error_def close_client_def set_user_def set_tag_def add_breadcrumb_def
       intro!: sdk_ok_log sdk_ok_flush elim!: sdk_ok_same)

lemma sdk_ok_calls: "sdk_ok c0 h c \<Longrightarrow> sdk_ok c0 (h @ history E calls c) (run_calls E calls c)"
proof (induction calls arbitrary: h c)
  case (Cons x xs)
  from Cons.IH [OF sdk_ok_op [OF Cons.prems]] show ?case by simp
qed simp

lemma sdk_ok_new: "new_client E opts console = Inr c0 \<Longrightarrow> sdk_ok c0 [] c0"
  by (auto simp: new_client_def sdk_ok_def delivered_def split: sum.splits)

text \<open>C10: the SDK loses and repeats nothing on its side. Whatever is called on a client, in any order,
  the entries of its requests followed by those in the queue are the entries logged, each once and in
  the order of the calls; every request carries entries and goes to the configured endpoint with
  its key; the queue stays below the batch size, and \<open>close\<close> empties it.\<close>

theorem sdk_sends_every_entry_once:
  assumes "new_client E opts console = Inr c0"
  shows "delivered (run_calls E calls c0) @ sc_queue (run_calls E calls c0) = history E calls c0
    \<and> list_all (request_fits (sc_transport c0)) (sc_sent (run_calls E calls c0))
    \<and> int (length (sc_queue (run_calls E calls c0))) < max 1 (sc_batch c0)
    \<and> delivered (fst (close_client answer (run_calls E calls c0) console)) = history E calls c0"
proof -
  let ?c = "run_calls E calls c0"
  have ok: "sdk_ok c0 (history E calls c0) ?c"
    using sdk_ok_calls [OF sdk_ok_new [OF assms], of E calls] by simp
  have "sc_queue (fst (close_client answer ?c console)) = []"
    by (simp add: close_client_def flush_def send_batch_def Let_def)
  moreover have "sdk_ok c0 (history E calls c0) (fst (close_client answer ?c console))"
    using sdk_ok_op [OF ok, of E "([], answer, CloseOp)"] by (simp add: close_client_def)
  ultimately show ?thesis using ok by (simp add: sdk_ok_def)
qed

definition sdk_sample :: sdk_env where
  "sdk_sample = \<lparr>se_lib = \<lparr>json_parse = (\<lambda>_. Inl []), json_stringify = (\<lambda>_. ''[]''), date_parse = (\<lambda>_. None),
     date_iso = (\<lambda>_. ''2026-01-01T10:00:00.000Z''), num_str = (\<lambda>_. [])\<rparr>,
     se_url = (\<lambda>s. if s = ''https://key@logs.example/src-1''
       then Some \<lparr>du_protocol = ''https:'', du_host = ''logs.example'', du_username = ''key'', du_pathname = ''/src-1''\<rparr>
       else None),
     se_window = None, se_process = True, se_stack = (\<lambda>_. None)\<rparr>"

definition sample_options :: sdk_options where
  "sample_options = \<lparr>so_dsn = Some ''https://key@logs.example/src-1'', so_endpoint = None, so_key = None,
     so_source = None, so_service = Some ''web'', so_release = None, so_environment = None,
     so_auto_capture = None, so_breadcrumbs = None, so_max_breadcrumbs = Some 2, so_batch_size = Some 2,
     so_flush_interval = None, so_timeout = None\<rparr>"

definition sample_calls :: "sdk_call list" where
  "sample_calls =
     [(''2026-01-01T10:00:00.000Z'', Some True, LogOp LInfo ''a'' None),
      (''2026-01-01T10:00:01.000Z'', None, TagOp ''env'' ''test''),
      (''2026-01-01T10:00:01.000Z'', None, CrumbOp [(''category'', JStr ''ui''), (''message'', JStr ''click'')]),
      (''2026-01-01T10:00:02.000Z'', Some True,
       GlobalOp (UncaughtException \<lparr>er_name = ''TypeError'', er_message = ''b'', er_stack = None\<rparr>)),
      (''2026-01-01T10:00:03.000Z'', None, LogOp LWarn ''c'' (Some [(''n'', FNum (Fin 1))]))]"

lemma sample_client: "\<exists>c0. new_client sdk_sample sample_options [] = Inr c0"
proof -
  have "\<not> isl (new_client sdk_sample sample_options [])" by code_simp
  then show ?thesis by (cases "new_client sdk_sample sample_options []") auto
qed

theorem sdk_sends_every_entry_once_witness:
  "\<exists>c0. new_client sdk_sample sample_options [] = Inr c0
     \<and> delivered (fst (close_client None (run_calls sdk_sample sample_calls c0) []))
         = history sdk_sample sample_calls c0"
proof -
  from sample_client obtain c0 where c0: "new_client sdk_sample sample_options [] = Inr c0" ..
  then show ?thesis using sdk_sends_every_entry_once [OF c0] by blast
qed

section \<open>The breadcrumbs are the last ones\<close>

definition last_of :: "nat \<Rightarrow> 'a list \<Rightarrow> 'a list" where
  "last_of n xs = drop (length xs - n) xs"

lemma last_of_snoc:
  "length xs \<le> n \<Longrightarrow> tl (xs @ [x]) = last_of (length xs) (xs @ [x])"
  by (cases xs) (simp_all add: last_of_def)

lemma add_crumb_last:
  assumes "bt_crumbs t = last_of (nat (bt_max t)) xs"
  shows "bt_crumbs (add_crumb stamp crumb t)
    = last_of (nat (bt_max t)) (xs @ [AList.update ''timestamp'' (JStr stamp) crumb])"
proof (cases "length xs < nat (bt_max t)")
  case True
  then have "\<not> bt_max t < 1 + int (length xs)" by linarith
  then show ?thesis using assms True by (simp add: add_crumb_def last_of_def Let_def)
next
  case False
  define k where "k = length xs - nat (bt_max t)"
  have len: "length (bt_crumbs t) = nat (bt_max t)" using False assms by (simp add: last_of_def)
  then have "bt_crumbs (add_crumb stamp crumb t) = tl (bt_crumbs t @ [AList.update ''timestamp'' (JStr stamp) crumb])"
    by (simp add: add_crumb_def)
  also have "\<dots> = tl (drop k (xs @ [AList.update ''timestamp'' (JStr stamp) crumb]))"
    using assms by (simp add: k_def last_of_def)
  also have "\<dots> = drop (Suc k) (xs @ [AList.update ''timestamp'' (JStr stamp) crumb])"
    by (simp only: drop_Suc tl_drop)
  finally show ?thesis using False by (simp add: last_of_def k_def Suc_diff_le)
qed

text \<open>The breadcrumbs the calls add, with their time.\<close>

fun crumb_of :: "sdk_call \<Rightarrow> crumb list" where
  "crumb_of (stamp, answer, CrumbOp crumb) = [AList.update ''timestamp'' (JStr stamp) crumb]"
| "crumb_of _ = []"

definition crumbs_ok :: "crumb list \<Rightarrow> sdk_client \<Rightarrow> sdk_client \<Rightarrow> bool" where
  "crumbs_ok xs c0 c \<longleftrightarrow> map_option bt_max (sc_crumbs c) = map_option bt_max (sc_crumbs c0)
     \<and> (\<forall>t. sc_crumbs c = Some t \<longrightarrow> bt_crumbs t = last_of (nat (bt_max t)) xs)"

lemma flush_keeps_crumbs [simp]: "sc_crumbs (flush answer c) = sc_crumbs c"
  by (simp add: flush_def send_batch_def Let_def)

lemma log_keeps_crumbs [simp]: "sc_crumbs (log_entry_at E stamp answer level message extra c) = sc_crumbs c"
  by (simp add: log_entry_at_def Let_def)

lemma crumbs_ok_same: "crumbs_ok xs c0 c \<Longrightarrow> sc_crumbs c' = sc_crumbs c \<Longrightarrow> crumbs_ok xs c0 c'"
  by (simp add: crumbs_ok_def)

lemma bt_max_add [simp]: "bt_max (add_crumb stamp crumb t) = bt_max t"
  by (simp add: add_crumb_def Let_def)

lemma crumbs_ok_op: "crumbs_ok xs c0 c \<Longrightarrow> crumbs_ok (xs @ crumb_of x) c0 (run_op E x c)"
proof (induction E x c rule: run_op.induct)
  case (5 E stamp answer crumb c)
  then show ?case
    by (auto simp: crumbs_ok_def add_breadcrumb_def option.map_comp comp_def intro!: add_crumb_last [simplified])
next
  case (9 E stamp answer c)
  then show ?case by (auto simp: crumbs_ok_def close_client_def option.map_comp comp_def)
qed (auto simp: capture_error_def on_global_def case_prod_beta set_user_def set_tag_def elim!: crumbs_ok_same)

lemma crumbs_ok_calls:
  "crumbs_ok xs c0 c \<Longrightarrow> crumbs_ok (xs @ concat (map crumb_of calls)) c0 (run_calls E calls c)"
proof (induction calls arbitrary: xs c)
  case (Cons x calls)
  from Cons.IH [OF crumbs_ok_op [OF Cons.prems]] show ?case by simp
qed simp

text \<open>a client's breadcrumbs are exactly the last ones added, at most the configured number (20
  unless the options say otherwise), oldest first, each with the time it was added at; no other call
  changes them. A client without breadcrumbs never has any.\<close>

theorem sdk_keeps_the_last_breadcrumbs:
  assumes "new_client E opts console = Inr c0"
  shows "map_option bt_crumbs (sc_crumbs (run_calls E calls c0)) =
    (if so_breadcrumbs opts = Some False then None
     else Some (last_of (nat (the_or 20 (so_max_breadcrumbs opts))) (concat (map crumb_of calls))))"
proof -
  have c0: "sc_crumbs c0 = (if so_breadcrumbs opts = Some False then None
      else Some (new_tracker (so_max_breadcrumbs opts) console))"
    using assms by (auto simp: new_client_def split: sum.splits)
  have "crumbs_ok [] c0 c0" by (auto simp: crumbs_ok_def c0 new_tracker_def last_of_def)
  from crumbs_ok_calls [OF this, of calls E] have ok: "crumbs_ok (concat (map crumb_of calls)) c0 (run_calls E calls c0)"
    by simp
  show ?thesis
  proof (cases "so_breadcrumbs opts = Some False")
    case True
    then show ?thesis using ok c0 by (simp add: crumbs_ok_def)
  next
    case False
    then obtain t where "sc_crumbs (run_calls E calls c0) = Some t" "bt_max t = the_or 20 (so_max_breadcrumbs opts)"
      using ok c0 by (auto simp: crumbs_ok_def new_tracker_def)
    then show ?thesis using ok False by (simp add: crumbs_ok_def)
  qed
qed

theorem sdk_keeps_the_last_breadcrumbs_witness:
  "\<exists>c0. new_client sdk_sample sample_options [] = Inr c0
     \<and> map_option bt_crumbs (sc_crumbs (run_calls sdk_sample sample_calls c0)) =
         Some [[(''category'', JStr ''ui''), (''message'', JStr ''click''), (''timestamp'', JStr ''2026-01-01T10:00:01.000Z'')]]"
proof -
  from sample_client obtain c0 where c0: "new_client sdk_sample sample_options [] = Inr c0" ..
  have "map_option bt_crumbs (sc_crumbs (run_calls sdk_sample sample_calls c0)) =
      Some (last_of 2 (concat (map crumb_of sample_calls)))"
    using sdk_keeps_the_last_breadcrumbs [OF c0, of sample_calls] by (simp add: sample_options_def)
  also have "last_of 2 (concat (map crumb_of sample_calls)) =
      [[(''category'', JStr ''ui''), (''message'', JStr ''click''), (''timestamp'', JStr ''2026-01-01T10:00:01.000Z'')]]"
    by (simp add: sample_calls_def last_of_def)
  finally show ?thesis using c0 by blast
qed

section \<open>The console\<close>

text \<open>Closing the older of two clients first leaves its wrapper on the console: it keeps recording.\<close>

definition two_clients :: sdk_module where
  "two_clients =
     (let m0 = \<lparr>sm_clients = [], sm_default = None, sm_console = []\<rparr>;
          m1 = snd (create_client sdk_sample sample_options m0)
      in snd (create_client sdk_sample sample_options m1))"

theorem closed_client_still_records:
  "sm_console (close_at None 1 (close_at None 0 two_clients)) = [0]"
  by code_simp

text \<open>An \<open>init\<close> while an earlier \<open>close\<close> waits for its last request is forgotten when the wait ends.\<close>

theorem init_during_close_is_forgotten:
  "let m0 = snd (sdk_init sdk_sample None sample_options \<lparr>sm_clients = [], sm_default = None, sm_console = []\<rparr>);
       m1 = snd (sdk_init sdk_sample None sample_options (sdk_close_start None m0))
   in sm_default m1 = Some 1 \<and> sm_default (sdk_close_end m1) = None \<and> sc_timer (sm_clients (sdk_close_end m1) ! 1) \<noteq> None"
  by code_simp

text \<open>A batch the server did not take is gone: the answer plays no part in what follows.\<close>

lemma flush_ignores_answer: "flush answer c = flush answer' c"
  by (simp add: flush_def send_batch_def)

end
