(* ===== verification/RegexLang.thy ===== *)
theory RegexLang imports JsRegex begin

text \<open>
  The language of a regular expression, and that the backtracking search decides it: an expression
  anchored at both ends, without anchors inside, tests true exactly on the words of its language.
\<close>

primrec lang :: "re \<Rightarrow> string \<Rightarrow> bool" where
  "lang Eps w = (w = [])"
| "lang (Cls P) w = (\<exists>c. w = [c] \<and> P c)"
| "lang (Seq r s) w = (\<exists>u v. w = u @ v \<and> lang r u \<and> lang s v)"
| "lang (Alt r s) w = (lang r w \<or> lang s w)"
| "lang (Star r) w = (\<exists>us. w = concat us \<and> list_all (\<lambda>u. u \<noteq> [] \<and> lang r u) us)"
| "lang (Grp k r) w = lang r w"
| "lang Bol w = (w = [])"
| "lang Eol w = (w = [])"
| "lang WordB w = (w = [])"

primrec no_anchor :: "re \<Rightarrow> bool" where
  "no_anchor Eps = True"
| "no_anchor (Cls P) = True"
| "no_anchor (Seq r s) = (no_anchor r \<and> no_anchor s)"
| "no_anchor (Alt r s) = (no_anchor r \<and> no_anchor s)"
| "no_anchor (Star r) = no_anchor r"
| "no_anchor (Grp k r) = no_anchor r"
| "no_anchor Bol = False"
| "no_anchor Eol = False"
| "no_anchor WordB = False"

section \<open>What a match consumes is in the language\<close>

definition consumes :: "(string \<Rightarrow> bool) \<Rightarrow> pos \<Rightarrow> pos \<Rightarrow> bool" where
  "consumes A p q \<longleftrightarrow> (\<exists>w. fst (snd p) = w @ fst (snd q) \<and> fst q = rev w @ fst p \<and> A w)"

lemma star_consumes:
  assumes "\<And>p q. q \<in> set (f p) \<Longrightarrow> consumes A p q"
  shows "q \<in> set (star f n p) \<Longrightarrow>
    consumes (\<lambda>w. \<exists>us. w = concat us \<and> list_all (\<lambda>u. u \<noteq> [] \<and> A u) us) p q"
proof (induction n arbitrary: p)
  case 0
  then show ?case by (auto simp: consumes_def intro!: exI [of _ "[]"])
next
  case (Suc n)
  show ?case
  proof (cases "q = p")
    case True
    then show ?thesis by (auto simp: consumes_def intro!: exI [of _ "[]"])
  next
    case False
    with Suc.prems obtain m where m: "m \<in> set (f p)" "shorter m p" and q: "q \<in> set (star f n m)"
      by auto
    obtain u where u: "fst (snd p) = u @ fst (snd m)" "fst m = rev u @ fst p" "A u"
      using assms [OF m(1)] by (auto simp: consumes_def)
    with m(2) have "u \<noteq> []" by (auto simp: shorter_def)
    moreover obtain us where "fst (snd m) = concat us @ fst (snd q)" "fst q = rev (concat us) @ fst m"
      "list_all (\<lambda>u. u \<noteq> [] \<and> A u) us"
      using Suc.IH [OF q] by (auto simp: consumes_def)
    ultimately show ?thesis using u unfolding consumes_def
      by (intro exI [of _ "u @ concat us"] conjI exI [of _ "u # us"]) auto
  qed
qed

lemma mt_consumes: "q \<in> set (mt r p) \<Longrightarrow> no_anchor r \<Longrightarrow> consumes (lang r) p q"
proof (induction r arbitrary: p q)
  case (Cls P)
  then show ?case by (cases p) (auto simp: consumes_def split: list.splits if_splits)
next
  case (Seq r s)
  then obtain m where m: "m \<in> set (mt r p)" "q \<in> set (mt s m)" by auto
  obtain u where u: "fst (snd p) = u @ fst (snd m)" "fst m = rev u @ fst p" "lang r u"
    using Seq.IH(1) [OF m(1)] Seq.prems(2) by (auto simp: consumes_def)
  obtain v where v: "fst (snd m) = v @ fst (snd q)" "fst q = rev v @ fst m" "lang s v"
    using Seq.IH(2) [OF m(2)] Seq.prems(2) by (auto simp: consumes_def)
  show ?case unfolding consumes_def
    by (rule exI [of _ "u @ v"]) (use u v in auto)
next
  case (Alt r s)
  then consider "q \<in> set (mt r p)" | "q \<in> set (mt s p)" by auto
  then have "consumes (lang r) p q \<or> consumes (lang s) p q"
    using Alt.IH Alt.prems(2) by cases simp_all
  then show ?case unfolding consumes_def lang.simps by blast
next
  case (Star r)
  then show ?case using star_consumes [of "mt r" "lang r"] by simp
next
  case (Grp k r)
  then obtain m where m: "m \<in> set (mt r p)" "q = capture k (fst (snd p)) m" by auto
  with Grp.IH [OF m(1)] Grp.prems(2) show ?case by (cases m) (simp add: consumes_def capture_def)
qed (simp_all add: consumes_def)

section \<open>Every word of the language is found\<close>

lemma star_finds:
  assumes "\<And>u b rest g. A u \<Longrightarrow> \<exists>g'. (rev u @ b, rest, g') \<in> set (f (b, u @ rest, g))"
  shows "list_all (\<lambda>u. u \<noteq> [] \<and> A u) us \<Longrightarrow> length (concat us) \<le> n \<Longrightarrow>
    \<exists>g'. (rev (concat us) @ b, rest, g') \<in> set (star f n (b, concat us @ rest, g))"
proof (induction us arbitrary: b g n)
  case Nil
  then show ?case by (cases n) auto
next
  case (Cons u us)
  then have u: "A u" "u \<noteq> []" by auto
  with Cons.prems obtain m where n: "n = Suc m" by (cases n) auto
  with Cons.prems u have len: "length (concat us) \<le> m" by (cases u) auto
  obtain g1 where "(rev u @ b, concat us @ rest, g1) \<in> set (f (b, u @ concat us @ rest, g))"
    using assms [OF u(1)] by blast
  moreover have "shorter (rev u @ b, concat us @ rest, g1) (b, u @ concat us @ rest, g)"
    using u by (simp add: shorter_def)
  moreover obtain g2 where
    "(rev (concat us) @ rev u @ b, rest, g2) \<in> set (star f m (rev u @ b, concat us @ rest, g1))"
    using Cons.IH [of m "rev u @ b" g1] Cons.prems len by auto
  ultimately show ?case unfolding n by fastforce
qed

lemma mt_finds: "lang r w \<Longrightarrow> no_anchor r \<Longrightarrow> \<exists>g'. (rev w @ b, rest, g') \<in> set (mt r (b, w @ rest, g))"
proof (induction r arbitrary: w b rest g)
  case (Seq r s)
  then obtain u v where w: "w = u @ v" "lang r u" "lang s v" by auto
  obtain g1 where "(rev u @ b, v @ rest, g1) \<in> set (mt r (b, u @ v @ rest, g))"
    using Seq.IH(1) [OF w(2)] Seq.prems(2) by fastforce
  moreover obtain g2 where "(rev v @ rev u @ b, rest, g2) \<in> set (mt s (rev u @ b, v @ rest, g1))"
    using Seq.IH(2) [OF w(3)] Seq.prems(2) by fastforce
  ultimately show ?case using w(1) by force
next
  case (Alt r s)
  then show ?case by fastforce
next
  case (Star r)
  then obtain us where "w = concat us" and "list_all (\<lambda>u. u \<noteq> [] \<and> lang r u) us" by auto
  then show ?case using star_finds [of "lang r" "mt r" us] Star.IH Star.prems(2) by simp
next
  case (Grp k r)
  then obtain g1 where "(rev w @ b, rest, g1) \<in> set (mt r (b, w @ rest, g))" by fastforce
  then show ?case by (force simp: capture_def)
qed auto

text \<open>\<open>/^r$/.test(s)\<close> decides the language of \<open>r\<close>.\<close>

definition anchored :: "re \<Rightarrow> re" where
  "anchored r = Seq Bol (Seq r Eol)"

lemma anchored_ways: "mt (anchored r) ([], s, []) = filter (\<lambda>q. fst (snd q) = []) (mt r ([], s, []))"
proof -
  have "concat (map (mt Eol) qs) = filter (\<lambda>q. fst (snd q) = []) qs" for qs
    by (induction qs) auto
  then show ?thesis by (simp add: anchored_def)
qed

lemma test_anchored:
  assumes "no_anchor r"
  shows "test (anchored r) s \<longleftrightarrow> lang r s"
proof -
  have "test (anchored r) s \<longleftrightarrow> mt (anchored r) ([], s, []) \<noteq> []"
    by (simp add: test_def anchored_def exec_Bol match_here_def del: mt.simps split: list.splits)
  also have "\<dots> \<longleftrightarrow> (\<exists>q \<in> set (mt r ([], s, [])). fst (snd q) = [])"
    unfolding anchored_ways filter_empty_conv by blast
  also have "\<dots> \<longleftrightarrow> lang r s"
  proof
    assume "\<exists>q \<in> set (mt r ([], s, [])). fst (snd q) = []"
    then obtain q where q: "q \<in> set (mt r ([], s, []))" "fst (snd q) = []" by blast
    from mt_consumes [OF q(1) assms] q(2) show "lang r s" by (auto simp: consumes_def)
  next
    assume "lang r s"
    then obtain g where "(rev s @ [], [], g) \<in> set (mt r ([], s @ [], []))"
      using mt_finds [OF _ assms] by blast
    then show "\<exists>q \<in> set (mt r ([], s, [])). fst (snd q) = []" by force
  qed
  finally show ?thesis .
qed

section \<open>The language of the derived forms\<close>

lemma lang_lit: "lang (lit s) w \<longleftrightarrow> w = s"
proof (induction s arbitrary: w)
  case (Cons c s)
  then show ?case by (cases s) (auto simp: lit_def chr_def)
qed (simp add: lit_def)

lemma lang_opt: "lang (opt r) w \<longleftrightarrow> w = [] \<or> lang r w"
  by (auto simp: opt_def)

lemma singletons: "list_all (\<lambda>u. u \<noteq> [] \<and> (\<exists>c. u = [c] \<and> P c)) us \<Longrightarrow> list_all P (concat us)"
  by (induction us) auto

lemma lang_plus_Cls: "lang (plus (Cls P)) w \<longleftrightarrow> w \<noteq> [] \<and> list_all P w"
proof
  assume "lang (plus (Cls P)) w"
  then show "w \<noteq> [] \<and> list_all P w" using singletons by (auto simp: plus_def)
next
  assume w: "w \<noteq> [] \<and> list_all P w"
  then obtain c v where v: "w = c # v" "P c" "list_all P v" by (cases w) auto
  let ?us = "map (\<lambda>c. [c]) v"
  have "v = concat ?us" by (induction v) auto
  moreover have "list_all (\<lambda>u. u \<noteq> [] \<and> lang (Cls P) u) ?us" using v(3) by (simp add: list_all_iff)
  ultimately have "lang (Star (Cls P)) v" unfolding lang.simps by blast
  then have "lang (Seq (Cls P) (Star (Cls P))) ([c] @ v)" using v(2) unfolding lang.simps(2,3) by blast
  then show "lang (plus (Cls P)) w" by (simp add: plus_def v(1))
qed

lemma no_anchor_derived [simp]:
  "no_anchor (chr c)" "no_anchor (opt r) = no_anchor r" "no_anchor (plus r) = no_anchor r"
  "no_anchor digit" "no_anchor (oneof s)"
  by (simp_all add: chr_def opt_def plus_def digit_def oneof_def)

lemma no_anchor_lit [simp]: "no_anchor (lit s)"
proof (induction s)
  case (Cons c s)
  then show ?case by (cases s) (simp_all add: lit_def)
qed (simp add: lit_def)

lemma no_anchor_rtimes [simp]: "no_anchor r \<Longrightarrow> no_anchor (rtimes n r)"
  by (induction n) auto

section \<open>The characters of a language\<close>

primrec lang_in :: "(char \<Rightarrow> bool) \<Rightarrow> re \<Rightarrow> bool" where
  "lang_in P Eps = True"
| "lang_in P (Cls Q) = (\<forall>c. Q c \<longrightarrow> P c)"
| "lang_in P (Seq r s) = (lang_in P r \<and> lang_in P s)"
| "lang_in P (Alt r s) = (lang_in P r \<and> lang_in P s)"
| "lang_in P (Star r) = lang_in P r"
| "lang_in P (Grp k r) = lang_in P r"
| "lang_in P Bol = True"
| "lang_in P Eol = True"
| "lang_in P WordB = True"

lemma lang_chars: "lang_in P r \<Longrightarrow> lang r w \<Longrightarrow> list_all P w"
proof (induction r arbitrary: w)
  case (Star r)
  then obtain us where w: "w = concat us" and us: "list_all (\<lambda>u. u \<noteq> [] \<and> lang r u) us" by auto
  from us have "list_all (list_all P) us"
    using Star by (auto simp: list_all_iff)
  then show ?case unfolding w by (auto simp: list_all_iff)
qed auto

lemma lang_in_rtimes: "lang_in P r \<Longrightarrow> lang_in P (rtimes n r)"
  by (induction n) simp_all

lemma lang_in_lit: "lang_in P (lit s) \<longleftrightarrow> list_all P s"
proof (induction s)
  case (Cons c s)
  then show ?case by (cases s) (auto simp: lit_def chr_def)
qed (simp add: lit_def)

end
