(* ===== verification/DateTimes.thy ===== *)
theory DateTimes imports RegexLang begin

text \<open>
  The timestamps the API accepts: \<open>dateTimeRegex\<close> of \<open>backend/src/validation/schemas.ts\<close>, and the
  calendar it stands for.
\<close>

section \<open>The expression\<close>

text \<open>A class of digits, \<open>[048]\<close>, and the two-digit groups made of two of them.\<close>

definition dset :: "nat list \<Rightarrow> re" where
  "dset ds = Cls (\<lambda>c. is_digit c \<and> digit_val c \<in> set ds)"

definition dd :: "nat list \<Rightarrow> nat list \<Rightarrow> re" where
  "dd xs ys = Seq (dset xs) (dset ys)"

abbreviation any_digit :: "nat list" where
  "any_digit \<equiv> [0..<10]"

text \<open>\<^verbatim>\<open>\d\d[2468][048]|\d\d[13579][26]|\d\d0[48]|[02468][048]00|[13579][26]00\<close>\<close>

definition leap_year_re :: re where
  "leap_year_re = alts
     [Seq (dd any_digit any_digit) (dd [2, 4, 6, 8] [0, 4, 8]),
      Seq (dd any_digit any_digit) (dd [1, 3, 5, 7, 9] [2, 6]),
      Seq (dd any_digit any_digit) (dd [0] [4, 8]),
      Seq (dd [0, 2, 4, 6, 8] [0, 4, 8]) (dd [0] [0]),
      Seq (dd [1, 3, 5, 7, 9] [2, 6]) (dd [0] [0])]"

text \<open>The month and day alternatives.\<close>

definition month_day_re :: re where
  "month_day_re = alts
     [Seq (Grp 4 (Alt (dd [0] [1, 3, 5, 7, 8]) (dd [1] [0, 2])))
        (Seq (lit ''-'') (Grp 5 (alts [dd [0] [1..<10], dd [1, 2] any_digit, dd [3] [0, 1]]))),
      Seq (Grp 6 (Alt (dd [0] [4, 6, 9]) (dd [1] [1])))
        (Seq (lit ''-'') (Grp 7 (alts [dd [0] [1..<10], dd [1, 2] any_digit, dd [3] [0]]))),
      Seq (Grp 8 (dd [0] [2]))
        (Seq (lit ''-'') (Grp 9 (alts [dd [0] [1..<10], dd [1] any_digit, dd [2] [0..<9]])))]"

definition date_re :: re where
  "date_re = Grp 1 (Alt
     (Seq (Grp 2 leap_year_re) (lit ''-02-29''))
     (Seq (Seq (dd any_digit any_digit) (dd any_digit any_digit)) (Seq (lit ''-'') (Grp 3 month_day_re))))"

text \<open>\<^verbatim>\<open>([01]\d|2[0-3]):[0-5]\d(:[0-5]\d(\.\d+)?)?(Z)\<close>\<close>

definition seconds_re :: re where
  "seconds_re = Grp 11 (Seq (lit '':'') (Seq (dd [0..<6] any_digit)
     (opt (Grp 12 (Seq (lit ''.'') (plus digit))))))"

definition time_re :: re where
  "time_re = Seq (Grp 10 (Alt (dd [0, 1] any_digit) (dd [2] [0..<4])))
     (Seq (lit '':'') (Seq (dd [0..<6] any_digit) (Seq (opt seconds_re) (Grp 13 (lit ''Z'')))))"

definition date_time_regex :: re where
  "date_time_regex = anchored (Seq date_re (Seq (lit ''T'') time_re))"

section \<open>The calendar\<close>

definition leap :: "nat \<Rightarrow> bool" where
  "leap y \<longleftrightarrow> y mod 4 = 0 \<and> (y mod 100 \<noteq> 0 \<or> y mod 400 = 0)"

definition month_days :: "nat \<Rightarrow> nat \<Rightarrow> nat" where
  "month_days y m =
     (if m = 2 then (if leap y then 29 else 28) else if m \<in> {4, 6, 9, 11} then 30 else 31)"

definition two_digits :: "nat \<Rightarrow> string" where
  "two_digits n = [digit_char (n div 10), digit_char (n mod 10)]"

definition four_digits :: "nat \<Rightarrow> string" where
  "four_digits n = two_digits (n div 100) @ two_digits (n mod 100)"

text \<open>A time of day to the minute, to the second, or with a fraction of it.\<close>

datatype seconds = NoSeconds | Seconds nat "string option"

fun seconds_text :: "seconds \<Rightarrow> string" where
  "seconds_text NoSeconds = []"
| "seconds_text (Seconds s None) = '':'' @ two_digits s"
| "seconds_text (Seconds s (Some f)) = '':'' @ two_digits s @ ''.'' @ f"

fun seconds_ok :: "seconds \<Rightarrow> bool" where
  "seconds_ok NoSeconds = True"
| "seconds_ok (Seconds s None) = (s < 60)"
| "seconds_ok (Seconds s (Some f)) = (s < 60 \<and> f \<noteq> [] \<and> list_all is_digit f)"

record utc_time =
  ut_year :: nat
  ut_month :: nat
  ut_day :: nat
  ut_hour :: nat
  ut_minute :: nat
  ut_seconds :: seconds

definition date_ok :: "nat \<Rightarrow> nat \<Rightarrow> nat \<Rightarrow> bool" where
  "date_ok y m d \<longleftrightarrow> y < 10000 \<and> 1 \<le> m \<and> m \<le> 12 \<and> 1 \<le> d \<and> d \<le> month_days y m"

definition utc_ok :: "utc_time \<Rightarrow> bool" where
  "utc_ok t \<longleftrightarrow> date_ok (ut_year t) (ut_month t) (ut_day t) \<and> ut_hour t < 24 \<and> ut_minute t < 60
     \<and> seconds_ok (ut_seconds t)"

definition date_text :: "nat \<Rightarrow> nat \<Rightarrow> nat \<Rightarrow> string" where
  "date_text y m d = four_digits y @ ''-'' @ two_digits m @ ''-'' @ two_digits d"

definition utc_text :: "utc_time \<Rightarrow> string" where
  "utc_text t = date_text (ut_year t) (ut_month t) (ut_day t) @ ''T'' @ two_digits (ut_hour t) @ '':''
     @ two_digits (ut_minute t) @ seconds_text (ut_seconds t) @ ''Z''"

section \<open>Digits\<close>

lemma digit_char_inverse:
  assumes "n < 10"
  shows "is_digit (digit_char n)" and "digit_val (digit_char n) = n"
  using assms code_digit_char is_digit_digit_char by (simp_all add: digit_val_def)

lemma digit_char_val: "is_digit c \<Longrightarrow> digit_char (digit_val c) = c"
  by (simp add: digit_char_def digit_val_def is_digit_def code_def)

lemma digit_val_bound: "is_digit c \<Longrightarrow> digit_val c < 10"
  by (auto simp: digit_val_def is_digit_def)

definition places :: "nat list \<Rightarrow> nat list \<Rightarrow> nat \<Rightarrow> bool" where
  "places xs ys n \<longleftrightarrow> n div 10 \<in> set xs \<and> n mod 10 \<in> set ys"

lemma lang_dd: "lang (dd xs ys) w \<longleftrightarrow>
    (\<exists>n < 100. w = two_digits n \<and> places xs ys n)"
proof
  assume "lang (dd xs ys) w"
  then obtain a b where w: "w = [a, b]" and d: "is_digit a" "is_digit b"
    and m: "digit_val a \<in> set xs" "digit_val b \<in> set ys"
    by (auto simp: dd_def dset_def)
  let ?n = "10 * digit_val a + digit_val b"
  have "digit_val a < 10" "digit_val b < 10" using d digit_val_bound by blast+
  then have n: "?n < 100" "?n div 10 = digit_val a" "?n mod 10 = digit_val b" by auto
  then have "w = two_digits ?n" by (simp add: w two_digits_def digit_char_val d)
  moreover have "places xs ys ?n" using n m by (simp only: places_def)
  ultimately show "\<exists>n < 100. w = two_digits n \<and> places xs ys n" using n(1) by blast
next
  assume "\<exists>n < 100. w = two_digits n \<and> places xs ys n"
  then obtain n where n: "n < 100" "w = two_digits n" "n div 10 \<in> set xs" "n mod 10 \<in> set ys"
    unfolding places_def by blast
  then have d: "n div 10 < 10" "n mod 10 < 10" by auto
  have "lang (dset xs) [digit_char (n div 10)]" "lang (dset ys) [digit_char (n mod 10)]"
    using n(3,4) by (simp_all add: dset_def digit_char_inverse [OF d(1)] digit_char_inverse [OF d(2)])
  moreover have "w = [digit_char (n div 10)] @ [digit_char (n mod 10)]" by (simp add: n(2) two_digits_def)
  ultimately show "lang (dd xs ys) w" unfolding dd_def lang.simps(3) by blast
qed

text \<open>Checks over the two-digit numbers.\<close>

lemma all_below_100: "list_all P [0..<100] \<Longrightarrow> n < 100 \<Longrightarrow> P n"
  by (simp add: list_all_iff)

lemma lang_year: "lang (Seq (dd xs ys) (dd zs us)) w \<longleftrightarrow>
    (\<exists>p q. p < 100 \<and> q < 100 \<and> w = two_digits p @ two_digits q \<and> places xs ys p
       \<and> places zs us q)"
  unfolding lang.simps(3) lang_dd by blast

definition leap_end :: "nat \<Rightarrow> bool" where
  "leap_end q \<longleftrightarrow>
     places [2, 4, 6, 8] [0, 4, 8] q
     \<or> places [1, 3, 5, 7, 9] [2, 6] q
     \<or> places [0] [4, 8] q"

lemma leap_end: "q < 100 \<Longrightarrow> leap_end q \<longleftrightarrow> q mod 4 = 0 \<and> q \<noteq> 0"
  by (rule all_below_100 [of "\<lambda>q. leap_end q \<longleftrightarrow> q mod 4 = 0 \<and> q \<noteq> 0"])
    (simp add: leap_end_def places_def upt_rec)

definition leap_start :: "nat \<Rightarrow> bool" where
  "leap_start p \<longleftrightarrow>
     places [0, 2, 4, 6, 8] [0, 4, 8] p
     \<or> places [1, 3, 5, 7, 9] [2, 6] p"

lemma leap_start: "p < 100 \<Longrightarrow> leap_start p \<longleftrightarrow> p mod 4 = 0"
  by (rule all_below_100 [of "\<lambda>p. leap_start p \<longleftrightarrow> p mod 4 = 0"])
    (simp add: leap_start_def places_def upt_rec)

lemma leap_parts:
  assumes "p < 100" and "q < 100"
  shows "leap (100 * p + q) \<longleftrightarrow> (q mod 4 = 0 \<and> q \<noteq> 0 \<or> q = 0 \<and> p mod 4 = 0)"
proof -
  have "100 * p + q = q + 4 * (25 * p)" by simp
  then have "(100 * p + q) mod 4 = q mod 4" by (simp only: mod_mult_self2)
  moreover have "(100 * p + q) mod 100 = q" using assms by simp
  moreover have "(100 * p) mod (100 * 4) = 100 * (p mod 4)" by (rule mod_mult_mult1)
  then have "(100 * p) mod 400 = 0 \<longleftrightarrow> p mod 4 = 0" by simp
  ultimately show ?thesis unfolding leap_def by (cases "q = 0") auto
qed

lemma four_digits_parts: "q < 100 \<Longrightarrow> four_digits (100 * p + q) = two_digits p @ two_digits q"
  by (simp add: four_digits_def)

lemma year_parts:
  "(\<exists>p q. p < 100 \<and> q < 100 \<and> w = two_digits p @ two_digits q \<and> P p q) \<longleftrightarrow>
   (\<exists>y < 10000. w = four_digits y \<and> P (y div 100) (y mod 100))"
proof
  assume "\<exists>p q. p < 100 \<and> q < 100 \<and> w = two_digits p @ two_digits q \<and> P p q"
  then obtain p q where "p < 100" "q < 100" "w = two_digits p @ two_digits q" "P p q" by blast
  then show "\<exists>y < 10000. w = four_digits y \<and> P (y div 100) (y mod 100)"
    by (intro exI [of _ "100 * p + q"]) (simp add: four_digits_parts)
next
  assume "\<exists>y < 10000. w = four_digits y \<and> P (y div 100) (y mod 100)"
  then obtain y where "y < 10000" "w = four_digits y" "P (y div 100) (y mod 100)" by blast
  then show "\<exists>p q. p < 100 \<and> q < 100 \<and> w = two_digits p @ two_digits q \<and> P p q"
    by (intro exI [of _ "y div 100"] exI [of _ "y mod 100"]) (auto simp: four_digits_def)
qed

lemma digit_places: "p < 100 \<Longrightarrow> places any_digit any_digit p"
  by (auto simp: places_def)

definition year_text :: "string \<Rightarrow> nat \<Rightarrow> nat \<Rightarrow> bool" where
  "year_text w p q \<longleftrightarrow> p < 100 \<and> q < 100 \<and> w = two_digits p @ two_digits q"

lemma lang_year': "lang (Seq (dd xs ys) (dd zs us)) w \<longleftrightarrow>
    (\<exists>p q. year_text w p q \<and> places xs ys p \<and> places zs us q)"
  unfolding lang_year year_text_def by blast

lemma lang_year_any: "lang (Seq (dd any_digit any_digit) (dd zs us)) w \<longleftrightarrow>
    (\<exists>p q. year_text w p q \<and> places zs us q)"
  unfolding lang_year' using digit_places unfolding year_text_def by blast

lemma year_parts': "(\<exists>p q. year_text w p q \<and> P p q) \<longleftrightarrow> (\<exists>y < 10000. w = four_digits y \<and> P (y div 100) (y mod 100))"
  unfolding year_parts [symmetric] year_text_def by blast

lemma lang_any_year: "lang (Seq (dd any_digit any_digit) (dd any_digit any_digit)) w \<longleftrightarrow>
    (\<exists>y < 10000. w = four_digits y)"
  unfolding lang_year_any year_parts' using digit_places [of "_ mod 100"] by simp

lemma leap_alternatives:
  assumes "p < 100" and "q < 100"
  shows "leap (100 * p + q) \<longleftrightarrow> leap_end q \<or> leap_start p \<and> places [0] [0] q"
proof -
  have "places [0] [0] q \<longleftrightarrow> q = 0" by (auto simp: places_def)
  then show ?thesis unfolding leap_parts [OF assms] leap_end [OF assms(2)] leap_start [OF assms(1)] by blast
qed

lemma lang_leap_year: "lang leap_year_re w \<longleftrightarrow> (\<exists>y < 10000. w = four_digits y \<and> leap y)"
proof -
  have "lang leap_year_re w \<longleftrightarrow>
      (\<exists>p q. year_text w p q \<and> (leap_end q \<or> leap_start p \<and> places [0] [0] q))"
    unfolding leap_year_re_def alts.simps lang.simps(4) lang_year_any
    unfolding lang_year' leap_end_def leap_start_def by blast
  also have "\<dots> \<longleftrightarrow> (\<exists>p q. year_text w p q \<and> leap (100 * p + q))"
    unfolding year_text_def by (simp only: leap_alternatives cong: conj_cong)
  also have "\<dots> \<longleftrightarrow> (\<exists>y < 10000. w = four_digits y \<and> leap y)"
    unfolding year_parts' by simp
  finally show ?thesis .
qed

section \<open>Months, days and times\<close>

definition number_text :: "string \<Rightarrow> nat \<Rightarrow> bool" where
  "number_text w n \<longleftrightarrow> n < 100 \<and> w = two_digits n"

lemma lang_dd': "lang (dd xs ys) w \<longleftrightarrow> (\<exists>n. number_text w n \<and> places xs ys n)"
  unfolding lang_dd number_text_def by blast

lemma number_cong: "(\<And>n. n < 100 \<Longrightarrow> P n \<longleftrightarrow> Q n) \<Longrightarrow>
    (\<exists>n. number_text w n \<and> P n) \<longleftrightarrow> (\<exists>n. number_text w n \<and> Q n)"
  unfolding number_text_def by blast

definition long_month :: "nat \<Rightarrow> bool" where
  "long_month n \<longleftrightarrow> places [0] [1, 3, 5, 7, 8] n \<or> places [1] [0, 2] n"

definition short_month :: "nat \<Rightarrow> bool" where
  "short_month n \<longleftrightarrow> places [0] [4, 6, 9] n \<or> places [1] [1] n"

definition day_to :: "nat \<Rightarrow> nat list \<Rightarrow> nat list \<Rightarrow> nat \<Rightarrow> bool" where
  "day_to k xs ys n \<longleftrightarrow> places [0] [1..<10] n
     \<or> places xs any_digit n \<or> places [k] ys n"

lemma long_month: "n < 100 \<Longrightarrow> long_month n \<longleftrightarrow> n \<in> set [1, 3, 5, 7, 8, 10, 12]"
  by (rule all_below_100 [of "\<lambda>n. long_month n \<longleftrightarrow> n \<in> set [1, 3, 5, 7, 8, 10, 12]"]) code_simp

lemma short_month: "n < 100 \<Longrightarrow> short_month n \<longleftrightarrow> n \<in> set [4, 6, 9, 11]"
  by (rule all_below_100 [of "\<lambda>n. short_month n \<longleftrightarrow> n \<in> set [4, 6, 9, 11]"]) code_simp

lemma day_to_31: "n < 100 \<Longrightarrow> day_to 3 [1, 2] [0, 1] n \<longleftrightarrow> 1 \<le> n \<and> n \<le> 31"
  by (rule all_below_100 [of "\<lambda>n. day_to 3 [1, 2] [0, 1] n \<longleftrightarrow> 1 \<le> n \<and> n \<le> 31"]) code_simp

lemma day_to_30: "n < 100 \<Longrightarrow> day_to 3 [1, 2] [0] n \<longleftrightarrow> 1 \<le> n \<and> n \<le> 30"
  by (rule all_below_100 [of "\<lambda>n. day_to 3 [1, 2] [0] n \<longleftrightarrow> 1 \<le> n \<and> n \<le> 30"]) code_simp

lemma day_to_28: "n < 100 \<Longrightarrow> day_to 2 [1] [0..<9] n \<longleftrightarrow> 1 \<le> n \<and> n \<le> 28"
  by (rule all_below_100 [of "\<lambda>n. day_to 2 [1] [0..<9] n \<longleftrightarrow> 1 \<le> n \<and> n \<le> 28"]) code_simp

lemma lang_long_month: "lang (Alt (dd [0] [1, 3, 5, 7, 8]) (dd [1] [0, 2])) w \<longleftrightarrow>
    (\<exists>n. number_text w n \<and> n \<in> set [1, 3, 5, 7, 8, 10, 12])"
proof -
  show ?thesis by (rule trans [OF _ number_cong [OF long_month]]) (unfold lang.simps(4) lang_dd' long_month_def, blast)
qed

lemma lang_short_month: "lang (Alt (dd [0] [4, 6, 9]) (dd [1] [1])) w \<longleftrightarrow>
    (\<exists>n. number_text w n \<and> n \<in> set [4, 6, 9, 11])"
proof -
  show ?thesis by (rule trans [OF _ number_cong [OF short_month]]) (unfold lang.simps(4) lang_dd' short_month_def, blast)
qed

lemma lang_february: "lang (dd [0] [2]) w \<longleftrightarrow> (\<exists>n. number_text w n \<and> n = 2)"
proof -
  have "places [0] [2] n \<longleftrightarrow> n = 2" if "n < 100" for n
    by (auto simp: places_def div_eq_0_iff)
  then show ?thesis unfolding lang_dd' by (rule number_cong)
qed

lemma lang_day: "lang (alts [dd [0] [1..<10], dd xs any_digit, dd [k] ys]) w \<longleftrightarrow>
    (\<exists>n. number_text w n \<and> day_to k xs ys n)"
  unfolding alts.simps lang.simps(4) lang_dd' day_to_def by blast

text \<open>The month and day part: the days of a year that is not a leap year.\<close>

definition common_date :: "nat \<Rightarrow> nat \<Rightarrow> bool" where
  "common_date m d \<longleftrightarrow> 1 \<le> m \<and> m \<le> 12 \<and> 1 \<le> d \<and>
     d \<le> (if m = 2 then 28 else if m \<in> {4, 6, 9, 11} then 30 else 31)"

lemma common_date_parts: "common_date m d \<longleftrightarrow>
    m \<in> set [1, 3, 5, 7, 8, 10, 12] \<and> 1 \<le> d \<and> d \<le> 31
    \<or> m \<in> set [4, 6, 9, 11] \<and> 1 \<le> d \<and> d \<le> 30
    \<or> m = 2 \<and> 1 \<le> d \<and> d \<le> 28"
proof -
  have "1 \<le> m \<and> m \<le> 12 \<longleftrightarrow> m \<in> set [1, 3, 5, 7, 8, 10, 12] \<or> m \<in> {4, 6, 9, 11} \<or> m = 2"
    unfolding set_simps insert_iff empty_iff by presburger
  then show ?thesis unfolding common_date_def by auto
qed

definition dash_text :: "string \<Rightarrow> nat \<Rightarrow> nat \<Rightarrow> bool" where
  "dash_text w m d \<longleftrightarrow> m < 100 \<and> d < 100 \<and> w = two_digits m @ ''-'' @ two_digits d"

lemma lang_dash:
  assumes "\<And>u. lang r u \<longleftrightarrow> (\<exists>n. number_text u n \<and> P n)" and "\<And>v. lang t v \<longleftrightarrow> (\<exists>n. number_text v n \<and> Q n)"
  shows "lang (Seq (Grp i r) (Seq (lit ''-'') (Grp j t))) w \<longleftrightarrow> (\<exists>m d. dash_text w m d \<and> P m \<and> Q d)"
proof -
  have "lang (Seq (Grp i r) (Seq (lit ''-'') (Grp j t))) w \<longleftrightarrow> (\<exists>u v. w = u @ ''-'' @ v \<and> lang r u \<and> lang t v)"
    unfolding lang.simps(3,6) lang_lit by blast
  then show ?thesis unfolding assms number_text_def dash_text_def by blast
qed

lemmas lang_long = lang_dash [OF lang_long_month lang_day]
lemmas lang_short = lang_dash [OF lang_short_month lang_day]
lemmas lang_second = lang_dash [OF lang_february lang_day]

lemma dash_cong: "(\<And>m d. m < 100 \<Longrightarrow> d < 100 \<Longrightarrow> P m d \<longleftrightarrow> Q m d) \<Longrightarrow>
    (\<exists>m d. dash_text w m d \<and> P m d) \<longleftrightarrow> (\<exists>m d. dash_text w m d \<and> Q m d)"
  unfolding dash_text_def by blast

lemma lang_month_day: "lang month_day_re w \<longleftrightarrow> (\<exists>m d. dash_text w m d \<and> common_date m d)"
proof -
  have "lang month_day_re w \<longleftrightarrow> (\<exists>m d. dash_text w m d \<and>
      (m \<in> set [1, 3, 5, 7, 8, 10, 12] \<and> day_to 3 [1, 2] [0, 1] d
       \<or> m \<in> set [4, 6, 9, 11] \<and> day_to 3 [1, 2] [0] d \<or> m = 2 \<and> day_to 2 [1] [0..<9] d))"
    unfolding month_day_re_def alts.simps(2,3) [of "Seq _ _"] lang.simps(4) lang_long lang_short lang_second
    by blast
  also have "\<dots> \<longleftrightarrow> (\<exists>m d. dash_text w m d \<and> common_date m d)"
    by (rule dash_cong) (simp only: common_date_parts day_to_31 day_to_30 day_to_28)
  finally show ?thesis .
qed

lemma common_date_100: "common_date m d \<Longrightarrow> m < 100 \<and> d < 100"
  by (auto simp: common_date_def split: if_splits)

lemma lang_common_date: "lang month_day_re w \<longleftrightarrow>
    (\<exists>m d. w = two_digits m @ ''-'' @ two_digits d \<and> common_date m d)"
  unfolding lang_month_day dash_text_def using common_date_100 by blast

lemma date_ok_parts: "date_ok y m d \<longleftrightarrow> y < 10000 \<and> (common_date m d \<or> leap y \<and> m = 2 \<and> d = 29)"
  by (auto simp: date_ok_def common_date_def month_days_def)

lemma february_29: "''-02-29'' = ''-'' @ two_digits 2 @ ''-'' @ two_digits 29"
  by code_simp

lemma lang_date: "lang date_re w \<longleftrightarrow> (\<exists>y m d. w = date_text y m d \<and> date_ok y m d)"
proof -
  have "lang date_re w \<longleftrightarrow>
      (\<exists>u. w = u @ ''-02-29'' \<and> lang leap_year_re u)
      \<or> (\<exists>u v. w = u @ ''-'' @ v \<and> lang (Seq (dd any_digit any_digit) (dd any_digit any_digit)) u \<and> lang month_day_re v)"
    unfolding date_re_def lang.simps(3) [of "Grp _ _"] lang.simps(3) [of "Seq _ _"] lang.simps(3) [of "lit _"]
      lang.simps(4,6) lang_lit by blast
  also have "\<dots> \<longleftrightarrow> (\<exists>y < 10000. w = four_digits y @ ''-'' @ two_digits 2 @ ''-'' @ two_digits 29 \<and> leap y)
      \<or> (\<exists>y < 10000. \<exists>m d. w = four_digits y @ ''-'' @ two_digits m @ ''-'' @ two_digits d \<and> common_date m d)"
    unfolding lang_leap_year lang_any_year lang_common_date february_29 by blast
  finally show ?thesis unfolding date_ok_parts date_text_def by blast
qed

lemma number_below:
  assumes "\<And>n. n < 100 \<Longrightarrow> P n \<longleftrightarrow> n < k" and "k \<le> 100"
  shows "(\<exists>n. number_text w n \<and> P n) \<longleftrightarrow> (\<exists>n < k. w = two_digits n)"
proof -
  have "(\<exists>n. number_text w n \<and> P n) \<longleftrightarrow> (\<exists>n. number_text w n \<and> n < k)"
    by (rule number_cong) (rule assms(1))
  also have "\<dots> \<longleftrightarrow> (\<exists>n < k. w = two_digits n)"
    unfolding number_text_def using assms(2) order_less_le_trans by blast
  finally show ?thesis .
qed

lemma hours: "n < 100 \<Longrightarrow> places [0, 1] any_digit n \<or> places [2] [0..<4] n \<longleftrightarrow> n < 24"
  by (rule all_below_100 [of "\<lambda>n. places [0, 1] any_digit n \<or> places [2] [0..<4] n \<longleftrightarrow> n < 24"]) code_simp

lemma lang_hour: "lang (Alt (dd [0, 1] any_digit) (dd [2] [0..<4])) w \<longleftrightarrow> (\<exists>h < 24. w = two_digits h)"
proof -
  have "lang (Alt (dd [0, 1] any_digit) (dd [2] [0..<4])) w \<longleftrightarrow>
      (\<exists>n. number_text w n \<and> (places [0, 1] any_digit n \<or> places [2] [0..<4] n))"
    unfolding lang.simps(4) lang_dd' by blast
  then show ?thesis using number_below [OF hours] by simp
qed

lemma sixty: "n < 100 \<Longrightarrow> places [0..<6] any_digit n \<longleftrightarrow> n < 60"
  by (rule all_below_100 [of "\<lambda>n. places [0..<6] any_digit n \<longleftrightarrow> n < 60"]) code_simp

lemma lang_sixty: "lang (dd [0..<6] any_digit) w \<longleftrightarrow> (\<exists>n < 60. w = two_digits n)"
  unfolding lang_dd' using number_below [OF sixty] by simp

lemma lang_seconds: "lang (opt seconds_re) w \<longleftrightarrow> (\<exists>s. w = seconds_text s \<and> seconds_ok s)"
proof -
  have "lang (opt seconds_re) w \<longleftrightarrow> w = [] \<or> (\<exists>s < 60. w = '':'' @ two_digits s)
      \<or> (\<exists>s < 60. \<exists>f. w = '':'' @ two_digits s @ ''.'' @ f \<and> f \<noteq> [] \<and> list_all is_digit f)"
    unfolding lang_opt seconds_re_def lang.simps(3) [of "lit _"] lang.simps(3) [of "dd _ _"] lang.simps(6)
      lang_lit lang_sixty digit_def lang_plus_Cls by blast
  also have "\<dots> \<longleftrightarrow> (\<exists>s. w = seconds_text s \<and> seconds_ok s)"
  proof
    assume "w = [] \<or> (\<exists>s < 60. w = '':'' @ two_digits s)
      \<or> (\<exists>s < 60. \<exists>f. w = '':'' @ two_digits s @ ''.'' @ f \<and> f \<noteq> [] \<and> list_all is_digit f)"
    then consider "w = []" | s where "s < 60" "w = '':'' @ two_digits s"
      | s f where "s < 60" "w = '':'' @ two_digits s @ ''.'' @ f" "f \<noteq> []" "list_all is_digit f" by blast
    then show "\<exists>s. w = seconds_text s \<and> seconds_ok s"
    proof cases
      case 1
      then show ?thesis by (intro exI [of _ NoSeconds]) simp
    next
      case (2 s)
      then show ?thesis by (intro exI [of _ "Seconds s None"]) simp
    next
      case (3 s f)
      then show ?thesis by (intro exI [of _ "Seconds s (Some f)"]) simp
    qed
  next
    assume "\<exists>s. w = seconds_text s \<and> seconds_ok s"
    then obtain s where "w = seconds_text s" "seconds_ok s" by blast
    then show "w = [] \<or> (\<exists>s < 60. w = '':'' @ two_digits s)
      \<or> (\<exists>s < 60. \<exists>f. w = '':'' @ two_digits s @ ''.'' @ f \<and> f \<noteq> [] \<and> list_all is_digit f)"
      by (cases s rule: seconds_ok.cases) auto
  qed
  finally show ?thesis .
qed

lemma lang_time: "lang time_re w \<longleftrightarrow> (\<exists>h < 24. \<exists>m < 60. \<exists>s.
    w = two_digits h @ '':'' @ two_digits m @ seconds_text s @ ''Z'' \<and> seconds_ok s)"
  unfolding time_re_def lang.simps(3) [of "Grp _ _"] lang.simps(3) [of "lit _"] lang.simps(3) [of "dd _ _"]
    lang.simps(3) [of "opt _"] lang.simps(6) lang_hour lang_lit lang_sixty lang_seconds by blast

lemma plain_date_time: "no_anchor (Seq date_re (Seq (lit ''T'') time_re))"
  by (simp add: date_re_def time_re_def seconds_re_def leap_year_re_def month_day_re_def dd_def dset_def)

lemma date_time_regex_iff:
  "test date_time_regex s \<longleftrightarrow> (\<exists>t. s = utc_text t \<and> utc_ok t)"
proof -
  have "test date_time_regex s \<longleftrightarrow> (\<exists>y m d h n sec. date_ok y m d \<and> h < 24 \<and> n < 60 \<and> seconds_ok sec \<and>
      s = date_text y m d @ ''T'' @ two_digits h @ '':'' @ two_digits n @ seconds_text sec @ ''Z'')"
    unfolding date_time_regex_def test_anchored [OF plain_date_time]
    unfolding lang.simps(3) [of date_re] lang.simps(3) [of "lit _"] lang_date lang_lit lang_time by blast
  also have "\<dots> \<longleftrightarrow> (\<exists>t. s = utc_text t \<and> utc_ok t)"
  proof
    assume "\<exists>y m d h n sec. date_ok y m d \<and> h < 24 \<and> n < 60 \<and> seconds_ok sec \<and>
      s = date_text y m d @ ''T'' @ two_digits h @ '':'' @ two_digits n @ seconds_text sec @ ''Z''"
    then obtain y m d h n sec where "date_ok y m d" "h < 24" "n < 60" "seconds_ok sec"
      "s = date_text y m d @ ''T'' @ two_digits h @ '':'' @ two_digits n @ seconds_text sec @ ''Z''" by blast
    then show "\<exists>t. s = utc_text t \<and> utc_ok t"
      by (intro exI [of _ "\<lparr>ut_year = y, ut_month = m, ut_day = d, ut_hour = h, ut_minute = n, ut_seconds = sec\<rparr>"])
        (simp add: utc_text_def utc_ok_def)
  next
    assume "\<exists>t. s = utc_text t \<and> utc_ok t"
    then show "\<exists>y m d h n sec. date_ok y m d \<and> h < 24 \<and> n < 60 \<and> seconds_ok sec \<and>
      s = date_text y m d @ ''T'' @ two_digits h @ '':'' @ two_digits n @ seconds_text sec @ ''Z''"
      unfolding utc_text_def utc_ok_def by blast
  qed
  finally show ?thesis .
qed

text \<open>C36: the timestamps the API accepts are exactly the written-out moments of the calendar. A
  string passes \<open>dateTimeRegex\<close> precisely when it is the text \<open>YYYY-MM-DDThh:mm[:ss[.fraction]]Z\<close> of a
  day that exists (months of the right length, 29 February in leap years of the Gregorian rule
  only) and a time of day that exists.\<close>

theorem date_time_regex_is_the_calendar:
  "test date_time_regex s \<longleftrightarrow> (\<exists>t. s = utc_text t \<and> utc_ok t)"
  by (rule date_time_regex_iff)

end
