(* ===== verification/Schemas.thy ===== *)
theory Schemas imports DateTimes Ingestion WriteRoute begin

text \<open>
  The request body of the ingest route as \<open>backend/src/validation/schemas.ts\<close> declares it. The
  declarations are read with the documented meaning of zod's combinators: an object schema looks at
  the declared keys only, \<open>optional\<close> admits an absent key, a union tries its members in order, a
  record asks its value schema of every entry. The error of a refused body is an argument.
\<close>

definition date_time_schema :: "json \<Rightarrow> string option" where
  "date_time_schema v = (case v of JStr s \<Rightarrow> if test date_time_regex s then Some s else None | _ \<Rightarrow> None)"

definition level_schema :: "json \<Rightarrow> log_level option" where
  "level_schema v = (case v of JStr s \<Rightarrow> level_of_str s | _ \<Rightarrow> None)"

definition string_schema :: "json \<Rightarrow> string option" where
  "string_schema v = (case v of JStr s \<Rightarrow> Some s | _ \<Rightarrow> None)"

text \<open>\<open>numberSchema\<close>: any number but \<open>NaN\<close>.\<close>

definition number_schema :: "json \<Rightarrow> bool" where
  "number_schema v \<longleftrightarrow> (case v of JNum n \<Rightarrow> n \<noteq> NaN | _ \<Rightarrow> False)"

definition field_value_schema :: "json \<Rightarrow> bool" where
  "field_value_schema v \<longleftrightarrow> (case v of JStr s \<Rightarrow> True | JBool b \<Rightarrow> True | _ \<Rightarrow> number_schema v)"

definition fields_schema :: "json \<Rightarrow> json option" where
  "fields_schema v = (case v of JObj kvs \<Rightarrow> if list_all (\<lambda>(k, x). field_value_schema x) kvs then Some v else None | _ \<Rightarrow> None)"

text \<open>An optional key: \<open>None\<close> when the key is there and its value refused.\<close>

definition optional_key :: "(json \<Rightarrow> 'a option) \<Rightarrow> string \<Rightarrow> json \<Rightarrow> 'a option option" where
  "optional_key schema k v = (case field k v of None \<Rightarrow> Some None | Some x \<Rightarrow> map_option Some (schema x))"

definition entry_schema :: "json \<Rightarrow> partial_entry option" where
  "entry_schema v =
     (case v of
        JObj kvs \<Rightarrow>
          Option.bind (optional_key date_time_schema ''timestamp'' v) (\<lambda>timestamp.
          Option.bind (optional_key level_schema ''level'' v) (\<lambda>level.
          Option.bind (optional_key string_schema ''service'' v) (\<lambda>service.
          Option.bind (optional_key string_schema ''host'' v) (\<lambda>host.
          Option.bind (optional_key string_schema ''message'' v) (\<lambda>message.
          Option.bind (optional_key fields_schema ''fields'' v) (\<lambda>fields.
            Some \<lparr>pa_timestamp = timestamp, pa_level = level, pa_service = service, pa_host = host,
                  pa_message = message, pa_fields = fields\<rparr>))))))
      | _ \<Rightarrow> None)"

definition item_schema :: "json \<Rightarrow> ingest_item option" where
  "item_schema v = (case v of JStr s \<Rightarrow> Some (RawItem s) | _ \<Rightarrow> map_option EntryItem (entry_schema v))"

fun all_items :: "(json \<Rightarrow> 'a option) \<Rightarrow> json list \<Rightarrow> 'a list option" where
  "all_items schema [] = Some []"
| "all_items schema (v # vs) =
     Option.bind (schema v) (\<lambda>x. Option.bind (all_items schema vs) (\<lambda>xs. Some (x # xs)))"

lemma all_items_map: "(\<And>x. x \<in> set xs \<Longrightarrow> schema (g x) = Some (h x)) \<Longrightarrow>
    all_items schema (map g xs) = Some (map h xs)"
  by (induction xs) simp_all

definition format_schema :: "json \<Rightarrow> log_format option" where
  "format_schema v =
     (case v of
        JStr s \<Rightarrow> if s = ''json'' then Some FJson else if s = ''syslog_rfc3164'' then Some Rfc3164
                  else if s = ''syslog_rfc5424'' then Some Rfc5424 else if s = ''plain'' then Some Plain else None
      | _ \<Rightarrow> None)"

definition logs_schema :: "json option \<Rightarrow> ingest_item list option" where
  "logs_schema v = (case v of Some (JArr vs) \<Rightarrow> if vs = [] then None else all_items item_schema vs | _ \<Rightarrow> None)"

definition ingest_schema :: "json \<Rightarrow> ingest_payload body_schema" where
  "ingest_schema err body =
     (case body of
        Some (JObj kvs) \<Rightarrow>
          (case Option.bind (logs_schema (field ''logs'' (JObj kvs))) (\<lambda>logs.
                Option.bind (optional_key format_schema ''format'' (JObj kvs)) (\<lambda>fmt.
                Option.bind (optional_key string_schema ''batchId'' (JObj kvs)) (\<lambda>batch.
                  Some \<lparr>pl_logs = logs, pl_format = fmt, pl_batch = batch\<rparr>))) of
             None \<Rightarrow> Inl err
           | Some p \<Rightarrow> Inr p)
      | _ \<Rightarrow> Inl err)"

end
