(* ===== verification/SdkIngest.thy ===== *)
theory SdkIngest imports Sdk Schemas IngestRoutes begin

text \<open>
  The SDK and the backend together: what \<open>JSON.stringify\<close> makes of a batch of the SDK, that the
  ingest schema accepts it, and what the ingest route stores of it.
\<close>

section \<open>On the wire\<close>

text \<open>\<open>JSON.stringify\<close>: a number that is not finite becomes \<open>null\<close>, an undefined key is left out.\<close>

fun wire_value :: "field_value \<Rightarrow> json" where
  "wire_value (FStr s) = JStr s"
| "wire_value (FBool b) = JBool b"
| "wire_value (FNum n) = (case n of Fin r \<Rightarrow> JNum n | _ \<Rightarrow> JNull)"

definition wire_fields :: "log_fields \<Rightarrow> json" where
  "wire_fields fs = JObj (map (map_prod id wire_value) fs)"

definition wire_entry :: "queued_log \<Rightarrow> json" where
  "wire_entry l = JObj
     ([(''timestamp'', JStr (ql_timestamp l)), (''level'', JStr (level_str (ql_level l))),
       (''service'', JStr (ql_service l))]
      @ (case ql_host l of None \<Rightarrow> [] | Some h \<Rightarrow> [(''host'', JStr h)])
      @ [(''message'', JStr (ql_message l)), (''fields'', wire_fields (ql_fields l))])"

definition wire_batch :: "queued_log list \<Rightarrow> json" where
  "wire_batch logs = JObj [(''logs'', JArr (map wire_entry logs))]"

definition finite_value :: "field_value \<Rightarrow> bool" where
  "finite_value v \<longleftrightarrow> (case v of FNum n \<Rightarrow> (\<exists>r. n = Fin r) | _ \<Rightarrow> True)"

definition finite_fields :: "log_fields \<Rightarrow> bool" where
  "finite_fields fs \<longleftrightarrow> list_all (\<lambda>(k, v). finite_value v) fs"

text \<open>What the server makes of an entry of the SDK.\<close>

definition partial_of :: "queued_log \<Rightarrow> partial_entry" where
  "partial_of l =
     \<lparr>pa_timestamp = Some (ql_timestamp l), pa_level = Some (ql_level l), pa_service = Some (ql_service l),
      pa_host = ql_host l, pa_message = Some (ql_message l), pa_fields = Some (wire_fields (ql_fields l))\<rparr>"

lemma wire_value_ok: "finite_value v \<Longrightarrow> field_value_schema (wire_value v)"
  by (cases v) (auto simp: finite_value_def field_value_schema_def number_schema_def split: jnum.splits)

lemma fields_accepted: "finite_fields fs \<Longrightarrow> fields_schema (wire_fields fs) = Some (wire_fields fs)"
  by (auto simp: fields_schema_def wire_fields_def finite_fields_def list_all_iff wire_value_ok)

lemma entry_accepted:
  assumes "test date_time_regex (ql_timestamp l)" and "finite_fields (ql_fields l)"
  shows "item_schema (wire_entry l) = Some (EntryItem (partial_of l))"
  using fields_accepted [OF assms(2)] assms(1)
  by (cases "ql_host l")
    (simp_all add: item_schema_def wire_entry_def entry_schema_def optional_key_def field_def
      date_time_schema_def level_schema_def string_schema_def partial_of_def)

lemma batch_accepted:
  assumes "logs \<noteq> []" and "list_all (\<lambda>l. test date_time_regex (ql_timestamp l) \<and> finite_fields (ql_fields l)) logs"
  shows "ingest_schema err (Some (wire_batch logs)) =
    Inr \<lparr>pl_logs = map (EntryItem \<circ> partial_of) logs, pl_format = None, pl_batch = None\<rparr>"
proof -
  have "all_items item_schema (map wire_entry logs) = Some (map (EntryItem \<circ> partial_of) logs)"
    by (rule all_items_map) (use assms(2) in \<open>auto simp: list_all_iff entry_accepted\<close>)
  then show ?thesis using assms(1)
    by (simp add: ingest_schema_def wire_batch_def logs_schema_def field_def optional_key_def)
qed

section \<open>The entries of a client\<close>

text \<open>Calls whose fields are finite numbers, texts or truth values and whose clock is a UTC time.\<close>

fun extra_of :: "sdk_op \<Rightarrow> log_fields" where
  "extra_of (LogOp level message extra) = the_or [] extra"
| "extra_of (CaptureOp err extra) = the_or [] extra"
| "extra_of (GlobalOp (WindowError err message file line col)) = [([], FNum line), ([], FNum col)]"
| "extra_of _ = []"

definition call_ok :: "sdk_call \<Rightarrow> bool" where
  "call_ok x \<longleftrightarrow> (\<exists>t. fst x = utc_text t \<and> utc_ok t) \<and> finite_fields (extra_of (snd (snd x)))"

lemma finite_update: "finite_fields fs \<Longrightarrow> finite_value v \<Longrightarrow> finite_fields (AList.update k v fs)"
  unfolding finite_fields_def by (induction fs) auto

lemma finite_spread: "finite_fields fs \<Longrightarrow> finite_fields gs \<Longrightarrow> finite_fields (spread fs gs)"
proof (induction gs arbitrary: fs)
  case (Cons g gs)
  obtain k v where g: "g = (k, v)" by (cases g)
  then have "finite_value v" "finite_fields gs" using Cons.prems(2) by (simp_all add: finite_fields_def)
  then show ?case using Cons.IH [OF finite_update [OF Cons.prems(1)]] by (simp add: g spread_def)
qed (simp add: spread_def)

lemma finite_text [simp]: "finite_value (FStr s)" "finite_value (FBool b)" "finite_value (FNum (Fin r))"
  by (simp_all add: finite_value_def)

lemma finite_nil [simp]: "finite_fields []"
  by (simp add: finite_fields_def)

lemma finite_set_if: "finite_fields fs \<Longrightarrow> finite_fields (set_if k v fs)"
  by (simp add: set_if_def finite_update)

lemma finite_tags: "finite_fields (tag_fields tags)"
  by (auto simp: finite_fields_def tag_fields_def list_all_iff)

lemma finite_entry: "finite_fields (the_or [] extra) \<Longrightarrow> finite_fields (entry_fields c extra)"
  by (simp add: entry_fields_def finite_set_if finite_spread finite_tags)

lemma finite_error: "finite_fields (the_or [] extra) \<Longrightarrow> finite_fields (error_fields E err extra c)"
  by (auto simp: error_fields_def Let_def intro!: finite_update finite_set_if finite_spread split: option.splits)

lemma finite_captured: "finite_fields (extra_of (GlobalOp ev)) \<Longrightarrow> finite_fields (snd (captured E ev))"
  by (cases ev) (simp_all add: finite_fields_def)

lemma written_ok:
  assumes "call_ok x" and "l \<in> set (written E x c)"
  shows "test date_time_regex (ql_timestamp l) \<and> finite_fields (ql_fields l)"
proof -
  have "ql_timestamp l = fst x \<and> finite_fields (ql_fields l)"
    using assms
    by (induction E x c rule: written.induct)
      (auto simp: call_ok_def entry_of_def case_prod_beta finite_entry finite_error
        finite_captured split: if_splits)
  then show ?thesis using assms(1) by (auto simp: call_ok_def date_time_regex_iff)
qed

lemma history_ok:
  "list_all call_ok calls \<Longrightarrow> l \<in> set (history E calls c) \<Longrightarrow>
     test date_time_regex (ql_timestamp l) \<and> finite_fields (ql_fields l)"
  by (induction calls arbitrary: c) (auto dest: written_ok)

lemma sent_in_history:
  assumes "sdk_ok c0 h c" and "r \<in> set (sc_sent c)"
  shows "rq_logs r \<noteq> []" and "set (rq_logs r) \<subseteq> set h"
proof -
  show "rq_logs r \<noteq> []" using assms by (auto simp: sdk_ok_def list_all_iff request_fits_def)
  have "h = delivered c @ sc_queue c" using assms(1) by (simp add: sdk_ok_def)
  then show "set (rq_logs r) \<subseteq> set h" using assms(2) by (auto simp: delivered_def)
qed

text \<open>what the SDK sends is what the backend's ingest schema admits. Whatever is called on a client
  (with fields that are texts, truth values or finite numbers, and a clock within the calendar),
  every batch it sends passes the schema, and the schema hands the handler exactly the batch:
  one entry object per log, with its time, level, service, host, message and fields.\<close>

theorem sdk_batches_fit_the_ingest_schema:
  assumes "new_client E opts console = Inr c0" and "list_all call_ok calls"
    and "r \<in> set (sc_sent (run_calls E calls c0))"
  shows "ingest_schema err (Some (wire_batch (rq_logs r))) =
    Inr \<lparr>pl_logs = map (EntryItem \<circ> partial_of) (rq_logs r), pl_format = None, pl_batch = None\<rparr>"
proof -
  have ok: "sdk_ok c0 (history E calls c0) (run_calls E calls c0)"
    using sdk_ok_calls [OF sdk_ok_new [OF assms(1)], of E calls] by simp
  note sent = sent_in_history [OF ok assms(3)]
  show ?thesis
    by (rule batch_accepted [OF sent(1)]) (use sent(2) history_ok [OF assms(2)] in \<open>auto simp: list_all_iff\<close>)
qed

definition sample_moment :: utc_time where
  "sample_moment = \<lparr>ut_year = 2026, ut_month = 1, ut_day = 1, ut_hour = 10, ut_minute = 0,
     ut_seconds = Seconds 0 (Some ''000'')\<rparr>"

definition short_calls :: "sdk_call list" where
  "short_calls = [(utc_text sample_moment, Some True, LogOp LInfo ''a'' (Some [(''n'', FNum (Fin 1))])),
     (utc_text sample_moment, None, FlushOp)]"

lemma short_calls_ok: "list_all call_ok short_calls"
proof -
  have "utc_ok sample_moment" by code_simp
  then show ?thesis by (auto simp: short_calls_def call_ok_def finite_fields_def)
qed

theorem sdk_batches_fit_the_ingest_schema_witness:
  "\<exists>c0 r. new_client sdk_sample sample_options [] = Inr c0 \<and> sc_sent (run_calls sdk_sample short_calls c0) = [r]
     \<and> ingest_schema JNull (Some (wire_batch (rq_logs r))) =
         Inr \<lparr>pl_logs = map (EntryItem \<circ> partial_of) (rq_logs r), pl_format = None, pl_batch = None\<rparr>"
proof -
  from sample_client obtain c0 where c0: "new_client sdk_sample sample_options [] = Inr c0" ..
  have "sc_sent (run_calls sdk_sample short_calls c0) \<noteq> []" "length (sc_sent (run_calls sdk_sample short_calls c0)) = 1"
    using c0 by (auto simp: new_client_def short_calls_def log_entry_at_def flush_def send_batch_def Let_def
        sample_options_def split: sum.splits)
  then obtain r where r: "sc_sent (run_calls sdk_sample short_calls c0) = [r]"
    by (cases "sc_sent (run_calls sdk_sample short_calls c0)") auto
  then show ?thesis
    using c0 sdk_batches_fit_the_ingest_schema [OF c0 short_calls_ok, of r JNull] by auto
qed

text \<open>One number that is not finite and the server refuses the whole batch.\<close>

theorem nan_field_rejects_the_batch:
  "ingest_schema err (Some (wire_batch
     [\<lparr>ql_timestamp = utc_text sample_moment, ql_level = LInfo, ql_service = ''web'', ql_host = None,
       ql_message = ''fine'', ql_fields = []\<rparr>,
      \<lparr>ql_timestamp = utc_text sample_moment, ql_level = LInfo, ql_service = ''web'', ql_host = None,
       ql_message = ''ratio'', ql_fields = [(''ratio'', FNum NaN)]\<rparr>])) = Inl err"
proof -
  have bad: "fields_schema (wire_fields [(''ratio'', FNum NaN)]) = None"
    by (simp add: fields_schema_def wire_fields_def field_value_schema_def number_schema_def)
  show ?thesis
    by (simp add: ingest_schema_def wire_batch_def logs_schema_def field_def item_schema_def wire_entry_def
        entry_schema_def optional_key_def bad bind_eq_None_conv)
qed

section \<open>From the client to the store\<close>

definition stored_as :: "queued_log \<Rightarrow> log_entry \<Rightarrow> bool" where
  "stored_as l e \<longleftrightarrow> le_timestamp e = ql_timestamp l \<and> le_level e = ql_level l \<and> le_service e = ql_service l
     \<and> le_host e = the_or ''unknown'' (ql_host l) \<and> le_message e = ql_message l
     \<and> le_fields e = wire_fields (ql_fields l)"

lemma collect_entries:
  "snd (collect (ingest_item E source sid fmt) i (map (EntryItem \<circ> partial_of) logs)) = []
   \<and> list_all2 stored_as logs (fst (collect (ingest_item E source sid fmt) i (map (EntryItem \<circ> partial_of) logs)))"
  by (induction logs arbitrary: i)
    (simp_all add: case_prod_beta Let_def ingest_item_def partial_of_def stored_as_def)

text \<open>C9: end to end, an SDK batch is stored as logged. A batch of entries with UTC times and finite
  fields, posted with the source's key while ClickHouse and Redis are up, is answered 202 with every
  entry accepted and none rejected, and what ClickHouse receives is, entry by entry and in order,
  what was logged: the same time, level, service, host, message and fields.\<close>

theorem sdk_batch_is_stored_as_logged:
  assumes "hr_body q = Some (wire_batch logs)" and "logs \<noteq> []"
    and "list_all (\<lambda>l. test date_time_regex (ql_timestamp l) \<and> finite_fields (ql_fields l)) logs"
    and "authenticate_api_key (hr_api_key q) (hr_params q ''sourceId'') (ig_db s) = KeyAccepted src"
    and "ir_schema R = ingest_schema err" and "ie_insert (ir_env R) = (\<lambda>_. None)" and "ie_redis (ir_env R) = None"
  shows "\<exists>resp stored s'. post_ingest R q s = (done_with 202 resp, s')
    \<and> ir_accepted resp = length logs \<and> ir_errors resp = []
    \<and> ig_logs s' = ig_logs s @ stored \<and> list_all2 stored_as logs stored"
proof -
  let ?p = "\<lparr>pl_logs = map (EntryItem \<circ> partial_of) logs, pl_format = None, pl_batch = None\<rparr>"
  let ?E = "ir_env R" and ?sid = "hr_params q ''sourceId''"
  have "src \<in> set (db_sources (ig_db s))" "src_id src = ?sid"
    using assms(4) by (auto simp: authenticate_api_key_def dest: find_SomeD split: option.splits if_splits)
  then have "source_by_id (ig_db s) ?sid \<noteq> None" by (auto simp: source_by_id_def find_None_iff')
  then obtain source where source: "source_by_id (ig_db s) ?sid = Some source" by blast
  obtain acc errs where c: "collect (ingest_item ?E source ?sid None) 0 (map (EntryItem \<circ> partial_of) logs) = (acc, errs)"
    by (rule prod.exhaust)
  with collect_entries [of ?E source ?sid None 0 logs] have new: "errs = []" "list_all2 stored_as logs acc" by simp_all
  from list_all2_lengthD [OF new(2)] have len: "length acc = length logs" by simp
  with assms(2) have "acc \<noteq> []" by auto
  obtain resp s' where ing: "ingest ?E ?sid ?p s = (Inr resp, s')" "ir_accepted resp = length logs" "ir_errors resp = []"
    "ig_logs s' = ig_logs s @ acc"
    using source c new(1) len \<open>acc \<noteq> []\<close> assms(6,7) by (simp add: ingest_def Let_def)
  have "api_key_gate q (ig_db s) = (Inr src :: ingest_reply + source_row)"
    using assms(4) by (simp add: api_key_gate_def)
  moreover have "ir_schema R (enveloped (hr_body q)) = Inr ?p"
    using batch_accepted [OF assms(2,3)] assms(1,5) by (simp add: enveloped_def wire_batch_def)
  ultimately have "post_ingest R q s = (done_with 202 resp, s')"
    by (simp add: post_ingest_def run_ingest_def ing(1))
  then show ?thesis using ing new(2) by blast
qed

definition sample_batch :: "queued_log list" where
  "sample_batch = [\<lparr>ql_timestamp = utc_text sample_moment, ql_level = LInfo, ql_service = ''web'', ql_host = None,
     ql_message = ''a'', ql_fields = [(''n'', FNum (Fin 1))]\<rparr>]"

lemma sample_batch_ok:
  "list_all (\<lambda>l. test date_time_regex (ql_timestamp l) \<and> finite_fields (ql_fields l)) sample_batch"
  using short_calls_ok
  by (auto simp: sample_batch_def short_calls_def call_ok_def finite_fields_def date_time_regex_iff)

definition sample_post :: http_req where
  "sample_post = \<lparr>hr_auth = None, hr_api_key = Some (src_key sample_source), hr_params = (\<lambda>_. src_id sample_source),
     hr_query = (\<lambda>_. None), hr_body = Some (wire_batch sample_batch), hr_ip = None\<rparr>"

theorem sdk_batch_is_stored_as_logged_witness:
  "\<exists>resp stored s'. post_ingest \<lparr>ir_env = quiet_env, ir_prisma = (\<lambda>_. []), ir_schema = ingest_schema JNull\<rparr>
      sample_post sample_ingest_state = (done_with 202 resp, s')
    \<and> ir_accepted resp = length sample_batch \<and> ir_errors resp = []
    \<and> ig_logs s' = ig_logs sample_ingest_state @ stored \<and> list_all2 stored_as sample_batch stored"
proof (rule sdk_batch_is_stored_as_logged [where src = sample_source])
  show "authenticate_api_key (hr_api_key sample_post) (hr_params sample_post ''sourceId'') (ig_db sample_ingest_state)
      = KeyAccepted sample_source"
    by (simp add: authenticate_api_key_def sample_post_def sample_ingest_state_def sample_source_def)
qed (use sample_batch_ok in \<open>simp_all add: sample_post_def quiet_env_def\<close>, simp add: sample_batch_def)

end
