(* ===== verification/AuditGate.thy ===== *)
theory AuditGate imports JsLib RegexLang "HOL-Library.AList" "HOL-Library.Char_ord" "HOL-Library.List_Lexorder" begin

text \<open>
  The npm-audit gate of the continuous integration (\<open>scripts/audit-gate.mjs\<close>): the sanitiser of
  npm's stderr, the dated allowlist, the walk over the via chains of a report, the classification
  with its exit codes and log lines, and the command line around it.

  A report is a JSON value; \<open>vulns[name]\<close> of a name the report does not define is \<open>undefined\<close> or an
  inherited member, neither of which has a \<open>via\<close> array. Sets of the script are lists in insertion
  order. Strings compare by code unit.
\<close>

section \<open>Text for the log\<close>

definition exit_clean :: nat where "exit_clean = 0"
definition exit_findings :: nat where "exit_findings = 1"
definition exit_outage :: nat where "exit_outage = 2"
definition exit_unclassified :: nat where "exit_unclassified = 3"

definition safe_char :: "char \<Rightarrow> bool" where
  "safe_char c \<longleftrightarrow> is_upper c \<or> is_lower c \<or> is_digit c \<or> c \<in> set ''@/._ ,;:()=+-''"

definition clean :: "string \<Rightarrow> string" where
  "clean s = map (\<lambda>c. if safe_char c then c else CHR ''?'') s"

definition stderr_max_lines :: nat where "stderr_max_lines = 40"
definition stderr_max_line_length :: nat where "stderr_max_line_length = 300"

text \<open>\<open>split(/\r\n|\n|\r|.../)\<close>; the two other separators are beyond the characters of the model.\<close>

fun split_breaks :: "string \<Rightarrow> string list" where
  "split_breaks [] = [[]]"
| "split_breaks (c # cs) =
     (if code c = 13 then
        (case cs of
           d # ds \<Rightarrow> if code d = 10 then [] # split_breaks ds else [] # split_breaks cs
         | [] \<Rightarrow> [] # split_breaks cs)
      else if code c = 10 then [] # split_breaks cs
      else (case split_breaks cs of [] \<Rightarrow> [[c]] | w # ws \<Rightarrow> (c # w) # ws))"

definition colons :: re where
  "colons = Seq (chr (CHR '':'')) (plus (chr (CHR '':'')))"

definition stderr_line :: "string \<Rightarrow> string" where
  "stderr_line l = ''npm stderr| '' @ replace_all colons '': :'' (clean (take stderr_max_line_length l))"

definition sanitize_stderr :: "string \<Rightarrow> string list" where
  "sanitize_stderr err =
     (let raw = filter (\<lambda>l. l \<noteq> []) (map trim (split_breaks err));
          lines = map stderr_line (take stderr_max_lines raw)
      in if length raw > stderr_max_lines
         then lines @ [''npm stderr| ('' @ nat_str (length raw - stderr_max_lines) @ '' more line(s) omitted)'']
         else lines)"

section \<open>Dates\<close>

definition date_only :: re where
  "date_only = anchored (seqs [rtimes 4 digit, chr (CHR ''-''), rtimes 2 digit, chr (CHR ''-''), rtimes 2 digit])"

definition day_start :: "js_lib \<Rightarrow> string \<Rightarrow> millis option" where
  "day_start L d = date_parse L (d @ ''T00:00:00Z'')"

definition is_real_date :: "js_lib \<Rightarrow> string \<Rightarrow> bool" where
  "is_real_date L s \<longleftrightarrow> test date_only s \<and>
     (case day_start L s of None \<Rightarrow> False | Some t \<Rightarrow> take 10 (date_iso L t) = s)"

definition today_utc :: "js_lib \<Rightarrow> millis \<Rightarrow> string" where
  "today_utc L now = take 10 (date_iso L now)"

definition add_days :: "js_lib \<Rightarrow> string \<Rightarrow> int \<Rightarrow> string + string" where
  "add_days L d n =
     (case day_start L d of
        None \<Rightarrow> Inl invalid_time
      | Some t \<Rightarrow> Inr (take 10 (date_iso L (t + n * 86400000))))"

section \<open>The allowlist\<close>

definition ghsa_char :: "char \<Rightarrow> bool" where
  "ghsa_char c \<longleftrightarrow> c \<in> set ''23456789cfghjmpqrvwx''"

definition ghsa_body :: re where
  "ghsa_body = Seq (lit ''GHSA'') (rtimes 3 (Seq (chr (CHR ''-'')) (rtimes 4 (Cls ghsa_char))))"

definition ghsa_id :: re where
  "ghsa_id = anchored ghsa_body"

definition entry_keys :: "string list" where
  "entry_keys = [''id'', ''reason'', ''reviewBy'']"

definition max_review_horizon_days :: nat where "max_review_horizon_days = 90"

record allow_entry =
  al_id :: string
  al_reason :: string
  al_review :: string

text \<open>What \<open>parseAllowlist\<close> throws: its own error, or another one (\<open>RangeError\<close> of an invalid date).\<close>

datatype gate_error = AllowlistError string | OtherError string

definition is_record :: "json option \<Rightarrow> bool" where
  "is_record v = (case v of Some (JObj kvs) \<Rightarrow> True | _ \<Rightarrow> False)"

definition object_keys :: "json \<Rightarrow> string list" where
  "object_keys v = (case v of JObj kvs \<Rightarrow> uniq (map fst kvs) | _ \<Rightarrow> [])"

definition text_of :: "string \<Rightarrow> json \<Rightarrow> string" where
  "text_of k v = the_or [] (str_of (field k v))"

text \<open>One entry, \<open>seen\<close> the ids before it; \<open>Inl\<close> why it fails. The checks come in the order of the code.\<close>

definition review_too_late :: "js_lib \<Rightarrow> string \<Rightarrow> string \<Rightarrow> string \<Rightarrow> string \<Rightarrow> gate_error option" where
  "review_too_late L today wh i review =
     (case add_days L today (int max_review_horizon_days) of
        Inl e \<Rightarrow> Some (OtherError e)
      | Inr latest \<Rightarrow>
          if review > latest
          then Some (AllowlistError (wh @ '' id '' @ i @ '' reviewBy '' @ review @ '' is more than ''
                 @ nat_str max_review_horizon_days @ '' days after today ('' @ today
                 @ '' UTC); the latest accepted date is '' @ latest))
          else None)"

definition parse_entry ::
  "js_lib \<Rightarrow> string option \<Rightarrow> string list \<Rightarrow> nat \<Rightarrow> json \<Rightarrow> gate_error + allow_entry" where
  "parse_entry L today seen i v =
     (let wh = ''entry '' @ nat_str i; fail = (\<lambda>why. Inl (AllowlistError (wh @ why)));
          eid = text_of ''id'' v; review = text_of ''reviewBy'' v
      in if \<not> is_record (Some v) then fail '' must be an object''
         else case List.find (\<lambda>k. k \<notin> set entry_keys) (object_keys v) of
           Some k \<Rightarrow> fail ('' has unknown key \"'' @ clean k @ ''\"'')
         | None \<Rightarrow>
         (case List.find (\<lambda>k. trim (text_of k v) = []) entry_keys of
           Some k \<Rightarrow> fail ('' is missing a non-empty string \"'' @ k @ ''\"'')
         | None \<Rightarrow>
           if \<not> test ghsa_id eid then fail ('' id \"'' @ clean eid @ ''\" is not a GHSA id'')
           else if \<not> is_real_date L review
             then fail ('' reviewBy \"'' @ clean review @ ''\" is not a YYYY-MM-DD date'')
           else case (case today of None \<Rightarrow> None | Some day \<Rightarrow> review_too_late L day wh eid review) of
             Some e \<Rightarrow> Inl e
           | None \<Rightarrow>
             if eid \<in> set seen then Inl (AllowlistError (''duplicate id '' @ eid))
             else Inr \<lparr>al_id = eid, al_reason = text_of ''reason'' v, al_review = review\<rparr>))"

fun parse_entries ::
  "js_lib \<Rightarrow> string option \<Rightarrow> string list \<Rightarrow> nat \<Rightarrow> json list \<Rightarrow> gate_error + allow_entry list" where
  "parse_entries L today seen i [] = Inr []"
| "parse_entries L today seen i (v # vs) =
     (case parse_entry L today seen i v of
        Inl e \<Rightarrow> Inl e
      | Inr a \<Rightarrow> map_sum id (Cons a) (parse_entries L today (al_id a # seen) (Suc i) vs))"

text \<open>Every message of the script's own error names the file.\<close>

fun name_file :: "string \<Rightarrow> gate_error \<Rightarrow> gate_error" where
  "name_file file (AllowlistError why) = AllowlistError (''allowlist '' @ clean file @ '': '' @ why)"
| "name_file file (OtherError e) = OtherError e"

definition parse_allowlist ::
  "js_lib \<Rightarrow> string \<Rightarrow> string \<Rightarrow> string option \<Rightarrow> gate_error + allow_entry list" where
  "parse_allowlist L content file today =
     (let fail = (\<lambda>why. Inl (name_file file (AllowlistError why))) in
      case json_parse L content of
        Inl e \<Rightarrow> fail (''not valid JSON ('' @ clean e @ '')'')
      | Inr v \<Rightarrow>
          if \<not> is_record (Some v) then fail ''top level must be an object with an \"entries\" array''
          else (case List.find (\<lambda>k. k \<noteq> ''entries'') (object_keys v) of
            Some k \<Rightarrow> fail (''unknown top-level key \"'' @ clean k @ ''\"'')
          | None \<Rightarrow>
              (case field ''entries'' v of
                 Some (JArr vs) \<Rightarrow> map_sum (name_file file) id (parse_entries L today [] 0 vs)
               | _ \<Rightarrow> fail ''\"entries\" must be an array'')))"

section \<open>The walk over the via chains\<close>

definition ghsa_url :: re where
  "ghsa_url = anchored (Seq (lit ''https://github.com/advisories/'') (Grp 1 ghsa_body))"

definition advisory_id :: "json \<Rightarrow> string option" where
  "advisory_id v =
     (case field ''url'' v of
        Some (JStr url) \<Rightarrow> map_option (cap 1) (exec ghsa_url url)
      | _ \<Rightarrow> None)"

definition non_gating :: "string list" where
  "non_gating = [''info'', ''low'', ''moderate'']"

definition is_gating :: "json option \<Rightarrow> bool" where
  "is_gating severity \<longleftrightarrow> (case severity of Some (JStr s) \<Rightarrow> s \<notin> set non_gating | _ \<Rightarrow> True)"

definition add_once :: "'a \<Rightarrow> 'a list \<Rightarrow> 'a list" where
  "add_once x xs = (if x \<in> set xs then xs else xs @ [x])"

text \<open>The node of a package and its \<open>via\<close> array; \<open>None\<close> where the code finds it unresolvable.\<close>

definition via_of :: "json \<Rightarrow> string \<Rightarrow> json list option" where
  "via_of V name =
     (case field name V of
        Some (JObj kvs) \<Rightarrow> (case field ''via'' (JObj kvs) of Some (JArr vs) \<Rightarrow> Some vs | _ \<Rightarrow> None)
      | _ \<Rightarrow> None)"

record walk =
  wk_visited :: "string list"
  wk_used :: "string list"
  wk_blocking :: "string list"

definition block :: "string \<Rightarrow> walk \<Rightarrow> walk" where
  "block why w = w\<lparr>wk_blocking := add_once why (wk_blocking w)\<rparr>"

text \<open>An advisory object of package \<open>name\<close>.\<close>

definition judge_advisory :: "string list \<Rightarrow> string \<Rightarrow> json \<Rightarrow> walk \<Rightarrow> bool \<times> walk" where
  "judge_advisory allow name v w =
     (if \<not> is_gating (field ''severity'' v) then (True, w)
      else (case advisory_id v of
          None \<Rightarrow> (False, block (''no-ghsa-id:'' @ name) w)
        | Some i \<Rightarrow>
            if i \<in> set allow then (True, w\<lparr>wk_used := add_once i (wk_used w)\<rparr>)
            else (False, block i w)))"

text \<open>
  \<open>chainIsExcepted\<close> and its loop. The first argument bounds the depth of the recursion; \<open>None\<close> when it
  does not suffice.
\<close>

fun walk_package :: "nat \<Rightarrow> json \<Rightarrow> string list \<Rightarrow> string \<Rightarrow> walk \<Rightarrow> (bool \<times> walk) option"
  and walk_vias :: "nat \<Rightarrow> json \<Rightarrow> string list \<Rightarrow> string \<Rightarrow> json list \<Rightarrow> bool \<Rightarrow> walk \<Rightarrow> (bool \<times> walk) option"
  where
  "walk_package 0 V allow name w = None"
| "walk_package (Suc n) V allow name w =
     (if name \<in> set (wk_visited w) then Some (True, w)
      else (let w1 = w\<lparr>wk_visited := wk_visited w @ [name]\<rparr> in
            case via_of V name of
              None \<Rightarrow> Some (False, block (''unresolvable:'' @ name) w1)
            | Some vs \<Rightarrow> walk_vias n V allow name vs True w1))"
| "walk_vias n V allow name [] ok w = Some (ok, w)"
| "walk_vias n V allow name (v # vs) ok w =
     (case v of
        JStr dep \<Rightarrow>
          (case walk_package n V allow dep w of
             None \<Rightarrow> None
           | Some (good, w1) \<Rightarrow> walk_vias n V allow name vs (ok \<and> good) w1)
      | JObj kvs \<Rightarrow>
          (let (good, w1) = judge_advisory allow name v w in walk_vias n V allow name vs (ok \<and> good) w1)
      | _ \<Rightarrow> walk_vias n V allow name vs False (block (''unresolvable:'' @ name) w))"

definition fresh_walk :: walk where
  "fresh_walk = \<lparr>wk_visited = [], wk_used = [], wk_blocking = []\<rparr>"

text \<open>Two levels more than the report has packages always suffice (\<open>chain_walk\<close> below).\<close>

definition chain_is_excepted :: "json \<Rightarrow> string list \<Rightarrow> string \<Rightarrow> bool \<times> walk" where
  "chain_is_excepted V allow name =
     the_or (False, fresh_walk) (walk_package (length (object_keys V) + 2) V allow name fresh_walk)"

section \<open>The report\<close>

record finding =
  fi_name :: string
  fi_severity :: string
  fi_blocking :: "string list"

type_synonym used_map = "(string \<times> string list) list"

definition matched_ids :: "json \<Rightarrow> string list \<Rightarrow> string list" where
  "matched_ids V allow =
     foldl (\<lambda>m v. case advisory_id v of
         None \<Rightarrow> m
       | Some i \<Rightarrow> if i \<in> set allow then add_once i m else m)
       [] (concat (map (\<lambda>name. the_or [] (via_of V name)) (object_keys V)))"

definition severity_of :: "json \<Rightarrow> string" where
  "severity_of node = the_or ''unknown'' (str_of (field ''severity'' node))"

text \<open>Whether the report gates on a package: by its own severity, or by an advisory it lists.\<close>

definition gates :: "json \<Rightarrow> string \<Rightarrow> json \<Rightarrow> bool" where
  "gates V name node \<longleftrightarrow> is_gating (field ''severity'' node)
     \<or> list_ex (\<lambda>v. is_record (Some v) \<and> is_gating (field ''severity'' v)) (the_or [] (via_of V name))"

definition use_id :: "string \<Rightarrow> string \<Rightarrow> used_map \<Rightarrow> used_map" where
  "use_id name i used = AList.update i (add_once name (the_or [] (map_of used i))) used"

definition evaluate_package ::
  "json \<Rightarrow> string list \<Rightarrow> string \<Rightarrow> finding list \<times> used_map \<Rightarrow> finding list \<times> used_map" where
  "evaluate_package V allow name r =
     (case r of (findings, used) \<Rightarrow>
        (let node = the_or JNull (field name V) in
         if \<not> is_record (Some node)
         then (findings @ [\<lparr>fi_name = name, fi_severity = ''unknown'', fi_blocking = [''unresolvable'']\<rparr>], used)
         else if \<not> gates V name node then (findings, used)
         else (let (ok, w) = chain_is_excepted V allow name in
               if ok \<and> wk_used w \<noteq> [] then (findings, foldl (\<lambda>u i. use_id name i u) used (wk_used w))
               else (findings @ [\<lparr>fi_name = name, fi_severity = severity_of node,
                       fi_blocking = sort (if wk_blocking w = [] then [''no-advisory-resolved''] else wk_blocking w)\<rparr>],
                     used))))"

definition evaluate_report :: "json \<Rightarrow> string list \<Rightarrow> (finding list \<times> used_map) \<times> string list" where
  "evaluate_report V allow =
     (foldl (\<lambda>r name. evaluate_package V allow name r) ([], []) (sort (object_keys V)), matched_ids V allow)"

definition count_of :: "json option \<Rightarrow> int option" where
  "count_of v =
     (case v of
        Some (JNum (Fin r)) \<Rightarrow> if r = of_int \<lfloor>r\<rfloor> \<and> 0 \<le> r then Some \<lfloor>r\<rfloor> else None
      | _ \<Rightarrow> None)"

definition map_count :: "json \<Rightarrow> nat" where
  "map_count V = length (filter
     (\<lambda>name. case field name V of
        Some (JObj kvs) \<Rightarrow> str_of (field ''severity'' (JObj kvs)) \<in> {Some ''high'', Some ''critical''}
      | _ \<Rightarrow> False) (object_keys V))"

definition metadata_disagreement :: "json \<Rightarrow> string option" where
  "metadata_disagreement data =
     (let tally = (case field ''metadata'' data of Some m \<Rightarrow> field ''vulnerabilities'' m | None \<Rightarrow> None) in
      case tally of
        Some (JObj t) \<Rightarrow>
          (case (count_of (field ''high'' (JObj t)), count_of (field ''critical'' (JObj t))) of
             (Some high, Some critical) \<Rightarrow>
               (let shown_total = map_count (the_or JNull (field ''vulnerabilities'' data)) in
                if high + critical \<noteq> int shown_total
                then Some (''metadata counts '' @ int_str (high + critical)
                  @ '' HIGH/CRITICAL package(s) but the vulnerabilities map holds '' @ nat_str shown_total)
                else None)
           | _ \<Rightarrow> Some ''metadata.vulnerabilities.high and .critical are not non-negative integers'')
      | _ \<Rightarrow> Some ''the report has no metadata.vulnerabilities tally to cross-check'')"

definition is_audit_report :: "json \<Rightarrow> bool" where
  "is_audit_report data \<longleftrightarrow> field ''auditReportVersion'' data = Some (JNum (Fin 2))
     \<and> is_record (field ''vulnerabilities'' data)"

definition parse_report :: "js_lib \<Rightarrow> string \<Rightarrow> json option" where
  "parse_report L out =
     (case json_parse L out of Inl e \<Rightarrow> None | Inr v \<Rightarrow> if is_record (Some v) then Some v else None)"

section \<open>The classification\<close>

text \<open>npm's exit status is a number the shell gives; it prints in decimal.\<close>

record gate_input =
  gi_stdout :: string
  gi_stderr :: string
  gi_status :: nat
  gi_allowlist :: string
  gi_file :: string
  gi_today :: string

definition gate_error_line :: "string \<Rightarrow> string" where
  "gate_error_line s = ''::error::npm audit gate: '' @ s"

definition unclassified_line :: "string \<Rightarrow> string" where
  "unclassified_line why = gate_error_line (''UNCLASSIFIED: '' @ why)"

definition outage_marker :: re where
  "outage_marker = alts (map lit [''audit endpoint returned an error'', ''Invalid package tree'', ''ENOTFOUND'',
       ''ETIMEDOUT'', ''ECONNREFUSED'', ''ECONNRESET'', ''EAI_AGAIN'', ''socket hang up'', ''ERR_SOCKET_TIMEOUT'',
       ''network''] @ [Seq (lit ''E5'') (rtimes 2 digit), lit ''E429''])"

definition unmatched_lines :: "string list \<Rightarrow> allow_entry list \<Rightarrow> string list" where
  "unmatched_lines matched entries =
     map (\<lambda>e. ''::warning::npm audit gate: allowlist entry '' @ al_id e
         @ '' matched no advisory in this tree (unmatched entries are warnings only)'')
       (filter (\<lambda>e. al_id e \<notin> set matched) entries)"

definition finding_line :: "finding \<Rightarrow> string" where
  "finding_line f = ''  - '' @ clean (fi_name f) @ '' ('' @ clean (fi_severity f) @ ''): ''
     @ join '', '' (map clean (fi_blocking f))"

definition excepted_lines :: "used_map \<Rightarrow> allow_entry list \<Rightarrow> string list" where
  "excepted_lines used entries =
     concat (map (\<lambda>e. case map_of used (al_id e) of
         None \<Rightarrow> []
       | Some names \<Rightarrow> [''npm audit gate: excepted by allowlist: '' @ al_id e @ '' (reviewBy '' @ al_review e
           @ ''; '' @ clean (al_reason e) @ '') for '' @ join '', '' (map clean (sort names))]) entries)"

definition clean_line :: string where
  "clean_line = ''npm audit gate: CLEAN: no HIGH or CRITICAL advisories outside the allowlist.''"

text \<open>A consistent report: what is found in it, and what is said.\<close>

definition classify_report ::
  "nat \<Rightarrow> json \<Rightarrow> allow_entry list \<Rightarrow> bool \<Rightarrow> nat \<times> string list" where
  "classify_report status data entries expired =
     (let ((findings, used), matched) =
            evaluate_report (the_or JNull (field ''vulnerabilities'' data)) (map al_id entries);
          warnings = unmatched_lines matched entries
      in if findings \<noteq> [] then
           (exit_findings, warnings
              @ [gate_error_line (''FINDINGS: '' @ nat_str (length findings)
                   @ '' package(s) with HIGH or CRITICAL advisories not covered by the allowlist'')]
              @ map finding_line findings)
         else if used = [] \<and> status \<noteq> 0 then
           (exit_unclassified, warnings @ [unclassified_line
              ''npm audit failed but the report holds no HIGH or CRITICAL advisory; check the log''])
         else if expired then (exit_clean, warnings)
         else (exit_clean, warnings @ excepted_lines used entries @ [clean_line]))"

text \<open>No report: npm failed in another way, or said nothing.\<close>

definition classify_no_report :: "gate_input \<Rightarrow> nat \<times> string list" where
  "classify_no_report q =
     (if gi_status q = 0 then
        (exit_unclassified, [unclassified_line ''npm audit exited 0 but printed no audit report; check the log''])
      else if test outage_marker (gi_stdout q @ [CHR 10] @ gi_stderr q) then
        (exit_outage, [gate_error_line (''OUTAGE: the audit endpoint did not answer (registry outage), ''
           @ ''this is NOT an advisory finding; retry the job later'')])
      else (exit_unclassified, [unclassified_line (''npm audit failed with status '' @ clean (nat_str (gi_status q))
           @ '' and produced neither an audit report nor an outage marker; ''
           @ ''check the log and the working-directory'')]))"

definition classify_audit ::
  "js_lib \<Rightarrow> gate_input \<Rightarrow> allow_entry list \<Rightarrow> bool \<Rightarrow> nat \<times> string list" where
  "classify_audit L q entries expired =
     (if gi_status q = 124 then (exit_outage, [gate_error_line (''OUTAGE: npm audit did not return within the ''
          @ ''local timeout (ERR_SOCKET_TIMEOUT); this is NOT an advisory finding, retry the job later'')])
      else (case parse_report L (gi_stdout q) of
        Some data \<Rightarrow>
          if is_audit_report data then
            if gi_status q \<noteq> 0 \<and> gi_status q \<noteq> 1 then
              (exit_unclassified, [unclassified_line (''npm audit exited with status '' @ clean (nat_str (gi_status q))
                 @ '' but printed an audit report; check the log'')])
            else (case metadata_disagreement data of
                Some why \<Rightarrow> (exit_unclassified, [unclassified_line
                    (''inconsistent audit report: '' @ clean why @ ''; check the log'')])
              | None \<Rightarrow> classify_report (gi_status q) data entries expired)
          else classify_no_report q
      | None \<Rightarrow> classify_no_report q))"

definition expired_line :: "string \<Rightarrow> allow_entry \<Rightarrow> string" where
  "expired_line today e = gate_error_line (''allowlist entry '' @ al_id e @ '' expired (reviewBy '' @ al_review e
     @ '', today '' @ today @ '' UTC); review it and either renew reviewBy with a recorded reason ''
     @ ''or remove the entry'')"

definition classify :: "js_lib \<Rightarrow> gate_input \<Rightarrow> string + nat \<times> string list" where
  "classify L q =
     (let err = sanitize_stderr (gi_stderr q) in
      case parse_allowlist L (gi_allowlist q) (gi_file q) (Some (gi_today q)) of
        Inl (AllowlistError why) \<Rightarrow> Inr (exit_unclassified, err @ [unclassified_line why])
      | Inl (OtherError e) \<Rightarrow> Inl e
      | Inr entries \<Rightarrow>
          (let expired = filter (\<lambda>e. al_review e < gi_today q) entries;
               (rc, lines) = classify_audit L q entries (expired \<noteq> []);
               all_lines = err @ map (expired_line (gi_today q)) expired @ lines
           in if expired \<noteq> []
              then Inr (exit_findings, all_lines @ [''npm audit gate: FINDINGS: expired allowlist entries (see above)''])
              else Inr (rc, all_lines)))"

section \<open>The command line\<close>

text \<open>
  \<open>parseArgs\<close>, and \<open>main\<close>: \<open>io_file\<close> reads a file or fails with \<open>err.code ?? err.message\<close>. An uncaught
  error is \<open>Inl\<close>.
\<close>

record gate_args =
  ga_allowlist :: string
  ga_status :: nat
  ga_stdout :: string
  ga_stderr :: "string option"

fun arg_pairs :: "string list \<Rightarrow> (string \<times> string) list option" where
  "arg_pairs [] = Some []"
| "arg_pairs [flag] = None"
| "arg_pairs (flag # v # rest) =
     (if flag \<in> set [''--allowlist'', ''--status'', ''--stdout'', ''--stderr'']
      then map_option (Cons (flag, v)) (arg_pairs rest) else None)"

definition parse_args :: "string list \<Rightarrow> gate_args option" where
  "parse_args argv =
     (case arg_pairs argv of
        None \<Rightarrow> None
      | Some ps \<Rightarrow>
          (let get = map_of (rev ps) in
           case (get ''--allowlist'', get ''--status'', get ''--stdout'') of
             (Some a, Some st, Some out) \<Rightarrow>
               if test (anchored (plus digit)) st
               then Some \<lparr>ga_allowlist = a, ga_status = nat_of_digits st, ga_stdout = out, ga_stderr = get ''--stderr''\<rparr>
               else None
           | _ \<Rightarrow> None))"

text \<open>\<open>argv[argv.indexOf('--stderr') + 1]\<close> of arguments that did not parse.\<close>

fun lenient_stderr :: "string list \<Rightarrow> string option" where
  "lenient_stderr [] = None"
| "lenient_stderr (a # rest) =
     (if a = ''--stderr'' then (case rest of [] \<Rightarrow> None | v # _ \<Rightarrow> Some v) else lenient_stderr rest)"

definition usage_line :: string where
  "usage_line = unclassified_line (''usage: audit-gate.mjs --allowlist <file> --status <npm exit code> ''
     @ ''--stdout <file> [--stderr <file>]'')"

definition unread_line :: "string \<Rightarrow> string" where
  "unread_line e = unclassified_line (''captured npm audit output cannot be read ('' @ clean e @ '')'')"

definition main_gate ::
  "js_lib \<Rightarrow> millis \<Rightarrow> (string \<Rightarrow> string + string) \<Rightarrow> string list \<Rightarrow> string + nat \<times> string list" where
  "main_gate L now io_file argv =
     (let args = parse_args argv;
          err_file = (case args of Some a \<Rightarrow> ga_stderr a | None \<Rightarrow> lenient_stderr argv);
          read_err = (case err_file of None \<Rightarrow> Inr [] | Some f \<Rightarrow> io_file f);
          err = (case read_err of Inl e \<Rightarrow> [] | Inr s \<Rightarrow> s);
          quit = (\<lambda>line. Inr (exit_unclassified, sanitize_stderr err @ [line]))
      in case args of
           None \<Rightarrow> quit usage_line
         | Some a \<Rightarrow>
             (case io_file (ga_allowlist a) of
                Inl e \<Rightarrow> quit (unclassified_line (''allowlist '' @ clean (ga_allowlist a) @ '': cannot be read (''
                     @ clean e @ '')''))
              | Inr content \<Rightarrow>
                  (case (io_file (ga_stdout a), read_err) of
                     (Inr out, Inr _) \<Rightarrow>
                       classify L \<lparr>gi_stdout = out, gi_stderr = err, gi_status = ga_status a,
                         gi_allowlist = content, gi_file = ga_allowlist a, gi_today = today_utc L now\<rparr>
                   | (Inl e, _) \<Rightarrow> quit (unread_line e)
                   | (_, Inl e) \<Rightarrow> quit (unread_line e))))"

end
