(* ===== verification/AuditChain.thy ===== *)
theory AuditChain imports AuditGate begin

text \<open>
  The walk of the audit gate against its specification: a package is excepted exactly when every
  package reachable from it over via chains is resolvable and lists gating advisories of allowed ids
  only; the fuel of the walk always suffices.
\<close>

section \<open>Specification\<close>

inductive reaches :: "json \<Rightarrow> string \<Rightarrow> string \<Rightarrow> bool" for V a where
  here: "reaches V a a"
| next_dep: "reaches V a b \<Longrightarrow> via_of V b = Some vs \<Longrightarrow> JStr c \<in> set vs \<Longrightarrow> reaches V a c"

definition gating_id :: "json \<Rightarrow> string option \<Rightarrow> bool" where
  "gating_id v i \<longleftrightarrow> (\<exists>kvs. v = JObj kvs) \<and> is_gating (field ''severity'' v) \<and> advisory_id v = i"

fun via_clear :: "string list \<Rightarrow> json \<Rightarrow> bool" where
  "via_clear allow (JStr dep) = True"
| "via_clear allow (JObj kvs) =
     (\<not> is_gating (field ''severity'' (JObj kvs))
      \<or> (case advisory_id (JObj kvs) of None \<Rightarrow> False | Some i \<Rightarrow> i \<in> set allow))"
| "via_clear allow _ = False"

definition package_clear :: "json \<Rightarrow> string list \<Rightarrow> string \<Rightarrow> bool" where
  "package_clear V allow name = (case via_of V name of None \<Rightarrow> False | Some vs \<Rightarrow> list_all (via_clear allow) vs)"

definition deps :: "json list \<Rightarrow> string set" where
  "deps vs = {c. JStr c \<in> set vs}"

definition advisories :: "string list \<Rightarrow> json list \<Rightarrow> string set" where
  "advisories allow vs = {i \<in> set allow. \<exists>v \<in> set vs. gating_id v (Some i)}"

lemma deps_simps [simp]:
  "deps [] = {}" "deps (JStr d # vs) = insert d (deps vs)" "deps (JObj kvs # vs) = deps vs"
  "deps (JNull # vs) = deps vs" "deps (JBool b # vs) = deps vs" "deps (JNum r # vs) = deps vs"
  "deps (JArr xs # vs) = deps vs"
  by (auto simp: deps_def)

lemma advisories_simps [simp]:
  "advisories allow [] = {}" "advisories allow (JStr d # vs) = advisories allow vs"
  "advisories allow (JNull # vs) = advisories allow vs" "advisories allow (JBool b # vs) = advisories allow vs"
  "advisories allow (JNum r # vs) = advisories allow vs" "advisories allow (JArr xs # vs) = advisories allow vs"
  by (auto simp: advisories_def gating_id_def)

lemma advisories_object:
  "advisories allow (JObj kvs # vs) = {i \<in> set allow. gating_id (JObj kvs) (Some i)} \<union> advisories allow vs"
  by (auto simp: advisories_def)

section \<open>What the walk does\<close>

text \<open>From \<open>w\<close> to \<open>w'\<close>: the new packages, closed under dependencies; what they use and whether they are clear.\<close>

definition fresh_of :: "walk \<Rightarrow> walk \<Rightarrow> string set" where
  "fresh_of w w' = set (wk_visited w') - set (wk_visited w)"

definition via_list :: "json \<Rightarrow> string \<Rightarrow> json list" where
  "via_list V x = the_or [] (via_of V x)"

definition closed_new :: "json \<Rightarrow> string list \<Rightarrow> walk \<Rightarrow> walk \<Rightarrow> bool" where
  "closed_new V allow w w' \<longleftrightarrow> set (wk_visited w) \<subseteq> set (wk_visited w')
     \<and> (\<forall>x \<in> fresh_of w w'. deps (via_list V x) \<subseteq> set (wk_visited w'))"

definition used_new :: "json \<Rightarrow> string list \<Rightarrow> walk \<Rightarrow> walk \<Rightarrow> string set" where
  "used_new V allow w w' = (\<Union>x \<in> fresh_of w w'. advisories allow (via_list V x))"

lemma add_once_set [simp]: "set (add_once x xs) = insert x (set xs)"
  by (auto simp: add_once_def)

lemma block_fields [simp]:
  "wk_visited (block why w) = wk_visited w" "wk_used (block why w) = wk_used w"
  by (simp_all add: block_def)

lemma judged:
  assumes "judge_advisory allow name (JObj kvs) w = (good, w')"
  shows "wk_visited w' = wk_visited w" and "good \<longleftrightarrow> via_clear allow (JObj kvs)"
    and "set (wk_used w') = set (wk_used w) \<union> {i \<in> set allow. gating_id (JObj kvs) (Some i)}"
  using assms by (auto simp: judge_advisory_def gating_id_def split: if_splits option.splits)

definition package_walked where
  "package_walked V allow name w ok w' \<longleftrightarrow> closed_new V allow w w' \<and> name \<in> set (wk_visited w')
     \<and> (\<forall>x \<in> fresh_of w w'. reaches V name x)
     \<and> (ok \<longleftrightarrow> (\<forall>x \<in> fresh_of w w'. package_clear V allow x))
     \<and> set (wk_used w') = set (wk_used w) \<union> used_new V allow w w'"

definition vias_walked where
  "vias_walked V allow vs ok0 w ok w' \<longleftrightarrow> closed_new V allow w w' \<and> deps vs \<subseteq> set (wk_visited w')
     \<and> (\<forall>x \<in> fresh_of w w'. \<exists>d \<in> deps vs. reaches V d x)
     \<and> (ok \<longleftrightarrow> ok0 \<and> list_all (via_clear allow) vs \<and> (\<forall>x \<in> fresh_of w w'. package_clear V allow x))
     \<and> set (wk_used w') = set (wk_used w) \<union> advisories allow vs \<union> used_new V allow w w'"

lemma reaches_trans: "reaches V b c \<Longrightarrow> reaches V a b \<Longrightarrow> reaches V a c"
  by (induction rule: reaches.induct) (auto intro: reaches.intros)

lemma reaches_dep:
  assumes "via_of V a = Some vs" and "d \<in> deps vs" and "reaches V d x"
  shows "reaches V a x"
  by (rule reaches_trans [OF assms(3) next_dep [OF here assms(1)]]) (use assms(2) in \<open>simp add: deps_def\<close>)

lemma walked_skip: "vias_walked V allow vs ok0 w ok w' \<Longrightarrow> wk_visited w1 = wk_visited w \<Longrightarrow>
    set (wk_used w) = set (wk_used w1) \<union> U \<Longrightarrow> U \<union> advisories allow vs = advisories allow (v # vs) \<Longrightarrow>
    deps (v # vs) = deps vs \<Longrightarrow> ok0 \<longleftrightarrow> ok1 \<and> via_clear allow v \<Longrightarrow>
    vias_walked V allow (v # vs) ok1 w1 ok w'"
  by (auto simp: vias_walked_def closed_new_def fresh_of_def used_new_def)

lemma walked_other: "vias_walked V allow vs False (block why w) ok w' \<Longrightarrow> \<not> via_clear allow v \<Longrightarrow>
    deps (v # vs) = deps vs \<Longrightarrow> advisories allow (v # vs) = advisories allow vs \<Longrightarrow>
    vias_walked V allow (v # vs) ok0 w ok w'"
  by (simp add: vias_walked_def closed_new_def fresh_of_def used_new_def)

lemma walked_dep:
  assumes "package_walked V allow dep w good w1" and "vias_walked V allow vs (ok0 \<and> good) w1 ok w'"
  shows "vias_walked V allow (JStr dep # vs) ok0 w ok w'"
proof -
  note a = assms(1) [unfolded package_walked_def closed_new_def]
  note b = assms(2) [unfolded vias_walked_def closed_new_def]
  have sub: "set (wk_visited w) \<subseteq> set (wk_visited w1)" "set (wk_visited w1) \<subseteq> set (wk_visited w')"
    using a b by simp_all
  then have f: "fresh_of w w' = fresh_of w w1 \<union> fresh_of w1 w'" by (auto simp: fresh_of_def)
  have "used_new V allow w w' = used_new V allow w w1 \<union> used_new V allow w1 w'"
    by (simp add: used_new_def f UN_Un)
  moreover have "closed_new V allow w w'" using a b sub unfolding closed_new_def f by blast
  moreover have "deps (JStr dep # vs) \<subseteq> set (wk_visited w')" using a b by auto
  moreover have "\<forall>x \<in> fresh_of w w'. \<exists>d \<in> deps (JStr dep # vs). reaches V d x"
    using a b unfolding f deps_simps by blast
  ultimately show ?thesis using a b by (simp add: vias_walked_def f ball_Un Un_assoc) blast
qed

lemma walk_correct:
  "walk_package n V allow name w = Some (ok, w') \<Longrightarrow> package_walked V allow name w ok w'"
  "walk_vias n V allow name vs ok0 w = Some (ok, w') \<Longrightarrow> vias_walked V allow vs ok0 w ok w'"
proof (induction n V allow name w and n V allow name vs ok0 w arbitrary: ok w' and ok w'
    rule: walk_package_walk_vias.induct)
  case (2 n V allow name w)
  show ?case
  proof (cases "name \<in> set (wk_visited w)")
    case True
    then show ?thesis using 2(2)
      by (auto simp: package_walked_def closed_new_def fresh_of_def used_new_def)
  next
    case new: False
    let ?w1 = "w\<lparr>wk_visited := wk_visited w @ [name]\<rparr>"
    show ?thesis
    proof (cases "via_of V name")
      case None
      then have "fresh_of w w' = {name}" "ok = False" "wk_used w' = wk_used w" "wk_visited w' = wk_visited w @ [name]"
        using new 2(2) by (auto simp: Let_def fresh_of_def)
      with None show ?thesis
        by (auto simp: package_walked_def closed_new_def used_new_def via_list_def package_clear_def intro: here)
    next
      case (Some vs)
      then have "walk_vias n V allow name vs True ?w1 = Some (ok, w')" using new 2(2) by (simp add: Let_def)
      from 2(1) [OF new refl Some this] have walked: "vias_walked V allow vs True ?w1 ok w'" .
      have "fresh_of w w' = insert name (fresh_of ?w1 w')"
        using walked new by (auto simp: fresh_of_def vias_walked_def closed_new_def)
      moreover have "\<forall>x \<in> fresh_of ?w1 w'. reaches V name x"
        using walked reaches_dep [OF Some] by (auto simp: vias_walked_def)
      ultimately show ?thesis using walked Some
        by (auto simp: package_walked_def vias_walked_def closed_new_def used_new_def via_list_def package_clear_def
            intro: here)
    qed
  qed
next
  case (4 n V allow name v vs ok0 w)
  show ?case
  proof (cases v)
    case (JStr dep)
    with 4(8) obtain good w1 where p: "walk_package n V allow dep w = Some (good, w1)"
      and r: "walk_vias n V allow name vs (ok0 \<and> good) w1 = Some (ok, w')"
      by (auto split: option.splits)
    have a: "package_walked V allow dep w good w1" using 4(4) [OF JStr p] .
    have b: "vias_walked V allow vs (ok0 \<and> good) w1 ok w'" using 4(5) [OF JStr p refl r] .
    show ?thesis unfolding JStr by (rule walked_dep [OF a b])
  next
    case (JObj kvs)
    obtain good w1 where j: "judge_advisory allow name v w = (good, w1)" by (rule prod.exhaust)
    then have r: "walk_vias n V allow name vs (ok0 \<and> good) w1 = Some (ok, w')" using 4(8) JObj by simp
    note walked = 4(7) [OF JObj j [symmetric] refl r]
    note facts = judged [OF j [unfolded JObj]]
    show ?thesis unfolding JObj
      by (rule walked_skip [OF walked facts(1) [symmetric] facts(3)])
        (simp_all add: advisories_object facts(2))
  next
    case JNull
    then have "walk_vias n V allow name vs False (block (''unresolvable:'' @ name) w) = Some (ok, w')"
      using 4(8) by simp
    from 4(1) [OF JNull this] show ?thesis unfolding JNull by (rule walked_other) simp_all
  next
    case (JBool b)
    then have "walk_vias n V allow name vs False (block (''unresolvable:'' @ name) w) = Some (ok, w')"
      using 4(8) by simp
    from 4(2) [OF JBool this] show ?thesis unfolding JBool by (rule walked_other) simp_all
  next
    case (JNum r)
    then have "walk_vias n V allow name vs False (block (''unresolvable:'' @ name) w) = Some (ok, w')"
      using 4(8) by simp
    from 4(3) [OF JNum this] show ?thesis unfolding JNum by (rule walked_other) simp_all
  next
    case (JArr xs)
    then have "walk_vias n V allow name vs False (block (''unresolvable:'' @ name) w) = Some (ok, w')"
      using 4(8) by simp
    from 4(6) [OF JArr this] show ?thesis unfolding JArr by (rule walked_other) simp_all
  qed
qed (auto simp: vias_walked_def closed_new_def fresh_of_def used_new_def)

section \<open>The fuel suffices\<close>

definition unvisited :: "json \<Rightarrow> walk \<Rightarrow> nat" where
  "unvisited V w = card (set (object_keys V) - set (wk_visited w))"

lemma via_of_key: "via_of V name = Some vs \<Longrightarrow> name \<in> set (object_keys V)"
  by (auto simp: via_of_def field_def object_keys_def set_uniq dest!: map_of_SomeD intro: rev_image_eqI
      split: option.splits json.splits)

lemma unvisited_mono: "set (wk_visited w) \<subseteq> set (wk_visited w') \<Longrightarrow> unvisited V w' \<le> unvisited V w"
  by (auto simp: unvisited_def intro!: card_mono)

lemma walk_returns:
  "unvisited V w < n \<Longrightarrow> walk_package n V allow name w \<noteq> None"
  "unvisited V w < n \<Longrightarrow> walk_vias n V allow name vs ok0 w \<noteq> None"
proof (induction n V allow name w and n V allow name vs ok0 w rule: walk_package_walk_vias.induct)
  case (2 n V allow name w)
  show ?case
  proof (cases "via_of V name = None \<or> name \<in> set (wk_visited w)")
    case False
    then obtain vs where vs: "via_of V name = Some vs" and new: "name \<notin> set (wk_visited w)" by auto
    let ?w1 = "w\<lparr>wk_visited := wk_visited w @ [name]\<rparr>"
    have "set (object_keys V) - set (wk_visited ?w1) \<subset> set (object_keys V) - set (wk_visited w)"
      using via_of_key [OF vs] new by auto
    then have "unvisited V ?w1 < unvisited V w" unfolding unvisited_def by (intro psubset_card_mono) auto
    then have "walk_vias n V allow name vs True ?w1 \<noteq> None" using 2(1) [OF new refl vs] 2(2) by simp
    then show ?thesis using vs new by (simp add: Let_def)
  qed auto
next
  case (4 n V allow name v vs ok0 w)
  show ?case
  proof (cases v)
    case (JStr dep)
    then obtain good w1 where p: "walk_package n V allow dep w = Some (good, w1)" using 4(4) 4(8) by fastforce
    have "unvisited V w1 < n"
      using walk_correct(1) [OF p] unvisited_mono [of w w1 V] 4(8)
      by (simp add: package_walked_def closed_new_def)
    then show ?thesis using 4(5) [OF JStr p refl] JStr p by simp
  next
    case (JObj kvs)
    obtain good w1 where j: "judge_advisory allow name v w = (good, w1)" by (rule prod.exhaust)
    have "wk_visited w1 = wk_visited w" using judged(1) [OF j [unfolded JObj]] .
    then have "unvisited V w1 < n" using 4(8) by (simp add: unvisited_def)
    then show ?thesis using 4(7) [OF JObj j [symmetric] refl] JObj j by simp
  qed (use 4 in \<open>auto simp: unvisited_def\<close>)
qed auto

section \<open>The whole walk\<close>

lemma chain_walk:
  "\<exists>w. chain_is_excepted V allow name = (list_all (package_clear V allow) (wk_visited w), w)
     \<and> set (wk_visited w) = {x. reaches V name x}
     \<and> set (wk_used w) = (\<Union>x \<in> {x. reaches V name x}. advisories allow (via_list V x))"
proof -
  have "unvisited V fresh_walk \<le> length (object_keys V)"
    by (simp add: unvisited_def fresh_walk_def card_length)
  then have "walk_package (length (object_keys V) + 2) V allow name fresh_walk \<noteq> None"
    by (intro walk_returns) simp
  then obtain ok w where w: "walk_package (length (object_keys V) + 2) V allow name fresh_walk = Some (ok, w)"
    by auto
  have f: "fresh_of fresh_walk w = set (wk_visited w)" by (simp add: fresh_of_def fresh_walk_def)
  note walked = walk_correct(1) [OF w, unfolded package_walked_def closed_new_def used_new_def f]
  have root: "name \<in> set (wk_visited w)" and found: "\<forall>x \<in> set (wk_visited w). reaches V name x"
    and closed: "\<forall>x \<in> set (wk_visited w). deps (via_list V x) \<subseteq> set (wk_visited w)"
    using walked by simp_all
  have "x \<in> set (wk_visited w)" if "reaches V name x" for x
    using that
  proof induction
    case (next_dep b vs c)
    then have "deps (via_list V b) \<subseteq> set (wk_visited w)" using closed by simp
    then show ?case using next_dep(2,3) by (auto simp: deps_def via_list_def)
  qed (rule root)
  then have all: "set (wk_visited w) = {x. reaches V name x}" using found by auto
  have "ok = list_all (package_clear V allow) (wk_visited w)" using walked by (simp add: list_all_iff)
  then have "chain_is_excepted V allow name = (list_all (package_clear V allow) (wk_visited w), w)"
    using w by (simp add: chain_is_excepted_def)
  moreover have "set (wk_used w) = (\<Union>x \<in> {x. reaches V name x}. advisories allow (via_list V x))"
    using walked all by (simp add: fresh_walk_def)
  ultimately show ?thesis using all by (intro exI [of _ w] conjI)
qed

text \<open>C25: the walk decides what it is meant to. Whatever the graph of a report (missing packages, malformed
  chains, cycles), the walk ends, and it excepts a package exactly when every package reachable from
  it over via chains has a list of vias in which each is a dependency, a non-gating advisory, or an
  advisory with an allowed id; the ids it reports as used are exactly those of the allowed gating
  advisories of the reachable packages.\<close>

theorem walk_decides_the_chain:
  "(fst (chain_is_excepted V allow name) \<longleftrightarrow> {x. reaches V name x} \<subseteq> {x. package_clear V allow x})
   \<and> set (wk_used (snd (chain_is_excepted V allow name))) =
       (\<Union>x \<in> {x. reaches V name x}. advisories allow (via_list V x))"
proof -
  obtain w where w: "chain_is_excepted V allow name = (list_all (package_clear V allow) (wk_visited w), w)"
    "set (wk_visited w) = {x. reaches V name x}"
    "set (wk_used w) = (\<Union>x \<in> {x. reaches V name x}. advisories allow (via_list V x))"
    using chain_walk [of V allow name] by blast
  have "fst (chain_is_excepted V allow name) \<longleftrightarrow> {x. reaches V name x} \<subseteq> {x. package_clear V allow x}"
    unfolding w(1) fst_conv list_all_iff w(2) by blast
  then show ?thesis by (simp only: w(1) snd_conv w(3) simp_thms)
qed

end
