(* ===== verification/AuditClean.thy ===== *)
theory AuditClean imports AuditChain begin

text \<open>
  When the audit gate is green, and what it writes to the log.
\<close>

section \<open>Packages that pass\<close>

text \<open>
  A package of the report passes when it does not gate, or when its chain is clear and at least one
  advisory in it needs an exception.
\<close>

definition chain_clear :: "json \<Rightarrow> string list \<Rightarrow> string \<Rightarrow> bool" where
  "chain_clear V allow name \<longleftrightarrow> (\<forall>x. reaches V name x \<longrightarrow> package_clear V allow x)
     \<and> (\<exists>x. reaches V name x \<and> advisories allow (via_list V x) \<noteq> {})"

definition node_of :: "json \<Rightarrow> string \<Rightarrow> json" where
  "node_of V name = the_or JNull (field name V)"

definition passes :: "json \<Rightarrow> string list \<Rightarrow> string \<Rightarrow> bool" where
  "passes V allow name \<longleftrightarrow> is_record (Some (node_of V name))
     \<and> (gates V name (node_of V name) \<longrightarrow> chain_clear V allow name)"

lemma chain_result:
  "(case chain_is_excepted V allow name of (ok, w) \<Rightarrow> ok \<and> wk_used w \<noteq> []) \<longleftrightarrow> chain_clear V allow name"
proof -
  obtain w where w: "chain_is_excepted V allow name = (list_all (package_clear V allow) (wk_visited w), w)"
    "set (wk_visited w) = {x. reaches V name x}"
    "set (wk_used w) = (\<Union>x \<in> {x. reaches V name x}. advisories allow (via_list V x))"
    using chain_walk [of V allow name] by blast
  have "wk_used w \<noteq> [] \<longleftrightarrow> (\<exists>x. reaches V name x \<and> advisories allow (via_list V x) \<noteq> {})"
    unfolding set_empty [symmetric] w(3) by blast
  moreover have "list_all (package_clear V allow) (wk_visited w) \<longleftrightarrow> (\<forall>x. reaches V name x \<longrightarrow> package_clear V allow x)"
    unfolding list_all_iff w(2) by blast
  ultimately show ?thesis by (simp add: w(1) chain_clear_def)
qed

lemma update_nonempty: "AList.update k v al \<noteq> []"
  by (cases al) auto

lemma use_ids_nonempty: "used \<noteq> [] \<or> ids \<noteq> [] \<Longrightarrow> foldl (\<lambda>u i. use_id name i u) used ids \<noteq> []"
  by (induction ids arbitrary: used) (auto simp: use_id_def update_nonempty)

lemma package_evaluated:
  "(fst (evaluate_package V allow name (fs, us)) = [] \<longleftrightarrow> fs = [] \<and> passes V allow name)
   \<and> (passes V allow name \<longrightarrow>
       (snd (evaluate_package V allow name (fs, us)) = [] \<longleftrightarrow> us = [] \<and> \<not> gates V name (node_of V name)))"
proof -
  obtain ok w where c: "chain_is_excepted V allow name = (ok, w)" by (rule prod.exhaust)
  show ?thesis
    using chain_result [of V allow name] use_ids_nonempty [of us "wk_used w" name]
    by (auto simp: evaluate_package_def Let_def c passes_def node_of_def)
qed

lemma packages_evaluated:
  "(fst (foldl (\<lambda>r name. evaluate_package V allow name r) (fs, us) names) = []
      \<longleftrightarrow> fs = [] \<and> (\<forall>name \<in> set names. passes V allow name))
   \<and> ((\<forall>name \<in> set names. passes V allow name) \<longrightarrow>
       (snd (foldl (\<lambda>r name. evaluate_package V allow name r) (fs, us) names) = []
          \<longleftrightarrow> us = [] \<and> (\<forall>name \<in> set names. \<not> gates V name (node_of V name))))"
proof (induction names arbitrary: fs us)
  case (Cons name names)
  obtain fs1 us1 where e: "evaluate_package V allow name (fs, us) = (fs1, us1)" by (rule prod.exhaust)
  show ?case using Cons.IH [of fs1 us1] package_evaluated [of V allow name fs us] by (auto simp: e)
qed simp

section \<open>The allowlist\<close>

definition entry_ok :: "js_lib \<Rightarrow> string \<Rightarrow> allow_entry \<Rightarrow> bool" where
  "entry_ok L today e \<longleftrightarrow> test ghsa_id (al_id e) \<and> is_real_date L (al_review e)
     \<and> (\<exists>latest. add_days L today 90 = Inr latest \<and> al_review e \<le> latest)"

lemma parse_entry_ok:
  "parse_entry L (Some today) seen i v = Inr e \<Longrightarrow> entry_ok L today e \<and> al_id e \<notin> set seen"
  by (auto simp: parse_entry_def Let_def entry_ok_def review_too_late_def max_review_horizon_days_def
      split: if_splits option.splits sum.splits)

lemma parse_entries_ok:
  "parse_entries L (Some today) seen i vs = Inr es \<Longrightarrow>
   list_all (entry_ok L today) es \<and> distinct (map al_id es) \<and> set (map al_id es) \<inter> set seen = {}"
proof (induction vs arbitrary: seen i es)
  case (Cons v vs)
  then obtain e where e: "parse_entry L (Some today) seen i v = Inr e"
    by (cases "parse_entry L (Some today) seen i v") auto
  with Cons.prems obtain es' where "parse_entries L (Some today) (al_id e # seen) (Suc i) vs = Inr es'" "es = e # es'"
    by (cases "parse_entries L (Some today) (al_id e # seen) (Suc i) vs") auto
  with e show ?case using Cons.IH [of "al_id e # seen" "Suc i" es'] parse_entry_ok by auto
qed simp

lemma allowlist_ok:
  assumes "parse_allowlist L content file (Some today) = Inr es"
  shows "list_all (entry_ok L today) es \<and> distinct (map al_id es)"
proof -
  from assms obtain vs where "map_sum (name_file file) id (parse_entries L (Some today) [] 0 vs) = Inr es"
    by (auto simp: parse_allowlist_def Let_def split: sum.splits if_splits option.splits json.splits)
  then have "parse_entries L (Some today) [] 0 vs = Inr es"
    by (cases "parse_entries L (Some today) [] 0 vs") auto
  from parse_entries_ok [OF this] show ?thesis by simp
qed

section \<open>The green gate\<close>

definition vulns_of :: "json \<Rightarrow> json" where
  "vulns_of data = the_or JNull (field ''vulnerabilities'' data)"

text \<open>The report passes: it is consistent with npm's tally and status, and every package passes.\<close>

definition report_passes :: "nat \<Rightarrow> json \<Rightarrow> string list \<Rightarrow> bool" where
  "report_passes status data allow \<longleftrightarrow> is_audit_report data \<and> metadata_disagreement data = None
     \<and> (\<forall>name \<in> set (object_keys (vulns_of data)). passes (vulns_of data) allow name)
     \<and> (status = 0 \<or> status = 1 \<and>
          (\<exists>name \<in> set (object_keys (vulns_of data)). gates (vulns_of data) name (node_of (vulns_of data) name)))"

lemma report_classified:
  "fst (classify_report status data entries expired) = exit_clean \<longleftrightarrow>
     (\<forall>name \<in> set (object_keys (vulns_of data)). passes (vulns_of data) (map al_id entries) name)
     \<and> (status = 0 \<or> (\<exists>name \<in> set (object_keys (vulns_of data)). gates (vulns_of data) name (node_of (vulns_of data) name)))"
proof -
  obtain fs us where e: "foldl (\<lambda>r name. evaluate_package (vulns_of data) (map al_id entries) name r) ([], [])
      (sort (object_keys (vulns_of data))) = (fs, us)" by (rule prod.exhaust)
  show ?thesis
    using packages_evaluated [of "vulns_of data" "map al_id entries" "[]" "[]" "sort (object_keys (vulns_of data))"]
    by (auto simp: classify_report_def evaluate_report_def e vulns_of_def [symmetric] Let_def
        exit_clean_def exit_findings_def exit_unclassified_def)
qed

lemma audit_classified:
  "fst (classify_audit L q entries expired) = exit_clean \<longleftrightarrow>
     (\<exists>data. parse_report L (gi_stdout q) = Some data \<and> report_passes (gi_status q) data (map al_id entries))"
  using report_classified [of "gi_status q" _ entries expired]
  by (auto simp: classify_audit_def classify_no_report_def report_passes_def exit_clean_def exit_outage_def
      exit_unclassified_def split: option.splits)

text \<open>The line the workflow looks for.\<close>

lemma gate_line_not_clean [simp]: "gate_error_line s \<noteq> clean_line" "unclassified_line s \<noteq> clean_line"
  by (simp_all add: gate_error_line_def unclassified_line_def clean_line_def)

lemma clean_line_in_report:
  "clean_line \<in> set (snd (classify_report status data entries expired)) \<longleftrightarrow>
     fst (classify_report status data entries expired) = exit_clean \<and> \<not> expired"
proof -
  have "clean_line \<notin> set (unmatched_lines m entries)" for m
    by (auto simp: unmatched_lines_def clean_line_def)
  moreover have "clean_line \<noteq> finding_line f" for f by (simp add: finding_line_def clean_line_def)
  ultimately show ?thesis
    by (auto simp: classify_report_def Let_def case_prod_beta exit_clean_def exit_findings_def exit_unclassified_def
        gate_line_not_clean [symmetric])
qed

lemma clean_line_in_audit:
  "clean_line \<in> set (snd (classify_audit L q entries expired)) \<longleftrightarrow>
     fst (classify_audit L q entries expired) = exit_clean \<and> \<not> expired"
  using clean_line_in_report [of "gi_status q" _ entries expired]
  by (auto simp: classify_audit_def classify_no_report_def exit_clean_def exit_outage_def exit_unclassified_def
      gate_line_not_clean [symmetric] split: option.splits)

lemma clean_line_not_stderr: "clean_line \<notin> set (sanitize_stderr err)"
  by (auto simp: sanitize_stderr_def Let_def stderr_line_def clean_line_def)

lemma classify_codes:
  assumes "classify L q = Inr (rc, lines)"
  shows "(rc = exit_clean \<longleftrightarrow> clean_line \<in> set lines)
    \<and> (rc = exit_clean \<longleftrightarrow> (\<exists>entries data.
         parse_allowlist L (gi_allowlist q) (gi_file q) (Some (gi_today q)) = Inr entries
         \<and> list_all (\<lambda>e. gi_today q \<le> al_review e) entries
         \<and> parse_report L (gi_stdout q) = Some data \<and> report_passes (gi_status q) data (map al_id entries)))"
proof (cases "parse_allowlist L (gi_allowlist q) (gi_file q) (Some (gi_today q))")
  case (Inl e)
  then show ?thesis using assms clean_line_not_stderr [of "gi_stderr q"]
    by (cases e) (auto simp: classify_def Let_def exit_clean_def exit_unclassified_def gate_line_not_clean [symmetric])
next
  case (Inr entries)
  let ?expired = "filter (\<lambda>e. al_review e < gi_today q) entries"
  have live: "list_all (\<lambda>e. gi_today q \<le> al_review e) entries \<longleftrightarrow> ?expired = []"
    by (auto simp: list_all_iff filter_empty_conv not_less)
  have "clean_line \<noteq> expired_line (gi_today q) e" for e
    unfolding expired_line_def by (rule gate_line_not_clean(1) [symmetric])
  then have no_line: "clean_line \<notin> set (sanitize_stderr (gi_stderr q) @ map (expired_line (gi_today q)) ?expired)"
    using clean_line_not_stderr by auto
  obtain rc' lines' where audit: "classify_audit L q entries (?expired \<noteq> []) = (rc', lines')" by (rule prod.exhaust)
  show ?thesis
  proof (cases "?expired = []")
    case True
    then have "rc = rc'" "lines = sanitize_stderr (gi_stderr q) @ lines'"
      using assms Inr audit by (auto simp: classify_def Let_def)
    then show ?thesis
      using audit clean_line_in_audit [of L q entries "?expired \<noteq> []"] audit_classified [of L q entries "?expired \<noteq> []"]
        no_line True Inr live by auto
  next
    case False
    then have "rc = exit_findings" "lines = sanitize_stderr (gi_stderr q) @ map (expired_line (gi_today q)) ?expired
        @ lines' @ [''npm audit gate: FINDINGS: expired allowlist entries (see above)'']"
      using assms Inr audit by (auto simp: classify_def Let_def)
    moreover have "clean_line \<notin> set lines'"
      using audit clean_line_in_audit [of L q entries "?expired \<noteq> []"] False by auto
    ultimately show ?thesis using no_line Inr live False
      by (auto simp: exit_clean_def exit_findings_def clean_line_def)
  qed
qed

text \<open>C26: the gate is green exactly when it should be. It exits 0, and prints its CLEAN line, exactly when the
  allowlist parses and none of its entries is past its review date, npm answered with a report that
  agrees with its own tally and with npm's status, and every gating package of the report has a chain
  that is clear through the listed ids; and every listed entry is a real GHSA id with a real review
  date at most ninety days ahead, no id listed twice.\<close>

theorem gate_is_green_exactly_when:
  "case classify L q of
     Inl e \<Rightarrow> True
   | Inr (rc, lines) \<Rightarrow>
       (rc = exit_clean \<longleftrightarrow> clean_line \<in> set lines)
     \<and> (rc = exit_clean \<longleftrightarrow> (\<exists>entries data.
         parse_allowlist L (gi_allowlist q) (gi_file q) (Some (gi_today q)) = Inr entries
         \<and> list_all (\<lambda>e. entry_ok L (gi_today q) e \<and> gi_today q \<le> al_review e) entries \<and> distinct (map al_id entries)
         \<and> parse_report L (gi_stdout q) = Some data \<and> report_passes (gi_status q) data (map al_id entries)))"
proof (cases "classify L q")
  case (Inr r)
  obtain rc lines where r: "r = (rc, lines)" by (rule prod.exhaust)
  show ?thesis
    using classify_codes [OF Inr [unfolded r]] allowlist_ok [of L "gi_allowlist q" "gi_file q" "gi_today q"]
    by (simp add: Inr r) (metis (mono_tags, lifting) list_all_iff)
qed simp

end
