(* ===== verification/AuditLog.thy ===== *)
theory AuditLog imports AuditClean begin

text \<open>
  What the audit gate writes: every line is one line, and none can pose as a workflow command.
\<close>

section \<open>Texts without line breaks\<close>

definition no_break :: "string \<Rightarrow> bool" where
  "no_break s \<longleftrightarrow> list_all (\<lambda>c. code c \<noteq> 10 \<and> code c \<noteq> 13) s"

lemma no_break_simps [simp]:
  "no_break []" "no_break (c # s) \<longleftrightarrow> code c \<noteq> 10 \<and> code c \<noteq> 13 \<and> no_break s"
  "no_break (s @ t) \<longleftrightarrow> no_break s \<and> no_break t"
  by (simp_all add: no_break_def)

lemma no_break_take: "no_break s \<Longrightarrow> no_break (take n s)"
  unfolding no_break_def list_all_iff by (meson in_set_takeD)

lemma safe_char_no_break: "safe_char c \<Longrightarrow> code c \<noteq> 10 \<and> code c \<noteq> 13"
  by (auto simp: safe_char_def is_upper_def is_lower_def is_digit_def code_def)

lemma clean_safe: "c \<in> set (clean s) \<Longrightarrow> safe_char c \<or> c = CHR ''?''"
  by (auto simp: clean_def)

lemma no_break_clean [simp]: "no_break (clean s)"
  unfolding no_break_def list_all_iff using clean_safe [of _ s] safe_char_no_break by (fastforce simp: code_def)

lemma no_break_nat_str [simp]: "no_break (nat_str n)"
  unfolding no_break_def list_all_iff using nat_str_digits [of _ n] by (fastforce simp: is_digit_def)

lemma no_break_int_str [simp]: "no_break (int_str i)"
  by (simp add: int_str_def code_def)

lemma no_break_join: "no_break sep \<Longrightarrow> list_all no_break xs \<Longrightarrow> no_break (join sep xs)"
  by (induction sep xs rule: join.induct) auto

lemma no_break_lang: "lang_in safe_char r \<Longrightarrow> lang r s \<Longrightarrow> no_break s"
  unfolding no_break_def list_all_iff using lang_chars [of safe_char r s] safe_char_no_break
  by (auto simp: list_all_iff)

lemma safe_chars [simp]:
  "safe_char (CHR ''-'')" "safe_char (CHR ''G'')" "safe_char (CHR ''H'')" "safe_char (CHR ''S'')" "safe_char (CHR ''A'')"
  by code_simp+

lemma ghsa_no_break: "test ghsa_id s \<Longrightarrow> no_break s"
proof -
  assume "test ghsa_id s"
  then have "lang ghsa_body s" unfolding ghsa_id_def by (subst (asm) test_anchored) (simp_all add: ghsa_body_def)
  moreover have "list_all safe_char ''23456789cfghjmpqrvwx''" by code_simp
  then have "ghsa_char c \<Longrightarrow> safe_char c" for c unfolding ghsa_char_def list_all_iff by blast
  then have "lang_in safe_char ghsa_body"
    unfolding ghsa_body_def by (auto simp: chr_def lang_in_lit intro!: lang_in_rtimes)
  ultimately show ?thesis using no_break_lang by blast
qed

lemma date_no_break: "is_real_date L s \<Longrightarrow> no_break s"
proof -
  let ?r = "seqs [rtimes 4 digit, chr (CHR ''-''), rtimes 2 digit, chr (CHR ''-''), rtimes 2 digit]"
  assume "is_real_date L s"
  then have "lang ?r s" unfolding is_real_date_def date_only_def by (subst (asm) test_anchored) auto
  moreover have "lang_in safe_char ?r"
    by (auto simp: chr_def digit_def safe_char_def intro!: lang_in_rtimes)
  ultimately show ?thesis using no_break_lang by blast
qed

section \<open>Lines\<close>

definition log_safe :: "string \<Rightarrow> bool" where
  "log_safe line \<longleftrightarrow> no_break line \<and>
     (starts_with ''::'' line \<longrightarrow>
        starts_with ''::error::npm audit gate: '' line \<or> starts_with ''::warning::npm audit gate: '' line)"

lemma log_safe_error [intro]: "no_break s \<Longrightarrow> log_safe (gate_error_line s)"
  by (simp add: log_safe_def gate_error_line_def starts_with_def code_def)

lemma log_safe_unclassified [intro]: "no_break s \<Longrightarrow> log_safe (unclassified_line s)"
  unfolding unclassified_line_def by (rule log_safe_error) (simp add: code_def)

lemma log_safe_plain: "no_break s \<Longrightarrow> \<not> starts_with ''::'' s \<Longrightarrow> log_safe s"
  by (simp add: log_safe_def)

section \<open>The allowlist's errors\<close>

fun error_safe :: "gate_error \<Rightarrow> bool" where
  "error_safe (AllowlistError why) = no_break why"
| "error_safe (OtherError e) = True"

lemma entry_keys_safe: "k \<in> set entry_keys \<Longrightarrow> no_break k"
  by (auto simp: entry_keys_def code_def)

lemma parse_entry_safe:
  assumes "\<And>t. no_break (date_iso L t)" and "no_break today"
    and "parse_entry L (Some today) seen i v = Inl e"
  shows "error_safe e"
proof -
  have "no_break latest" if "add_days L today n = Inr latest" for latest n
    using that assms(1) by (auto simp: add_days_def intro: no_break_take split: option.splits)
  moreover have "no_break k" if "List.find P entry_keys = Some k" for k P
    using that by (auto intro: entry_keys_safe dest: find_SomeD)
  ultimately show ?thesis
    using assms(2,3) ghsa_no_break [of "text_of ''id'' v"] date_no_break [of L "text_of ''reviewBy'' v"]
    by (auto simp: parse_entry_def Let_def review_too_late_def code_def split: if_splits option.splits sum.splits)
qed

lemma parse_entries_safe:
  assumes "\<And>t. no_break (date_iso L t)" and "no_break today"
  shows "parse_entries L (Some today) seen i vs = Inl e \<Longrightarrow> error_safe e"
proof (induction vs arbitrary: seen i)
  case (Cons v vs)
  show ?case
  proof (cases "parse_entry L (Some today) seen i v")
    case (Inl e')
    then show ?thesis using parse_entry_safe [OF assms Inl] Cons.prems by simp
  next
    case (Inr a)
    then have "parse_entries L (Some today) (al_id a # seen) (Suc i) vs = Inl e"
      using Cons.prems by (cases "parse_entries L (Some today) (al_id a # seen) (Suc i) vs") auto
    then show ?thesis by (rule Cons.IH)
  qed
qed simp

lemma parse_allowlist_safe:
  assumes "\<And>t. no_break (date_iso L t)" and "no_break today"
    and "parse_allowlist L content file (Some today) = Inl e"
  shows "error_safe e"
proof -
  have named: "error_safe e' \<Longrightarrow> error_safe (name_file file e')" for e' by (cases e') (simp_all add: code_def)
  from assms(3) consider why where "e = name_file file (AllowlistError why)" "no_break why"
    | vs where "map_sum (name_file file) id (parse_entries L (Some today) [] 0 vs) = Inl e"
    by (auto simp: parse_allowlist_def Let_def code_def split: sum.splits if_splits option.splits json.splits)
  then show ?thesis
  proof cases
    case (1 why)
    then show ?thesis using named [of "AllowlistError why"] by simp
  next
    case (2 vs)
    then show ?thesis
      using parse_entries_safe [OF assms(1,2), of "[]" 0 vs] named
      by (cases "parse_entries L (Some today) [] 0 vs") auto
  qed
qed

section \<open>The sanitised stderr\<close>

lemma match_suffix: "match_here r b a = Some (b', a', g) \<Longrightarrow> \<exists>w. a = w @ a' \<and> b' = rev w @ b"
  using mt_covers [of "(b', a', g)" r "(b, a, [])"]
  by (auto simp: match_here_def covers_def split: list.splits)

lemma replace_from_set: "set (replace_from n r t b a) \<subseteq> set a \<union> set t"
proof (induction n arbitrary: b a)
  case (Suc n)
  show ?case
  proof (cases "match_here r b a")
    case None
    then show ?thesis using Suc.IH [of "hd a # b" "tl a"] by (cases a) auto
  next
    case (Some m)
    obtain b' a' g where m: "m = (b', a', g)" by (cases m)
    then have "set a' \<subseteq> set a" using match_suffix [of r b a b' a' g] Some by auto
    then show ?thesis using Suc.IH [of b' a'] Suc.IH [of "hd a # b" "tl a"] Some m by (cases a) auto
  qed
qed simp

text \<open>No two colons in a row.\<close>

definition no_colons :: "string \<Rightarrow> bool" where
  "no_colons s \<longleftrightarrow> \<not> str_includes s ''::''"

definition colon_head :: "string \<Rightarrow> bool" where
  "colon_head s \<longleftrightarrow> (\<exists>t. s = CHR '':'' # t)"

lemma colon_head_simps [simp]: "\<not> colon_head []" "colon_head (c # s) \<longleftrightarrow> c = CHR '':''"
  by (simp_all add: colon_head_def)

lemma no_colons_simps [simp]:
  "no_colons []" "no_colons (c # s) \<longleftrightarrow> \<not> (c = CHR '':'' \<and> colon_head s) \<and> no_colons s"
  by (cases s; auto simp: no_colons_def starts_with_def)+

lemma colons_run:
  assumes "length w \<ge> 2" and "\<forall>c \<in> set w. c = CHR '':''" and "\<not> colon_head rest"
  shows "match_here colons b (w @ rest) = Some (rev w @ b, rest, [])"
proof -
  obtain c w' where w: "w = c # w'" using assms(1) by (cases w) auto
  have c: "c = CHR '':''" "\<forall>x \<in> set w'. x = CHR '':''" using assms(2) unfolding w by simp_all
  have "w' \<noteq> []" using assms(1) unfolding w by (cases w') simp_all
  have "stops (\<lambda>x. x = CHR '':'') rest" using assms(3) by (cases rest) (simp_all add: stops_def)
  from leads_plus_run [OF \<open>w' \<noteq> []\<close> c(2) this]
  have "leads (plus (chr (CHR '':''))) (c # b, w' @ rest, []) (rev w' @ c # b, rest, [])" by (simp add: chr_def)
  moreover have "leads (chr (CHR '':'')) (b, c # w' @ rest, []) (c # b, w' @ rest, [])"
    unfolding chr_def c(1) by (rule leads_Cls) simp
  ultimately have "leads colons (b, c # w' @ rest, []) (rev w' @ c # b, rest, [])"
    unfolding colons_def by (rule leads_Seq [rotated])
  then show ?thesis using match_here_leads w by simp
qed

lemma colons_none: "\<not> (c = CHR '':'' \<and> colon_head s) \<Longrightarrow> match_here colons b (c # s) = None"
  by (cases s) (auto simp: match_here_def colons_def chr_def plus_def)

lemma colon_head_drop: "\<not> colon_head (dropWhile (\<lambda>x. x = CHR '':'') a)"
  by (induction a) simp_all

lemma replaced_no_colons:
  "length a < n \<Longrightarrow> no_colons (replace_from n colons '': :'' b a) \<and>
     (colon_head (replace_from n colons '': :'' b a) \<longrightarrow> colon_head a) \<and>
     2 * length (replace_from n colons '': :'' b a) \<le> 3 * length a"
proof (induction n arbitrary: a b)
  case (Suc n)
  show ?case
  proof (cases a)
    case Nil
    have "match_here colons b [] = None" by (simp add: match_here_def colons_def chr_def)
    then show ?thesis by (simp add: Nil)
  next
    case (Cons c s)
    show ?thesis
    proof (cases "c = CHR '':'' \<and> colon_head s")
      case False
      then have "replace_from (Suc n) colons '': :'' b a = c # replace_from n colons '': :'' (c # b) s"
        by (simp add: Cons colons_none)
      then show ?thesis using Suc.IH [of s "c # b"] Suc.prems Cons False by auto
    next
      case True
      define w where "w = takeWhile (\<lambda>x. x = CHR '':'') a"
      define rest where "rest = dropWhile (\<lambda>x. x = CHR '':'') a"
      have a: "a = w @ rest" by (simp add: w_def rest_def)
      have w: "\<forall>x \<in> set w. x = CHR '':''" by (auto simp: w_def dest: set_takeWhileD)
      have two: "length w \<ge> 2" using True by (auto simp: w_def Cons colon_head_def)
      have rest: "\<not> colon_head rest" unfolding rest_def by (rule colon_head_drop)
      have len: "length a = length w + length rest" by (simp add: a)
      have shorter: "length rest < length a" "length rest < n" using two len Suc.prems by auto
      have "replace_from (Suc n) colons '': :'' b a = '': :'' @ replace_from n colons '': :'' (rev w @ b) rest"
        using colons_run [OF two w rest, of b] shorter(1) by (simp add: a [symmetric])
      moreover have "no_colons (replace_from n colons '': :'' (rev w @ b) rest)"
        "\<not> colon_head (replace_from n colons '': :'' (rev w @ b) rest)"
        "2 * length (replace_from n colons '': :'' (rev w @ b) rest) \<le> 3 * length rest"
        using Suc.IH [OF shorter(2), of "rev w @ b"] rest by simp_all
      ultimately show ?thesis using True two len by (simp add: Cons)
    qed
  qed
qed simp

definition printable :: "string \<Rightarrow> bool" where
  "printable s \<longleftrightarrow> list_all (\<lambda>c. safe_char c \<or> c = CHR ''?'') s"

lemma stderr_text:
  "\<exists>t. stderr_line l = ''npm stderr| '' @ t \<and> printable t \<and> no_colons t \<and> length t \<le> 450"
proof -
  let ?s = "clean (take stderr_max_line_length l)"
  let ?t = "replace_all colons '': :'' ?s"
  have "length ?s \<le> 300" by (simp add: clean_def stderr_max_line_length_def)
  moreover have "no_colons ?t" "2 * length ?t \<le> 3 * length ?s"
    using replaced_no_colons [of ?s "Suc (length ?s)" "[]"] unfolding replace_all_def by simp_all
  moreover have "safe_char (CHR '':'')" "safe_char (CHR '' '')" by code_simp+
  then have "printable ?t"
    using replace_from_set [of "Suc (length ?s)" colons "'': :''" "[]" ?s] clean_safe
    unfolding printable_def replace_all_def list_all_iff by fastforce
  ultimately show ?thesis unfolding stderr_line_def by auto
qed

lemma nat_str_no_colon: "no_colons (nat_str n @ s) \<longleftrightarrow> no_colons s" "printable (nat_str n)"
proof -
  have "c \<noteq> CHR '':''" if "c \<in> set (nat_str n)" for c
    using nat_str_digits [OF that] by (auto simp: is_digit_def code_def)
  moreover have "no_colons (w @ s) \<longleftrightarrow> no_colons s" if "\<forall>c \<in> set w. c \<noteq> CHR '':''" for w
    using that by (induction w) auto
  ultimately show "no_colons (nat_str n @ s) \<longleftrightarrow> no_colons s" by blast
  show "printable (nat_str n)"
    unfolding printable_def list_all_iff using nat_str_digits by (auto simp: safe_char_def)
qed

text \<open>npm's stderr reaches the log only quoted. Whatever npm wrote, at most forty-one lines are printed;
  each starts with the fixed prefix, and what follows it has no control or other special character, no
  two colons in a row (so no workflow command) and at most 450 characters.\<close>

theorem stderr_is_quoted:
  "length (sanitize_stderr err) \<le> 41 \<and>
   list_all (\<lambda>line. \<exists>t. line = ''npm stderr| '' @ t \<and> printable t \<and> no_colons t)
     (sanitize_stderr err) \<and>
   list_all (\<lambda>line. length line \<le> 462) (take 40 (sanitize_stderr err))"
proof -
  define raw where "raw = filter (\<lambda>l. l \<noteq> []) (map trim (split_breaks err))"
  define omitted where "omitted = ''('' @ nat_str (length raw - 40) @ '' more line(s) omitted)''"
  have "printable '' more line(s) omitted)''" "printable ''(''" by code_simp+
  then have "printable omitted"
    using nat_str_no_colon(2) [of "length raw - 40"] by (simp add: omitted_def printable_def)
  moreover have "no_colons '' more line(s) omitted)''" by code_simp
  then have "no_colons omitted" by (simp add: omitted_def nat_str_no_colon(1))
  moreover have "sanitize_stderr err = map stderr_line (take 40 raw) @
      (if length raw > 40 then [''npm stderr| '' @ omitted] else [])"
    unfolding sanitize_stderr_def raw_def [symmetric] Let_def stderr_max_lines_def omitted_def by simp
  moreover have "length (stderr_line l) \<le> 462" for l using stderr_text [of l] by auto
  ultimately show ?thesis using stderr_text by (auto simp: list_all_iff)
qed

section \<open>The whole log\<close>

lemma log_safe_stderr: "line \<in> set (sanitize_stderr err) \<Longrightarrow> log_safe line"
proof -
  assume "line \<in> set (sanitize_stderr err)"
  then have "(\<exists>l. line = stderr_line l) \<or> (\<exists>n. line = ''npm stderr| ('' @ nat_str n @ '' more line(s) omitted)'')"
    by (auto simp: sanitize_stderr_def Let_def split: if_splits)
  moreover have "log_safe (stderr_line l)" for l
  proof -
    obtain t where t: "stderr_line l = ''npm stderr| '' @ t" "printable t" using stderr_text by blast
    have "no_break t" using t(2) safe_char_no_break
      unfolding printable_def no_break_def list_all_iff by (fastforce simp: code_def)
    then show ?thesis unfolding t(1) by (intro log_safe_plain) (simp_all add: code_def starts_with_def)
  qed
  moreover have "log_safe (''npm stderr| ('' @ nat_str n @ '' more line(s) omitted)'')" for n
    by (intro log_safe_plain) (simp_all add: code_def starts_with_def)
  ultimately show ?thesis by auto
qed

definition entries_safe :: "allow_entry list \<Rightarrow> bool" where
  "entries_safe es \<longleftrightarrow> list_all (\<lambda>e. no_break (al_id e) \<and> no_break (al_review e)) es"

lemma no_break_cleaned: "no_break (join '', '' (map clean xs))"
  by (rule no_break_join) (simp_all add: code_def list_all_iff)

lemma report_lines_safe:
  assumes "entries_safe entries" and "line \<in> set (snd (classify_report status data entries expired))"
  shows "log_safe line"
proof -
  have "log_safe l" if "l \<in> set (unmatched_lines m entries)" for l m
    using that assms(1)
    by (auto simp: unmatched_lines_def entries_safe_def list_all_iff log_safe_def starts_with_def code_def)
  moreover have "log_safe (finding_line f)" for f unfolding finding_line_def
    by (intro log_safe_plain) (simp_all add: code_def starts_with_def no_break_cleaned)
  moreover have "log_safe l" if "l \<in> set (excepted_lines used entries)" for l used
    using that assms(1)
    by (auto simp: excepted_lines_def entries_safe_def list_all_iff starts_with_def code_def no_break_cleaned
        split: option.splits intro!: log_safe_plain)
  moreover have "log_safe clean_line" by (simp add: log_safe_def clean_line_def starts_with_def code_def)
  moreover have "log_safe (gate_error_line (''FINDINGS: '' @ nat_str n
      @ '' package(s) with HIGH or CRITICAL advisories not covered by the allowlist''))" for n
    by (rule log_safe_error) (simp add: code_def)
  moreover have "log_safe (unclassified_line
      ''npm audit failed but the report holds no HIGH or CRITICAL advisory; check the log'')"
    by (rule log_safe_unclassified) (simp add: code_def)
  ultimately show ?thesis using assms(2)
    by (auto simp: classify_report_def Let_def case_prod_beta split: if_splits)
qed

lemma audit_lines_safe:
  assumes "entries_safe entries" and "line \<in> set (snd (classify_audit L q entries expired))"
  shows "log_safe line"
  using assms(2) report_lines_safe [OF assms(1), of line "gi_status q" _ expired]
  by (auto simp: classify_audit_def classify_no_report_def code_def
      intro!: log_safe_error log_safe_unclassified split: if_splits option.splits)

lemma classify_lines_safe:
  assumes "\<And>t. no_break (date_iso L t)" and "no_break (gi_today q)"
    and "classify L q = Inr (rc, lines)" and "line \<in> set lines"
  shows "log_safe line"
proof (cases "parse_allowlist L (gi_allowlist q) (gi_file q) (Some (gi_today q))")
  case (Inl e)
  then have "error_safe e" using parse_allowlist_safe [OF assms(1,2)] by blast
  then show ?thesis using assms(3,4) Inl
    by (cases e) (auto simp: classify_def Let_def intro: log_safe_stderr log_safe_unclassified)
next
  case (Inr entries)
  have safe: "entries_safe entries"
    using allowlist_ok [OF Inr] unfolding entries_safe_def list_all_iff entry_ok_def
    by (auto intro: ghsa_no_break date_no_break)
  then have "log_safe (expired_line (gi_today q) e)" if "e \<in> set entries" for e
    using that assms(2) unfolding expired_line_def entries_safe_def list_all_iff
    by (intro log_safe_error) (simp add: code_def)
  moreover have "log_safe ''npm audit gate: FINDINGS: expired allowlist entries (see above)''"
    by (simp add: log_safe_def starts_with_def code_def)
  ultimately show ?thesis
    using assms(3,4) Inr audit_lines_safe [OF safe, of line L q]
    by (auto simp: classify_def Let_def case_prod_beta intro: log_safe_stderr split: if_splits)
qed

text \<open>C27: nothing the gate reads can forge its log. Whatever the files hold (npm's output, its stderr, the
  allowlist) and whatever the arguments, every element the script logs is a single line, and a line
  that is a workflow command is one of the script's own errors or warnings.\<close>

theorem log_cannot_be_forged:
  assumes "\<And>t. no_break (date_iso L t)" and "main_gate L now io_file argv = Inr (rc, lines)"
  shows "list_all log_safe lines"
proof -
  have today: "no_break (today_utc L now)" by (simp add: today_utc_def no_break_take assms(1))
  have "log_safe line" if line: "line \<in> set lines" for line
  proof -
    have "log_safe line" if "classify L q = Inr (rc, lines)" "gi_today q = today_utc L now" for q
      by (rule classify_lines_safe [OF assms(1) _ that(1) line]) (simp add: that(2) today)
    from this [of "gate_input.make _ _ _ _ _ (today_utc L now)"] show ?thesis
      using assms(2) line
      by (auto simp: main_gate_def Let_def usage_line_def unread_line_def code_def gate_input.make_def
          intro: log_safe_stderr intro!: log_safe_unclassified split: option.splits sum.splits)
  qed
  then show ?thesis by (simp add: list_all_iff)
qed

theorem log_cannot_be_forged_witness:
  "\<exists>lines. main_gate \<lparr>json_parse = (\<lambda>_. Inl ''bad''), json_stringify = (\<lambda>_. []), date_parse = (\<lambda>_. None),
       date_iso = (\<lambda>_. ''2026-01-01T00:00:00.000Z''), num_str = (\<lambda>_. [])\<rparr> 0
       (\<lambda>f. Inr (''a'' @ [CHR 10] @ ''::stop'')) [''--stderr'', ''npm.err''] = Inr (3, lines) \<and> list_all log_safe lines"
proof -
  let ?L = "\<lparr>json_parse = (\<lambda>_. Inl ''bad''), json_stringify = (\<lambda>_. []), date_parse = (\<lambda>_. None),
     date_iso = (\<lambda>_. ''2026-01-01T00:00:00.000Z''), num_str = (\<lambda>_. [])\<rparr>"
  have "no_break (date_iso ?L t)" for t by (simp add: code_def)
  moreover obtain lines where "main_gate ?L 0 (\<lambda>f. Inr (''a'' @ [CHR 10] @ ''::stop'')) [''--stderr'', ''npm.err'']
      = Inr (3, lines)"
    by (simp add: main_gate_def parse_args_def Let_def exit_unclassified_def)
  ultimately show ?thesis using log_cannot_be_forged [of ?L] by blast
qed

end
