(* ===== verification/RouteSchemas.thy ===== *)
theory RouteSchemas imports Schemas ReadRoutes TeamWrites AccountRoutes ViewRoutes SubscriptionRoutes LogRoutes Startup begin

text \<open>
  The request schemas of \<open>backend/src/validation/schemas.ts\<close>, one definition per exported schema, of
  the type the route that uses it takes. As in \<open>Schemas\<close>, zod's combinators have their documented
  meaning; a key that is absent is \<open>undefined\<close>, to which \<open>optional\<close> and \<open>default\<close> apply, keys that are not
  declared are dropped. The flattened error of a refused body, zod's notion of an email address and
  the coercion of a value to a number are arguments.
\<close>

section \<open>Combinators\<close>

definition required_key :: "(json \<Rightarrow> 'a option) \<Rightarrow> string \<Rightarrow> json \<Rightarrow> 'a option" where
  "required_key schema k v = Option.bind (field k v) schema"

definition default_key :: "'a \<Rightarrow> (json \<Rightarrow> 'a option) \<Rightarrow> string \<Rightarrow> json \<Rightarrow> 'a option" where
  "default_key d schema k v = (case field k v of None \<Rightarrow> Some d | Some x \<Rightarrow> schema x)"

definition nullable :: "(json \<Rightarrow> 'a option) \<Rightarrow> json \<Rightarrow> 'a option option" where
  "nullable schema v = (if v = JNull then Some None else map_option Some (schema v))"

definition refine :: "('a \<Rightarrow> bool) \<Rightarrow> (json \<Rightarrow> 'a option) \<Rightarrow> json \<Rightarrow> 'a option" where
  "refine P schema v = Option.bind (schema v) (\<lambda>x. if P x then Some x else None)"

definition min_text :: "nat \<Rightarrow> json \<Rightarrow> string option" where
  "min_text n = refine (\<lambda>s. n \<le> length s) string_schema"

definition max_text :: "nat \<Rightarrow> json \<Rightarrow> string option" where
  "max_text n = refine (\<lambda>s. length s \<le> n) string_schema"

definition trimmed :: "nat \<Rightarrow> nat \<Rightarrow> json \<Rightarrow> string option" where
  "trimmed lo hi v = refine (\<lambda>s. lo \<le> length s \<and> length s \<le> hi) (\<lambda>x. map_option trim (string_schema x)) v"

definition bool_schema :: "json \<Rightarrow> bool option" where
  "bool_schema v = (case v of JBool b \<Rightarrow> Some b | _ \<Rightarrow> None)"

definition enum_schema :: "(string \<times> 'a) list \<Rightarrow> json \<Rightarrow> 'a option" where
  "enum_schema table v = (case v of JStr s \<Rightarrow> map_of table s | _ \<Rightarrow> None)"

definition array_schema :: "(json \<Rightarrow> 'a option) \<Rightarrow> json \<Rightarrow> 'a list option" where
  "array_schema schema v = (case v of JArr vs \<Rightarrow> all_items schema vs | _ \<Rightarrow> None)"

definition integer_of :: "jnum \<Rightarrow> int option" where
  "integer_of n = (case n of Fin r \<Rightarrow> if r = of_int \<lfloor>r\<rfloor> then Some \<lfloor>r\<rfloor> else None | _ \<Rightarrow> None)"

definition int_schema :: "json \<Rightarrow> int option" where
  "int_schema v = (case v of JNum n \<Rightarrow> integer_of n | _ \<Rightarrow> None)"

definition int_in :: "int \<Rightarrow> int \<Rightarrow> json \<Rightarrow> int option" where
  "int_in lo hi = refine (\<lambda>n. lo \<le> n \<and> n \<le> hi) int_schema"

definition int_from :: "int \<Rightarrow> json \<Rightarrow> int option" where
  "int_from lo = refine (\<lambda>n. lo \<le> n) int_schema"

text \<open>\<open>z.object({...})\<close> on a request body.\<close>

definition object_body :: "json \<Rightarrow> (json \<Rightarrow> 'a option) \<Rightarrow> 'a body_schema" where
  "object_body err f body =
     (case body of
        Some (JObj kvs) \<Rightarrow> (case f (JObj kvs) of None \<Rightarrow> Inl err | Some x \<Rightarrow> Inr x)
      | _ \<Rightarrow> Inl err)"

definition team_id :: "json \<Rightarrow> ident option" where
  "team_id v = required_key (min_text 1) ''teamId'' v"

section \<open>Accounts, teams, invites and administration\<close>

definition register_schema :: "(string \<Rightarrow> bool) \<Rightarrow> json \<Rightarrow> credentials body_schema" where
  "register_schema is_email err = object_body err (\<lambda>v.
     Option.bind (required_key (refine is_email string_schema) ''email'' v) (\<lambda>email.
     Option.bind (required_key (min_text 6) ''password'' v) (\<lambda>password.
     Option.bind (required_key (min_text 2) ''name'' v) (\<lambda>name.
       Some \<lparr>cr_email = email, cr_password = password, cr_name = name\<rparr>))))"

definition login_schema :: "(string \<Rightarrow> bool) \<Rightarrow> json \<Rightarrow> (string \<times> string) body_schema" where
  "login_schema is_email err = object_body err (\<lambda>v.
     Option.bind (required_key (refine is_email string_schema) ''email'' v) (\<lambda>email.
     Option.bind (required_key (min_text 6) ''password'' v) (\<lambda>password. Some (email, password))))"

definition slug_re :: re where
  "slug_re = Seq Bol (Seq (plus (Cls (\<lambda>c. is_lower c \<or> is_digit c \<or> c = CHR ''-''))) Eol)"

definition create_team_schema :: "json \<Rightarrow> (string \<times> string) body_schema" where
  "create_team_schema err = object_body err (\<lambda>v.
     Option.bind (required_key (min_text 2) ''name'' v) (\<lambda>name.
     Option.bind (required_key (refine (test slug_re) (min_text 2)) ''slug'' v) (\<lambda>slug. Some (name, slug))))"

definition invite_roles :: "(string \<times> team_role) list" where
  "invite_roles = [(''ADMIN'', Admin), (''MEMBER'', Member), (''VIEWER'', Viewer)]"

definition create_invite_schema :: "(string \<Rightarrow> bool) \<Rightarrow> json \<Rightarrow> invite_input body_schema" where
  "create_invite_schema is_email err = object_body err (\<lambda>v.
     Option.bind (default_key Member (enum_schema invite_roles) ''role'' v) (\<lambda>role.
     Option.bind (optional_key (refine is_email string_schema) ''email'' v) (\<lambda>email.
       Some \<lparr>iv_role = role, iv_email = email\<rparr>)))"

definition update_user_schema :: "json \<Rightarrow> user_input body_schema" where
  "update_user_schema err = object_body err (\<lambda>v.
     Option.bind (optional_key (enum_schema [(''USER'', RoleUser), (''ADMIN'', RoleAdmin)]) ''role'' v) (\<lambda>role.
     Option.bind (optional_key (enum_schema [(''ACTIVE'', Active), (''PENDING'', Pending), (''DISABLED'', Disabled)])
                   ''status'' v) (\<lambda>status.
     Option.bind (optional_key bool_schema ''disabled'' v) (\<lambda>disabled.
       Some \<lparr>ui_role = role, ui_status = status, ui_disabled = disabled\<rparr>))))"

definition add_user_schema :: "json \<Rightarrow> (ident \<times> team_role) body_schema" where
  "add_user_schema err = object_body err (\<lambda>v.
     Option.bind (team_id v) (\<lambda>team.
     Option.bind (default_key Member (enum_schema ((''OWNER'', Owner) # invite_roles)) ''role'' v) (\<lambda>role.
       Some (team, role))))"

section \<open>Sources\<close>

definition source_types :: "(string \<times> source_type) list" where
  "source_types = [(''HTTP'', Http), (''SYSLOG_UDP'', SyslogUdp), (''SYSLOG_TCP'', SyslogTcp),
     (''FILEBEAT'', Filebeat), (''DOCKER'', Docker), (''CLOUDWATCH'', Cloudwatch)]"

definition create_source_schema :: "json \<Rightarrow> source_input body_schema" where
  "create_source_schema err = object_body err (\<lambda>v.
     Option.bind (team_id v) (\<lambda>team.
     Option.bind (required_key (trimmed 2 100) ''name'' v) (\<lambda>name.
     Option.bind (required_key (enum_schema source_types) ''type'' v) (\<lambda>ty.
       Some \<lparr>si_team = team, si_name = name, si_type = ty\<rparr>))))"

definition rename_source_schema :: "json \<Rightarrow> string body_schema" where
  "rename_source_schema err = object_body err (required_key (trimmed 2 100) ''name'')"

section \<open>Alert rules, incidents and maintenance\<close>

definition rule_conditions :: "(string \<times> alert_condition) list" where
  "rule_conditions = [(''GREATER_THAN'', GreaterThan), (''LESS_THAN'', LessThan), (''EQUALS'', Equals),
     (''CHANGES_BY'', ChangesBy)]"

definition rule_name :: "json \<Rightarrow> string option" where "rule_name = trimmed 2 200"
definition rule_query :: "json \<Rightarrow> string option" where "rule_query = trimmed 1 1000"

definition create_rule_schema :: "json \<Rightarrow> (ident \<times> rule_input) body_schema" where
  "create_rule_schema err = object_body err (\<lambda>v.
     Option.bind (team_id v) (\<lambda>team.
     Option.bind (required_key rule_name ''name'' v) (\<lambda>name.
     Option.bind (optional_key (max_text 1000) ''description'' v) (\<lambda>description.
     Option.bind (required_key rule_query ''query'' v) (\<lambda>q.
     Option.bind (optional_key (enum_schema [(''sql'', ())]) ''queryType'' v) (\<lambda>_.
     Option.bind (required_key (enum_schema rule_conditions) ''condition'' v) (\<lambda>condition.
     Option.bind (required_key (int_from 0) ''threshold'' v) (\<lambda>threshold.
     Option.bind (required_key (int_in 1 1440) ''windowMinutes'' v) (\<lambda>window.
     Option.bind (default_key True bool_schema ''enabled'' v) (\<lambda>enabled.
       Some (team, \<lparr>ri_name = name, ri_desc = description, ri_query = q, ri_cond = condition,
         ri_threshold = threshold, ri_window = window, ri_enabled = enabled\<rparr>)))))))))))"

text \<open>The refinement looks at the validated values: some key is there.\<close>

definition patch_empty :: "rule_patch \<Rightarrow> bool" where
  "patch_empty p \<longleftrightarrow> rp_name p = None \<and> rp_desc p = None \<and> rp_query p = None \<and> rp_cond p = None
     \<and> rp_threshold p = None \<and> rp_window p = None \<and> rp_enabled p = None"

definition update_rule_schema :: "json \<Rightarrow> rule_patch body_schema" where
  "update_rule_schema err = object_body err (refine (\<lambda>p. \<not> patch_empty p) (\<lambda>v.
     Option.bind (optional_key rule_name ''name'' v) (\<lambda>name.
     Option.bind (optional_key (nullable (max_text 1000)) ''description'' v) (\<lambda>description.
     Option.bind (optional_key rule_query ''query'' v) (\<lambda>q.
     Option.bind (optional_key (enum_schema rule_conditions) ''condition'' v) (\<lambda>condition.
     Option.bind (optional_key (int_from 0) ''threshold'' v) (\<lambda>threshold.
     Option.bind (optional_key (int_in 1 1440) ''windowMinutes'' v) (\<lambda>window.
     Option.bind (optional_key bool_schema ''enabled'' v) (\<lambda>enabled.
       Some \<lparr>rp_name = name, rp_desc = description, rp_query = q, rp_cond = condition,
         rp_threshold = threshold, rp_window = window, rp_enabled = enabled\<rparr>)))))))))"

definition incident_action_schema :: "json \<Rightarrow> string option body_schema" where
  "incident_action_schema err = object_body err (optional_key (max_text 1000) ''comment'')"

definition mute_rule_schema :: "json \<Rightarrow> int body_schema" where
  "mute_rule_schema err = object_body err (required_key (int_in 1 43200) ''durationMinutes'')"

definition maintenance_window_schema :: "json \<Rightarrow> window_input body_schema" where
  "maintenance_window_schema err = object_body err (\<lambda>v.
     Option.bind (team_id v) (\<lambda>team.
     Option.bind (required_key (min_text 2) ''name'' v) (\<lambda>name.
     Option.bind (required_key date_time_schema ''startsAt'' v) (\<lambda>starts.
     Option.bind (required_key date_time_schema ''endsAt'' v) (\<lambda>ends.
       Some \<lparr>wi_team = team, wi_name = name, wi_starts = starts, wi_ends = ends\<rparr>)))))"

section \<open>Subscriptions\<close>

definition channels :: "(string \<times> channel) list" where
  "channels = [(''EMAIL'', Email), (''WEBHOOK'', Webhook), (''SLACK'', Slack), (''MSTEAMS'', MsTeams)]"

definition channel_schema :: "json \<Rightarrow> channel option" where
  "channel_schema = refine (\<lambda>c. c \<noteq> Email) (enum_schema channels)"

definition config_schema :: "json \<Rightarrow> json option" where
  "config_schema v = (case v of JObj kvs \<Rightarrow> Some v | _ \<Rightarrow> None)"

definition severities_schema :: "json \<Rightarrow> severity list option" where
  "severities_schema = array_schema (enum_schema
     [(''CRITICAL'', Critical), (''HIGH'', High), (''MEDIUM'', Medium), (''LOW'', Low)])"

definition create_subscription_schema :: "json \<Rightarrow> new_sub_input body_schema" where
  "create_subscription_schema err = object_body err (\<lambda>v.
     Option.bind (team_id v) (\<lambda>team.
     Option.bind (optional_key string_schema ''ruleId'' v) (\<lambda>rule.
     Option.bind (required_key channel_schema ''channel'' v) (\<lambda>ch.
     Option.bind (required_key config_schema ''config'' v) (\<lambda>config.
     Option.bind (optional_key severities_schema ''severities'' v) (\<lambda>severities.
       Some \<lparr>nsi_team = team, nsi_rule = rule, nsi_channel = ch, nsi_config = config,
         nsi_severities = severities\<rparr>))))))"

definition update_subscription_schema :: "json \<Rightarrow> sub_patch body_schema" where
  "update_subscription_schema err = object_body err (\<lambda>v.
     Option.bind (optional_key channel_schema ''channel'' v) (\<lambda>ch.
     Option.bind (optional_key config_schema ''config'' v) (\<lambda>config.
     Option.bind (optional_key severities_schema ''severities'' v) (\<lambda>severities.
     Option.bind (optional_key bool_schema ''enabled'' v) (\<lambda>enabled.
       Some \<lparr>sp_channel = ch, sp_config = config, sp_severities = severities, sp_enabled = enabled\<rparr>)))))"

section \<open>Searching\<close>

definition filter_ops :: "(string \<times> filter_op) list" where
  "filter_ops = [(''eq'', OpEq), (''neq'', OpNeq), (''gt'', OpGt), (''lt'', OpLt), (''contains'', OpContains)]"

definition filter_value_schema :: "json \<Rightarrow> filter_value option" where
  "filter_value_schema v =
     (case v of JStr s \<Rightarrow> Some (VStr s) | JNum n \<Rightarrow> if number_schema v then Some (VNum n) else None | _ \<Rightarrow> None)"

definition log_filter_schema :: "json \<Rightarrow> log_filter option" where
  "log_filter_schema v =
     (case v of
        JObj kvs \<Rightarrow>
          Option.bind (required_key string_schema ''field'' v) (\<lambda>f.
          Option.bind (required_key (enum_schema filter_ops) ''operator'' v) (\<lambda>p.
          Option.bind (required_key filter_value_schema ''value'' v) (\<lambda>x.
            Some \<lparr>f_field = f, f_op = p, f_value = x\<rparr>)))
      | _ \<Rightarrow> None)"

definition sort_columns :: "(string \<times> sort_column) list" where
  "sort_columns = [(''timestamp'', ByTimestamp), (''level'', ByLevel), (''service'', ByService), (''host'', ByHost)]"

definition directions :: "(string \<times> bool) list" where
  "directions = [(''asc'', True), (''desc'', False)]"

text \<open>\<open>searchScopeSchema\<close>, and \<open>pageToken\<close>, which it keeps but no scoped query reads.\<close>

definition search_scope_schema :: "json \<Rightarrow> (log_scope \<times> string option) option" where
  "search_scope_schema v =
     Option.bind (team_id v) (\<lambda>team.
     Option.bind (optional_key string_schema ''sourceId'' v) (\<lambda>source.
     Option.bind (optional_key date_time_schema ''startTime'' v) (\<lambda>start.
     Option.bind (optional_key date_time_schema ''endTime'' v) (\<lambda>stop.
     Option.bind (optional_key string_schema ''query'' v) (\<lambda>q.
     Option.bind (default_key Sql (enum_schema [(''sql'', Sql), (''natural'', Natural)]) ''queryType'' v) (\<lambda>ty.
     Option.bind (optional_key (array_schema log_filter_schema) ''filters'' v) (\<lambda>filters.
     Option.bind (optional_key string_schema ''pageToken'' v) (\<lambda>tok.
       Some (\<lparr>lq_team = team, lq_source = source, lq_start = start, lq_end = stop, lq_query = q,
              lq_type = ty, lq_filters = filters\<rparr>, tok)))))))))"

definition search_schema :: "json \<Rightarrow> log_query body_schema" where
  "search_schema err = object_body err (\<lambda>v.
     Option.bind (search_scope_schema v) (\<lambda>(sc, tok).
     Option.bind (default_key ByTimestamp (enum_schema sort_columns) ''sortBy'' v) (\<lambda>sort_by.
     Option.bind (default_key False (enum_schema directions) ''sortDirection'' v) (\<lambda>ascending.
     Option.bind (default_key 100 (int_in 1 search_limit_ceiling) ''limit'' v) (\<lambda>limit.
     Option.bind (default_key 0 (int_from 0) ''offset'' v) (\<lambda>offset.
       Some \<lparr>lq_team = lq_team sc, lq_source = lq_source sc, lq_start = lq_start sc, lq_end = lq_end sc,
         lq_query = lq_query sc, lq_type = lq_type sc, lq_filters = lq_filters sc, lq_sort = Some sort_by,
         lq_ascending = Some ascending, lq_limit = Some limit, lq_offset = Some offset, lq_token = tok,
         lq_context = None\<rparr>))))))"

definition facet_names :: "(string \<times> facet_field) list" where
  "facet_names = [(''service'', FcService), (''level'', FcLevel), (''host'', FcHost), (''sourceId'', FcSourceId),
     (''env'', FcEnv), (''region'', FcRegion), (''status_code'', FcStatusCode), (''route'', FcRoute)]"

definition facets_schema :: "json \<Rightarrow> (facet_query \<times> bool) body_schema" where
  "facets_schema err = object_body err (\<lambda>v.
     Option.bind (search_scope_schema v) (\<lambda>(sc, tok).
     Option.bind (default_key [FcService, FcLevel, FcHost, FcSourceId]
        (refine (\<lambda>fs. 1 \<le> length fs \<and> length fs \<le> 12) (array_schema (enum_schema facet_names))) ''fields'' v) (\<lambda>names.
     Option.bind (default_key 10 (int_in 1 50) ''limit'' v) (\<lambda>limit.
     Option.bind (default_key False bool_schema ''async'' v) (\<lambda>later.
       Some (\<lparr>lq_team = lq_team sc, lq_source = lq_source sc, lq_start = lq_start sc, lq_end = lq_end sc,
         lq_query = lq_query sc, lq_type = lq_type sc, lq_filters = lq_filters sc,
         fq_fields = Some names, fq_limit = Some limit\<rparr>, later))))))"

definition intervals :: "(string \<times> histogram_interval) list" where
  "intervals = [(''minute'', EveryMinute), (''5m'', Every5m), (''15m'', Every15m), (''hour'', EveryHour), (''day'', EveryDay)]"

definition histogram_schema :: "json \<Rightarrow> (histogram_query \<times> bool) body_schema" where
  "histogram_schema err = object_body err (\<lambda>v.
     Option.bind (search_scope_schema v) (\<lambda>(sc, tok).
     Option.bind (default_key Every5m (enum_schema intervals) ''interval'' v) (\<lambda>interval.
     Option.bind (default_key False bool_schema ''async'' v) (\<lambda>later.
       Some (\<lparr>lq_team = lq_team sc, lq_source = lq_source sc, lq_start = lq_start sc, lq_end = lq_end sc,
         lq_query = lq_query sc, lq_type = lq_type sc, lq_filters = lq_filters sc, hq_interval = interval\<rparr>, later)))))"

definition groupings :: "(string \<times> pattern_grouping) list" where
  "groupings = [(''none'', GroupNone), (''service'', GroupService), (''level'', GroupLevel),
     (''service_level'', GroupServiceLevel)]"

definition patterns_schema :: "json \<Rightarrow> (patterns_query \<times> bool) body_schema" where
  "patterns_schema err = object_body err (\<lambda>v.
     Option.bind (search_scope_schema v) (\<lambda>(sc, tok).
     Option.bind (default_key GroupServiceLevel (enum_schema groupings) ''groupBy'' v) (\<lambda>grouping.
     Option.bind (default_key 50 (int_in 1 200) ''limit'' v) (\<lambda>limit.
     Option.bind (default_key False bool_schema ''async'' v) (\<lambda>later.
       Some (\<lparr>lq_team = lq_team sc, lq_source = lq_source sc, lq_start = lq_start sc, lq_end = lq_end sc,
         lq_query = lq_query sc, lq_type = lq_type sc, lq_filters = lq_filters sc,
         pq_group = Some grouping, pq_limit = Some limit\<rparr>, later))))))"

definition context_scopes :: "(string \<times> context_scope) list" where
  "context_scopes = [(''source'', InSource), (''service'', InService), (''host'', InHost)]"

definition context_schema :: "json \<Rightarrow> context_query body_schema" where
  "context_schema err = object_body err (\<lambda>v.
     Option.bind (team_id v) (\<lambda>team.
     Option.bind (required_key (min_text 1) ''sourceId'' v) (\<lambda>source.
     Option.bind (required_key date_time_schema ''timestamp'' v) (\<lambda>timestamp.
     Option.bind (default_key 20 (int_in 1 100) ''before'' v) (\<lambda>before.
     Option.bind (default_key 20 (int_in 1 100) ''after'' v) (\<lambda>after.
     Option.bind (default_key InSource (enum_schema context_scopes) ''scope'' v) (\<lambda>sc.
     Option.bind (optional_key string_schema ''service'' v) (\<lambda>service.
     Option.bind (optional_key string_schema ''host'' v) (\<lambda>host.
       Some \<lparr>cq_team = team, cq_source = source, cq_timestamp = timestamp, cq_before = before,
         cq_after = after, cq_scope = sc, cq_service = service, cq_host = host\<rparr>)))))))))"

definition natural_query_schema :: "json \<Rightarrow> (ident \<times> string) body_schema" where
  "natural_query_schema err = object_body err (\<lambda>v.
     Option.bind (team_id v) (\<lambda>team.
     Option.bind (required_key (min_text 3) ''query'' v) (\<lambda>q. Some (team, q))))"

section \<open>Saved views\<close>

text \<open>A schema whose validated value is itself JSON: what is kept of a key, in the order of the shape.\<close>

definition kept :: "string \<Rightarrow> (json \<Rightarrow> 'a option) \<Rightarrow> ('a \<Rightarrow> json) \<Rightarrow> json \<Rightarrow> (string \<times> json) list option" where
  "kept k schema out v =
     (case field k v of None \<Rightarrow> Some [] | Some x \<Rightarrow> map_option (\<lambda>y. [(k, out y)]) (schema x))"

definition filled :: "string \<Rightarrow> json \<Rightarrow> (json \<Rightarrow> 'a option) \<Rightarrow> ('a \<Rightarrow> json) \<Rightarrow> json \<Rightarrow> (string \<times> json) list option" where
  "filled k d schema out v =
     (case field k v of None \<Rightarrow> Some [(k, d)] | Some x \<Rightarrow> map_option (\<lambda>y. [(k, out y)]) (schema x))"

definition one_of :: "string list \<Rightarrow> json \<Rightarrow> string option" where
  "one_of names = refine (\<lambda>s. s \<in> set names) string_schema"

definition chip_schema :: "json \<Rightarrow> json option" where
  "chip_schema v =
     (case v of
        JObj kvs \<Rightarrow>
          Option.bind (required_key string_schema ''field'' v) (\<lambda>f.
          Option.bind (required_key string_schema ''value'' v) (\<lambda>x.
            Some (JObj [(''field'', JStr f), (''value'', JStr x)])))
      | _ \<Rightarrow> None)"

definition filter_json :: "json \<Rightarrow> json option" where
  "filter_json v = map_option (\<lambda>_. JObj
     [(''field'', the_or JNull (field ''field'' v)), (''operator'', the_or JNull (field ''operator'' v)),
      (''value'', the_or JNull (field ''value'' v))]) (log_filter_schema v)"

fun joined :: "(string \<times> json) list option list \<Rightarrow> (string \<times> json) list option" where
  "joined [] = Some []"
| "joined (x # xs) = Option.bind x (\<lambda>kvs. map_option ((@) kvs) (joined xs))"

definition view_definition_schema :: "json \<Rightarrow> json option" where
  "view_definition_schema v =
     (case v of
        JObj kvs \<Rightarrow> map_option JObj (joined
          [kept ''mode'' (one_of [''raw'', ''patterns'']) JStr v,
           kept ''startTime'' date_time_schema JStr v,
           kept ''endTime'' date_time_schema JStr v,
           kept ''relativeTime'' string_schema JStr v,
           kept ''text'' string_schema JStr v,
           kept ''sourceId'' string_schema JStr v,
           filled ''filters'' (JArr []) (array_schema filter_json) JArr v,
           filled ''columns'' (JArr []) (array_schema string_schema) (\<lambda>cs. JArr (map JStr cs)) v,
           filled ''sortBy'' (JStr ''timestamp'') (one_of (map fst sort_columns)) JStr v,
           filled ''sortDirection'' (JStr ''desc'') (one_of (map fst directions)) JStr v,
           filled ''facets'' (JArr []) (array_schema chip_schema) JArr v,
           filled ''exclusions'' (JArr []) (array_schema chip_schema) JArr v,
           filled ''pageSize'' (JNum (Fin 50)) (int_in 1 500) (\<lambda>n. JNum (Fin (of_int n))) v])
      | _ \<Rightarrow> None)"

definition view_name :: "json \<Rightarrow> string option" where
  "view_name = refine (\<lambda>s. 1 \<le> length s \<and> length s \<le> 120) string_schema"

definition create_view_schema :: "json \<Rightarrow> (ident \<times> new_view) body_schema" where
  "create_view_schema err = object_body err (\<lambda>v.
     Option.bind (team_id v) (\<lambda>team.
     Option.bind (required_key view_name ''name'' v) (\<lambda>name.
     Option.bind (default_key False bool_schema ''isShared'' v) (\<lambda>shared.
     Option.bind (default_key False bool_schema ''isDefault'' v) (\<lambda>dflt.
     Option.bind (required_key view_definition_schema ''definition'' v) (\<lambda>def.
       Some (team, \<lparr>nv_name = name, nv_shared = shared, nv_default = dflt, nv_def = def\<rparr>)))))))"

definition update_view_schema :: "json \<Rightarrow> view_input body_schema" where
  "update_view_schema err = object_body err (\<lambda>v.
     Option.bind (optional_key view_name ''name'' v) (\<lambda>name.
     Option.bind (optional_key bool_schema ''isShared'' v) (\<lambda>shared.
     Option.bind (optional_key bool_schema ''isDefault'' v) (\<lambda>dflt.
     Option.bind (optional_key view_definition_schema ''definition'' v) (\<lambda>def.
       Some \<lparr>vi_name = name, vi_shared = shared, vi_default = dflt, vi_def = def\<rparr>)))))"

section \<open>Issues\<close>

definition issue_statuses :: "(string \<times> issue_status) list" where
  "issue_statuses = [(''NEW'', New), (''ONGOING'', Ongoing), (''RESOLVED'', IssResolved), (''IGNORED'', Ignored)]"

definition issue_update_schema :: "json \<Rightarrow> issue_input body_schema" where
  "issue_update_schema err = object_body err (\<lambda>v.
     Option.bind (optional_key (enum_schema issue_statuses) ''status'' v) (\<lambda>status.
     Option.bind (optional_key (nullable string_schema) ''assigneeId'' v) (\<lambda>assignee.
       Some \<lparr>ii_status = status, ii_assignee = assignee\<rparr>)))"

definition issue_sorts :: "(string \<times> issue_sort) list" where
  "issue_sorts = [(''lastSeen'', ByLastSeen), (''firstSeen'', ByFirstSeen), (''eventCount'', ByEventCount),
     (''service'', Issues.ByService), (''level'', Issues.ByLevel), (''status'', ByStatus)]"

text \<open>\<open>coercedIntSchema\<close>: \<open>Number(value)\<close> first. The query of the request is an object of its parameters.\<close>

definition coerced :: "(json \<Rightarrow> jnum) \<Rightarrow> (json \<Rightarrow> 'a option) \<Rightarrow> json \<Rightarrow> 'a option" where
  "coerced to_number schema v = schema (JNum (to_number v))"

definition issue_query_schema ::
  "(json \<Rightarrow> jnum) \<Rightarrow> json \<Rightarrow> (string \<Rightarrow> json option) \<Rightarrow> json + issue_query" where
  "issue_query_schema to_number err q =
     (let get = (\<lambda>schema k. case q k of None \<Rightarrow> Some None | Some x \<Rightarrow> map_option Some (schema x));
          text = get string_schema in
      case Option.bind (Option.bind (q ''teamId'') (min_text 1)) (\<lambda>team.
           Option.bind (text ''query'') (\<lambda>needle.
           Option.bind (case q ''status'' of None \<Rightarrow> Some None
               | Some x \<Rightarrow> map_option Some (enum_schema issue_statuses x)) (\<lambda>status.
           Option.bind (text ''service'') (\<lambda>service.
           Option.bind (text ''level'') (\<lambda>level.
           Option.bind (case q ''sortBy'' of None \<Rightarrow> Some ByLastSeen | Some x \<Rightarrow> enum_schema issue_sorts x) (\<lambda>sort_by.
           Option.bind (case q ''sortDirection'' of None \<Rightarrow> Some False | Some x \<Rightarrow> enum_schema directions x) (\<lambda>asc.
           Option.bind (case q ''limit'' of None \<Rightarrow> Some 50 | Some x \<Rightarrow> coerced to_number (int_in 1 200) x) (\<lambda>limit.
           Option.bind (case q ''offset'' of None \<Rightarrow> Some 0 | Some x \<Rightarrow> coerced to_number (int_from 0) x) (\<lambda>offset.
             Some \<lparr>iq_team = team, iq_filters = \<lparr>q_query = needle, q_status = status, q_service = service, q_level = level\<rparr>,
               iq_sort = sort_by, iq_ascending = asc, iq_limit = nat limit, iq_offset = nat offset\<rparr>)))))))))
      of None \<Rightarrow> Inl err | Some x \<Rightarrow> Inr x)"

end
