(* ===== verification/UriText.thy ===== *)
theory UriText imports Base64Url begin

text \<open>
  What the browser's URL functions do: \<open>encodeURIComponent\<close>, \<open>decodeURIComponent\<close> (which throws on
  a malformed sequence) and the operations of \<open>URLSearchParams\<close>, over the pairs its text stands for.
\<close>

section \<open>Percent coding\<close>

definition uri_plain :: "char \<Rightarrow> bool" where
  "uri_plain c \<longleftrightarrow> is_digit c \<or> is_lower c \<or> is_upper c \<or> c \<in> set ''-_.!~*()'' \<or> code c = 39"

definition upper_hex :: "nat \<Rightarrow> char" where
  "upper_hex d = char_of (if d < 10 then 48 + d else 55 + d)"

definition percent_byte :: "nat \<Rightarrow> string" where
  "percent_byte b = [CHR ''%'', upper_hex (b div 16), upper_hex (b mod 16)]"

definition uri_encode :: "string \<Rightarrow> string" where
  "uri_encode s =
     concat (map (\<lambda>c. if uri_plain c then [c] else concat (map percent_byte (utf8_bytes [c]))) s)"

text \<open>One \<open>%XX\<close>, and \<open>n\<close> continuation bytes of a UTF-8 sequence.\<close>

fun read_percent :: "string \<Rightarrow> (nat \<times> string) option" where
  "read_percent (p # a # b # rest) =
     (if p = CHR ''%'' \<and> is_hex a \<and> is_hex b then Some (hex_val a * 16 + hex_val b, rest) else None)"
| "read_percent _ = None"

fun read_tail :: "nat \<Rightarrow> string \<Rightarrow> (nat list \<times> string) option" where
  "read_tail 0 s = Some ([], s)"
| "read_tail (Suc n) s =
     (case read_percent s of
        None \<Rightarrow> None
      | Some (b, rest) \<Rightarrow>
          if 128 \<le> b \<and> b < 192
          then map_option (\<lambda>(bs, r). ((b - 128) # bs, r)) (read_tail n rest) else None)"

definition tail_length :: "nat \<Rightarrow> nat option" where
  "tail_length b =
     (if b < 128 then Some 0 else if 194 \<le> b \<and> b < 224 then Some 1
      else if 224 \<le> b \<and> b < 240 then Some 2 else if 240 \<le> b \<and> b < 245 then Some 3 else None)"

definition lead_bits :: "nat \<Rightarrow> nat \<Rightarrow> nat" where
  "lead_bits n b = (if n = 0 then b else if n = 1 then b - 192 else if n = 2 then b - 224 else b - 240)"

definition code_point :: "nat \<Rightarrow> nat list \<Rightarrow> nat" where
  "code_point lead bs = foldl (\<lambda>v b. v * 64 + b) lead bs"

definition code_point_ok :: "nat \<Rightarrow> nat \<Rightarrow> bool" where
  "code_point_ok n v \<longleftrightarrow>
     (n < 2 \<or> n = 2 \<and> 2048 \<le> v \<and> \<not> (55296 \<le> v \<and> v < 57344) \<or> n = 3 \<and> 65536 \<le> v \<and> v < 1114112)"

text \<open>The code units of a code point; one that is not Latin-1 is written \<open>?\<close>.\<close>

definition code_units :: "nat \<Rightarrow> string" where
  "code_units v = (if v < 256 then [char_of v] else if v < 65536 then ''?'' else ''??'')"

definition read_escape :: "string \<Rightarrow> (string \<times> string) option" where
  "read_escape s =
     (case read_percent s of
        None \<Rightarrow> None
      | Some (b, rest) \<Rightarrow>
          (case tail_length b of
             None \<Rightarrow> None
           | Some n \<Rightarrow>
               (case read_tail n rest of
                  None \<Rightarrow> None
                | Some (bs, r) \<Rightarrow>
                    (let v = code_point (lead_bits n b) bs in
                     if code_point_ok n v then Some (code_units v, r) else None))))"

lemma read_percent_length: "read_percent s = Some (b, r) \<Longrightarrow> length r < length s"
  by (cases s rule: read_percent.cases) (auto split: if_splits)

lemma read_tail_length: "read_tail n s = Some (bs, r) \<Longrightarrow> length r \<le> length s"
proof (induction n arbitrary: s bs r)
  case (Suc n)
  then obtain b rest bs' where "read_percent s = Some (b, rest)" "read_tail n rest = Some (bs', r)"
    by (auto split: option.splits if_splits)
  then show ?case using Suc.IH read_percent_length by fastforce
qed simp

lemma read_escape_length: "read_escape s = Some (u, r) \<Longrightarrow> length r < length s"
  by (auto simp: read_escape_def Let_def split: option.splits if_splits dest!: read_percent_length read_tail_length)

text \<open>\<open>None\<close> is the \<open>URIError\<close>.\<close>

function uri_decode :: "string \<Rightarrow> string option" where
  "uri_decode [] = Some []"
| "uri_decode (c # cs) =
     (if c = CHR ''%'' then
        (case read_escape (c # cs) of
           None \<Rightarrow> None
         | Some (u, r) \<Rightarrow> map_option (\<lambda>s. u @ s) (uri_decode r))
      else map_option (\<lambda>s. c # s) (uri_decode cs))"
  by pat_completeness auto
termination by (relation "measure length") (auto dest: read_escape_length)

lemma code_upper_hex: "d < 16 \<Longrightarrow> code (upper_hex d) = (if d < 10 then 48 + d else 55 + d)"
  by (simp add: upper_hex_def code_def)

lemma upper_hex_facts:
  assumes "d < 16"
  shows "is_hex (upper_hex d)" and "hex_val (upper_hex d) = d" and "upper_hex d \<noteq> CHR '':''"
proof -
  show "is_hex (upper_hex d)" "hex_val (upper_hex d) = d"
    using assms by (simp_all add: is_hex_def hex_val_def is_digit_def is_upper_def code_upper_hex)
  have "code (upper_hex d) \<noteq> 58" using assms by (simp add: code_upper_hex)
  then show "upper_hex d \<noteq> CHR '':''" by (auto simp: code_def)
qed

lemma read_percent_byte: "b < 256 \<Longrightarrow> read_percent (percent_byte b @ r) = Some (b, r)"
  by (simp add: percent_byte_def upper_hex_facts)

lemma decode_plain: "c \<noteq> CHR ''%'' \<Longrightarrow> uri_decode (c # s) = map_option (\<lambda>t. c # t) (uri_decode s)"
  by simp

lemma decode_escape:
  "read_escape (CHR ''%'' # s) = Some (u, r) \<Longrightarrow> uri_decode (CHR ''%'' # s) = map_option (\<lambda>t. u @ t) (uri_decode r)"
  by simp

declare uri_decode.simps(2) [simp del]

lemma decode_percent:
  "read_escape (percent_byte b @ s) = Some (u, r) \<Longrightarrow>
   uri_decode (percent_byte b @ s) = map_option (\<lambda>t. u @ t) (uri_decode r)"
  unfolding percent_byte_def append_Cons by (rule decode_escape)

lemma escape_one: "code c < 128 \<Longrightarrow> read_escape (percent_byte (code c) @ s) = Some ([c], s)"
  by (simp add: read_escape_def read_percent_byte tail_length_def lead_bits_def code_point_def code_point_ok_def
      code_units_def)

lemma escape_two:
  assumes "\<not> code c < 128"
  shows "read_escape (percent_byte (192 + code c div 64) @ percent_byte (128 + code c mod 64) @ s) = Some ([c], s)"
proof -
  have c: "code c < 256" by (simp add: code_def)
  have "code c div 64 \<le> 3" "2 \<le> code c div 64" using assms c by linarith+
  moreover have "code c mod 64 < 64" by simp
  moreover have "code c div 64 * 64 + code c mod 64 = code c" by simp
  ultimately show ?thesis using c
    by (simp add: read_escape_def read_percent_byte tail_length_def lead_bits_def code_point_def code_point_ok_def
        code_units_def)
qed

lemma uri_round_trip: "uri_decode (uri_encode s) = Some s"
proof (induction s)
  case (Cons c s)
  let ?rest = "uri_encode s"
  have split: "uri_encode (c # s) = (if uri_plain c then [c] else concat (map percent_byte (utf8_bytes [c]))) @ ?rest"
    by (simp add: uri_encode_def)
  consider "uri_plain c" | "\<not> uri_plain c" "code c < 128" | "\<not> uri_plain c" "\<not> code c < 128" by blast
  then show ?case
  proof cases
    case 1
    then have "c \<noteq> CHR ''%''" by (auto simp: uri_plain_def is_digit_def is_lower_def is_upper_def code_def)
    with 1 Cons.IH show ?thesis by (simp add: split decode_plain)
  next
    case 2
    then have eq: "uri_encode (c # s) = percent_byte (code c) @ ?rest" by (simp add: split utf8_bytes_def)
    show ?thesis
      unfolding eq decode_percent [OF escape_one [OF 2(2)]] Cons.IH by simp
  next
    case 3
    then have eq: "uri_encode (c # s) =
        percent_byte (192 + code c div 64) @ percent_byte (128 + code c mod 64) @ ?rest"
      by (simp add: split utf8_bytes_def)
    show ?thesis
      unfolding eq decode_percent [OF escape_two [OF 3(2)]] Cons.IH by simp
  qed
qed (simp add: uri_encode_def)

lemma percent_no_colon:
  assumes "b < 256"
  shows "CHR '':'' \<notin> set (percent_byte b)"
proof -
  have "b div 16 < 16" "b mod 16 < 16" using assms by auto
  then have "upper_hex (b div 16) \<noteq> CHR '':''" "upper_hex (b mod 16) \<noteq> CHR '':''"
    using upper_hex_facts(3) by blast+
  then show ?thesis by (auto simp: percent_byte_def)
qed

lemma plain_no_colon: "\<not> uri_plain CHR '':''"
  by (simp add: uri_plain_def is_digit_def is_lower_def is_upper_def code_def)

lemma encode_no_colon: "CHR '':'' \<notin> set (uri_encode s)"
  using percent_no_colon [OF utf8_bytes_bound] plain_no_colon by (auto simp: uri_encode_def split: if_splits)

lemma encode_nonempty: "uri_encode s = [] \<longleftrightarrow> s = []"
  by (cases s) (auto simp: uri_encode_def utf8_bytes_def percent_byte_def)

section \<open>Query parameters\<close>

type_synonym url_params = "(string \<times> string) list"

definition params_get :: "string \<Rightarrow> url_params \<Rightarrow> string option" where
  "params_get k ps = map_of ps k"

definition params_all :: "string \<Rightarrow> url_params \<Rightarrow> string list" where
  "params_all k ps = map snd (filter (\<lambda>p. fst p = k) ps)"

text \<open>\<open>set\<close> replaces the first pair of the name and drops the others, or appends.\<close>

fun params_set :: "string \<Rightarrow> string \<Rightarrow> url_params \<Rightarrow> url_params" where
  "params_set k v [] = [(k, v)]"
| "params_set k v ((k', v') # ps) =
     (if k' = k then (k, v) # filter (\<lambda>p. fst p \<noteq> k) ps else (k', v') # params_set k v ps)"

definition params_append :: "string \<Rightarrow> string \<Rightarrow> url_params \<Rightarrow> url_params" where
  "params_append k v ps = ps @ [(k, v)]"

definition params_delete :: "string \<Rightarrow> url_params \<Rightarrow> url_params" where
  "params_delete k ps = filter (\<lambda>p. fst p \<noteq> k) ps"

named_theorems params_simps \<open>reading query parameters after an update\<close>

lemma all_get: "params_get k ps = (case params_all k ps of [] \<Rightarrow> None | v # _ \<Rightarrow> Some v)"
  by (induction ps) (auto simp: params_get_def params_all_def)

lemma all_filter_other: "filter (\<lambda>p. fst p = k) (filter (\<lambda>p. fst p \<noteq> k) ps) = []"
  by (induction ps) auto

lemma all_set [params_simps]: "params_all k (params_set k v ps) = [v]"
  by (induction k v ps rule: params_set.induct) (auto simp: params_all_def all_filter_other)

lemma all_set_other [params_simps]: "k \<noteq> k' \<Longrightarrow> params_all k (params_set k' v ps) = params_all k ps"
proof (induction k' v ps rule: params_set.induct)
  case (2 k' v k'' v' ps)
  have "filter (\<lambda>p. fst p = k) (filter (\<lambda>p. fst p \<noteq> k') ps) = filter (\<lambda>p. fst p = k) ps"
    using "2.prems" by (induction ps) auto
  with 2 show ?case by (auto simp: params_all_def)
qed (simp add: params_all_def)

lemma all_delete [params_simps]: "params_all k (params_delete k ps) = []"
  by (simp add: params_all_def params_delete_def all_filter_other)

lemma all_delete_other [params_simps]: "k \<noteq> k' \<Longrightarrow> params_all k (params_delete k' ps) = params_all k ps"
  unfolding params_all_def params_delete_def by (induction ps) auto

lemma all_append [params_simps]: "params_all k (params_append k v ps) = params_all k ps @ [v]"
  by (simp add: params_all_def params_append_def)

lemma all_append_other [params_simps]: "k \<noteq> k' \<Longrightarrow> params_all k (params_append k' v ps) = params_all k ps"
  by (simp add: params_all_def params_append_def)

text \<open>\<open>if (v) params.set(k, v); else params.delete(k);\<close>\<close>

definition params_put :: "string \<Rightarrow> string \<Rightarrow> url_params \<Rightarrow> url_params" where
  "params_put k v ps = (if v \<noteq> [] then params_set k v ps else params_delete k ps)"

lemma all_put [params_simps]: "params_all k (params_put k v ps) = (if v \<noteq> [] then [v] else [])"
  by (simp add: params_put_def params_simps)

lemma all_put_other [params_simps]: "k \<noteq> k' \<Longrightarrow> params_all k (params_put k' v ps) = params_all k ps"
  by (simp add: params_put_def params_simps)

text \<open>\<open>toString\<close>: the form encoding of the pairs.\<close>

definition form_plain :: "char \<Rightarrow> bool" where
  "form_plain c \<longleftrightarrow> is_digit c \<or> is_lower c \<or> is_upper c \<or> c \<in> set ''*-._''"

definition form_encode :: "string \<Rightarrow> string" where
  "form_encode s =
     concat (map (\<lambda>c. if form_plain c then [c] else if c = CHR '' '' then ''+''
                     else concat (map percent_byte (utf8_bytes [c]))) s)"

definition params_text :: "url_params \<Rightarrow> string" where
  "params_text ps = join ''&'' (map (\<lambda>(k, v). form_encode k @ ''='' @ form_encode v) ps)"

end
