(* ===== verification/SearchState.thy ===== *)
theory SearchState imports UriText LogRepository begin

text \<open>
  \<open>frontend/src/hooks/use-log-search.ts\<close>: the search page keeps its state in the query parameters of
  its URL. \<open>read_search\<close> is what the hook reads out of them, \<open>update_search\<close> is \<open>updateSearch\<close>: the
  parameters it pushes and the absolute range it remembers.

  Numbers of the URL are read by \<open>parseInt\<close>; they are integers of any size here.
\<close>

section \<open>Constants\<close>

definition default_page_size :: int where "default_page_size = 50"
definition allowed_page_sizes :: "int list" where "allowed_page_sizes = [25, 50, 100]"
definition default_lookback :: millis where "default_lookback = 60 * 60 * 1000"
definition default_duration :: string where "default_duration = ''1h''"

definition duration_table :: "(string \<times> millis) list" where
  "duration_table =
     [(''5m'', 5 * 60 * 1000), (''15m'', 15 * 60 * 1000), (''1h'', 60 * 60 * 1000),
      (''6h'', 6 * 60 * 60 * 1000), (''24h'', 24 * 60 * 60 * 1000), (''7d'', 7 * 24 * 60 * 60 * 1000)]"

definition refresh_values :: "string list" where
  "refresh_values = [''off'', ''10s'', ''30s'', ''1m'']"

section \<open>State\<close>

type_synonym chip = "string \<times> string"
type_synonym time_range = "string \<times> string"

datatype search_mode = RawMode | PatternMode
datatype time_mode = Relative | Absolute

record search_state =
  se_query :: string
  se_mode :: search_mode
  se_token :: string
  se_view :: string
  se_page :: int
  se_size :: int
  se_level :: string
  se_service :: string
  se_host :: string
  se_source :: string
  se_exclusions :: "chip list"
  se_facets :: "chip list"
  se_columns :: "string list"
  se_time_mode :: time_mode
  se_duration :: string
  se_refresh :: string
  se_share :: bool
  se_range :: time_range
  se_sort :: string
  se_direction :: string

text \<open>\<open>SearchUpdate\<close>: the parts to change.\<close>

record search_update =
  su_query :: "string option"
  su_mode :: "search_mode option"
  su_token :: "string option"
  su_view :: "string option"
  su_page :: "int option"
  su_size :: "int option"
  su_source :: "string option"
  su_exclusions :: "chip list option"
  su_facets :: "chip list option"
  su_columns :: "string list option"
  su_start :: "string option"
  su_end :: "string option"
  su_time_mode :: "time_mode option"
  su_duration :: "string option"
  su_refresh :: "string option"
  su_share :: "bool option"
  su_level :: "string option"
  su_service :: "string option"
  su_host :: "string option"
  su_sort :: "string option"
  su_direction :: "string option"

text \<open>What the hook holds: the URL's parameters, the two ranges of its state, the session's storage.\<close>

record hook_state =
  hk_params :: url_params
  hk_fallback :: time_range
  hk_local :: time_range
  hk_stored :: "time_range option"

section \<open>Reading\<close>

definition default_range :: "js_lib \<Rightarrow> millis \<Rightarrow> time_range" where
  "default_range L t = (date_iso L (t - default_lookback), date_iso L t)"

text \<open>\<open>value in RELATIVE_DURATION_MS\<close> also finds what every object inherits; its value is no number.\<close>

definition is_relative_duration :: "string option \<Rightarrow> bool" where
  "is_relative_duration v =
     (case v of None \<Rightarrow> False | Some s \<Rightarrow> s \<in> set (map fst duration_table) \<or> s \<in> set inherited_keys)"

definition compute_relative_range :: "js_lib \<Rightarrow> millis \<Rightarrow> string \<Rightarrow> string \<Rightarrow> string + time_range" where
  "compute_relative_range L t duration anchor =
     (let safe_end = the_or t (date_parse L anchor) in
      case map_of duration_table duration of
        None \<Rightarrow> Inl invalid_time
      | Some ms \<Rightarrow> Inr (date_iso L (safe_end - ms), date_iso L safe_end))"

definition is_valid_iso :: "js_lib \<Rightarrow> string option \<Rightarrow> bool" where
  "is_valid_iso L v = (case v of None \<Rightarrow> False | Some s \<Rightarrow> s \<noteq> [] \<and> date_parse L s \<noteq> None)"

definition malformed :: string where
  "malformed = ''URI malformed''"

definition decode_uri :: "string \<Rightarrow> string + string" where
  "decode_uri s = (case uri_decode s of None \<Rightarrow> Inl malformed | Some t \<Rightarrow> Inr t)"

text \<open>\<open>token.split("::")\<close>\<close>

fun split_marks :: "string \<Rightarrow> string list" where
  "split_marks [] = [[]]"
| "split_marks [c] = [[c]]"
| "split_marks (c # d # cs) =
     (if c = CHR '':'' \<and> d = CHR '':'' then [] # split_marks cs
      else (case split_marks (d # cs) of [] \<Rightarrow> [[c]] | w # ws \<Rightarrow> (c # w) # ws))"

definition parse_chip :: "nat \<Rightarrow> string \<Rightarrow> string + chip option" where
  "parse_chip i tok =
     (case split_marks tok of
        f # v # _ \<Rightarrow>
          if f = [] \<or> v = [] then Inr None
          else (case decode_uri f of
                  Inl e \<Rightarrow> Inl e
                | Inr f' \<Rightarrow> (case decode_uri v of Inl e \<Rightarrow> Inl e | Inr v' \<Rightarrow> Inr (Some (f', v'))))
      | _ \<Rightarrow> Inr None)"

definition parse_chips :: "string \<Rightarrow> url_params \<Rightarrow> string + chip list" where
  "parse_chips name ps = map_sum id (List.map_filter id) (traverse parse_chip 0 (params_all name ps))"

definition parse_columns :: "url_params \<Rightarrow> string + string list" where
  "parse_columns ps =
     map_sum id (\<lambda>vs. filter (\<lambda>v. v \<noteq> []) (uniq vs)) (traverse (\<lambda>i. decode_uri) 0 (params_all ''col'' ps))"

text \<open>\<open>Number.parseInt(s, 10)\<close>; \<open>None\<close> is \<open>NaN\<close>.\<close>

definition parse_int :: "string \<Rightarrow> int option" where
  "parse_int s =
     (let t = trim_start s;
          (negative, digits) = (case t of
             [] \<Rightarrow> (False, [])
           | c # cs \<Rightarrow> if c = CHR ''-'' then (True, takeWhile is_digit cs)
                      else if c = CHR ''+'' then (False, takeWhile is_digit cs)
                      else (False, takeWhile is_digit t))
      in if digits = [] then None
         else Some (if negative then - int (nat_of_digits digits) else int (nat_of_digits digits)))"

text \<open>\<open>parseInt(...) || d\<close>\<close>

definition int_or :: "int \<Rightarrow> int option \<Rightarrow> int" where
  "int_or d n = (case n of None \<Rightarrow> d | Some i \<Rightarrow> if i = 0 then d else i)"

definition norm_size :: "int \<Rightarrow> int" where
  "norm_size n = (if n \<in> set allowed_page_sizes then n else default_page_size)"

definition first_of :: "string option \<Rightarrow> string option \<Rightarrow> string option" where
  "first_of a b = (case a of None \<Rightarrow> b | Some v \<Rightarrow> Some v)"

definition absolute_from :: "url_params \<Rightarrow> string option" where
  "absolute_from ps = first_of (params_get ''from'' ps) (params_get ''startTime'' ps)"

definition absolute_to :: "url_params \<Rightarrow> string option" where
  "absolute_to ps = first_of (params_get ''to'' ps) (params_get ''endTime'' ps)"

definition text_param :: "string \<Rightarrow> url_params \<Rightarrow> string" where
  "text_param k ps = the_or [] (params_get k ps)"

definition read_time_mode :: "url_params \<Rightarrow> time_mode" where
  "read_time_mode ps = (if params_get ''tr'' ps = Some ''abs'' then Absolute else Relative)"

definition read_duration :: "url_params \<Rightarrow> string" where
  "read_duration ps =
     (if is_relative_duration (params_get ''dur'' ps) then text_param ''dur'' ps else default_duration)"

definition read_range :: "js_lib \<Rightarrow> millis \<Rightarrow> hook_state \<Rightarrow> string + time_range" where
  "read_range L t h =
     (let ps = hk_params h; start = absolute_from ps; stop = absolute_to ps in
      case read_time_mode ps of
        Absolute \<Rightarrow>
          Inr (if is_valid_iso L start \<and> is_valid_iso L stop then (the_or [] start, the_or [] stop) else hk_local h)
      | Relative \<Rightarrow> compute_relative_range L t (read_duration ps) (snd (hk_fallback h)))"

definition read_search :: "js_lib \<Rightarrow> millis \<Rightarrow> hook_state \<Rightarrow> string + search_state" where
  "read_search L t h =
     (let ps = hk_params h in
      case parse_chips ''exclude'' ps of
        Inl e \<Rightarrow> Inl e
      | Inr exclusions \<Rightarrow>
      (case parse_chips ''facet'' ps of
        Inl e \<Rightarrow> Inl e
      | Inr facets \<Rightarrow>
      (case parse_columns ps of
        Inl e \<Rightarrow> Inl e
      | Inr columns \<Rightarrow>
      (case read_range L t h of
        Inl e \<Rightarrow> Inl e
      | Inr limits \<Rightarrow> Inr
          \<lparr>se_query = trim (text_param ''q'' ps),
           se_mode = (if params_get ''mode'' ps = Some ''patterns'' then PatternMode else RawMode),
           se_token = text_param ''pageToken'' ps, se_view = text_param ''viewId'' ps,
           se_page = max 1 (int_or 1 (parse_int (the_or ''1'' (params_get ''page'' ps)))),
           se_size = norm_size (int_or default_page_size
             (parse_int (the_or (int_str default_page_size) (params_get ''pageSize'' ps)))),
           se_level = text_param ''level'' ps, se_service = text_param ''service'' ps,
           se_host = text_param ''host'' ps, se_source = text_param ''sourceId'' ps,
           se_exclusions = exclusions, se_facets = facets, se_columns = columns,
           se_time_mode = read_time_mode ps, se_duration = read_duration ps,
           se_refresh = (if text_param ''refresh'' ps \<in> set refresh_values then text_param ''refresh'' ps else ''off''),
           se_share = (params_get ''shareAbs'' ps = Some ''1''), se_range = limits,
           se_sort = the_or ''timestamp'' (params_get ''sortBy'' ps),
           se_direction = the_or ''desc'' (params_get ''sortDirection'' ps)\<rparr>))))"

section \<open>The effect of a render\<close>

text \<open>What the session's storage gives back: a range whose two times are valid.\<close>

definition read_stored :: "js_lib \<Rightarrow> hook_state \<Rightarrow> time_range option" where
  "read_stored L h =
     (case hk_stored h of
        None \<Rightarrow> None
      | Some (start, stop) \<Rightarrow>
          if is_valid_iso L (Some start) \<and> is_valid_iso L (Some stop) then Some (start, stop) else None)"

definition range_effect :: "js_lib \<Rightarrow> hook_state \<Rightarrow> hook_state" where
  "range_effect L h =
     (let start = absolute_from (hk_params h); stop = absolute_to (hk_params h) in
      case read_time_mode (hk_params h) of
        Relative \<Rightarrow> h
      | Absolute \<Rightarrow>
          if is_valid_iso L start \<and> is_valid_iso L stop
          then (let next = (the_or [] start, the_or [] stop) in h\<lparr>hk_local := next, hk_stored := Some next\<rparr>)
          else (case read_stored L h of None \<Rightarrow> h | Some r \<Rightarrow> h\<lparr>hk_local := r\<rparr>))"

section \<open>Updating\<close>

definition chip_text :: "chip \<Rightarrow> string" where
  "chip_text c = uri_encode (fst c) @ ''::'' @ uri_encode (snd c)"

definition append_all :: "string \<Rightarrow> string list \<Rightarrow> url_params \<Rightarrow> url_params" where
  "append_all k vs ps = foldl (\<lambda>p v. params_append k v p) (params_delete k ps) vs"

text \<open>The state an update asks for: its own parts, the current ones elsewhere.\<close>

definition next_token_of :: "search_state \<Rightarrow> search_update \<Rightarrow> string" where
  "next_token_of st n =
     the_or (if su_page n \<noteq> None \<and> su_page n \<noteq> Some (se_page st) then [] else se_token st) (su_token n)"

definition next_time_mode :: "search_state \<Rightarrow> search_update \<Rightarrow> time_mode" where
  "next_time_mode st n =
     (if the_or [] (su_start n) \<noteq> [] \<or> the_or [] (su_end n) \<noteq> [] then Absolute
      else the_or (se_time_mode st) (su_time_mode n))"

definition next_range :: "search_state \<Rightarrow> search_update \<Rightarrow> time_range" where
  "next_range st n = (the_or (fst (se_range st)) (su_start n), the_or (snd (se_range st)) (su_end n))"

definition put_time :: "search_state \<Rightarrow> search_update \<Rightarrow> url_params \<Rightarrow> url_params" where
  "put_time st n ps =
     (let refresh = the_or (se_refresh st) (su_refresh n);
          put_refresh = (\<lambda>p. if refresh \<noteq> ''off'' then params_set ''refresh'' refresh p
                            else params_delete ''refresh'' p);
          (start, stop) = next_range st n
      in case next_time_mode st n of
           Relative \<Rightarrow>
             params_delete ''endTime'' (params_delete ''startTime'' (params_delete ''shareAbs''
               (params_delete ''to'' (params_delete ''from'' (put_refresh
                 (params_set ''dur'' (the_or (se_duration st) (su_duration n)) (params_set ''tr'' ''rel'' ps)))))))
         | Absolute \<Rightarrow>
             params_delete ''endTime'' (params_delete ''startTime'' (put_refresh (params_delete ''dur''
               (if the_or (se_share st) (su_share n)
                then params_put ''to'' stop (params_put ''from'' start
                       (params_set ''shareAbs'' ''1'' (params_set ''tr'' ''abs'' ps)))
                else params_delete ''to'' (params_delete ''from'' (params_delete ''shareAbs''
                       (params_set ''tr'' ''abs'' ps))))))))"

definition put_lists :: "search_state \<Rightarrow> search_update \<Rightarrow> url_params \<Rightarrow> url_params" where
  "put_lists st n ps =
     append_all ''col'' (map uri_encode (the_or (se_columns st) (su_columns n)))
       (append_all ''facet'' (map chip_text (the_or (se_facets st) (su_facets n)))
         (append_all ''exclude'' (map chip_text (the_or (se_exclusions st) (su_exclusions n))) ps))"

definition put_page :: "search_state \<Rightarrow> search_update \<Rightarrow> url_params \<Rightarrow> url_params" where
  "put_page st n ps =
     (let page = the_or (se_page st) (su_page n); size = the_or (se_size st) (su_size n);
          p1 = params_put ''q'' (the_or (se_query st) (su_query n)) ps;
          p2 = (if the_or (se_mode st) (su_mode n) = PatternMode then params_set ''mode'' ''patterns'' p1
                else params_delete ''mode'' p1);
          p3 = params_put ''viewId'' (the_or (se_view st) (su_view n)) (params_put ''pageToken'' (next_token_of st n) p2);
          p4 = (if page > 1 then params_set ''page'' (int_str page) p3 else params_delete ''page'' p3);
          p5 = (if size \<noteq> default_page_size then params_set ''pageSize'' (int_str size) p4
                else params_delete ''pageSize'' p4)
      in params_put ''sourceId'' (the_or (se_source st) (su_source n)) p5)"

definition put_filters :: "search_state \<Rightarrow> search_update \<Rightarrow> url_params \<Rightarrow> url_params" where
  "put_filters st n ps =
     (let sort_by = the_or (se_sort st) (su_sort n); direction = the_or (se_direction st) (su_direction n);
          p1 = params_put ''host'' (the_or (se_host st) (su_host n))
                 (params_put ''service'' (the_or (se_service st) (su_service n))
                   (params_put ''level'' (the_or (se_level st) (su_level n)) ps));
          p2 = (if sort_by \<noteq> ''timestamp'' then params_set ''sortBy'' sort_by p1 else params_delete ''sortBy'' p1)
      in if direction \<noteq> ''desc'' then params_set ''sortDirection'' direction p2
         else params_delete ''sortDirection'' p2)"

definition update_search :: "search_state \<Rightarrow> search_update \<Rightarrow> hook_state \<Rightarrow> hook_state" where
  "update_search st n h =
     (let h1 = h\<lparr>hk_params := put_filters st n (put_time st n (put_lists st n (put_page st n (hk_params h))))\<rparr>;
          (start, stop) = next_range st n
      in if next_time_mode st n = Absolute \<and> start \<noteq> [] \<and> stop \<noteq> []
         then h1\<lparr>hk_local := (start, stop), hk_stored := Some (start, stop)\<rparr> else h1)"

section \<open>What an update asks for\<close>

definition chip_ok :: "chip \<Rightarrow> bool" where
  "chip_ok c \<longleftrightarrow> fst c \<noteq> [] \<and> snd c \<noteq> []"

definition range_after :: "js_lib \<Rightarrow> millis \<Rightarrow> hook_state \<Rightarrow> search_state \<Rightarrow> search_update \<Rightarrow> time_range" where
  "range_after L t h st n =
     (case next_time_mode st n of
        Relative \<Rightarrow>
          (let stop = the_or t (date_parse L (snd (hk_fallback h)));
               ms = the_or 0 (map_of duration_table (the_or (se_duration st) (su_duration n)))
           in (date_iso L (stop - ms), date_iso L stop))
      | Absolute \<Rightarrow>
          (let (start, stop) = next_range st n in
           if start \<noteq> [] \<and> stop \<noteq> [] then (start, stop) else hk_local h))"

definition search_after :: "js_lib \<Rightarrow> millis \<Rightarrow> hook_state \<Rightarrow> search_state \<Rightarrow> search_update \<Rightarrow> search_state" where
  "search_after L t h st n =
     \<lparr>se_query = trim (the_or (se_query st) (su_query n)), se_mode = the_or (se_mode st) (su_mode n),
      se_token = next_token_of st n, se_view = the_or (se_view st) (su_view n),
      se_page = max 1 (the_or (se_page st) (su_page n)), se_size = norm_size (the_or (se_size st) (su_size n)),
      se_level = the_or (se_level st) (su_level n), se_service = the_or (se_service st) (su_service n),
      se_host = the_or (se_host st) (su_host n), se_source = the_or (se_source st) (su_source n),
      se_exclusions = filter chip_ok (the_or (se_exclusions st) (su_exclusions n)),
      se_facets = filter chip_ok (the_or (se_facets st) (su_facets n)),
      se_columns = filter (\<lambda>v. v \<noteq> []) (uniq (the_or (se_columns st) (su_columns n))),
      se_time_mode = next_time_mode st n,
      se_duration = (if next_time_mode st n = Relative then the_or (se_duration st) (su_duration n)
                     else default_duration),
      se_refresh = the_or (se_refresh st) (su_refresh n),
      se_share = (next_time_mode st n = Absolute \<and> the_or (se_share st) (su_share n)),
      se_range = range_after L t h st n,
      se_sort = the_or (se_sort st) (su_sort n), se_direction = the_or (se_direction st) (su_direction n)\<rparr>"

section \<open>Lists in the URL\<close>

lemma all_append_all: "params_all k (append_all k vs ps) = vs"
proof -
  have "params_all k (foldl (\<lambda>p v. params_append k v p) qs vs) = params_all k qs @ vs" for qs
    by (induction vs arbitrary: qs) (simp_all add: params_simps)
  then show ?thesis by (simp add: append_all_def params_simps)
qed

lemma all_append_all_other: "k \<noteq> k' \<Longrightarrow> params_all k (append_all k' vs ps) = params_all k ps"
proof -
  assume k: "k \<noteq> k'"
  have "params_all k (foldl (\<lambda>p v. params_append k' v p) qs vs) = params_all k qs" for qs
    by (induction vs arbitrary: qs) (simp_all add: params_simps k)
  then show ?thesis using k by (simp add: append_all_def params_simps)
qed

lemma split_marks_plain: "CHR '':'' \<notin> set s \<Longrightarrow> split_marks s = [s]"
  by (induction s rule: split_marks.induct) auto

lemma split_marks_at: "CHR '':'' \<notin> set s \<Longrightarrow> split_marks (s @ ''::'' @ r) = s # split_marks r"
proof (induction s)
  case (Cons c s)
  then show ?case by (cases s) auto
qed simp

lemma parse_chip_text: "parse_chip i (chip_text c) = Inr (if chip_ok c then Some c else None)"
proof -
  have "split_marks (chip_text c) = [uri_encode (fst c), uri_encode (snd c)]"
    unfolding chip_text_def split_marks_at [OF encode_no_colon] split_marks_plain [OF encode_no_colon] ..
  then show ?thesis
    by (simp add: parse_chip_def chip_ok_def encode_nonempty decode_uri_def uri_round_trip)
qed

lemma traverse_map: "(\<And>i x. f i (g x) = Inr (k x)) \<Longrightarrow> traverse f i (map g xs) = Inr (map k xs)"
  by (induction xs arbitrary: i) simp_all

lemma parse_chips_text:
  assumes "params_all name ps = map chip_text cs"
  shows "parse_chips name ps = Inr (filter chip_ok cs)"
proof -
  have "traverse parse_chip 0 (map chip_text cs) = Inr (map (\<lambda>c. if chip_ok c then Some c else None) cs)"
    by (rule traverse_map) (rule parse_chip_text)
  moreover have "List.map_filter id (map (\<lambda>c. if chip_ok c then Some c else None) cs) = filter chip_ok cs"
    by (induction cs) (simp_all add: List.map_filter_simps)
  ultimately show ?thesis using assms by (simp add: parse_chips_def)
qed

lemma parse_columns_text:
  assumes "params_all ''col'' ps = map uri_encode cs"
  shows "parse_columns ps = Inr (filter (\<lambda>v. v \<noteq> []) (uniq cs))"
proof -
  have "traverse (\<lambda>i. decode_uri) 0 (map uri_encode cs) = Inr (map id cs)"
    by (rule traverse_map) (simp add: decode_uri_def uri_round_trip)
  then show ?thesis using assms by (simp add: parse_columns_def)
qed

section \<open>Numbers in the URL\<close>

lemma nat_str_no_space: "c \<in> set (nat_str n) \<Longrightarrow> \<not> is_space c \<and> c \<noteq> CHR ''-'' \<and> c \<noteq> CHR ''+''"
  by (drule nat_str_digits) (auto simp: is_digit_def is_space_def code_def)

lemma take_digits: "takeWhile is_digit (nat_str n) = nat_str n"
  using nat_str_digits by (simp add: takeWhile_eq_all_conv)

lemma parse_int_str: "parse_int (int_str i) = Some i"
proof (cases "i < 0")
  case True
  have "trim_start (CHR ''-'' # nat_str (nat (- i))) = CHR ''-'' # nat_str (nat (- i))"
    by (simp add: trim_start_def is_space_def code_def)
  with True show ?thesis by (simp add: parse_int_def int_str_def take_digits nat_str_nonempty)
next
  case False
  obtain c cs where s: "nat_str (nat i) = c # cs" using nat_str_nonempty by (cases "nat_str (nat i)") auto
  then have c: "\<not> is_space c" "c \<noteq> CHR ''-''" "c \<noteq> CHR ''+''" using nat_str_no_space [of c "nat i"] by auto
  then have "trim_start (c # cs) = c # cs" by (simp add: trim_start_def)
  moreover have "takeWhile is_digit (c # cs) = c # cs" "nat_of_digits (c # cs) = nat i"
    using take_digits [of "nat i"] nat_of_digits_nat_str [of "nat i"] unfolding s by simp_all
  ultimately show ?thesis using False c by (simp add: parse_int_def int_str_def s)
qed

section \<open>Reading what was put\<close>

lemma page_reads:
  "params_all ''q'' (put_page st n ps) = (let v = the_or (se_query st) (su_query n) in if v \<noteq> [] then [v] else [])"
  "params_all ''mode'' (put_page st n ps)
    = (if the_or (se_mode st) (su_mode n) = PatternMode then [''patterns''] else [])"
  "params_all ''pageToken'' (put_page st n ps) = (let v = next_token_of st n in if v \<noteq> [] then [v] else [])"
  "params_all ''viewId'' (put_page st n ps) = (let v = the_or (se_view st) (su_view n) in if v \<noteq> [] then [v] else [])"
  "params_all ''page'' (put_page st n ps)
    = (let v = the_or (se_page st) (su_page n) in if v > 1 then [int_str v] else [])"
  "params_all ''pageSize'' (put_page st n ps)
    = (let v = the_or (se_size st) (su_size n) in if v \<noteq> default_page_size then [int_str v] else [])"
  "params_all ''sourceId'' (put_page st n ps) = (let v = the_or (se_source st) (su_source n) in if v \<noteq> [] then [v] else [])"
  by (simp_all add: put_page_def Let_def params_simps)

lemma lists_read:
  "params_all ''exclude'' (put_lists st n ps) = map chip_text (the_or (se_exclusions st) (su_exclusions n))"
  "params_all ''facet'' (put_lists st n ps) = map chip_text (the_or (se_facets st) (su_facets n))"
  "params_all ''col'' (put_lists st n ps) = map uri_encode (the_or (se_columns st) (su_columns n))"
  "k \<notin> {''exclude'', ''facet'', ''col''} \<Longrightarrow> params_all k (put_lists st n ps) = params_all k ps"
  by (simp_all add: put_lists_def all_append_all all_append_all_other)

lemma time_reads:
  "params_all ''tr'' (put_time st n ps) = [if next_time_mode st n = Relative then ''rel'' else ''abs'']"
  "params_all ''dur'' (put_time st n ps)
    = (if next_time_mode st n = Relative then [the_or (se_duration st) (su_duration n)] else [])"
  "params_all ''refresh'' (put_time st n ps)
    = (let v = the_or (se_refresh st) (su_refresh n) in if v \<noteq> ''off'' then [v] else [])"
  "params_all ''shareAbs'' (put_time st n ps)
    = (if next_time_mode st n = Absolute \<and> the_or (se_share st) (su_share n) then [''1''] else [])"
  "params_all ''startTime'' (put_time st n ps) = []" "params_all ''endTime'' (put_time st n ps) = []"
  by (simp_all add: put_time_def Let_def params_simps case_prod_beta split: time_mode.split)

lemma range_reads:
  "params_all ''from'' (put_time st n ps) =
    (if next_time_mode st n = Absolute \<and> the_or (se_share st) (su_share n) \<and> fst (next_range st n) \<noteq> []
     then [fst (next_range st n)] else [])"
  "params_all ''to'' (put_time st n ps) =
    (if next_time_mode st n = Absolute \<and> the_or (se_share st) (su_share n) \<and> snd (next_range st n) \<noteq> []
     then [snd (next_range st n)] else [])"
  by (simp_all add: put_time_def Let_def params_simps case_prod_beta split: time_mode.split)

lemma time_keeps:
  "k \<notin> {''tr'', ''dur'', ''refresh'', ''shareAbs'', ''from'', ''to'', ''startTime'', ''endTime''} \<Longrightarrow>
   params_all k (put_time st n ps) = params_all k ps"
  by (simp add: put_time_def Let_def params_simps case_prod_beta split: time_mode.split)

lemma filters_read:
  "params_all ''level'' (put_filters st n ps) = (let v = the_or (se_level st) (su_level n) in if v \<noteq> [] then [v] else [])"
  "params_all ''service'' (put_filters st n ps)
    = (let v = the_or (se_service st) (su_service n) in if v \<noteq> [] then [v] else [])"
  "params_all ''host'' (put_filters st n ps) = (let v = the_or (se_host st) (su_host n) in if v \<noteq> [] then [v] else [])"
  "params_all ''sortBy'' (put_filters st n ps)
    = (let v = the_or (se_sort st) (su_sort n) in if v \<noteq> ''timestamp'' then [v] else [])"
  "params_all ''sortDirection'' (put_filters st n ps)
    = (let v = the_or (se_direction st) (su_direction n) in if v \<noteq> ''desc'' then [v] else [])"
  "k \<notin> {''level'', ''service'', ''host'', ''sortBy'', ''sortDirection''} \<Longrightarrow>
   params_all k (put_filters st n ps) = params_all k ps"
  by (simp_all add: put_filters_def Let_def params_simps)

lemmas put_reads = page_reads lists_read time_reads range_reads time_keeps filters_read

lemma time_mode_read: "read_time_mode (hk_params (update_search st n h)) = next_time_mode st n"
  by (cases "next_time_mode st n")
    (simp_all add: update_search_def Let_def read_time_mode_def all_get put_reads case_prod_beta)

lemma duration_read:
  assumes "the_or (se_duration st) (su_duration n) \<in> set (map fst duration_table)"
  shows "read_duration (hk_params (update_search st n h)) =
    (if next_time_mode st n = Relative then the_or (se_duration st) (su_duration n) else default_duration)"
  using assms
  by (simp add: update_search_def Let_def read_duration_def is_relative_duration_def text_param_def all_get put_reads
      case_prod_beta)

lemma known_duration: "d \<in> set (map fst duration_table) \<Longrightarrow> \<exists>ms. map_of duration_table d = Some ms"
  by (auto simp: duration_table_def)

lemma absolute_read:
  assumes "next_time_mode st n = Absolute"
  shows "absolute_from (hk_params (update_search st n h)) =
      (if the_or (se_share st) (su_share n) \<and> fst (next_range st n) \<noteq> [] then Some (fst (next_range st n)) else None)"
    and "absolute_to (hk_params (update_search st n h)) =
      (if the_or (se_share st) (su_share n) \<and> snd (next_range st n) \<noteq> [] then Some (snd (next_range st n)) else None)"
  using assms
  by (simp_all add: update_search_def Let_def absolute_from_def absolute_to_def first_of_def all_get put_reads
      case_prod_beta)

lemma range_read:
  assumes "the_or (se_duration st) (su_duration n) \<in> set (map fst duration_table)"
  shows "read_range L t (update_search st n h) = Inr (range_after L t h st n)"
proof (cases "next_time_mode st n")
  case Relative
  have "hk_fallback (update_search st n h) = hk_fallback h"
    by (simp add: update_search_def Let_def case_prod_beta)
  then show ?thesis using Relative known_duration [OF assms]
    by (auto simp: read_range_def time_mode_read duration_read [OF assms] compute_relative_range_def range_after_def Let_def)
next
  case Absolute
  have "hk_local (update_search st n h) =
      (if fst (next_range st n) \<noteq> [] \<and> snd (next_range st n) \<noteq> [] then next_range st n else hk_local h)"
    using Absolute by (simp add: update_search_def Let_def case_prod_beta)
  then show ?thesis using Absolute
    by (auto simp: read_range_def time_mode_read absolute_read [OF Absolute] range_after_def is_valid_iso_def
        Let_def case_prod_beta)
qed

lemma int_or_self: "d \<noteq> 0 \<Longrightarrow> int_or d (Some d) = d"
  by (simp add: int_or_def)

lemma page_read:
  "max 1 (int_or 1 (parse_int (the_or ''1'' (params_get ''page'' (hk_params (update_search st n h))))))
    = max 1 (the_or (se_page st) (su_page n))"
proof -
  have "parse_int ''1'' = Some 1" by code_simp
  then show ?thesis
    by (simp add: update_search_def Let_def all_get put_reads case_prod_beta parse_int_str int_or_def)
qed

lemma size_read:
  "norm_size (int_or default_page_size
     (parse_int (the_or (int_str default_page_size) (params_get ''pageSize'' (hk_params (update_search st n h))))))
    = norm_size (the_or (se_size st) (su_size n))"
  by (simp add: update_search_def Let_def all_get put_reads case_prod_beta parse_int_str int_or_def)
    (simp add: norm_size_def allowed_page_sizes_def default_page_size_def)

lemma texts_read:
  assumes "k \<in> {''q'', ''pageToken'', ''viewId'', ''sourceId'', ''level'', ''service'', ''host''}"
  shows "text_param k (hk_params (update_search st n h)) =
    (if k = ''q'' then the_or (se_query st) (su_query n) else if k = ''pageToken'' then next_token_of st n
     else if k = ''viewId'' then the_or (se_view st) (su_view n)
     else if k = ''sourceId'' then the_or (se_source st) (su_source n)
     else if k = ''level'' then the_or (se_level st) (su_level n)
     else if k = ''service'' then the_or (se_service st) (su_service n) else the_or (se_host st) (su_host n))"
  using assms
  by (elim insertE emptyE)
    (simp_all add: text_param_def update_search_def Let_def all_get put_reads case_prod_beta)

lemma lists_after:
  "parse_chips ''exclude'' (hk_params (update_search st n h)) = Inr (filter chip_ok (the_or (se_exclusions st) (su_exclusions n)))"
  "parse_chips ''facet'' (hk_params (update_search st n h)) = Inr (filter chip_ok (the_or (se_facets st) (su_facets n)))"
  "parse_columns (hk_params (update_search st n h)) = Inr (filter (\<lambda>v. v \<noteq> []) (uniq (the_or (se_columns st) (su_columns n))))"
  by (rule parse_chips_text parse_columns_text, simp add: update_search_def Let_def put_reads case_prod_beta)+

lemma mode_read:
  "(if params_get ''mode'' (hk_params (update_search st n h)) = Some ''patterns'' then PatternMode else RawMode)
    = the_or (se_mode st) (su_mode n)"
  by (cases "the_or (se_mode st) (su_mode n)")
    (simp_all add: update_search_def Let_def all_get put_reads case_prod_beta)

lemma refresh_text: "text_param ''refresh'' (hk_params (update_search st n h)) =
    (let v = the_or (se_refresh st) (su_refresh n) in if v \<noteq> ''off'' then v else [])"
  by (simp add: text_param_def update_search_def Let_def all_get put_reads case_prod_beta)

lemma refresh_read:
  assumes "the_or (se_refresh st) (su_refresh n) \<in> set refresh_values"
  shows "(if text_param ''refresh'' (hk_params (update_search st n h)) \<in> set refresh_values
          then text_param ''refresh'' (hk_params (update_search st n h)) else ''off'')
    = the_or (se_refresh st) (su_refresh n)"
proof -
  have "[] \<notin> set refresh_values" by (simp add: refresh_values_def)
  then show ?thesis using assms unfolding refresh_text by (simp add: Let_def)
qed

lemma rest_read:
  "params_get ''shareAbs'' (hk_params (update_search st n h)) = Some ''1''
    \<longleftrightarrow> next_time_mode st n = Absolute \<and> the_or (se_share st) (su_share n)"
  "the_or ''timestamp'' (params_get ''sortBy'' (hk_params (update_search st n h))) = the_or (se_sort st) (su_sort n)"
  "the_or ''desc'' (params_get ''sortDirection'' (hk_params (update_search st n h)))
    = the_or (se_direction st) (su_direction n)"
  by (simp_all add: update_search_def Let_def all_get put_reads case_prod_beta)

lemma update_read_back:
  assumes "the_or (se_duration st) (su_duration n) \<in> set (map fst duration_table)"
    and "the_or (se_refresh st) (su_refresh n) \<in> set refresh_values"
  shows "read_search L t (update_search st n h) = Inr (search_after L t h st n)"
  by (simp add: read_search_def Let_def lists_after range_read [OF assms(1)] texts_read mode_read page_read size_read
      rest_read time_mode_read duration_read [OF assms(1)] refresh_read [OF assms(2)] search_after_def)

text \<open>C11: the search page's URL carries its state. After any update from any state, reading the new
  URL gives exactly the state the update asked for: its own parts and the old ones elsewhere, with
  the query trimmed, the page at least 1, the size one of the three offered, exclusions and facets
  (whatever characters they contain) without empty ones, columns without repetition, and the time
  range of the chosen mode.\<close>

theorem search_update_is_read_back:
  assumes "the_or (se_duration st) (su_duration n) \<in> set (map fst duration_table)"
    and "the_or (se_refresh st) (su_refresh n) \<in> set refresh_values"
  shows "read_search L t (update_search st n h) = Inr (search_after L t h st n)"
  by (rule update_read_back [OF assms])

text \<open>A link whose duration is the name of an inherited property breaks the page, and so does a column
  that is no valid percent coding: reading throws.\<close>

theorem inherited_duration_breaks_the_page:
  "read_search L t \<lparr>hk_params = [(''dur'', ''constructor'')], hk_fallback = r, hk_local = r, hk_stored = None\<rparr>
     = Inl invalid_time"
  by (simp add: read_search_def parse_chips_def parse_columns_def params_all_def read_range_def read_time_mode_def
      params_get_def read_duration_def is_relative_duration_def text_param_def inherited_keys_def duration_table_def
      compute_relative_range_def uniq_def List.map_filter_simps)

theorem stray_percent_breaks_the_page:
  "read_search L t \<lparr>hk_params = [(''col'', ''100%'')], hk_fallback = r, hk_local = r, hk_stored = None\<rparr> = Inl malformed"
proof -
  have "decode_uri ''100%'' = Inl malformed" by code_simp
  then show ?thesis
    by (simp add: read_search_def parse_chips_def parse_columns_def params_all_def List.map_filter_simps)
qed

section \<open>A worked update\<close>

definition first_visit :: hook_state where
  "first_visit = \<lparr>hk_params = [(''page'', ''3''), (''exclude'', ''host::a'')],
     hk_fallback = (''2026-01-01T09:00:00.000Z'', ''2026-01-01T10:00:00.000Z''),
     hk_local = (''2026-01-01T09:00:00.000Z'', ''2026-01-01T10:00:00.000Z''), hk_stored = None\<rparr>"

definition no_update :: search_update where
  "no_update = \<lparr>su_query = None, su_mode = None, su_token = None, su_view = None, su_page = None, su_size = None,
     su_source = None, su_exclusions = None, su_facets = None, su_columns = None, su_start = None, su_end = None,
     su_time_mode = None, su_duration = None, su_refresh = None, su_share = None, su_level = None,
     su_service = None, su_host = None, su_sort = None, su_direction = None\<rparr>"

definition odd_update :: search_update where
  "odd_update = no_update\<lparr>su_query := Some ''  time out'', su_page := Some 1,
     su_facets := Some [(''route'', ''/a?b=1&c::d%20''), ([], ''x'')], su_columns := Some [''trace id'', ''trace id'']\<rparr>"

definition fixed_lib :: js_lib where
  "fixed_lib = \<lparr>json_parse = (\<lambda>_. Inl []), json_stringify = (\<lambda>_. []),
     date_parse = (\<lambda>s. if s = ''2026-01-01T10:00:00.000Z'' then Some 0 else None), date_iso = int_str, num_str = (\<lambda>_. [])\<rparr>"

lemma first_visit_read:
  obtains st where "read_search fixed_lib 0 first_visit = Inr st" "se_duration st = ''1h''"
    "se_refresh st = ''off''" "se_exclusions st = [(''host'', ''a'')]" "se_time_mode st = Relative" "se_page st = 3"
proof -
  have "parse_chip 0 ''host::a'' = Inr (Some (''host'', ''a''))" "parse_int ''3'' = Some 3" by code_simp+
  then have "\<exists>st. read_search fixed_lib 0 first_visit = Inr st \<and> se_duration st = ''1h'' \<and> se_refresh st = ''off''
      \<and> se_exclusions st = [(''host'', ''a'')] \<and> se_time_mode st = Relative \<and> se_page st = 3"
    by (simp add: read_search_def first_visit_def parse_chips_def parse_columns_def params_all_def read_range_def
        read_time_mode_def params_get_def read_duration_def is_relative_duration_def text_param_def uniq_def
        List.map_filter_simps compute_relative_range_def default_duration_def duration_table_def refresh_values_def
        Let_def int_or_def)
  then show thesis using that by blast
qed

theorem search_update_is_read_back_witness:
  "\<exists>st. read_search fixed_lib 0 first_visit = Inr st
     \<and> map_sum id (\<lambda>s. (se_query s, se_page s, se_facets s, se_columns s, se_exclusions s))
          (read_search fixed_lib 0 (update_search st odd_update first_visit))
        = Inr (''time out'', 1, [(''route'', ''/a?b=1&c::d%20'')], [''trace id''], [(''host'', ''a'')])"
proof -
  obtain st where st: "read_search fixed_lib 0 first_visit = Inr st" "se_duration st = ''1h''"
    "se_refresh st = ''off''" "se_exclusions st = [(''host'', ''a'')]" by (rule first_visit_read)
  have "read_search fixed_lib 0 (update_search st odd_update first_visit)
      = Inr (search_after fixed_lib 0 first_visit st odd_update)"
    by (rule search_update_is_read_back)
      (simp_all add: st odd_update_def no_update_def duration_table_def refresh_values_def)
  moreover have "trim ''  time out'' = ''time out''" by code_simp
  ultimately show ?thesis
    by (simp add: st search_after_def odd_update_def no_update_def chip_ok_def uniq_def)
qed

end
