(* ===== verification/SearchScreen.thy ===== *)
theory SearchScreen imports SearchState begin

text \<open>
  What the search screen does with the search state
  (\<open>frontend/src/app/(dashboard)/logs/search/screen.tsx\<close> and the definition of
  \<open>use-log-search.ts\<close>): the filters and the page of a request, saved views, the submitted form, the
  fields discovered in a result.
\<close>

section \<open>Saved views\<close>

record view_definition =
  vd_mode :: "search_mode option"
  vd_start :: "string option"
  vd_end :: "string option"
  vd_relative :: "string option"
  vd_text :: "string option"
  vd_source :: "string option"
  vd_filters :: "log_filter list"
  vd_columns :: "string list option"
  vd_sort :: "string option"
  vd_direction :: "string option"
  vd_facets :: "chip list option"
  vd_exclusions :: "chip list option"
  vd_size :: "int option"

record client_view =
  cv_id :: ident
  cv_shared :: bool
  cv_default :: bool
  cv_definition :: view_definition

definition some_text :: "string \<Rightarrow> string option" where
  "some_text s = (if s = [] then None else Some s)"

definition text_filter :: "string \<Rightarrow> filter_op \<Rightarrow> string \<Rightarrow> log_filter list" where
  "text_filter f op v = (if v = [] then [] else [\<lparr>f_field = f, f_op = op, f_value = VStr v\<rparr>])"

definition form_filters :: "search_state \<Rightarrow> log_filter list" where
  "form_filters st =
     text_filter ''level'' OpEq (se_level st) @ text_filter ''service'' OpContains (se_service st)
     @ text_filter ''host'' OpContains (se_host st)"

definition current_definition :: "search_state \<Rightarrow> view_definition" where
  "current_definition st =
     \<lparr>vd_mode = Some (se_mode st), vd_start = Some (fst (se_range st)), vd_end = Some (snd (se_range st)),
      vd_relative = (if se_time_mode st = Relative then Some (se_duration st) else None),
      vd_text = some_text (se_query st), vd_source = some_text (se_source st), vd_filters = form_filters st,
      vd_columns = Some (se_columns st), vd_sort = Some (se_sort st), vd_direction = Some (se_direction st),
      vd_facets = Some (se_facets st), vd_exclusions = Some (se_exclusions st), vd_size = Some (se_size st)\<rparr>"

text \<open>\<open>String(filters.find(...)?.value ?? "")\<close>\<close>

definition found_value :: "js_lib \<Rightarrow> string \<Rightarrow> filter_op \<Rightarrow> log_filter list \<Rightarrow> string" where
  "found_value L f op fs =
     (case List.find (\<lambda>x. f_field x = f \<and> f_op x = op) fs of None \<Rightarrow> [] | Some x \<Rightarrow> value_text L (f_value x))"

definition apply_view :: "js_lib \<Rightarrow> time_range \<Rightarrow> client_view \<Rightarrow> search_update" where
  "apply_view L fallback v =
     (let d = cv_definition v; relative = (the_or [] (vd_relative d) \<noteq> []) in
      \<lparr>su_query = Some (the_or [] (vd_text d)), su_mode = Some (the_or RawMode (vd_mode d)), su_token = None,
       su_view = Some (cv_id v), su_page = Some 1, su_size = Some (the_or default_page_size (vd_size d)),
       su_source = Some (the_or [] (vd_source d)), su_exclusions = Some (the_or [] (vd_exclusions d)),
       su_facets = Some (the_or [] (vd_facets d)), su_columns = Some (the_or [] (vd_columns d)),
       su_start = (if relative then None else Some (the_or (fst fallback) (vd_start d))),
       su_end = (if relative then None else Some (the_or (snd fallback) (vd_end d))),
       su_time_mode = Some (if relative then Relative else Absolute),
       su_duration = Some (the_or default_duration (vd_relative d)), su_refresh = Some ''off'', su_share = None,
       su_level = Some (found_value L ''level'' OpEq (vd_filters d)),
       su_service = Some (found_value L ''service'' OpContains (vd_filters d)),
       su_host = Some (found_value L ''host'' OpContains (vd_filters d)),
       su_sort = Some (the_or ''timestamp'' (vd_sort d)), su_direction = Some (the_or ''desc'' (vd_direction d))\<rparr>)"

text \<open>The default view is opened once, when no view is in the URL; the result also says that it is done.\<close>

definition hydrate_default ::
  "js_lib \<Rightarrow> bool \<Rightarrow> bool \<Rightarrow> client_view list \<Rightarrow> search_state \<Rightarrow> time_range \<Rightarrow> search_update option \<times> bool" where
  "hydrate_default L hydrated loading views st fallback =
     (if hydrated then (None, True)
      else if se_view st \<noteq> [] then (None, True)
      else if loading then (None, False)
      else (case List.find cv_default views of
              None \<Rightarrow> (None, True)
            | Some v \<Rightarrow> (Some (apply_view L fallback v), True)))"

text \<open>What the bar lets the caller do with the selected view.\<close>

definition can_manage_selected :: "bool \<Rightarrow> client_view option \<Rightarrow> bool" where
  "can_manage_selected shared v =
     (shared \<or> (case v of None \<Rightarrow> True | Some x \<Rightarrow> \<not> (cv_shared x \<or> cv_default x)))"

section \<open>The form\<close>

record search_form =
  fo_query :: string
  fo_level :: string
  fo_service :: string
  fo_host :: string
  fo_source :: string
  fo_range :: time_range
  fo_mode :: time_mode
  fo_duration :: string
  fo_refresh :: string
  fo_share :: bool
  fo_sort :: string
  fo_direction :: string
  fo_size :: int

definition handle_search :: "search_form \<Rightarrow> search_update" where
  "handle_search f =
     \<lparr>su_query = Some (trim (fo_query f)), su_mode = None, su_token = None, su_view = None, su_page = Some 1,
      su_size = Some (fo_size f), su_source = Some (fo_source f), su_exclusions = None, su_facets = None,
      su_columns = None,
      su_start = (if fo_mode f = Absolute then Some (fst (fo_range f)) else None),
      su_end = (if fo_mode f = Absolute then Some (snd (fo_range f)) else None),
      su_time_mode = Some (fo_mode f), su_duration = Some (fo_duration f), su_refresh = Some (fo_refresh f),
      su_share = Some (fo_mode f = Absolute \<and> fo_share f), su_level = Some (fo_level f),
      su_service = Some (fo_service f), su_host = Some (fo_host f), su_sort = Some (fo_sort f),
      su_direction = Some (fo_direction f)\<rparr>"

section \<open>The request of a page\<close>

definition search_filters :: "search_state \<Rightarrow> log_filter list" where
  "search_filters st = form_filters st
     @ map (\<lambda>c. \<lparr>f_field = fst c, f_op = OpNeq, f_value = VStr (snd c)\<rparr>) (se_exclusions st)
     @ map (\<lambda>c. \<lparr>f_field = fst c, f_op = OpEq, f_value = VStr (snd c)\<rparr>) (se_facets st)"

definition search_offset :: "search_state \<Rightarrow> int" where
  "search_offset st = (se_page st - 1) * se_size st"

section \<open>Discovered fields\<close>

text \<open>A \<open>Map\<close> is an association list in insertion order; counting bumps an entry or appends it.\<close>

definition bump :: "'k \<Rightarrow> 'v \<Rightarrow> ('v \<Rightarrow> 'v) \<Rightarrow> ('k \<times> 'v) list \<Rightarrow> ('k \<times> 'v) list" where
  "bump k z f m = AList.update k (f (the_or z (map_of m k))) m"

type_synonym field_summary = "(string \<times> nat \<times> (string \<times> nat) list) list"

definition count_field :: "string \<times> string \<Rightarrow> field_summary \<Rightarrow> field_summary" where
  "count_field kv m =
     bump (fst kv) (0, []) (\<lambda>(hits, counts). (hits + 1, bump (snd kv) 0 (\<lambda>n. n + 1) counts)) m"

definition top_by :: "('a \<Rightarrow> nat) \<Rightarrow> nat \<Rightarrow> 'a list \<Rightarrow> 'a list" where
  "top_by f n xs = take n (sort_key (\<lambda>x. - int (f x)) xs)"

text \<open>The logs are given by their fields, each value as its \<open>String(value)\<close>.\<close>

definition discovered_fields :: "(string \<times> string) list list \<Rightarrow> (string \<times> nat \<times> string list) list" where
  "discovered_fields logs =
     top_by (\<lambda>(k, hits, tops). hits) 20
       (map (\<lambda>(k, hits, counts). (k, hits, map fst (top_by snd 3 counts))) (fold count_field (concat logs) []))"

section \<open>A read state is well formed\<close>

definition state_typed :: "search_state \<Rightarrow> bool" where
  "state_typed st \<longleftrightarrow> se_page st \<ge> 1 \<and> se_size st \<in> set allowed_page_sizes \<and> trim (se_query st) = se_query st
     \<and> list_all chip_ok (se_exclusions st) \<and> list_all chip_ok (se_facets st)
     \<and> distinct (se_columns st) \<and> [] \<notin> set (se_columns st) \<and> se_refresh st \<in> set refresh_values
     \<and> (se_time_mode st = Relative \<longrightarrow> se_duration st \<in> set (map fst duration_table))"

lemma decode_nonempty: "uri_decode s = Some t \<Longrightarrow> s \<noteq> [] \<Longrightarrow> t \<noteq> []"
proof (induction s rule: uri_decode.induct)
  case (2 c cs)
  have "u \<noteq> []" if "read_escape s = Some (u, r)" for s u r
    using that by (auto simp: read_escape_def Let_def code_units_def split: option.splits if_splits)
  with 2 show ?case by (auto simp: uri_decode.simps(2) split: if_splits option.splits)
qed simp

lemma parse_chip_ok: "parse_chip i s = Inr (Some c) \<Longrightarrow> chip_ok c"
  by (auto simp: parse_chip_def chip_ok_def decode_uri_def dest: decode_nonempty
      split: list.splits if_splits sum.splits option.splits)

lemma parse_chips_ok: "parse_chips k ps = Inr cs \<Longrightarrow> list_all chip_ok cs"
proof -
  assume "parse_chips k ps = Inr cs"
  then obtain xs where xs: "traverse parse_chip 0 (params_all k ps) = Inr xs" "cs = List.map_filter id xs"
    by (cases "traverse parse_chip 0 (params_all k ps)") (auto simp: parse_chips_def)
  have "chip_ok c" if "Some c \<in> set xs" for c
    using traverse_set [OF xs(1) that] parse_chip_ok by blast
  then show ?thesis by (auto simp: xs(2) list_all_iff List.map_filter_def)
qed

lemma parse_columns_ok: "parse_columns ps = Inr cs \<Longrightarrow> distinct cs \<and> [] \<notin> set cs"
  by (cases "traverse (\<lambda>i. decode_uri) 0 (params_all ''col'' ps)") (auto simp: parse_columns_def)

lemma trim_trim: "trim (trim s) = trim s"
proof -
  have start: "trim_start (trim_start s) = trim_start s" for s
    unfolding trim_start_def by (metis dropWhile_idem)
  have keep: "trim_start (rev (trim_start (rev u))) = rev (trim_start (rev u))" if "trim_start u = u" for u
  proof (cases u)
    case (Cons c cs)
    with that have c: "\<not> is_space c"
      by (auto simp: trim_start_def dropWhile_eq_Cons_conv split: if_splits)
    define d where "d = trim_start (rev u)"
    obtain w where "rev u = w @ d" unfolding d_def trim_start_def by (metis takeWhile_dropWhile_id)
    then have u: "u = rev d @ rev w" by (metis rev_append rev_rev_ident)
    have "d \<noteq> []" unfolding d_def trim_start_def dropWhile_eq_Nil_conv using Cons c by auto
    then have "hd (rev d) = hd u" by (simp add: u)
    then show ?thesis using Cons c \<open>d \<noteq> []\<close> unfolding d_def [symmetric]
      by (cases "rev d") (auto simp: trim_start_def)
  qed (simp add: trim_start_def)
  show ?thesis unfolding trim_def by (simp add: keep start)
qed

lemma compute_known: "compute_relative_range L t d a = Inr r \<Longrightarrow> d \<in> set (map fst duration_table)"
  by (auto simp: compute_relative_range_def Let_def intro: rev_image_eqI split: option.splits dest!: map_of_SomeD)

lemma read_search_typed:
  assumes "read_search L t h = Inr st"
  shows "state_typed st"
proof -
  have size: "norm_size n \<in> set allowed_page_sizes" for n
    by (simp add: norm_size_def allowed_page_sizes_def default_page_size_def)
  have off: "''off'' \<in> set refresh_values" by (simp add: refresh_values_def)
  have range: "read_range L t h = Inr r \<Longrightarrow> read_time_mode (hk_params h) = Relative \<Longrightarrow>
      read_duration (hk_params h) \<in> fst ` set duration_table" for r
    by (auto simp: read_range_def Let_def dest: compute_known)
  from assms show ?thesis
    by (auto simp: read_search_def Let_def state_typed_def size off trim_trim
        intro: range dest: parse_chips_ok parse_columns_ok split: sum.splits)
qed

text \<open>whatever the URL says, the search state read from it is well formed. When reading succeeds, the
  page is at least 1, the page size one of the three offered, the query trimmed, the exclusions and
  facets have a field and a value, the columns are distinct and not empty, the refresh interval is
  one of the four and, in relative mode, the duration is one of the six.\<close>

theorem read_state_is_typed:
  "case read_search L t h of Inl e \<Rightarrow> True | Inr st \<Rightarrow> state_typed st"
  using read_search_typed by (auto split: sum.splits)

section \<open>Saving a view and opening it\<close>

lemma found_text: "f_field x = f \<and> f_op x = op \<Longrightarrow> found_value L f op (x # fs) = value_text L (f_value x)"
  by (simp add: found_value_def)

lemma form_filters_found:
  "found_value L ''level'' OpEq (form_filters st) = se_level st"
  "found_value L ''service'' OpContains (form_filters st) = se_service st"
  "found_value L ''host'' OpContains (form_filters st) = se_host st"
  by (auto simp: form_filters_def text_filter_def found_value_def value_text_def)

lemma opened_view:
  assumes typed: "state_typed st" and view: "cv_definition v = current_definition st"
  shows "read_search L t (update_search st' (apply_view L fallback v) h) =
    Inr (search_after L t h st' (apply_view L fallback v))"
proof (rule update_read_back)
  have d: "''1h'' \<in> set (map fst duration_table)" by (simp add: duration_table_def)
  then show "the_or (se_duration st') (su_duration (apply_view L fallback v)) \<in> set (map fst duration_table)"
    using typed by (simp add: apply_view_def Let_def view current_definition_def state_typed_def default_duration_def)
  show "the_or (se_refresh st') (su_refresh (apply_view L fallback v)) \<in> set refresh_values"
    by (simp add: apply_view_def Let_def refresh_values_def)
qed

text \<open>The part of a search a view stores: everything but the page, its token, the view and the refresh.\<close>

definition same_search :: "search_state \<Rightarrow> search_state \<Rightarrow> bool" where
  "same_search a b \<longleftrightarrow> se_query a = se_query b \<and> se_mode a = se_mode b \<and> se_size a = se_size b
     \<and> se_level a = se_level b \<and> se_service a = se_service b \<and> se_host a = se_host b \<and> se_source a = se_source b
     \<and> se_exclusions a = se_exclusions b \<and> se_facets a = se_facets b \<and> se_columns a = se_columns b
     \<and> se_sort a = se_sort b \<and> se_direction a = se_direction b \<and> se_time_mode a = se_time_mode b
     \<and> (se_time_mode a = Relative \<longrightarrow> se_duration a = se_duration b)
     \<and> (se_time_mode a = Absolute \<longrightarrow> se_range a = se_range b)"

text \<open>a saved view brings the search back. Take any search state read from a URL, save it as a view and
  open that view from any other state: the page then shows the same search (text, filters,
  exclusions, facets, columns, sorting, page size and time range) from its first page, as that
  view, without auto-refresh.\<close>

theorem saved_view_restores_search:
  assumes "read_search L t0 h0 = Inr st" and "cv_definition v = current_definition st"
    and "se_time_mode st = Absolute \<Longrightarrow> fst (se_range st) \<noteq> [] \<and> snd (se_range st) \<noteq> []"
  shows "\<exists>st'. read_search L t (update_search cur (apply_view L fallback v) h) = Inr st'
    \<and> same_search st' st \<and> se_page st' = 1 \<and> se_view st' = cv_id v \<and> se_refresh st' = ''off''"
proof -
  have typed: "state_typed st" by (rule read_search_typed [OF assms(1)])
  let ?n = "apply_view L fallback v"
  have cols: "filter (\<lambda>c. c \<noteq> []) (uniq (se_columns st)) = se_columns st"
  proof -
    have "uniq_from seen cs = cs" if "distinct cs" "set seen \<inter> set cs = {}" for seen cs :: "string list"
      using that by (induction seen cs rule: uniq_from.induct) auto
    then have "uniq (se_columns st) = se_columns st" using typed by (simp add: uniq_def state_typed_def)
    moreover have "filter (\<lambda>c. c \<noteq> []) (se_columns st) = se_columns st"
      using typed by (auto simp: state_typed_def filter_id_conv)
    ultimately show ?thesis by simp
  qed
  have chips: "filter chip_ok (se_exclusions st) = se_exclusions st" "filter chip_ok (se_facets st) = se_facets st"
    using typed by (auto simp: state_typed_def filter_id_conv list_all_iff)
  have kept: "the_or [] (some_text s) = s" for s by (simp add: some_text_def)
  have size: "norm_size (se_size st) = se_size st" using typed by (simp add: norm_size_def state_typed_def)
  have dur: "se_time_mode st = Relative \<Longrightarrow> se_duration st \<noteq> []"
    using typed by (auto simp: state_typed_def duration_table_def)
  have mode: "next_time_mode cur ?n = se_time_mode st"
    using dur assms(3)
    by (cases "se_time_mode st") (simp_all add: next_time_mode_def apply_view_def Let_def assms(2) current_definition_def)
  have range: "se_time_mode st = Absolute \<Longrightarrow> range_after L t h cur ?n = se_range st"
  proof -
    assume absolute: "se_time_mode st = Absolute"
    then have "next_range cur ?n = se_range st"
      by (simp add: next_range_def apply_view_def Let_def assms(2) current_definition_def)
    then show "range_after L t h cur ?n = se_range st"
      using assms(3) absolute by (simp add: range_after_def mode case_prod_beta)
  qed
  have "same_search (search_after L t h cur ?n) st"
    using typed dur
    by (auto simp: same_search_def search_after_def mode range)
      (simp_all add: apply_view_def Let_def assms(2) current_definition_def kept size cols chips
        form_filters_found state_typed_def)
  then show ?thesis
    using opened_view [OF typed assms(2), where st' = cur and L = L and t = t and fallback = fallback and h = h]
    by (simp add: search_after_def) (simp add: apply_view_def Let_def)
qed

theorem saved_view_restores_search_witness:
  "\<exists>st st'. read_search fixed_lib 0 first_visit = Inr st \<and> se_page st = 3
     \<and> read_search fixed_lib 0 (update_search st (apply_view fixed_lib ([], [])
          \<lparr>cv_id = ''v1'', cv_shared = False, cv_default = False, cv_definition = current_definition st\<rparr>) first_visit) = Inr st'
     \<and> same_search st' st \<and> se_page st' = 1 \<and> se_view st' = ''v1''"
proof -
  obtain st where st: "read_search fixed_lib 0 first_visit = Inr st" "se_time_mode st = Relative" "se_page st = 3"
    by (rule first_visit_read)
  let ?v = "\<lparr>cv_id = ''v1'', cv_shared = False, cv_default = False, cv_definition = current_definition st\<rparr>"
  have "cv_definition ?v = current_definition st" by simp
  from saved_view_restores_search [OF st(1) this, where cur = st and t = 0
      and fallback = "([], [])" and h = first_visit] st show ?thesis by auto
qed

end
