(* ===== verification/ApiClient.thy ===== *)
theory ApiClient imports SearchScreen Http begin

text \<open>
  \<open>frontend/src/lib/api/client.ts\<close>: the requests the frontend makes, how it reads the answers, and the
  polling of an asynchronous query. The network is an argument: a request is answered by a response
  or \<open>fetch\<close> rejects.
\<close>

section \<open>Requests\<close>

record api_call =
  ac_method :: string
  ac_path :: string
  ac_auth :: "string option"
  ac_body :: "json option"

record api_response =
  fr_status :: nat
  fr_body :: "string + json"

record api_urls =
  au_internal :: "string option"
  au_public :: "string option"

definition api_base_url :: "bool \<Rightarrow> api_urls \<Rightarrow> string" where
  "api_base_url in_browser u =
     (if in_browser then the_or ''http://localhost:4000/api/v1'' (au_public u)
      else the_or (the_or ''http://localhost:4000/api/v1'' (au_public u)) (au_internal u))"

text \<open>\<open>Object.entries\<close> of what may be an object or an array.\<close>

definition json_entries :: "json \<Rightarrow> (string \<times> json) list" where
  "json_entries v =
     (case v of
        JObj kvs \<Rightarrow> kvs
      | JArr vs \<Rightarrow> zip (map nat_str [0..<length vs]) vs
      | _ \<Rightarrow> [])"

fun all_strings :: "json list \<Rightarrow> string list option" where
  "all_strings [] = Some []"
| "all_strings (JStr s # vs) = map_option (\<lambda>ss. s # ss) (all_strings vs)"
| "all_strings (_ # vs) = None"

definition json_strings :: "json option \<Rightarrow> string list option" where
  "json_strings v = (case v of Some (JArr vs) \<Rightarrow> all_strings vs | _ \<Rightarrow> None)"

definition json_object :: "json option \<Rightarrow> bool" where
  "json_object v = (case v of Some (JObj kvs) \<Rightarrow> True | Some (JArr vs) \<Rightarrow> True | _ \<Rightarrow> False)"

definition field_messages :: "string \<times> json \<Rightarrow> string list" where
  "field_messages kv =
     (case json_strings (Some (snd kv)) of
        Some (s # ss) \<Rightarrow> [fst kv @ '': '' @ join '', '' (s # ss)]
      | _ \<Rightarrow> [])"

definition describe_validation_error :: "json \<Rightarrow> string \<Rightarrow> string" where
  "describe_validation_error err fallback =
     (let fields = field ''fieldErrors'' err;
          messages = the_or [] (json_strings (field ''formErrors'' err))
            @ (if json_object fields then concat (map field_messages (json_entries (the_or JNull fields))) else [])
      in if messages = [] then fallback else join ''; '' messages)"

definition error_detail :: "api_response \<Rightarrow> string" where
  "error_detail r =
     (let detail = ''API request failed: '' @ nat_str (fr_status r) in
      case fr_body r of
        Inl e \<Rightarrow> detail
      | Inr body \<Rightarrow>
          (case field ''error'' body of
             Some (JStr s) \<Rightarrow> s
           | err \<Rightarrow>
               if json_object err then describe_validation_error (the_or JNull err) detail
               else the_or detail (str_of (field ''message'' body))))"

text \<open>The answer: what was thrown, or the parsed body (\<open>None\<close> for 204).\<close>

definition api_request :: "(api_call \<Rightarrow> string + api_response) \<Rightarrow> api_call \<Rightarrow> string + json option" where
  "api_request net c =
     (case net c of
        Inl e \<Rightarrow> Inl e
      | Inr r \<Rightarrow>
          if \<not> (200 \<le> fr_status r \<and> fr_status r < 300) then Inl (error_detail r)
          else if fr_status r = 204 then Inr None
          else map_sum id Some (fr_body r))"

definition authed :: "string \<Rightarrow> string \<Rightarrow> string \<Rightarrow> json option \<Rightarrow> api_call" where
  "authed token method path body =
     \<lparr>ac_method = method, ac_path = path, ac_auth = Some (''Bearer '' @ token), ac_body = body\<rparr>"

definition authed_get :: "string \<Rightarrow> string \<Rightarrow> api_call" where
  "authed_get token path = authed token ''GET'' path None"

section \<open>Polling\<close>

definition is_async_envelope :: "json \<Rightarrow> bool" where
  "is_async_envelope v \<longleftrightarrow> str_of (field ''requestId'' v) \<noteq> None \<and> field ''status'' v = Some (JStr ''pending'')"

definition poll_attempts :: nat where "poll_attempts = 20"
definition poll_delay :: millis where "poll_delay = 250"

text \<open>
  The polls from the \<open>i\<close>-th on, \<open>n\<close> of them left; \<open>reply i\<close> is what the \<open>i\<close>-th is answered. The result
  comes with the number of requests and the time spent waiting between them.
\<close>

fun wait_from :: "(nat \<Rightarrow> string + json option) \<Rightarrow> nat \<Rightarrow> nat \<Rightarrow> (string + json option) \<times> nat \<times> millis" where
  "wait_from reply 0 i = (Inl ''Async query timed out'', 0, 0)"
| "wait_from reply (Suc n) i =
     (case reply i of
        Inl e \<Rightarrow> (Inl e, 1, 0)
      | Inr None \<Rightarrow> (Inl ''Cannot read properties of undefined (reading 'status')'', 1, 0)
      | Inr (Some s) \<Rightarrow>
          if field ''status'' s = Some (JStr ''completed'') then (Inr (field ''data'' s), 1, 0)
          else if field ''status'' s = Some (JStr ''failed'')
            then (Inl (the_or ''Async query failed'' (str_of (field ''error'' s))), 1, 0)
          else (let (r, k, w) = wait_from reply n (Suc i) in (r, Suc k, poll_delay + w)))"

definition job_call :: "string \<Rightarrow> string \<Rightarrow> api_call" where
  "job_call request_id token = authed_get token (''/query/jobs/'' @ request_id)"

text \<open>The network may answer each poll differently: \<open>nets i\<close> answers the \<open>i\<close>-th.\<close>

definition wait_for_async_job ::
  "(nat \<Rightarrow> api_call \<Rightarrow> string + api_response) \<Rightarrow> string \<Rightarrow> string \<Rightarrow> (string + json option) \<times> nat \<times> millis" where
  "wait_for_async_job nets request_id token =
     wait_from (\<lambda>i. api_request (nets i) (job_call request_id token)) poll_attempts 0"

text \<open>A query that may be answered at once or by a job.\<close>

definition query_or_job ::
  "(api_call \<Rightarrow> string + api_response) \<Rightarrow> (nat \<Rightarrow> api_call \<Rightarrow> string + api_response) \<Rightarrow> string \<Rightarrow> api_call \<Rightarrow>
   string + json option" where
  "query_or_job net nets token call =
     (case api_request net call of
        Inl e \<Rightarrow> Inl e
      | Inr None \<Rightarrow> Inr None
      | Inr (Some v) \<Rightarrow>
          if is_async_envelope v
          then fst (wait_for_async_job nets (the_or [] (str_of (field ''requestId'' v))) token)
          else Inr (Some v))"

section \<open>Bodies\<close>

text \<open>An object literal through \<open>JSON.stringify\<close>: undefined keys are left out.\<close>

definition json_body :: "(string \<times> json option) list \<Rightarrow> json" where
  "json_body kvs = JObj (List.map_filter (\<lambda>(k, v). map_option (\<lambda>x. (k, x)) v) kvs)"

definition text_json :: "string option \<Rightarrow> json option" where
  "text_json v = map_option JStr v"

definition int_json :: "int \<Rightarrow> json option" where
  "int_json n = Some (JNum (Fin (of_int n)))"

text \<open>\<open>v || undefined\<close>\<close>

definition or_undefined :: "string option \<Rightarrow> string option" where
  "or_undefined v = (if truthy v then v else None)"

fun op_str :: "filter_op \<Rightarrow> string" where
  "op_str OpEq = ''eq''"
| "op_str OpNeq = ''neq''"
| "op_str OpGt = ''gt''"
| "op_str OpLt = ''lt''"
| "op_str OpContains = ''contains''"

fun value_json :: "filter_value \<Rightarrow> json" where
  "value_json (VStr s) = JStr s"
| "value_json (VNum n) = (case n of Fin r \<Rightarrow> JNum n | _ \<Rightarrow> JNull)"

definition filters_json :: "log_filter list option \<Rightarrow> json option" where
  "filters_json fs = map_option
     (\<lambda>xs. JArr (map (\<lambda>f. JObj [(''field'', JStr (f_field f)), (''operator'', JStr (op_str (f_op f))),
        (''value'', value_json (f_value f))]) xs)) fs"

record logs_options =
  lo_source :: "string option"
  lo_start :: "string option"
  lo_end :: "string option"
  lo_query :: "string option"
  lo_filters :: "log_filter list option"
  lo_sort :: "string option"
  lo_direction :: "string option"
  lo_limit :: "int option"
  lo_offset :: "int option"
  lo_token :: "string option"
  lo_context :: "json option"

section \<open>Teams, sources and logs\<close>

definition teams_call :: "string \<Rightarrow> api_call" where
  "teams_call token = authed_get token ''/teams''"

definition overview_call :: "string \<Rightarrow> string \<Rightarrow> api_call" where
  "overview_call team token = authed_get token (''/dashboards/overview?teamId='' @ team)"

definition sources_call :: "string \<Rightarrow> string \<Rightarrow> api_call" where
  "sources_call team token = authed_get token (''/sources?teamId='' @ team)"

definition create_source_call :: "string \<Rightarrow> json \<Rightarrow> api_call" where
  "create_source_call token payload = authed token ''POST'' ''/sources'' (Some payload)"

definition source_path :: "string \<Rightarrow> string" where
  "source_path i = ''/sources/'' @ uri_encode i"

definition rename_source_call :: "string \<Rightarrow> string \<Rightarrow> json \<Rightarrow> api_call" where
  "rename_source_call i token payload = authed token ''PUT'' (source_path i) (Some payload)"

definition delete_source_call :: "string \<Rightarrow> string \<Rightarrow> api_call" where
  "delete_source_call i token = authed token ''DELETE'' (source_path i) None"

definition rotate_key_call :: "string \<Rightarrow> string \<Rightarrow> api_call" where
  "rotate_key_call i token = authed token ''POST'' (source_path i @ ''/rotate-key'') None"

definition reveal_key_call :: "string \<Rightarrow> string \<Rightarrow> api_call" where
  "reveal_key_call i token = authed token ''POST'' (source_path i @ ''/reveal'') None"

definition get_logs_call :: "string \<Rightarrow> string \<Rightarrow> logs_options \<Rightarrow> api_call" where
  "get_logs_call team token o' =
     (let natural = truthy (lo_query o') in
      authed token ''POST'' ''/logs/search'' (Some (json_body
        [(''teamId'', Some (JStr team)),
         (''sourceId'', text_json (or_undefined (lo_source o'))),
         (''startTime'', if natural then None else text_json (or_undefined (lo_start o'))),
         (''endTime'', if natural then None else text_json (or_undefined (lo_end o'))),
         (''query'', text_json (or_undefined (lo_query o'))),
         (''queryType'', Some (JStr (if natural then ''natural'' else ''sql''))),
         (''filters'', if natural then None else filters_json (lo_filters o')),
         (''context'', if natural then lo_context o' else None),
         (''sortBy'', Some (JStr (the_or ''timestamp'' (lo_sort o')))),
         (''sortDirection'', Some (JStr (the_or ''desc'' (lo_direction o')))),
         (''limit'', int_json (the_or 50 (lo_limit o'))),
         (''offset'', int_json (the_or 0 (lo_offset o'))),
         (''pageToken'', text_json (or_undefined (lo_token o')))])))"

definition log_by_id_call :: "string \<Rightarrow> string \<Rightarrow> string \<Rightarrow> api_call" where
  "log_by_id_call team i token = authed_get token (''/logs/'' @ i @ ''?teamId='' @ team)"

definition explanation_call :: "string \<Rightarrow> string \<Rightarrow> string \<Rightarrow> api_call" where
  "explanation_call team query token =
     authed token ''POST'' ''/query/natural'' (Some (JObj [(''teamId'', JStr team), (''query'', JStr query)]))"

text \<open>What the facet, histogram and pattern requests share.\<close>

definition scope_body :: "string \<Rightarrow> logs_options \<Rightarrow> (string \<times> json option) list" where
  "scope_body team o' =
     [(''teamId'', Some (JStr team)),
      (''sourceId'', text_json (or_undefined (lo_source o'))),
      (''startTime'', text_json (or_undefined (lo_start o'))),
      (''endTime'', text_json (or_undefined (lo_end o'))),
      (''query'', text_json (or_undefined (lo_query o'))),
      (''queryType'', Some (JStr (if truthy (lo_query o') then ''natural'' else ''sql''))),
      (''filters'', filters_json (lo_filters o'))]"

definition facets_call :: "string \<Rightarrow> string \<Rightarrow> logs_options \<Rightarrow> string list option \<Rightarrow> api_call" where
  "facets_call team token o' names =
     authed token ''POST'' ''/logs/facets'' (Some (json_body (scope_body team o' @
       [(''fields'', map_option (\<lambda>fs. JArr (map JStr fs)) names),
        (''limit'', int_json (the_or 10 (lo_limit o')))])))"

definition histogram_call :: "string \<Rightarrow> string \<Rightarrow> logs_options \<Rightarrow> string option \<Rightarrow> api_call" where
  "histogram_call team token o' interval =
     authed token ''POST'' ''/logs/histogram'' (Some (json_body (scope_body team o' @
       [(''interval'', Some (JStr (the_or ''5m'' interval)))])))"

definition patterns_call :: "string \<Rightarrow> string \<Rightarrow> logs_options \<Rightarrow> string option \<Rightarrow> api_call" where
  "patterns_call team token o' group_by =
     authed token ''POST'' ''/logs/patterns'' (Some (json_body (scope_body team o' @
       [(''groupBy'', Some (JStr (the_or ''service_level'' group_by))),
        (''limit'', int_json (the_or 50 (lo_limit o')))])))"

definition context_call ::
  "string \<Rightarrow> string \<Rightarrow> string \<Rightarrow> string \<Rightarrow> int option \<Rightarrow> int option \<Rightarrow> string option \<Rightarrow> string option \<Rightarrow> string option \<Rightarrow> api_call" where
  "context_call token team source stamp before after scope service host =
     authed token ''POST'' ''/logs/context'' (Some (json_body
       [(''teamId'', Some (JStr team)), (''sourceId'', Some (JStr source)), (''timestamp'', Some (JStr stamp)),
        (''before'', int_json (the_or 20 before)), (''after'', int_json (the_or 20 after)),
        (''scope'', Some (JStr (the_or ''source'' scope))), (''service'', text_json service),
        (''host'', text_json host)]))"

section \<open>Views, alerts, subscriptions, issues, administration\<close>

definition team_query :: "string \<Rightarrow> string" where
  "team_query team = ''?teamId='' @ uri_encode team"

definition views_call :: "string \<Rightarrow> string \<Rightarrow> api_call" where
  "views_call team token = authed_get token (''/logs/views'' @ team_query team)"

definition create_view_call :: "string \<Rightarrow> json \<Rightarrow> api_call" where
  "create_view_call token payload = authed token ''POST'' ''/logs/views'' (Some payload)"

definition update_view_call :: "string \<Rightarrow> string \<Rightarrow> string \<Rightarrow> (string \<times> json) list \<Rightarrow> api_call" where
  "update_view_call i team token payload =
     authed token ''PUT'' (''/logs/views/'' @ i @ team_query team) (Some (JObj ((''teamId'', JStr team) # payload)))"

definition duplicate_view_call :: "string \<Rightarrow> string \<Rightarrow> json \<Rightarrow> api_call" where
  "duplicate_view_call i token payload = authed token ''POST'' (''/logs/views/'' @ i @ ''/duplicate'') (Some payload)"

definition delete_view_call :: "string \<Rightarrow> string \<Rightarrow> string \<Rightarrow> api_call" where
  "delete_view_call i team token = authed token ''DELETE'' (''/logs/views/'' @ i @ team_query team) None"

definition rules_call :: "string \<Rightarrow> string \<Rightarrow> api_call" where
  "rules_call team token = authed_get token (''/alerts/rules?teamId='' @ team)"

definition create_rule_call :: "string \<Rightarrow> json \<Rightarrow> api_call" where
  "create_rule_call token payload = authed token ''POST'' ''/alerts/rules'' (Some payload)"

definition update_rule_call :: "string \<Rightarrow> string \<Rightarrow> json \<Rightarrow> api_call" where
  "update_rule_call i token payload = authed token ''PUT'' (''/alerts/rules/'' @ uri_encode i) (Some payload)"

definition delete_rule_call :: "string \<Rightarrow> string \<Rightarrow> api_call" where
  "delete_rule_call i token = authed token ''DELETE'' (''/alerts/rules/'' @ uri_encode i) None"

definition incidents_call :: "string \<Rightarrow> string \<Rightarrow> api_call" where
  "incidents_call team token = authed_get token (''/alerts/incidents?teamId='' @ team)"

definition subscriptions_call :: "string \<Rightarrow> string \<Rightarrow> api_call" where
  "subscriptions_call team token = authed_get token (''/subscriptions?teamId='' @ team)"

definition create_subscription_call :: "string \<Rightarrow> json \<Rightarrow> api_call" where
  "create_subscription_call token data = authed token ''POST'' ''/subscriptions'' (Some data)"

definition update_subscription_call :: "string \<Rightarrow> string \<Rightarrow> json \<Rightarrow> api_call" where
  "update_subscription_call i token data = authed token ''PUT'' (''/subscriptions/'' @ uri_encode i) (Some data)"

definition delete_subscription_call :: "string \<Rightarrow> string \<Rightarrow> api_call" where
  "delete_subscription_call i token = authed token ''DELETE'' (''/subscriptions/'' @ i) None"

definition test_subscription_call :: "string \<Rightarrow> string \<Rightarrow> api_call" where
  "test_subscription_call i token = authed token ''POST'' (''/subscriptions/'' @ uri_encode i @ ''/test'') None"

text \<open>\<open>if (v) params.set(k, v)\<close> on fresh parameters.\<close>

definition text_pair :: "string \<Rightarrow> string option \<Rightarrow> url_params" where
  "text_pair k v = (if truthy v then [(k, the_or [] v)] else [])"

definition int_pair :: "string \<Rightarrow> int option \<Rightarrow> url_params" where
  "int_pair k v = (case v of None \<Rightarrow> [] | Some n \<Rightarrow> if n = 0 then [] else [(k, int_str n)])"

record issues_options =
  io_query :: "string option"
  io_status :: "string option"
  io_service :: "string option"
  io_level :: "string option"
  io_sort :: "string option"
  io_direction :: "string option"
  io_limit :: "int option"
  io_offset :: "int option"

definition issues_call :: "string \<Rightarrow> string \<Rightarrow> issues_options \<Rightarrow> api_call" where
  "issues_call team token o' = authed_get token (''/issues?'' @ params_text
     ([(''teamId'', team)] @ text_pair ''query'' (io_query o') @ text_pair ''status'' (io_status o')
      @ text_pair ''service'' (io_service o') @ text_pair ''level'' (io_level o')
      @ text_pair ''sortBy'' (io_sort o') @ text_pair ''sortDirection'' (io_direction o')
      @ int_pair ''limit'' (io_limit o') @ int_pair ''offset'' (io_offset o')))"

definition registration_settings_call :: api_call where
  "registration_settings_call = \<lparr>ac_method = ''GET'', ac_path = ''/auth/settings'', ac_auth = None, ac_body = None\<rparr>"

definition admin_users_call :: "string \<Rightarrow> api_call" where
  "admin_users_call token = authed_get token ''/admin/users''"

definition admin_teams_call :: "string \<Rightarrow> api_call" where
  "admin_teams_call token = authed_get token ''/admin/teams''"

definition approve_user_call :: "string \<Rightarrow> string \<Rightarrow> api_call" where
  "approve_user_call u token = authed token ''POST'' (''/admin/users/'' @ u @ ''/approve'') None"

definition add_to_team_call :: "string \<Rightarrow> string \<Rightarrow> json \<Rightarrow> api_call" where
  "add_to_team_call u token data = authed token ''POST'' (''/admin/users/'' @ u @ ''/add-to-team'') (Some data)"

definition remove_from_team_call :: "string \<Rightarrow> string \<Rightarrow> string \<Rightarrow> api_call" where
  "remove_from_team_call u team token =
     authed token ''DELETE'' (''/admin/users/'' @ u @ ''/remove-from-team/'' @ team) None"

text \<open>The live stream: an \<open>EventSource\<close> sends no headers, so the token is a parameter.\<close>

record stream_filters_options =
  sfo_source :: "string option"
  sfo_service :: "string option"
  sfo_host :: "string option"
  sfo_level :: "string option"
  sfo_query :: "string option"

definition stream_params :: "string \<Rightarrow> string \<Rightarrow> stream_filters_options \<Rightarrow> url_params" where
  "stream_params team token f =
     [(''teamId'', team), (''token'', token)] @ text_pair ''sourceId'' (sfo_source f)
     @ text_pair ''service'' (sfo_service f) @ text_pair ''host'' (sfo_host f)
     @ text_pair ''level'' (sfo_level f) @ text_pair ''query'' (sfo_query f)"

definition stream_url :: "string \<Rightarrow> string \<Rightarrow> string \<Rightarrow> stream_filters_options \<Rightarrow> string" where
  "stream_url base team token f = base @ ''/stream/logs?'' @ params_text (stream_params team token f)"

section \<open>The requests of the search screen\<close>

definition context_hints :: "search_state \<Rightarrow> json" where
  "context_hints st = JObj
     [(''currentTimeRange'', JObj [(''startTime'', JStr (fst (se_range st))), (''endTime'', JStr (snd (se_range st)))]),
      (''currentFilters'', JObj
         ((if se_level st \<noteq> [] then [(''level'', JStr (se_level st))] else [])
          @ (if se_service st \<noteq> [] then [(''service'', JStr (se_service st))] else [])
          @ (if se_host st \<noteq> [] then [(''host'', JStr (se_host st))] else []))),
      (''currentRelativeDuration'', JStr (se_duration st))]"

definition screen_options :: "search_state \<Rightarrow> logs_options" where
  "screen_options st =
     \<lparr>lo_source = some_text (se_source st), lo_start = Some (fst (se_range st)), lo_end = Some (snd (se_range st)),
      lo_query = some_text (se_query st), lo_filters = Some (search_filters st), lo_sort = Some (se_sort st),
      lo_direction = Some (se_direction st), lo_limit = Some (se_size st), lo_offset = Some (search_offset st),
      lo_token = some_text (se_token st),
      lo_context = (if se_query st \<noteq> [] then Some (context_hints st) else None)\<rparr>"

definition facet_fields :: "string list" where
  "facet_fields = [''service'', ''level'', ''host'', ''sourceId'', ''env'', ''region'', ''status_code'', ''route'']"

text \<open>\<open>loadResults\<close>: the explanation of a query, then logs, facets, histogram and patterns.\<close>

definition screen_calls :: "string \<Rightarrow> string \<Rightarrow> search_state \<Rightarrow> api_call list" where
  "screen_calls team token st =
     (let o' = screen_options st in
      (if se_query st \<noteq> [] then [explanation_call team (se_query st) token] else [])
      @ [get_logs_call team token o', facets_call team token (o'\<lparr>lo_limit := Some 10\<rparr>) (Some facet_fields),
         histogram_call team token o' (Some ''5m''),
         patterns_call team token (o'\<lparr>lo_limit := Some 50\<rparr>) (Some ''service_level'')])"

section \<open>A job is waited for, but not for ever\<close>

definition settled_reply :: "string + json option \<Rightarrow> bool" where
  "settled_reply r =
     (case r of
        Inr (Some s) \<Rightarrow> field ''status'' s = Some (JStr ''completed'') \<or> field ''status'' s = Some (JStr ''failed'')
      | _ \<Rightarrow> True)"

definition job_outcome :: "string + json option \<Rightarrow> string + json option" where
  "job_outcome r =
     (case r of
        Inl e \<Rightarrow> Inl e
      | Inr None \<Rightarrow> Inl ''Cannot read properties of undefined (reading 'status')''
      | Inr (Some s) \<Rightarrow>
          if field ''status'' s = Some (JStr ''completed'') then Inr (field ''data'' s)
          else Inl (the_or ''Async query failed'' (str_of (field ''error'' s))))"

lemma wait_finds_settled:
  "wait_from reply n i =
    (case List.find (\<lambda>j. settled_reply (reply j)) [i..<i + n] of
       None \<Rightarrow> (Inl ''Async query timed out'', n, poll_delay * int n)
     | Some j \<Rightarrow> (job_outcome (reply j), j - i + 1, poll_delay * int (j - i)))"
proof (induction n arbitrary: i)
  case (Suc n)
  have range: "[i..<i + Suc n] = i # [Suc i..<Suc i + n]" by (simp add: upt_conv_Cons)
  show ?case
  proof (cases "settled_reply (reply i)")
    case True
    then show ?thesis unfolding range
      by (auto simp: settled_reply_def job_outcome_def split: sum.splits option.splits)
  next
    case False
    then obtain s where s: "reply i = Inr (Some s)" "field ''status'' s \<noteq> Some (JStr ''completed'')"
      "field ''status'' s \<noteq> Some (JStr ''failed'')"
      by (auto simp: settled_reply_def split: sum.splits option.splits)
    show ?thesis
    proof (cases "List.find (\<lambda>j. settled_reply (reply j)) [Suc i..<Suc i + n]")
      case None
      then show ?thesis unfolding range using s False Suc.IH [of "Suc i"] by (simp add: algebra_simps)
    next
      case (Some j)
      then have "Suc i \<le> j" by (auto dest!: find_SomeD)
      then have "j - i = Suc (j - Suc i)" by linarith
      then show ?thesis unfolding range using s False Some Suc.IH [of "Suc i"] by (simp add: algebra_simps)
    qed
  qed
qed simp

text \<open>the client waits for a job as long as it can take and no longer. It polls until the first
  answer that is not pending and then ends with it: the data of a completed job, the error of a
  failed one, what the request threw; the \<open>k\<close>-th poll comes after \<open>k\<close> pauses of 250 ms. After twenty
  pending answers and five seconds of pauses it gives up with an error.\<close>

theorem polling_ends_with_first_settled_answer:
  "wait_for_async_job nets request_id token =
    (case List.find (\<lambda>k. settled_reply (api_request (nets k) (job_call request_id token))) [0..<20] of
       None \<Rightarrow> (Inl ''Async query timed out'', 20, 5000)
     | Some k \<Rightarrow> (job_outcome (api_request (nets k) (job_call request_id token)), k + 1, 250 * int k))"
  unfolding wait_for_async_job_def wait_finds_settled poll_attempts_def poll_delay_def
  by (simp split: option.splits)

section \<open>Who a request acts for\<close>

lemma bearer_token:
  assumes "token \<noteq> []" and "\<not> is_space (hd token)"
  shows "parse_token (Some (''Bearer '' @ token)) = Some token"
proof -
  have cls: "leads (Cls (\<lambda>x. lower_char x = c)) (b, x # r, []) (x # b, r, [])" if "lower_char x = c" for c x b r
    using that by (intro leads_Cls) simp
  have low: "lower_char CHR ''B'' = CHR ''b''" "lower_char CHR ''e'' = CHR ''e''" "lower_char CHR ''a'' = CHR ''a''"
    "lower_char CHR ''r'' = CHR ''r''"
    by code_simp+
  have stop: "stops is_space token" using assms by (cases token) (auto simp: stops_def)
  have sp: "leads (plus space) (b, '' '' @ token, []) (rev '' '' @ b, token, [])" for b
    unfolding space_def by (rule leads_plus_run) (use stop in \<open>auto simp: is_space_def code_def\<close>)
  have "leads bearer_re ([], ''Bearer '' @ token, []) (rev ''Bearer '', token, [])"
    unfolding bearer_re_def
    by (simp, rule leads_Seq [OF leads_Bol], (rule leads_Seq [OF cls], rule low)+) (use sp [of "rev ''Bearer''"] in simp)
  from exec_leads [OF this] show ?thesis by (simp add: parse_token_def)
qed

text \<open>a request of the client acts for the session of its token. Whatever the method, path and body,
  when the backend receives the client's header it resolves the caller to the user of exactly that
  token's unexpired session, and refuses the request when there is none.\<close>

theorem client_request_acts_for_its_session:
  assumes "tok \<noteq> []" and "\<not> is_space (hd tok)" and "hr_auth q = ac_auth (authed tok verb path body)"
  shows "require_auth t d q = (case session_user t tok d of None \<Rightarrow> Inl unauthorized | Some u \<Rightarrow> Inr u)"
  using assms(3) by (simp add: require_auth_def resolve_user_id_def authed_def bearer_token [OF assms(1,2), simplified])

theorem client_request_acts_for_its_session_witness:
  "require_auth 0 (empty_db\<lparr>db_sessions := [\<lparr>s_user = ''u1'', s_token = ''tok'', s_expires = 10\<rparr>]\<rparr>)
     \<lparr>hr_auth = ac_auth (teams_call ''tok''), hr_api_key = None, hr_params = (\<lambda>_. []), hr_query = (\<lambda>_. None),
      hr_body = None, hr_ip = None\<rparr> = (Inr ''u1'' :: unit reply + ident)"
proof -
  have "\<not> is_space (hd ''tok'')" by code_simp
  then show ?thesis
    by (subst client_request_acts_for_its_session [where tok = "''tok''" and verb = "ac_method (teams_call ''tok'')"
        and path = "ac_path (teams_call ''tok'')" and body = "ac_body (teams_call ''tok'')"])
      (simp_all add: teams_call_def authed_get_def authed_def session_user_def session_by_token_def)
qed

end
