(* ===== verification/ApiContract.thy ===== *)
theory ApiContract imports ApiClient LogRoutes begin

text \<open>
  The frontend's API client against the backend's routes: how an answer of a route looks on the wire,
  which message the client shows for a refusal, and that a job the backend settles reaches the
  client that polls for it. How the payload of a job is printed as JSON is an argument.
\<close>

section \<open>Answers on the wire\<close>

fun wire_body :: "('b \<Rightarrow> json) \<Rightarrow> 'b body \<Rightarrow> string + json" where
  "wire_body enc (ErrorMsg s) = Inr (JObj [(''error'', JStr s)])"
| "wire_body enc (RetryMsg s n) = Inr (JObj [(''error'', JStr s), (''retryAfter'', JNum (Fin (of_int n)))])"
| "wire_body enc (FlatError j) = Inr (JObj [(''error'', j)])"
| "wire_body enc (Payload b) = Inr (enc b)"
| "wire_body enc NoBody = Inl ''Unexpected end of JSON input''"

definition wire_response :: "('b \<Rightarrow> json) \<Rightarrow> 'b reply \<Rightarrow> api_response" where
  "wire_response enc r = \<lparr>fr_status = re_status r, fr_body = wire_body enc (re_body r)\<rparr>"

fun status_text :: "job_status \<Rightarrow> string" where
  "status_text JobPending = ''pending''"
| "status_text JobCompleted = ''completed''"
| "status_text JobFailed = ''failed''"

text \<open>\<open>res.json({ requestId, status, data, error })\<close>; \<open>other\<close> prints the other payloads.\<close>

definition log_json :: "(job_data \<Rightarrow> json) \<Rightarrow> (log_payload \<Rightarrow> json) \<Rightarrow> log_payload \<Rightarrow> json" where
  "log_json enc other p =
     (case p of
        JobBody i s x e \<Rightarrow> json_body
          [(''requestId'', Some (JStr i)), (''status'', Some (JStr (status_text s))), (''data'', map_option enc x),
           (''error'', text_json e)]
      | JobStarted i \<Rightarrow> JObj [(''requestId'', JStr i), (''status'', JStr ''pending'')]
      | _ \<Rightarrow> other p)"

section \<open>Refusals\<close>

definition success :: "nat \<Rightarrow> bool" where
  "success st \<longleftrightarrow> 200 \<le> st \<and> st < 300"

lemma refused_detail:
  "\<not> success (re_status r) \<Longrightarrow> api_request (\<lambda>_. Inr (wire_response enc r)) c = Inl (error_detail (wire_response enc r))"
  by (simp add: api_request_def wire_response_def success_def)

lemma flat_detail:
  "error_detail \<lparr>fr_status = st, fr_body = Inr (JObj [(''error'', JObj kvs)])\<rparr>
     = describe_validation_error (JObj kvs) (''API request failed: '' @ nat_str st)"
  by (simp add: error_detail_def field_def json_object_def Let_def)

text \<open>the client shows what the backend said. When a route refuses with a message (with or without a
  retry time), the client throws exactly that message; when it refuses a body as invalid, the client
  throws the description of the flattened error; a refusal without a body is reported by its status.\<close>

theorem client_shows_the_servers_error:
  assumes "\<not> success (re_status r)"
  shows "api_request (\<lambda>_. Inr (wire_response enc r)) c =
    (case re_body r of
       ErrorMsg s \<Rightarrow> Inl s
     | RetryMsg s n \<Rightarrow> Inl s
     | FlatError (JObj kvs) \<Rightarrow>
         Inl (describe_validation_error (JObj kvs) (''API request failed: '' @ nat_str (re_status r)))
     | NoBody \<Rightarrow> Inl (''API request failed: '' @ nat_str (re_status r))
     | _ \<Rightarrow> api_request (\<lambda>_. Inr (wire_response enc r)) c)"
proof (cases "re_body r")
  case (FlatError j)
  then show ?thesis using flat_detail
    by (cases j) (simp_all add: refused_detail [OF assms], simp add: wire_response_def)
qed (simp_all add: refused_detail [OF assms], simp_all add: error_detail_def wire_response_def field_def Let_def)

theorem client_shows_the_servers_error_witness:
  "api_request (\<lambda>_. Inr (wire_response (\<lambda>_. JNull) (refuse 404 ''Source not found'' :: unit reply))) (teams_call ''t'')
     = Inl ''Source not found''"
  using client_shows_the_servers_error [of "refuse 404 ''Source not found'' :: unit reply" "\<lambda>_. JNull" "teams_call ''t''"]
  by (simp add: success_def refuse_def answer_def)

section \<open>A job reaches the client\<close>

text \<open>One poll: the backend's environment, database and state when it arrives.\<close>

record server_moment =
  sv_env :: log_env
  sv_req :: http_req
  sv_db :: db
  sv_state :: log_state

definition serves_poll :: "ident \<Rightarrow> string \<Rightarrow> ident \<Rightarrow> ident \<Rightarrow> server_moment \<Rightarrow> bool" where
  "serves_poll i tok u team m \<longleftrightarrow>
     hr_auth (sv_req m) = ac_auth (job_call i tok) \<and> hr_params (sv_req m) ''id'' = i
     \<and> session_user (lg_now (sv_env m)) tok (sv_db m) = Some u \<and> resolve_team_role u team (sv_db m) \<noteq> None"

definition job_at :: "ident \<Rightarrow> server_moment \<Rightarrow> job_data job option" where
  "job_at i m = fst (get_async_job (lg_now (sv_env m)) i (lt_jobs (sv_state m)))"

definition poll_answer ::
  "(job_data \<Rightarrow> json) \<Rightarrow> (log_payload \<Rightarrow> json) \<Rightarrow> server_moment \<Rightarrow> api_call \<Rightarrow> string + api_response" where
  "poll_answer enc other m c =
     Inr (wire_response (log_json enc other) (fst (serve_log (sv_env m) GetJob (sv_req m) (sv_db m) (sv_state m))))"

lemma served_job:
  assumes "serves_poll i tok u team m" and "tok \<noteq> []" "\<not> is_space (hd tok)"
    and "job_at i m = Some j" and "jb_team j = team"
  shows "fst (serve_log (sv_env m) GetJob (sv_req m) (sv_db m) (sv_state m))
    = done_with 200 (JobBody (jb_id j) (jb_status j) (jb_data j) (jb_error j))"
proof -
  have "parse_token (hr_auth (sv_req m)) = Some tok"
    using assms(1) bearer_token [OF assms(2,3)] by (simp add: serves_poll_def job_call_def authed_get_def authed_def)
  then have "require_auth (lg_now (sv_env m)) (sv_db m) (sv_req m) = (Inr u :: log_reply + ident)"
    using assms(1) by (simp add: require_auth_def resolve_user_id_def serves_poll_def)
  moreover obtain role where "resolve_team_role u team (sv_db m) = Some role" using assms(1) by (auto simp: serves_poll_def)
  moreover obtain js where "get_async_job (lg_now (sv_env m)) i (lt_jobs (sv_state m)) = (Some j, js)"
    using assms(4) unfolding job_at_def by (metis prod.collapse)
  ultimately show ?thesis
    using assms(1,5) by (simp add: serve_log_def get_job_def for_member_def require_team_role_def serves_poll_def)
qed

lemma polled_fields:
  assumes "serves_poll i tok u team m" and "tok \<noteq> []" "\<not> is_space (hd tok)"
    and "job_at i m = Some j" and "jb_team j = team"
  shows "\<exists>v. api_request (poll_answer enc other m) c = Inr (Some v) \<and> field ''status'' v = Some (JStr (status_text (jb_status j)))
    \<and> field ''data'' v = map_option enc (jb_data j) \<and> str_of (field ''error'' v) = jb_error j"
proof -
  have "api_request (poll_answer enc other m) c =
      Inr (Some (log_json enc other (JobBody (jb_id j) (jb_status j) (jb_data j) (jb_error j))))"
    by (simp add: api_request_def poll_answer_def served_job [OF assms] wire_response_def done_with_def answer_def)
  then show ?thesis
    by (cases "jb_data j"; cases "jb_error j")
      (simp_all add: log_json_def json_body_def field_def text_json_def List.map_filter_simps)
qed

lemma find_skips: "\<forall>x \<in> set xs. \<not> P x \<Longrightarrow> List.find P (xs @ ys) = List.find P ys"
  by (induction xs) simp_all

text \<open>C12: an asynchronous query ends at the client as it ended at the backend. A client with a live session
  of a member polls the job route; as long as the backend finds the job pending it polls again, and
  at the first poll (among its twenty) at which the backend finds it completed the client returns
  the job's data, after one request more than there were pending answers; a failed job becomes its
  error.\<close>

theorem job_result_reaches_the_client:
  assumes "tok \<noteq> []" and "\<not> is_space (hd tok)" and "k < 20"
    and "\<forall>n \<le> k. serves_poll i tok u team (at_poll n)"
    and "\<forall>n < k. \<exists>j. job_at i (at_poll n) = Some j \<and> jb_team j = team \<and> jb_status j = JobPending"
    and "job_at i (at_poll k) = Some j" and "jb_team j = team" and "jb_status j \<noteq> JobPending"
  shows "wait_for_async_job (\<lambda>n. poll_answer enc other (at_poll n)) i tok =
    (if jb_status j = JobCompleted then Inr (map_option enc (jb_data j))
     else Inl (the_or ''Async query failed'' (jb_error j)), k + 1, 250 * int k)"
proof -
  let ?R = "\<lambda>n. api_request (poll_answer enc other (at_poll n)) (job_call i tok)"
  have pending: "\<not> settled_reply (?R n)" if n: "n < k" for n
  proof -
    from assms(5) n obtain jn where jn: "job_at i (at_poll n) = Some jn" "jb_team jn = team" "jb_status jn = JobPending"
      by blast
    have "serves_poll i tok u team (at_poll n)" using assms(4) n by simp
    from polled_fields [OF this assms(1,2) jn(1,2), of enc other "job_call i tok"] jn(3)
    show ?thesis by (auto simp: settled_reply_def)
  qed
  have "serves_poll i tok u team (at_poll k)" using assms(4) by simp
  from polled_fields [OF this assms(1,2,6,7), of enc other "job_call i tok"]
  obtain v where v: "?R k = Inr (Some v)" "field ''status'' v = Some (JStr (status_text (jb_status j)))"
    "field ''data'' v = map_option enc (jb_data j)" "str_of (field ''error'' v) = jb_error j" by blast
  have settled: "settled_reply (?R k)" using v assms(8) by (cases "jb_status j") (simp_all add: settled_reply_def)
  have "[0..<20] = [0..<k] @ k # [Suc k..<20]"
    using assms(3) by (metis le_add1 less_imp_le upt_add_eq_append upt_conv_Cons le_add_diff_inverse add_0 plus_nat.add_0)
  moreover have "\<forall>n \<in> set [0..<k]. \<not> settled_reply (?R n)" using pending by simp
  note find_skips [OF this]
  ultimately have "List.find (\<lambda>n. settled_reply (?R n)) [0..<0 + poll_attempts] = Some k"
    using settled by (simp add: poll_attempts_def)
  then show ?thesis unfolding wait_for_async_job_def wait_finds_settled
    using v assms(8) by (cases "jb_status j") (simp_all add: job_outcome_def poll_delay_def)
qed

text \<open>A job found pending at the first poll and completed at the second.\<close>

definition sample_job :: "job_status \<Rightarrow> job_data job" where
  "sample_job st = \<lparr>jb_id = ''j1'', jb_team = ''t1'', jb_status = st, jb_created = 0, jb_data = None, jb_error = None\<rparr>"

definition sample_poll :: "nat \<Rightarrow> server_moment" where
  "sample_poll n = \<lparr>sv_env = sample_log_env,
     sv_req = (call_as ''tok'' ''j1'')\<lparr>hr_auth := ac_auth (job_call ''j1'' ''tok'')\<rparr>, sv_db = two_teams,
     sv_state = idle_log_state\<lparr>lt_jobs := [(''j1'', sample_job (if n = 0 then JobPending else JobCompleted))]\<rparr>\<rparr>"

lemma sample_poll_served: "serves_poll ''j1'' ''tok'' ''u1'' ''t1'' (sample_poll n)"
  by (simp add: serves_poll_def sample_poll_def call_as_def two_teams_def session_user_def session_by_token_def
      resolve_team_role_def membership_def sample_log_env_def)

lemma sample_poll_job:
  "job_at ''j1'' (sample_poll n) = Some (sample_job (if n = 0 then JobPending else JobCompleted))"
  by (simp add: job_at_def sample_poll_def get_async_job_def cleanup_async_jobs_def async_ttl_ms_def Let_def
      sample_log_env_def sample_job_def)

theorem job_result_reaches_the_client_witness:
  "wait_for_async_job (\<lambda>n. poll_answer (\<lambda>_. JNull) (\<lambda>_. JNull) (sample_poll n)) ''j1'' ''tok'' = (Inr None, 2, 250)"
proof -
  have "\<not> is_space (hd ''tok'')" by code_simp
  then show ?thesis
    using job_result_reaches_the_client [where i = "''j1''" and tok = "''tok''" and k = 1 and u = "''u1''" and team = "''t1''"
        and at_poll = sample_poll and j = "sample_job JobCompleted" and enc = "\<lambda>_. JNull" and other = "\<lambda>_. JNull"]
      sample_poll_served sample_poll_job
    by (simp add: sample_job_def)
qed

end
