(* ===== verification/RequestContract.thy ===== *)
theory RequestContract imports RouteSchemas ApiContract begin

text \<open>
  The requests of the frontend against the request schemas of the backend: the searches of the search
  page and the definitions it saves as views are what the schemas accept, and the schemas hand on
  exactly what the page meant.
\<close>

section \<open>Reading back a JSON body\<close>

lemma map_filter_absent: "k \<notin> fst ` set kvs \<Longrightarrow>
    map_of (rev (List.map_filter (\<lambda>(k, v). map_option (\<lambda>x. (k, x)) v) kvs)) k = None"
  by (force simp: map_of_eq_None_iff List.map_filter_def split: option.splits)

lemma field_json_body:
  assumes "distinct (map fst kvs)"
  shows "field k (json_body kvs) = Option.bind (map_of kvs k) id"
  using assms
proof (induction kvs)
  case (Cons kv kvs)
  then show ?case
    by (cases kv; cases "snd kv")
      (auto simp: field_def json_body_def List.map_filter_simps map_add_def map_filter_absent split: option.splits)
qed (simp add: field_def json_body_def List.map_filter_simps)

lemma body_is_object: "\<exists>kvs'. json_body kvs = JObj kvs'"
  by (simp add: json_body_def)

lemma body_object_case: "(case json_body kvs of JObj x \<Rightarrow> f (JObj x) | _ \<Rightarrow> z) = f (json_body kvs)"
  by (simp add: json_body_def)

lemma schema_on_body:
  "object_body err f (Some (json_body kvs)) = (case f (json_body kvs) of None \<Rightarrow> Inl err | Some x \<Rightarrow> Inr x)"
  by (simp add: object_body_def json_body_def)

lemma integer_of_int: "integer_of (Fin (of_int n)) = Some n"
  by (simp add: integer_of_def)

lemmas body_schemas = required_key_def optional_key_def default_key_def refine_def min_text_def string_schema_def
  enum_schema_def int_in_def int_from_def int_schema_def integer_of_int bool_schema_def

section \<open>A search\<close>

text \<open>What the state of the page must be for its request to be well formed: the two parts the hook casts
  instead of checking (sorting) and the two it passes on as typed (the range).\<close>

definition searchable :: "search_state \<Rightarrow> bool" where
  "searchable st \<longleftrightarrow> state_typed st \<and> se_sort st \<in> fst ` set sort_columns \<and> se_direction st \<in> fst ` set directions
     \<and> test date_time_regex (fst (se_range st)) \<and> test date_time_regex (snd (se_range st))"

definition screen_scope :: "string \<Rightarrow> search_state \<Rightarrow> log_scope" where
  "screen_scope team st =
     \<lparr>lq_team = team, lq_source = some_text (se_source st), lq_start = Some (fst (se_range st)),
      lq_end = Some (snd (se_range st)), lq_query = some_text (se_query st),
      lq_type = (if se_query st = [] then Sql else Natural), lq_filters = Some (search_filters st)\<rparr>"

text \<open>The query of the page itself. A natural query leaves range and filters to the translation; its range is
  the one \<open>withDefaultSearchRange\<close> fills in at the time \<open>t\<close> of the request.\<close>

definition screen_query :: "js_lib \<Rightarrow> millis \<Rightarrow> string \<Rightarrow> search_state \<Rightarrow> log_query" where
  "screen_query L t team st =
     (let natural = (se_query st \<noteq> []) in
      \<lparr>lq_team = team, lq_source = some_text (se_source st),
       lq_start = Some (if natural then date_iso L (t - default_search_lookback_ms) else fst (se_range st)),
       lq_end = Some (if natural then date_iso L t else snd (se_range st)), lq_query = some_text (se_query st),
       lq_type = (if natural then Natural else Sql), lq_filters = (if natural then None else Some (search_filters st)),
       lq_sort = map_of sort_columns (se_sort st), lq_ascending = map_of directions (se_direction st),
       lq_limit = Some (se_size st), lq_offset = Some (search_offset st), lq_token = some_text (se_token st),
       lq_context = None\<rparr>)"

lemma regex_nonempty: "test date_time_regex s \<Longrightarrow> s \<noteq> []"
  by (auto simp: date_time_regex_iff utc_text_def)

lemma filter_schema_json:
  assumes "f_value f = VStr s"
  shows "log_filter_schema (JObj [(''field'', JStr (f_field f)), (''operator'', JStr (op_str (f_op f))),
     (''value'', value_json (f_value f))]) = Some f"
  by (cases f; cases "f_op f")
    (use assms in \<open>simp_all add: log_filter_schema_def body_schemas field_def filter_ops_def filter_value_schema_def\<close>)

lemma screen_filters_text: "f \<in> set (search_filters st) \<Longrightarrow> \<exists>s. f_value f = VStr s"
  by (auto simp: search_filters_def form_filters_def text_filter_def split: if_splits)

lemma filters_accepted:
  "array_schema log_filter_schema (the (filters_json (Some (search_filters st)))) = Some (search_filters st)"
proof -
  have "all_items log_filter_schema (map (\<lambda>f. JObj [(''field'', JStr (f_field f)), (''operator'', JStr (op_str (f_op f))),
      (''value'', value_json (f_value f))]) (search_filters st)) = Some (map id (search_filters st))"
    by (rule all_items_map) (use screen_filters_text filter_schema_json in fastforce)
  then show ?thesis by (simp add: array_schema_def filters_json_def)
qed

lemma text_key: "optional_key string_schema k v = Some x \<longleftrightarrow> field k v = None \<and> x = None
    \<or> (\<exists>s. field k v = Some (JStr s) \<and> x = Some s)"
  by (auto simp: optional_key_def string_schema_def split: option.splits json.splits)

lemma some_text_key: "field k v = text_json (some_text s) \<Longrightarrow> optional_key string_schema k v = Some (some_text s)"
  by (simp add: text_key text_json_def some_text_def)

lemma time_key: "field k v = Some (JStr s) \<Longrightarrow> test date_time_regex s \<Longrightarrow>
    optional_key date_time_schema k v = Some (Some s)"
  by (simp add: optional_key_def date_time_schema_def)

lemma team_key: "field ''teamId'' v = Some (JStr team) \<Longrightarrow> team \<noteq> [] \<Longrightarrow> RouteSchemas.team_id v = Some team"
  by (cases team) (simp_all add: team_id_def body_schemas)

lemma scope_accepted:
  assumes "field ''teamId'' v = Some (JStr team)" "team \<noteq> []"
    and "field ''sourceId'' v = text_json (some_text source)"
    and "field ''startTime'' v = Some (JStr start)" "test date_time_regex start"
    and "field ''endTime'' v = Some (JStr stop)" "test date_time_regex stop"
    and "field ''query'' v = text_json (some_text q)"
    and "field ''queryType'' v = Some (JStr (if natural then ''natural'' else ''sql''))"
    and "optional_key (array_schema log_filter_schema) ''filters'' v = Some filters"
    and "field ''pageToken'' v = text_json (some_text tok)"
  shows "search_scope_schema v = Some
    (\<lparr>lq_team = team, lq_source = some_text source, lq_start = Some start, lq_end = Some stop, lq_query = some_text q,
      lq_type = (if natural then Natural else Sql), lq_filters = filters\<rparr>, some_text tok)"
  using assms(9)
  by (simp add: search_scope_schema_def team_key [OF assms(1,2)] some_text_key [OF assms(3)]
      time_key [OF assms(4,5)] time_key [OF assms(6,7)] some_text_key [OF assms(8)] assms(10)
      some_text_key [OF assms(11)] default_key_def enum_schema_def)

lemma filters_key:
  "field ''filters'' v = filters_json (Some (search_filters st)) \<Longrightarrow>
   optional_key (array_schema log_filter_schema) ''filters'' v = Some (Some (search_filters st))"
  using filters_accepted [of st] by (simp add: optional_key_def filters_json_def)

lemma no_some_text: "None = text_json (some_text [])"
  by (simp add: text_json_def some_text_def)

text \<open>A body with both times is not touched by \<open>withDefaultSearchRange\<close>.\<close>

lemma range_kept:
  assumes "field ''startTime'' v = Some (JStr a)" "a \<noteq> []" "field ''endTime'' v = Some (JStr b)" "b \<noteq> []"
  shows "with_default_search_range L t (Some v) = Some v"
  using assms by (simp add: with_default_search_range_def Let_def truthy_json_def)

lemma range_filled:
  assumes "field ''startTime'' (JObj kvs) = None" "field ''endTime'' (JObj kvs) = None"
  shows "with_default_search_range L t (Some (JObj kvs)) =
    Some (JObj (kvs @ [(''startTime'', JStr (date_iso L (t - default_search_lookback_ms))), (''endTime'', JStr (date_iso L t))]))"
  using assms by (simp add: with_default_search_range_def is_object_def Let_def truthy_json_def own_fields_def string_or_def)

text \<open>What the facet, histogram and pattern requests have in common.\<close>

definition screen_keys :: "string \<Rightarrow> search_state \<Rightarrow> (string \<times> json option) list" where
  "screen_keys team st = scope_body team (screen_options st)"

lemma screen_scope_accepted:
  assumes "searchable st" and "team \<noteq> []"
    and "distinct (map fst extra)" and "list_all (\<lambda>k. k \<in> {''fields'', ''limit'', ''interval'', ''groupBy''}) (map fst extra)"
  shows "search_scope_schema (json_body (screen_keys team st @ extra)) = Some (screen_scope team st, None)"
    and "with_default_search_range L t (Some (json_body (screen_keys team st @ extra)))
      = Some (json_body (screen_keys team st @ extra))"
    and "k \<in> {''fields'', ''limit'', ''interval'', ''groupBy'', ''async''} \<Longrightarrow>
      field k (json_body (screen_keys team st @ extra)) = Option.bind (map_of extra k) id"
proof -
  let ?v = "json_body (screen_keys team st @ extra)"
  have "fst ` set extra \<subseteq> {''fields'', ''limit'', ''interval'', ''groupBy''}" using assms(4) by (auto simp: list_all_iff)
  then have outside: "k \<notin> {''fields'', ''limit'', ''interval'', ''groupBy''} \<Longrightarrow> map_of extra k = None" for k
    unfolding map_of_eq_None_iff by blast
  have keys: "map fst (screen_keys team st)
      = [''teamId'', ''sourceId'', ''startTime'', ''endTime'', ''query'', ''queryType'', ''filters'']"
    by (simp add: screen_keys_def scope_body_def)
  then have "set (map fst (screen_keys team st)) \<inter> fst ` set extra = {}"
    using \<open>fst ` set extra \<subseteq> _\<close> by (auto simp del: set_map)
  then have "distinct (map fst (screen_keys team st @ extra))"
    using keys assms(3) by (simp del: set_map) (metis distinct_append keys list.set_map)
  note f = field_json_body [OF this]
  show "k \<in> {''fields'', ''limit'', ''interval'', ''groupBy'', ''async''} \<Longrightarrow>
      field k ?v = Option.bind (map_of extra k) id"
    unfolding f by (auto simp: screen_keys_def scope_body_def map_add_def split: option.splits)
  have team: "field ''teamId'' ?v = Some (JStr team)"
    and source: "field ''sourceId'' ?v = text_json (some_text (se_source st))"
    and query: "field ''query'' ?v = text_json (some_text (se_query st))"
    and natural: "field ''queryType'' ?v = Some (JStr (if se_query st \<noteq> [] then ''natural'' else ''sql''))"
    and filters: "field ''filters'' ?v = filters_json (Some (search_filters st))"
    and tok: "field ''pageToken'' ?v = text_json (some_text [])"
    unfolding f by (auto simp: outside screen_keys_def scope_body_def screen_options_def map_add_def
        or_undefined_def some_text_def text_json_def filters_json_def truthy_def)
  have range: "test date_time_regex (fst (se_range st))" "test date_time_regex (snd (se_range st))"
    using assms(1) by (simp_all add: searchable_def)
  then have start: "field ''startTime'' ?v = Some (JStr (fst (se_range st)))"
    and stop: "field ''endTime'' ?v = Some (JStr (snd (se_range st)))"
    unfolding f by (auto simp: outside screen_keys_def scope_body_def screen_options_def map_add_def text_json_def
        or_undefined_def truthy_def dest: regex_nonempty)
  show "with_default_search_range L t (Some ?v) = Some ?v"
    by (rule range_kept [OF start _ stop]) (use range regex_nonempty in auto)
  show "search_scope_schema ?v = Some (screen_scope team st, None)"
    using scope_accepted [OF team assms(2) source start range(1) stop range(2) query natural filters_key [OF filters] tok]
    by (simp add: screen_scope_def some_text_def)
qed

lemma searchable_sizes:
  assumes "searchable st"
  shows "1 \<le> se_size st" "se_size st \<le> search_limit_ceiling" "0 \<le> search_offset st"
  using assms by (auto simp: searchable_def state_typed_def allowed_page_sizes_def search_limit_ceiling_def search_offset_def)

lemma enum_key: "field k v = Some (JStr s) \<Longrightarrow> s \<in> fst ` set table \<Longrightarrow>
    \<exists>x. default_key d (enum_schema table) k v = Some x \<and> map_of table s = Some x"
  by (auto simp: default_key_def enum_schema_def dest: weak_map_of_SomeI)

lemma int_key: "field k v = int_json n \<Longrightarrow> P n \<Longrightarrow>
    default_key d (refine P int_schema) k v = Some n"
  by (simp add: default_key_def refine_def int_schema_def int_json_def integer_of_int)

text \<open>The body of the search request.\<close>

definition search_keys :: "string \<Rightarrow> search_state \<Rightarrow> (string \<times> json option) list" where
  "search_keys team st =
    [(''teamId'', Some (JStr team)), (''sourceId'', text_json (or_undefined (some_text (se_source st)))),
     (''startTime'', if se_query st \<noteq> [] then None else text_json (or_undefined (Some (fst (se_range st))))),
     (''endTime'', if se_query st \<noteq> [] then None else text_json (or_undefined (Some (snd (se_range st))))),
     (''query'', text_json (or_undefined (some_text (se_query st)))),
     (''queryType'', Some (JStr (if se_query st \<noteq> [] then ''natural'' else ''sql''))),
     (''filters'', if se_query st \<noteq> [] then None else filters_json (Some (search_filters st))),
     (''context'', if se_query st \<noteq> [] then Some (context_hints st) else None),
     (''sortBy'', Some (JStr (se_sort st))), (''sortDirection'', Some (JStr (se_direction st))),
     (''limit'', int_json (se_size st)), (''offset'', int_json (search_offset st)),
     (''pageToken'', text_json (or_undefined (some_text (se_token st))))]"

lemma search_body: "ac_body (get_logs_call team token' (screen_options st)) = Some (json_body (search_keys team st))"
proof -
  have "truthy (some_text (se_query st)) \<longleftrightarrow> se_query st \<noteq> []" by (simp add: truthy_def some_text_def)
  then show ?thesis by (simp add: get_logs_call_def authed_def screen_options_def Let_def search_keys_def)
qed

lemma search_field: "field k (json_body (search_keys team st)) = Option.bind (map_of (search_keys team st) k) id"
  by (rule field_json_body) (simp add: search_keys_def)

lemma logs_request_accepted:
  assumes "searchable st" and "team \<noteq> []"
    and "test date_time_regex (date_iso L (t - default_search_lookback_ms))" "test date_time_regex (date_iso L t)"
  shows "search_schema err (with_default_search_range L t (ac_body (get_logs_call team token' (screen_options st))))
    = Inr (screen_query L t team st)"
proof -
  define kvs where "kvs = search_keys team st"
  note body = search_body [of team token' st, folded kvs_def] and f0 = search_field [of _ team st, folded kvs_def]
  note kvs_def = kvs_def [unfolded search_keys_def]
  let ?start = "if se_query st \<noteq> [] then date_iso L (t - default_search_lookback_ms) else fst (se_range st)"
  let ?stop = "if se_query st \<noteq> [] then date_iso L t else snd (se_range st)"
  have range: "test date_time_regex (fst (se_range st))" "test date_time_regex (snd (se_range st))"
    using assms(1) by (simp_all add: searchable_def)
  define v where "v = the (with_default_search_range L t (Some (json_body kvs)))"
  have v: "with_default_search_range L t (Some (json_body kvs)) = Some v \<and> (\<exists>o'. v = JObj o')
      \<and> field ''startTime'' v = Some (JStr ?start) \<and> field ''endTime'' v = Some (JStr ?stop)
      \<and> (k \<notin> {''startTime'', ''endTime''} \<longrightarrow> field k v = Option.bind (map_of kvs k) id)" for k
  proof (cases "se_query st = []")
    case True
    then have f: "field ''startTime'' (json_body kvs) = Some (JStr (fst (se_range st)))"
      "field ''endTime'' (json_body kvs) = Some (JStr (snd (se_range st)))"
      unfolding f0 using range by (auto simp: kvs_def text_json_def or_undefined_def truthy_def dest: regex_nonempty)
    have "with_default_search_range L t (Some (json_body kvs)) = Some (json_body kvs)"
      by (rule range_kept [OF f(1) _ f(2)]) (use range regex_nonempty in auto)
    then show ?thesis using True f body_is_object by (simp add: v_def f0)
  next
    case False
    obtain o' where o': "json_body kvs = JObj o'" using body_is_object by blast
    have "field ''startTime'' (JObj o') = None" "field ''endTime'' (JObj o') = None"
      unfolding o' [symmetric] f0 using False by (simp_all add: kvs_def)
    from range_filled [OF this, of L t] have w: "with_default_search_range L t (Some (json_body kvs)) = Some (JObj (o' @
        [(''startTime'', JStr (date_iso L (t - default_search_lookback_ms))), (''endTime'', JStr (date_iso L t))]))"
      by (simp add: o')
    have "map_of (rev o') k = Option.bind (map_of kvs k) id"
      using f0 [of k] by (simp add: o' field_def)
    then show ?thesis using False w by (auto simp: v_def field_def)
  qed
  have vk: "k \<notin> {''startTime'', ''endTime''} \<Longrightarrow> field k v = Option.bind (map_of kvs k) id" for k using v [of k] by blast
  have scope: "search_scope_schema v = Some
     (\<lparr>lq_team = team, lq_source = some_text (se_source st), lq_start = Some ?start, lq_end = Some ?stop,
       lq_query = some_text (se_query st), lq_type = (if se_query st \<noteq> [] then Natural else Sql),
       lq_filters = (if se_query st \<noteq> [] then None else Some (search_filters st))\<rparr>, some_text (se_token st))"
  proof (rule scope_accepted)
    show "optional_key (array_schema log_filter_schema) ''filters'' v
        = Some (if se_query st \<noteq> [] then None else Some (search_filters st))"
      by (cases "se_query st = []") (simp_all add: vk kvs_def filters_key, simp add: optional_key_def vk kvs_def)
  qed (use v range assms in \<open>simp_all add: vk kvs_def or_undefined_def some_text_def truthy_def\<close>)
  have sorting: "se_sort st \<in> fst ` set sort_columns" "se_direction st \<in> fst ` set directions"
    using assms(1) by (simp_all add: searchable_def)
  have "field ''sortBy'' v = Some (JStr (se_sort st))" "field ''sortDirection'' v = Some (JStr (se_direction st))"
    by (simp_all add: vk kvs_def)
  from enum_key [OF this(1) sorting(1), of ByTimestamp] enum_key [OF this(2) sorting(2), of False]
  obtain sort_by dir where sort_by: "default_key ByTimestamp (enum_schema sort_columns) ''sortBy'' v = Some sort_by"
    "map_of sort_columns (se_sort st) = Some sort_by"
    and dir: "default_key False (enum_schema directions) ''sortDirection'' v = Some dir"
    "map_of directions (se_direction st) = Some dir" by blast
  have sizes: "default_key 100 (int_in 1 search_limit_ceiling) ''limit'' v = Some (se_size st)"
    "default_key 0 (int_from 0) ''offset'' v = Some (search_offset st)"
    unfolding int_in_def int_from_def
    by (rule int_key; use searchable_sizes [OF assms(1)] in \<open>simp add: vk kvs_def\<close>)+
  obtain o' where o': "with_default_search_range L t (Some (json_body kvs)) = Some (JObj o')" "v = JObj o'"
    using v by blast
  have "search_schema err (Some v) = Inr (screen_query L t team st)"
    unfolding search_schema_def object_body_def o'(2) option.case json.case
    unfolding o'(2) [symmetric] scope by (simp add: sort_by dir sizes screen_query_def)
  then show ?thesis by (simp only: body o')
qed

lemma limit_ignored: "scope_body team (o'\<lparr>lo_limit := n\<rparr>) = scope_body team o'" for o' :: logs_options
  by (simp add: scope_body_def)

lemma facet_names_accepted:
  "refine (\<lambda>fs. 1 \<le> length fs \<and> length fs \<le> 12) (array_schema (enum_schema facet_names)) (JArr (map JStr facet_fields))
   = Some [FcService, FcLevel, FcHost, FcSourceId, FcEnv, FcRegion, FcStatusCode, FcRoute]"
  by (simp add: facet_fields_def facet_names_def enum_schema_def refine_def array_schema_def)

lemma size_accepted: "1 \<le> n \<Longrightarrow> n \<le> hi \<Longrightarrow> int_in 1 hi (JNum (Fin (of_int n))) = Some n"
  by (simp add: int_in_def refine_def int_schema_def integer_of_int)

lemmas ten_accepted = size_accepted [where n = 10 and hi = 50, simplified]
lemmas fifty_accepted = size_accepted [where n = 50 and hi = 200, simplified]

text \<open>The three scoped requests, each with the keys it adds.\<close>

lemma facets_request_accepted:
  assumes "searchable st" and "team \<noteq> []"
  shows "facets_schema err (with_default_search_range L t
      (ac_body (facets_call team tok ((screen_options st)\<lparr>lo_limit := Some 10\<rparr>) (Some facet_fields))))
    = Inr (log_scope.extend (screen_scope team st) (facet_query.fields
        (Some [FcService, FcLevel, FcHost, FcSourceId, FcEnv, FcRegion, FcStatusCode, FcRoute]) (Some 10)), False)"
proof -
  define extra where "extra = [(''fields'', Some (JArr (map JStr facet_fields))), (''limit'', int_json 10)]"
  have "distinct (map fst extra)" "list_all (\<lambda>k. k \<in> {''fields'', ''limit'', ''interval'', ''groupBy''}) (map fst extra)"
    by (simp_all add: extra_def)
  note ok = screen_scope_accepted [OF assms this, unfolded screen_keys_def]
  have body: "ac_body (facets_call team tok ((screen_options st)\<lparr>lo_limit := Some 10\<rparr>) (Some facet_fields))
      = Some (json_body (scope_body team (screen_options st) @ extra))"
    by (simp add: facets_call_def authed_def limit_ignored extra_def)
  show ?thesis
    unfolding body ok(2) facets_schema_def schema_on_body ok(1) default_key_def log_scope.defs facet_query.defs
    by (simp add: ok(3) del: One_nat_def)
      (simp add: extra_def facet_names_accepted ten_accepted int_json_def del: One_nat_def)
qed

lemma histogram_request_accepted:
  assumes "searchable st" and "team \<noteq> []"
  shows "histogram_schema err (with_default_search_range L t (ac_body (histogram_call team tok (screen_options st) (Some ''5m''))))
    = Inr (log_scope.extend (screen_scope team st) (histogram_query.fields Every5m), False)"
proof -
  define extra where "extra = [(''interval'', Some (JStr ''5m''))]"
  have "distinct (map fst extra)" "list_all (\<lambda>k. k \<in> {''fields'', ''limit'', ''interval'', ''groupBy''}) (map fst extra)"
    by (simp_all add: extra_def)
  note ok = screen_scope_accepted [OF assms this, unfolded screen_keys_def]
  have body: "ac_body (histogram_call team tok (screen_options st) (Some ''5m''))
      = Some (json_body (scope_body team (screen_options st) @ extra))"
    by (simp add: histogram_call_def authed_def extra_def)
  show ?thesis
    unfolding body ok(2) histogram_schema_def schema_on_body ok(1) default_key_def log_scope.defs histogram_query.defs
    by (simp add: ok(3)) (simp add: extra_def intervals_def enum_schema_def)
qed

lemma patterns_request_accepted:
  assumes "searchable st" and "team \<noteq> []"
  shows "patterns_schema err (with_default_search_range L t
      (ac_body (patterns_call team tok ((screen_options st)\<lparr>lo_limit := Some 50\<rparr>) (Some ''service_level''))))
    = Inr (log_scope.extend (screen_scope team st) (patterns_query.fields (Some GroupServiceLevel) (Some 50)), False)"
proof -
  define extra where "extra = [(''groupBy'', Some (JStr ''service_level'')), (''limit'', int_json 50)]"
  have "distinct (map fst extra)" "list_all (\<lambda>k. k \<in> {''fields'', ''limit'', ''interval'', ''groupBy''}) (map fst extra)"
    by (simp_all add: extra_def)
  note ok = screen_scope_accepted [OF assms this, unfolded screen_keys_def]
  have body: "ac_body (patterns_call team tok ((screen_options st)\<lparr>lo_limit := Some 50\<rparr>) (Some ''service_level''))
      = Some (json_body (scope_body team (screen_options st) @ extra))"
    by (simp add: patterns_call_def authed_def limit_ignored extra_def)
  show ?thesis
    unfolding body ok(2) patterns_schema_def schema_on_body ok(1) default_key_def log_scope.defs patterns_query.defs
    by (simp add: ok(3)) (simp add: extra_def groupings_def enum_schema_def fifty_accepted int_json_def)
qed


text \<open>A page with a filter, an exclusion and no query, at its second page.\<close>

definition sample_search :: search_state where
  "sample_search =
     \<lparr>se_query = [], se_mode = RawMode, se_token = [], se_view = [], se_page = 2, se_size = 25, se_level = ''error'',
      se_service = [], se_host = [], se_source = [], se_exclusions = [(''host'', ''a'')], se_facets = [], se_columns = [],
      se_time_mode = Absolute, se_duration = ''1h'', se_refresh = ''off'', se_share = False,
      se_range = (''2026-01-01T09:00Z'', ''2026-01-01T10:00Z''), se_sort = ''level'', se_direction = ''asc''\<rparr>"

definition utc_lib :: js_lib where
  "utc_lib = fixed_lib\<lparr>date_iso := (\<lambda>_. ''2026-01-01T09:00Z'')\<rparr>"

lemma sample_times: "test date_time_regex ''2026-01-01T09:00Z''" "test date_time_regex ''2026-01-01T10:00Z''"
  by code_simp+

lemma sample_searchable: "searchable sample_search"
proof -
  have "trim [] = []" by code_simp
  then show ?thesis
    by (simp add: searchable_def sample_search_def state_typed_def allowed_page_sizes_def chip_ok_def refresh_values_def
        sort_columns_def directions_def sample_times)
qed


section \<open>What is lost on the way\<close>

text \<open>\<open>getLogs\<close> sends the form's state with a natural query, for the translation to use; the schema does not
  declare \<open>context\<close>, so zod drops it and the translation never sees it.\<close>

lemma hints_are_dropped:
  assumes "search_schema err body = Inr q"
  shows "lq_context q = None"
  using assms by (auto simp: search_schema_def object_body_def split: option.splits json.splits bind_splits)

text \<open>The sorting of the URL is cast, not checked: a column the schema does not know fails the whole page.\<close>

lemma unknown_sort_fails_the_page:
  assumes "se_sort st \<notin> fst ` set sort_columns"
  shows "search_schema err (with_default_search_range L t (ac_body (get_logs_call team token' (screen_options st)))) = Inl err"
proof -
  obtain kvs where kvs: "json_body (search_keys team st) = JObj kvs" using body_is_object by blast
  then have "field ''sortBy'' (JObj kvs) = Some (JStr (se_sort st))"
    using search_field [of "''sortBy''" team st] by (simp add: search_keys_def)
  then obtain kvs' where w: "with_default_search_range L t (Some (JObj kvs)) = Some (JObj kvs')"
    "field ''sortBy'' (JObj kvs') = Some (JStr (se_sort st))"
    by (cases "truthy_json (field ''startTime'' (JObj kvs)) \<and> truthy_json (field ''endTime'' (JObj kvs))")
      (simp_all add: with_default_search_range_def is_object_def own_fields_def, simp_all add: field_def)
  have "default_key ByTimestamp (enum_schema sort_columns) ''sortBy'' (JObj kvs') = None"
    using assms by (simp add: default_key_def w(2) enum_schema_def map_of_eq_None_iff)
  then show ?thesis
    by (simp add: search_body kvs w search_schema_def object_body_def case_prod_beta)
      (cases "search_scope_schema (JObj kvs')"; simp)
qed

section \<open>A saved view\<close>

fun mode_text :: "search_mode \<Rightarrow> string" where
  "mode_text RawMode = ''raw''"
| "mode_text PatternMode = ''patterns''"

definition chips_json :: "chip list \<Rightarrow> json" where
  "chips_json cs = JArr (map (\<lambda>c. JObj [(''field'', JStr (fst c)), (''value'', JStr (snd c))]) cs)"

text \<open>\<open>JSON.stringify\<close> of a definition, its keys in the order of \<open>currentDefinition\<close>.\<close>

definition definition_json :: "view_definition \<Rightarrow> json" where
  "definition_json d = json_body
     [(''mode'', text_json (map_option mode_text (vd_mode d))), (''startTime'', text_json (vd_start d)),
      (''endTime'', text_json (vd_end d)), (''relativeTime'', text_json (vd_relative d)),
      (''text'', text_json (vd_text d)), (''sourceId'', text_json (vd_source d)),
      (''filters'', filters_json (Some (vd_filters d))),
      (''columns'', map_option (\<lambda>cs. JArr (map JStr cs)) (vd_columns d)), (''sortBy'', text_json (vd_sort d)),
      (''sortDirection'', text_json (vd_direction d)), (''facets'', map_option chips_json (vd_facets d)),
      (''exclusions'', map_option chips_json (vd_exclusions d)), (''pageSize'', Option.bind (vd_size d) int_json)]"

lemma kept_text: "kept k schema JStr v = Some (case x of None \<Rightarrow> [] | Some s \<Rightarrow> [(k, JStr s)])"
  if "field k v = text_json x" "\<And>s. x = Some s \<Longrightarrow> schema (JStr s) = Some s"
  using that by (auto simp: kept_def text_json_def split: option.splits)

lemma filled_value: "field k v = Some x \<Longrightarrow> schema x = Some y \<Longrightarrow> out y = x \<Longrightarrow> filled k d schema out v = Some [(k, x)]"
  by (simp add: filled_def)

lemma chips_schema: "array_schema chip_schema (chips_json cs) = Some (map (\<lambda>c. JObj [(''field'', JStr (fst c)), (''value'', JStr (snd c))]) cs)"
proof -
  have "chip_schema (JObj [(''field'', JStr f), (''value'', JStr x)]) = Some (JObj [(''field'', JStr f), (''value'', JStr x)])" for f x
    by (simp add: chip_schema_def body_schemas field_def)
  then show ?thesis by (simp add: chips_json_def array_schema_def all_items_map)
qed

lemma columns_schema: "array_schema string_schema (JArr (map JStr cs)) = Some cs"
  by (simp add: array_schema_def string_schema_def all_items_map [where h = id, simplified])

lemma form_filter_json: "f \<in> set (form_filters st) \<Longrightarrow>
   filter_json (JObj [(''field'', JStr (f_field f)), (''operator'', JStr (op_str (f_op f))), (''value'', value_json (f_value f))])
   = Some (JObj [(''field'', JStr (f_field f)), (''operator'', JStr (op_str (f_op f))), (''value'', value_json (f_value f))])"
  using screen_filters_text [of f st] filter_schema_json [of f]
  by (auto simp: filter_json_def field_def search_filters_def)

lemma filters_kept:
  "array_schema filter_json (the (filters_json (Some (form_filters st)))) = Some (case the (filters_json (Some (form_filters st))) of JArr vs \<Rightarrow> vs | _ \<Rightarrow> [])"
  by (simp add: filters_json_def array_schema_def all_items_map form_filter_json)

lemma definition_field:
  "field k (definition_json d) = Option.bind (map_of
     [(''mode'', text_json (map_option mode_text (vd_mode d))), (''startTime'', text_json (vd_start d)),
      (''endTime'', text_json (vd_end d)), (''relativeTime'', text_json (vd_relative d)),
      (''text'', text_json (vd_text d)), (''sourceId'', text_json (vd_source d)),
      (''filters'', filters_json (Some (vd_filters d))),
      (''columns'', map_option (\<lambda>cs. JArr (map JStr cs)) (vd_columns d)), (''sortBy'', text_json (vd_sort d)),
      (''sortDirection'', text_json (vd_direction d)), (''facets'', map_option chips_json (vd_facets d)),
      (''exclusions'', map_option chips_json (vd_exclusions d)), (''pageSize'', Option.bind (vd_size d) int_json)] k) id"
  unfolding definition_json_def by (rule field_json_body) simp

lemma definition_accepted:
  assumes "searchable st"
  shows "view_definition_schema (definition_json (current_definition st)) = Some (definition_json (current_definition st))"
proof -
  let ?d = "current_definition st"
  let ?v = "definition_json ?d"
  have known: "se_sort st \<in> fst ` set sort_columns" "se_direction st \<in> fst ` set directions"
    "test date_time_regex (fst (se_range st))" "test date_time_regex (snd (se_range st))"
    "1 \<le> se_size st" "se_size st \<le> 500"
    using assms searchable_sizes(2) [OF assms] searchable_sizes(1) [OF assms]
    by (simp_all add: searchable_def search_limit_ceiling_def)
  have strs: "kept k string_schema JStr ?v = Some (case x of None \<Rightarrow> [] | Some s \<Rightarrow> [(k, JStr s)])"
    if "field k ?v = text_json x" for k x
    by (rule kept_text [OF that]) (simp add: string_schema_def)
  have times: "kept ''startTime'' date_time_schema JStr ?v = Some [(''startTime'', JStr (fst (se_range st)))]"
    "kept ''endTime'' date_time_schema JStr ?v = Some [(''endTime'', JStr (snd (se_range st)))]"
    by (simp_all add: kept_def definition_field current_definition_def text_json_def date_time_schema_def known)
  have mode: "kept ''mode'' (one_of [''raw'', ''patterns'']) JStr ?v = Some [(''mode'', JStr (mode_text (se_mode st)))]"
    by (cases "se_mode st") (simp_all add: kept_def definition_field current_definition_def text_json_def one_of_def
        refine_def string_schema_def)
  have filters: "filled ''filters'' (JArr []) (array_schema filter_json) JArr ?v
      = Some [(''filters'', the (filters_json (Some (form_filters st))))]"
    by (rule filled_value [where y = "case the (filters_json (Some (form_filters st))) of JArr vs \<Rightarrow> vs | _ \<Rightarrow> []"])
      (use filters_kept [of st] in \<open>simp_all add: definition_field current_definition_def filters_json_def\<close>)
  have columns: "filled ''columns'' (JArr []) (array_schema string_schema) (\<lambda>cs. JArr (map JStr cs)) ?v
      = Some [(''columns'', JArr (map JStr (se_columns st)))]"
    by (rule filled_value [where y = "se_columns st"]) (simp_all add: columns_schema definition_field current_definition_def)
  have chips: "filled k (JArr []) (array_schema chip_schema) JArr ?v = Some [(k, chips_json cs)]"
    if "field k ?v = Some (chips_json cs)" for k cs
    using that chips_schema [of cs] by (simp add: filled_def chips_json_def)
  have names: "filled k d (one_of ns) JStr ?v = Some [(k, JStr s)]"
    if "field k ?v = Some (JStr s)" "s \<in> set ns" for k d ns s
    by (rule filled_value [OF that(1)]) (use that(2) in \<open>simp_all add: one_of_def refine_def string_schema_def\<close>)
  have size: "filled ''pageSize'' (JNum (Fin 50)) (int_in 1 500) (\<lambda>n. JNum (Fin (of_int n))) ?v
      = Some [(''pageSize'', JNum (Fin (of_int (se_size st))))]"
    by (rule filled_value [where y = "se_size st"])
      (use known in \<open>simp_all add: definition_field current_definition_def int_json_def int_in_def refine_def
        int_schema_def integer_of_int\<close>)
  obtain kvs where kvs: "?v = JObj kvs" unfolding definition_json_def using body_is_object by blast
  have "view_definition_schema ?v = map_option JObj (joined
      [Some [(''mode'', JStr (mode_text (se_mode st)))],
       Some [(''startTime'', JStr (fst (se_range st)))], Some [(''endTime'', JStr (snd (se_range st)))],
       Some (case vd_relative ?d of None \<Rightarrow> [] | Some s \<Rightarrow> [(''relativeTime'', JStr s)]),
       Some (case vd_text ?d of None \<Rightarrow> [] | Some s \<Rightarrow> [(''text'', JStr s)]),
       Some (case vd_source ?d of None \<Rightarrow> [] | Some s \<Rightarrow> [(''sourceId'', JStr s)]),
       Some [(''filters'', the (filters_json (Some (form_filters st))))],
       Some [(''columns'', JArr (map JStr (se_columns st)))],
       Some [(''sortBy'', JStr (se_sort st))], Some [(''sortDirection'', JStr (se_direction st))],
       Some [(''facets'', chips_json (se_facets st))], Some [(''exclusions'', chips_json (se_exclusions st))],
       Some [(''pageSize'', JNum (Fin (of_int (se_size st))))]])"
    unfolding view_definition_schema_def kvs json.case
    unfolding kvs [symmetric] mode times filters columns size
    using strs [of "''relativeTime''" "vd_relative ?d"] strs [of "''text''" "vd_text ?d"] strs [of "''sourceId''" "vd_source ?d"]
      names [of "''sortBy''" "se_sort st" "map fst sort_columns" "JStr ''timestamp''"]
      names [of "''sortDirection''" "se_direction st" "map fst directions" "JStr ''desc''"]
      chips [of "''facets''" "se_facets st"] chips [of "''exclusions''" "se_exclusions st"] known
    by (simp add: definition_field) (simp add: current_definition_def text_json_def)
  also have "\<dots> = Some ?v"
    by (auto simp: definition_json_def json_body_def List.map_filter_simps current_definition_def text_json_def int_json_def
        filters_json_def split: option.splits)
  finally show ?thesis .
qed

section \<open>Query strings\<close>

text \<open>The query of the request as the route sees it.\<close>

definition query_of :: "url_params \<Rightarrow> string \<Rightarrow> json option" where
  "query_of ps k = text_json (params_get k ps)"

lemma pair_reads:
  "params_get k [] = None"
  "params_get k ((k', v') # ps) = (if k = k' then Some v' else params_get k ps)"
  "params_get k (text_pair k' v @ ps) = (if k = k' \<and> truthy v then v else params_get k ps)"
  "params_get k (int_pair k' (Some n) @ ps) = (if k = k' \<and> n \<noteq> 0 then Some (int_str n) else params_get k ps)"
  "params_get k (int_pair k' (Some n)) = (if k = k' \<and> n \<noteq> 0 then Some (int_str n) else None)"
  by (auto simp: text_pair_def int_pair_def params_get_def truthy_def split: option.splits)

lemma some_text_truthy: "truthy (some_text s) \<longleftrightarrow> s \<noteq> []"
  by (simp add: some_text_def truthy_def)

section \<open>Forms\<close>

lemma trimmed_key: "trim s = s \<Longrightarrow> trimmed lo hi (JStr s) = (if lo \<le> length s \<and> length s \<le> hi then Some s else None)"
  by (simp add: trimmed_def refine_def string_schema_def)

text \<open>What lets a call through to its handler.\<close>

lemma writer_reaches_handler:
  assumes "resolve_user_id (te_now E) q d = Some u" and "resolve_team d q = Inr target"
    and "resolve_team_role u (tg_team target) d = Some role" and "can_write role"
  shows "routed E resolve_team h q d =
    h \<lparr>wc_req = q, wc_user = u, wc_team = tg_team target, wc_role = role, wc_input = tg_input target\<rparr> d"
  using assms
  by (simp add: write_route_def require_auth_def require_team_write_role_def require_team_role_def)

lemma find_stronger: "List.find P xs = Some r \<Longrightarrow> Q r \<Longrightarrow> List.find (\<lambda>x. P x \<and> Q x) xs = Some r"
  by (induction xs) (auto split: if_splits)

lemma caller_with: "resolve_user_id t (q\<lparr>hr_body := b\<rparr>) d = resolve_user_id t q d"
  by (simp add: resolve_user_id_def)

section \<open>Tables in order of time\<close>

lemma insort_key_map: "(\<And>x. k (g x) = k x) \<Longrightarrow> insort_key k (g a) (map g xs) = map g (insort_key k a xs)"
  by (induction xs) auto

lemma sort_key_map: "(\<And>x. k (g x) = k x) \<Longrightarrow> sort_key k (map g xs) = map g (sort_key k xs)"
  by (induction xs) (simp_all add: insort_key_map)

lemma sort_key_newest: "\<forall>x \<in> set xs. k s < k x \<Longrightarrow> sort_key k (xs @ [s]) = s # sort_key k xs"
  by (induction xs) (auto dest: leD)

lemma update_first_keyed:
  assumes "distinct (map k rs)" and "r \<in> set rs" and "P r" and "\<And>x. P x \<Longrightarrow> k x = i"
  shows "update_first P f rs = map (\<lambda>x. if k x = i then f x else x) rs"
  using assms
proof (induction rs)
  case (Cons a rs)
  show ?case
  proof (cases "P a")
    case True
    then have "k a = i" by (rule Cons.prems(4))
    with Cons.prems(1) have "\<forall>x \<in> set rs. k x \<noteq> i" by (auto simp: image_iff)
    then have "map (\<lambda>x. if k x = i then f x else x) rs = rs" by (intro map_idI) simp
    with True \<open>k a = i\<close> show ?thesis by simp
  next
    case False
    then have "r \<in> set rs" using Cons.prems(2,3) by auto
    moreover have "k a \<noteq> i" using Cons.prems(1,3,4) \<open>r \<in> set rs\<close> by (auto simp: image_iff)
    moreover have "update_first P f rs = map (\<lambda>x. if k x = i then f x else x) rs"
      by (rule Cons.IH [OF _ \<open>r \<in> set rs\<close> Cons.prems(3,4)]) (use Cons.prems(1) in simp)
    ultimately show ?thesis using False by simp
  qed
qed simp

lemma delete_first_keyed:
  assumes "distinct (map k rs)" and "r \<in> set rs" and "P r" and "\<And>x. P x \<Longrightarrow> k x = i"
  shows "delete_first P rs = filter (\<lambda>x. k x \<noteq> i) rs"
  using assms
proof (induction rs)
  case (Cons a rs)
  show ?case
  proof (cases "P a")
    case True
    then have "k a = i" by (rule Cons.prems(4))
    with Cons.prems(1) have "\<forall>x \<in> set rs. k x \<noteq> i" by (auto simp: image_iff)
    then have "filter (\<lambda>x. k x \<noteq> i) rs = rs" by (intro filter_True) simp
    with True \<open>k a = i\<close> show ?thesis by simp
  next
    case False
    then have "r \<in> set rs" using Cons.prems(2,3) by auto
    moreover have "k a \<noteq> i" using Cons.prems(1,3,4) \<open>r \<in> set rs\<close> by (auto simp: image_iff)
    moreover have "delete_first P rs = filter (\<lambda>x. k x \<noteq> i) rs"
      by (rule Cons.IH [OF _ \<open>r \<in> set rs\<close> Cons.prems(3,4)]) (use Cons.prems(1) in simp)
    ultimately show ?thesis using False by simp
  qed
qed simp

end
