(* ===== verification/SavedViews.thy ===== *)
theory SavedViews imports RequestContract begin

text \<open>
  A saved view on its whole way: the page posts its definition, the backend validates and stores it, the
  answer and the list of views bring it back, and opening it restores the search.
\<close>

section \<open>Saving\<close>

text \<open>\<open>onSave\<close>: the flags of team-wide state are sent only by those who may set them.\<close>

definition save_view_body :: "string \<Rightarrow> string \<Rightarrow> bool \<Rightarrow> bool \<Rightarrow> bool \<Rightarrow> search_state \<Rightarrow> json" where
  "save_view_body team name manage shared dflt st = JObj
     [(''teamId'', JStr team), (''name'', JStr name), (''isShared'', JBool (manage \<and> shared)),
      (''isDefault'', JBool (manage \<and> dflt)), (''definition'', definition_json (current_definition st))]"

lemma save_body_accepted:
  assumes "searchable st" and "team \<noteq> []" and "name \<noteq> []" and "length name \<le> 120"
  shows "create_view_schema err (Some (save_view_body team name manage shared dflt st)) =
    Inr (team, \<lparr>nv_name = name, nv_shared = (manage \<and> shared), nv_default = (manage \<and> dflt),
      nv_def = definition_json (current_definition st)\<rparr>)"
proof -
  have "1 \<le> length team" "1 \<le> length name" using assms(2,3) by (cases team, simp_all) (cases name, simp_all)
  then show ?thesis
    using assms(4) definition_accepted [OF assms(1)]
    by (simp add: create_view_schema_def object_body_def save_view_body_def team_id_def body_schemas view_name_def field_def)
qed

section \<open>Reading back\<close>

definition chip_of :: "json \<Rightarrow> chip option" where
  "chip_of v = Option.bind (str_of (field ''field'' v)) (\<lambda>f. map_option (Pair f) (str_of (field ''value'' v)))"

text \<open>The definition the client finds in a view: its JSON, read at the type the client gives it.\<close>

definition definition_of :: "json \<Rightarrow> view_definition" where
  "definition_of v =
     (let text = (\<lambda>k. str_of (field k v)) in
      \<lparr>vd_mode = Option.bind (text ''mode'') (map_of [(''raw'', RawMode), (''patterns'', PatternMode)]),
       vd_start = text ''startTime'', vd_end = text ''endTime'', vd_relative = text ''relativeTime'',
       vd_text = text ''text'', vd_source = text ''sourceId'',
       vd_filters = the_or [] (Option.bind (field ''filters'' v) (array_schema log_filter_schema)),
       vd_columns = Option.bind (field ''columns'' v) (array_schema string_schema), vd_sort = text ''sortBy'',
       vd_direction = text ''sortDirection'', vd_facets = Option.bind (field ''facets'' v) (array_schema chip_of),
       vd_exclusions = Option.bind (field ''exclusions'' v) (array_schema chip_of),
       vd_size = Option.bind (field ''pageSize'' v) int_schema\<rparr>)"

lemma chips_back: "array_schema chip_of (chips_json cs) = Some cs"
  by (simp add: array_schema_def chips_json_def all_items_map [where h = id, simplified] chip_of_def field_def)

lemma form_filters_back: "array_schema log_filter_schema (the (filters_json (Some (form_filters st)))) = Some (form_filters st)"
proof -
  have "all_items log_filter_schema (map (\<lambda>f. JObj [(''field'', JStr (f_field f)), (''operator'', JStr (op_str (f_op f))),
      (''value'', value_json (f_value f))]) (form_filters st)) = Some (map id (form_filters st))"
    by (rule all_items_map) (use screen_filters_text [where st = st] filter_schema_json in \<open>fastforce simp: search_filters_def\<close>)
  then show ?thesis by (simp add: array_schema_def filters_json_def)
qed

lemma text_back: "str_of (text_json x) = x"
  by (cases x) (simp_all add: text_json_def)

lemma definition_back: "definition_of (definition_json (current_definition st)) = current_definition st"
  using form_filters_back [of st] columns_schema [of "se_columns st"]
  by (cases "se_mode st")
    (simp_all add: definition_of_def Let_def definition_field text_back,
     simp_all add: current_definition_def chips_back int_json_def int_schema_def integer_of_int filters_json_def text_json_def)

section \<open>The whole way\<close>

text \<open>The body the client parses of a view the backend answers with.\<close>

definition client_view_of :: "view_answer \<Rightarrow> client_view option" where
  "client_view_of v =
     (case v of
        FullView stub name def \<Rightarrow> Some \<lparr>cv_id = vs_id stub, cv_shared = vs_shared stub, cv_default = vs_default stub,
          cv_definition = definition_of def\<rparr>
      | StubView stub \<Rightarrow> None)"

text \<open>C13: saving a search as a view and opening the view restores the search, through the backend. A member who saves
  the search of a page whose sorting and range are well formed gets 201 and the view; the view is
  listed for the caller, team-wide only when the caller may manage team-wide views; and opening the
  answered view from any state of the page shows the same search.\<close>

theorem view_saved_on_the_server_restores_search:
  assumes "read_search L t0 h0 = Inr st" and "searchable st" and "team \<noteq> []" and "name \<noteq> []" and "length name \<le> 120"
    and "vw_create V = create_view_schema err"
    and "require_auth (now (vw_clock V)) d q = (Inr u :: view_reply + ident)" and "resolve_team_role u team d = Some role"
    and "hr_body q = ac_body (create_view_call tok (save_view_body team name (can_manage_shared role) shared dflt st))"
  shows "\<exists>v cv st' d'. serve_view V PostView q d = (done_with 201 (ViewBody v), d')
    \<and> v \<in> set (list_views (vw_lib V) team u d') \<and> client_view_of v = Some cv
    \<and> cv_shared cv = (can_manage_shared role \<and> shared) \<and> cv_default cv = (can_manage_shared role \<and> dflt)
    \<and> read_search L t (update_search cur (apply_view L fallback cv) h) = Inr st'
    \<and> same_search st' st \<and> se_page st' = 1 \<and> se_view st' = cv_id cv"
proof -
  let ?n = "\<lparr>nv_name = name, nv_shared = (can_manage_shared role \<and> shared), nv_default = (can_manage_shared role \<and> dflt),
         nv_def = definition_json (current_definition st)\<rparr>"
  let ?v = "fst (create_view (vw_lib V) (vw_clock V) team u ?n d)"
  have served: "serve_view V PostView q d
      = (done_with 201 (ViewBody ?v), snd (create_view (vw_lib V) (vw_clock V) team u ?n d))"
    using assms(7,8) save_body_accepted [OF assms(2-5), of err "can_manage_shared role" shared dflt]
    by (auto simp: serve_view_def post_view_def assms(6,9) create_view_call_def authed_def as_member_def
        require_team_role_def requests_shared_state_def case_prod_beta)
  have listed: "?v \<in> set (list_views (vw_lib V) team u (snd (create_view (vw_lib V) (vw_clock V) team u ?n d)))"
    by (simp add: create_view_def Let_def list_views_def)
  obtain cv where cv: "client_view_of ?v = Some cv" "cv_shared cv = (can_manage_shared role \<and> shared)"
    "cv_default cv = (can_manage_shared role \<and> dflt)" "cv_definition cv = current_definition st"
    by (simp add: create_view_def Let_def map_view_def client_view_of_def map_view_stub_def definition_back)
  have "fst (se_range st) \<noteq> [] \<and> snd (se_range st) \<noteq> []"
    using assms(2) regex_nonempty by (auto simp: searchable_def)
  with saved_view_restores_search [OF assms(1) cv(4), where t = t and cur = cur and fallback = fallback and h = h]
    served listed cv show ?thesis by blast
qed

text \<open>A member of a team saves the search of an absolute hour.\<close>

definition hour_visit :: hook_state where
  "hour_visit = first_visit\<lparr>hk_params := [(''tr'', ''abs''), (''from'', ''2026-01-01T09:00Z''), (''to'', ''2026-01-01T10:00Z'')]\<rparr>"

definition hour_lib :: js_lib where
  "hour_lib = fixed_lib\<lparr>date_parse := (\<lambda>_. Some 0)\<rparr>"

lemma hour_read: obtains st where "read_search hour_lib 0 hour_visit = Inr st" "searchable st"
proof -
  have "trim [] = []" "parse_int ''1'' = Some 1" "parse_int (int_str 50) = Some 50" by code_simp+
  then have "\<exists>st. read_search hour_lib 0 hour_visit = Inr st \<and> se_sort st = ''timestamp'' \<and> se_direction st = ''desc''
      \<and> se_range st = (''2026-01-01T09:00Z'', ''2026-01-01T10:00Z'')"
    by (simp add: read_search_def hour_visit_def first_visit_def hour_lib_def parse_chips_def parse_columns_def params_all_def
        read_range_def read_time_mode_def params_get_def absolute_from_def absolute_to_def first_of_def is_valid_iso_def
        Let_def)
  then obtain st where st: "read_search hour_lib 0 hour_visit = Inr st" "se_sort st = ''timestamp''" "se_direction st = ''desc''"
    "se_range st = (''2026-01-01T09:00Z'', ''2026-01-01T10:00Z'')" by blast
  moreover have "searchable st"
    using st(2-4) read_search_typed [OF st(1)] by (simp add: searchable_def sort_columns_def directions_def sample_times)
  ultimately show thesis using that by blast
qed

definition view_desk :: view_env where
  "view_desk = \<lparr>vw_lib = fixed_lib, vw_clock = \<lparr>now = 1, uuid = ''v9''\<rparr>, vw_create = create_view_schema JNull,
     vw_update = update_view_schema JNull\<rparr>"

theorem view_saved_on_the_server_restores_search_witness:
  "\<exists>st v cv st' d'. read_search hour_lib 0 hour_visit = Inr st
    \<and> serve_view view_desk PostView ((call_as ''tok'' [])\<lparr>hr_body := ac_body (create_view_call ''tok''
          (save_view_body ''t1'' ''night'' True True False st))\<rparr>) two_teams = (done_with 201 (ViewBody v), d')
    \<and> client_view_of v = Some cv \<and> cv_shared cv
    \<and> read_search hour_lib 5 (update_search sample_search (apply_view hour_lib ([], []) cv) hour_visit) = Inr st'
    \<and> same_search st' st"
proof -
  obtain st where st: "read_search hour_lib 0 hour_visit = Inr st" "searchable st" by (rule hour_read)
  let ?q = "(call_as ''tok'' [])\<lparr>hr_body := ac_body (create_view_call ''tok'' (save_view_body ''t1'' ''night'' True True False st))\<rparr>"
  have auth: "require_auth (now (vw_clock view_desk)) two_teams ?q = Inr ''u1''"
    by (simp add: require_auth_def resolve_user_id_def call_as_def parse_tok session_user_def session_by_token_def
        two_teams_def view_desk_def)
  have role: "resolve_team_role ''u1'' ''t1'' two_teams = Some Owner"
    by (simp add: resolve_team_role_def membership_def two_teams_def)
  have manage: "can_manage_shared Owner" by (simp add: can_manage_invites_def)
  have "vw_create view_desk = create_view_schema JNull" by (simp add: view_desk_def)
  from view_saved_on_the_server_restores_search [where name = "''night''" and shared = True and dflt = False
      and tok = "''tok''" and cur = sample_search and fallback = "([], [])" and t = 5 and h = hour_visit, OF st _ _ _ this auth role]
  show ?thesis using st manage by simp blast
qed

section \<open>Unsaved changes\<close>

text \<open>\<open>hasUnsavedChanges\<close> compares the printed definitions of the selected view and of the page.\<close>

definition has_unsaved_changes :: "js_lib \<Rightarrow> json option \<Rightarrow> search_state \<Rightarrow> bool" where
  "has_unsaved_changes L selected st =
     (case selected of
        None \<Rightarrow> False
      | Some def \<Rightarrow> json_stringify L def \<noteq> json_stringify L (definition_json (current_definition st)))"

lemma stored_range: "str_of (field ''startTime'' (definition_json (current_definition st))) = Some (fst (se_range st))"
  "str_of (field ''endTime'' (definition_json (current_definition st))) = Some (snd (se_range st))"
  by (simp_all add: definition_field current_definition_def text_json_def)

text \<open>A relative search is saved with the range it had at that moment, so the view counts as changed as soon
  as the same search is shown at another time.\<close>

lemma moved_range_looks_changed:
  assumes "inj (json_stringify L)" and "se_range st \<noteq> se_range st'"
  shows "has_unsaved_changes L (Some (definition_json (current_definition st))) st'"
proof -
  have "definition_json (current_definition st) \<noteq> definition_json (current_definition st')"
    using assms(2) stored_range by (metis option.inject prod.expand)
  then show ?thesis using assms(1) by (simp add: has_unsaved_changes_def inj_eq)
qed

end
