(* ===== verification/FrontAuth.thy ===== *)
theory FrontAuth imports RouteSchemas ApiContract begin

text \<open>
  Signing in at the frontend (\<open>frontend/src/lib/auth\<close> and \<open>frontend/src/middleware.ts\<close>): the two cookies
  of a session, the server actions that set and clear them, the guards of the pages and the
  middleware in front of them. The network is an argument, as in \<open>ApiClient\<close>.
\<close>

section \<open>Roles\<close>

definition can_write_team :: "team_role \<Rightarrow> bool" where
  "can_write_team r \<longleftrightarrow> r = Owner \<or> r = Admin \<or> r = Member"

definition can_manage_team_sources :: "team_role \<Rightarrow> bool" where
  "can_manage_team_sources r \<longleftrightarrow> r = Owner \<or> r = Admin"

text \<open>The pages hide exactly the controls the backend refuses.\<close>

lemma roles_mirror_the_backend: "can_write_team = can_write" "can_manage_team_sources = can_manage_sources"
  by (simp_all add: fun_eq_iff can_write_team_def can_write_def can_manage_team_sources_def can_manage_sources_def)

section \<open>The session\<close>

record cookies =
  ck_token :: "string option"
  ck_user :: "string option"

text \<open>A session is the token and whatever JSON the user cookie holds.\<close>

type_synonym session = "string \<times> json"

definition get_session :: "js_lib \<Rightarrow> cookies \<Rightarrow> session option" where
  "get_session L ck =
     (if truthy (ck_token ck) \<and> truthy (ck_user ck)
      then (case json_parse L (the_or [] (ck_user ck)) of
              Inl e \<Rightarrow> None
            | Inr user \<Rightarrow> Some (the_or [] (ck_token ck), user))
      else None)"

definition set_session :: "js_lib \<Rightarrow> string \<Rightarrow> json \<Rightarrow> cookies" where
  "set_session L tok user = \<lparr>ck_token = Some tok, ck_user = Some (json_stringify L user)\<rparr>"

definition clear_session :: cookies where
  "clear_session = \<lparr>ck_token = None, ck_user = None\<rparr>"

section \<open>Actions\<close>

text \<open>How an action or a guard ends: a redirect, a thrown error, the state of the form, or a value.\<close>

datatype 'a page_result =
    Redirect string
  | Thrown string
  | FormError json
  | PendingNote json
  | Granted 'a

definition not_an_object :: string where
  "not_an_object = ''Cannot read properties of null''"

text \<open>\<open>body.error ?? fallback\<close>; the body is \<open>{}\<close> when it is no JSON.\<close>

definition refused_form :: "api_response \<Rightarrow> string \<Rightarrow> 'a page_result" where
  "refused_form r fallback =
     (case fr_body r of
        Inl e \<Rightarrow> FormError (JStr fallback)
      | Inr JNull \<Rightarrow> Thrown not_an_object
      | Inr body \<Rightarrow>
          (case field ''error'' body of
             None \<Rightarrow> FormError (JStr fallback)
           | Some JNull \<Rightarrow> FormError (JStr fallback)
           | Some e \<Rightarrow> FormError e))"

definition form_post :: "string \<Rightarrow> (string \<times> string) list \<Rightarrow> api_call" where
  "form_post path kvs =
     \<lparr>ac_method = ''POST'', ac_path = path, ac_auth = None, ac_body = Some (JObj (map (\<lambda>(k, v). (k, JStr v)) kvs))\<rparr>"

definition ok_response :: "api_response \<Rightarrow> bool" where
  "ok_response r \<longleftrightarrow> 200 \<le> fr_status r \<and> fr_status r < 300"

definition no_token :: string where
  "no_token = ''The cookie value is not a string''"

text \<open>A successful answer opens the session and goes to the start page.\<close>

definition open_session :: "js_lib \<Rightarrow> json \<Rightarrow> cookies \<Rightarrow> 'a page_result \<times> cookies" where
  "open_session L data ck =
     (case field ''token'' data of
        Some (JStr tok) \<Rightarrow> (Redirect ''/'', set_session L tok (the_or JNull (field ''user'' data)))
      | _ \<Rightarrow> (Thrown no_token, ck))"

definition login_action ::
  "(api_call \<Rightarrow> string + api_response) \<Rightarrow> js_lib \<Rightarrow> string option \<Rightarrow> string option \<Rightarrow> cookies \<Rightarrow>
   unit page_result \<times> cookies" where
  "login_action net L email password ck =
     (if \<not> truthy email \<or> \<not> truthy password then (FormError (JStr ''Email and password are required''), ck)
      else (case net (form_post ''/auth/login'' [(''email'', the_or [] email), (''password'', the_or [] password)]) of
              Inl e \<Rightarrow> (Thrown e, ck)
            | Inr r \<Rightarrow>
                if \<not> ok_response r then (refused_form r ''Login failed'', ck)
                else (case fr_body r of Inl e \<Rightarrow> (Thrown e, ck) | Inr data \<Rightarrow> open_session L data ck)))"

definition register_action ::
  "(api_call \<Rightarrow> string + api_response) \<Rightarrow> js_lib \<Rightarrow> string option \<Rightarrow> string option \<Rightarrow> string option \<Rightarrow> cookies \<Rightarrow>
   unit page_result \<times> cookies" where
  "register_action net L email password name ck =
     (if \<not> truthy email \<or> \<not> truthy password \<or> \<not> truthy name then (FormError (JStr ''All fields are required''), ck)
      else (case net (form_post ''/auth/register''
                [(''email'', the_or [] email), (''password'', the_or [] password), (''name'', the_or [] name)]) of
              Inl e \<Rightarrow> (Thrown e, ck)
            | Inr r \<Rightarrow>
                if \<not> ok_response r then (refused_form r ''Registration failed'', ck)
                else (case fr_body r of
                        Inl e \<Rightarrow> (Thrown e, ck)
                      | Inr data \<Rightarrow>
                          if \<not> json_object (Some data) then (Thrown ''Cannot use 'in' operator'', ck)
                          else if field ''token'' data = None
                            then (PendingNote (the_or JNull (field ''message'' data)), ck)
                          else open_session L data ck)))"

definition logout_action :: "unit page_result \<times> cookies" where
  "logout_action = (Redirect ''/login'', clear_session)"

section \<open>Guards\<close>

definition require_session :: "js_lib \<Rightarrow> cookies \<Rightarrow> session page_result" where
  "require_session L ck = (case get_session L ck of None \<Rightarrow> Redirect ''/login'' | Some s \<Rightarrow> Granted s)"

definition require_admin_page :: "js_lib \<Rightarrow> cookies \<Rightarrow> session page_result" where
  "require_admin_page L ck =
     (case require_session L ck of
        Granted s \<Rightarrow>
          if snd s = JNull then Thrown not_an_object
          else if field ''role'' (snd s) = Some (JStr ''ADMIN'') then Granted s else Redirect ''/''
      | r \<Rightarrow> r)"

text \<open>\<open>requireAuth\<close>: the session with the first team of the caller, which the backend names.\<close>

definition require_team_page ::
  "(api_call \<Rightarrow> string + api_response) \<Rightarrow> js_lib \<Rightarrow> cookies \<Rightarrow> (session \<times> json) page_result" where
  "require_team_page net L ck =
     (case require_session L ck of
        Granted s \<Rightarrow>
          (case api_request net (teams_call (fst s)) of
             Inl e \<Rightarrow> Thrown e
           | Inr body \<Rightarrow>
               (case Option.bind body (field ''teams'') of
                  Some (JArr (t # ts)) \<Rightarrow> Granted (s, t)
                | Some (JArr []) \<Rightarrow> Thrown ''No team found. Please create or join a team first.''
                | _ \<Rightarrow> Thrown not_an_object))
      | Redirect p \<Rightarrow> Redirect p
      | Thrown e \<Rightarrow> Thrown e
      | FormError e \<Rightarrow> FormError e
      | PendingNote n \<Rightarrow> PendingNote n)"

section \<open>The middleware\<close>

definition public_paths :: "string list" where
  "public_paths = [''/login'', ''/register'']"

definition unmatched_prefixes :: "string list" where
  "unmatched_prefixes = [''/_next/static'', ''/_next/image'', ''/api'']"

text \<open>The matcher keeps the middleware from the assets; its dot in \<open>favicon.ico\<close> matches any character.\<close>

definition favicon :: "string \<Rightarrow> bool" where
  "favicon path \<longleftrightarrow> starts_with ''/favicon'' path \<and> starts_with ''ico'' (drop 9 path)"

definition middleware :: "js_lib \<Rightarrow> string \<Rightarrow> cookies \<Rightarrow> unit page_result" where
  "middleware L path ck =
     (if list_ex (\<lambda>p. starts_with p path) public_paths then Granted ()
      else if \<not> truthy (ck_token ck) then Redirect ''/login''
      else if starts_with ''/admin'' path then
        (case (if truthy (ck_user ck) then json_parse L (the_or [] (ck_user ck)) else Inr JNull) of
           Inl e \<Rightarrow> Redirect ''/login''
         | Inr user \<Rightarrow> if field ''role'' user \<noteq> Some (JStr ''ADMIN'') then Redirect ''/'' else Granted ())
      else Granted ())"

definition guarded :: "js_lib \<Rightarrow> string \<Rightarrow> cookies \<Rightarrow> unit page_result" where
  "guarded L path ck =
     (if list_ex (\<lambda>p. starts_with p path) unmatched_prefixes \<or> favicon path then Granted () else middleware L path ck)"

section \<open>Middleware and page guard agree\<close>

text \<open>the two gates of the admin pages agree. For every cookie jar and every path below \<open>/admin\<close>, the
  middleware lets the request through exactly when the guard of the page grants a session, and that
  session is the one of the two cookies, with the role ADMIN.\<close>

theorem admin_gates_agree:
  "(middleware L (''/admin'' @ path) ck = Granted () \<longleftrightarrow> (\<exists>s. require_admin_page L ck = Granted s))
   \<and> (case require_admin_page L ck of
        Granted s \<Rightarrow> get_session L ck = Some s \<and> field ''role'' (snd s) = Some (JStr ''ADMIN'')
      | _ \<Rightarrow> True)"
proof -
  have "\<not> list_ex (\<lambda>p. starts_with p (''/admin'' @ path)) public_paths" "field ''role'' JNull = None"
    by (simp_all add: public_paths_def starts_with_def field_def)
  then show ?thesis
    by (auto simp: middleware_def require_admin_page_def require_session_def get_session_def
        split: sum.splits option.splits if_splits)
qed

section \<open>Signing in, through the backend\<close>

fun role_text :: "user_role \<Rightarrow> string" where
  "role_text RoleUser = ''USER''"
| "role_text RoleAdmin = ''ADMIN''"

fun status_name :: "user_status \<Rightarrow> string" where
  "status_name Active = ''ACTIVE''"
| "status_name Pending = ''PENDING''"
| "status_name Disabled = ''DISABLED''"

text \<open>\<open>res.json(result)\<close> of the login route: the token and the sanitised user; \<open>other\<close> prints the rest.\<close>

definition user_json :: "public_user \<Rightarrow> json" where
  "user_json u = JObj
     [(''id'', JStr (pu_id u)), (''email'', JStr (pu_email u)), (''name'', JStr (pu_name u)),
      (''role'', JStr (role_text (pu_role u))), (''status'', JStr (status_name (pu_status u))),
      (''createdAt'', JStr (pu_created u))]"

definition account_json :: "(account_payload \<Rightarrow> json) \<Rightarrow> account_payload \<Rightarrow> json" where
  "account_json other p =
     (case p of LoginBody tok u \<Rightarrow> JObj [(''token'', JStr tok), (''user'', user_json u)] | _ \<Rightarrow> other p)"

text \<open>The backend's login route as the network of the action.\<close>

definition login_route ::
  "(account_payload \<Rightarrow> json) \<Rightarrow> account_env \<Rightarrow> http_req \<Rightarrow> db \<Rightarrow> api_call \<Rightarrow> string + api_response" where
  "login_route other A q d c = Inr (wire_response (account_json other) (fst (post_login A (q\<lparr>hr_body := ac_body c\<rparr>) d)))"

lemma short_token_shape: "short_token ''sess_'' u \<noteq> [] \<and> \<not> is_space (hd (short_token ''sess_'' u))"
  by (simp add: short_token_def is_space_def code_def)

lemma login_body:
  assumes "is_email email" and "6 \<le> length password"
  shows "login_schema is_email err (Some (JObj [(''email'', JStr email), (''password'', JStr password)])) = Inr (email, password)"
  using assms by (simp add: login_schema_def object_body_def required_key_def refine_def min_text_def string_schema_def field_def)

text \<open>C15: signing in works from the form to the API. When the address belongs to an active account whose
  password verifies, the action ends at the start page with a session in the cookies; the middleware
  lets that session to the admin pages exactly when the account is an administrator's, the guard of
  the other pages grants it, and for seven days the backend takes every request of the API client
  with this session for one of that account.\<close>

theorem signing_in_opens_a_session:
  assumes "user_by_email d (normalize_email email) = Some u" and "u_status u = Active"
    and "te_verify (ac_team A) password (u_hash u)"
    and "ac_login A = login_schema is_email err" and "is_email email" and "email \<noteq> []" and "6 \<le> length password"
    and "json_parse L (json_stringify L (user_json (sanitize_user (te_lib (ac_team A)) u)))
      = Inr (user_json (sanitize_user (te_lib (ac_team A)) u))"
    and "json_stringify L (user_json (sanitize_user (te_lib (ac_team A)) u)) \<noteq> []"
    and "short_token ''sess_'' (te_uuid (ac_team A) 0) \<notin> s_token ` set (db_sessions d)"
    and "t \<le> te_now (ac_team A) + seven_days"
    and "hr_auth q' = ac_auth (authed_get tok path')" and "tok = short_token ''sess_'' (te_uuid (ac_team A) 0)"
  shows "let (r, ck') = login_action (login_route other A q d) L (Some email) (Some password) ck;
             d' = snd (post_login A (q\<lparr>hr_body := Some (JObj [(''email'', JStr email), (''password'', JStr password)])\<rparr>) d)
         in r = Redirect ''/'' \<and> require_session L ck' = Granted (tok, user_json (sanitize_user (te_lib (ac_team A)) u))
          \<and> (middleware L (''/admin'' @ path) ck' = Granted () \<longleftrightarrow> u_role u = RoleAdmin)
          \<and> require_auth t d' q' = (Inr (u_id u) :: 'b reply + ident)"
proof -
  let ?E = "ac_team A"
  let ?user = "user_json (sanitize_user (te_lib ?E) u)"
  let ?body = "JObj [(''email'', JStr email), (''password'', JStr password)]"
  have pw: "password \<noteq> []" using assms(7) by auto
  have login: "login ?E email password d = (Inr (tok, sanitize_user (te_lib ?E) u),
      d\<lparr>db_sessions := db_sessions d @ [\<lparr>s_user = u_id u, s_token = tok, s_expires = te_now ?E + seven_days\<rparr>]\<rparr>)"
    using assms(2,3) by (simp add: login_def assms(1) create_session_def Let_def assms(13))
  have posted: "post_login A (q\<lparr>hr_body := Some ?body\<rparr>) d =
      (done_with 200 (LoginBody tok (sanitize_user (te_lib ?E) u)),
       d\<lparr>db_sessions := db_sessions d @ [\<lparr>s_user = u_id u, s_token = tok, s_expires = te_now ?E + seven_days\<rparr>]\<rparr>)"
    by (simp add: post_login_def settle_def assms(4) login_body [of is_email, OF assms(5,7)] login)
  have action: "login_action (login_route other A q d) L (Some email) (Some password) ck = (Redirect ''/'', set_session L tok ?user)"
    using assms(6) pw
    by (simp add: login_action_def truthy_def form_post_def login_route_def posted done_with_def answer_def wire_response_def
        ok_response_def account_json_def open_session_def field_def)
  have tok: "tok \<noteq> []" "\<not> is_space (hd tok)" using short_token_shape assms(13) by auto
  have session: "get_session L (set_session L tok ?user) = Some (tok, ?user)"
    using tok assms(8,9) by (simp add: get_session_def set_session_def truthy_def)
  have "field ''role'' ?user = Some (JStr (role_text (u_role u)))"
    by (simp add: user_json_def field_def sanitize_user_def)
  moreover have "\<not> list_ex (\<lambda>p. starts_with p (''/admin'' @ path)) public_paths"
    by (simp add: public_paths_def starts_with_def)
  ultimately have "middleware L (''/admin'' @ path) (set_session L tok ?user) = Granted () \<longleftrightarrow> u_role u = RoleAdmin"
    using tok assms(8,9) by (cases "u_role u") (simp_all add: middleware_def set_session_def truthy_def)
  moreover have "require_auth t (snd (post_login A (q\<lparr>hr_body := Some ?body\<rparr>) d)) q' = (Inr (u_id u) :: 'b reply + ident)"
  proof -
    have "\<forall>x \<in> set (db_sessions d). s_token x \<noteq> tok" by (metis assms(10,13) image_eqI)
    then have "List.find (\<lambda>s. s_token s = tok)
        (db_sessions d @ [\<lparr>s_user = u_id u, s_token = tok, s_expires = te_now ?E + seven_days\<rparr>])
        = Some \<lparr>s_user = u_id u, s_token = tok, s_expires = te_now ?E + seven_days\<rparr>"
      by (simp add: find_skips)
    then show ?thesis using assms(11,12) bearer_token [OF tok]
      by (simp add: posted require_auth_def resolve_user_id_def authed_get_def ApiClient.authed_def session_user_def
          session_by_token_def)
  qed
  ultimately show ?thesis by (simp add: action require_session_def session)
qed

definition joined_user :: user_row where
  "joined_user = \<lparr>u_id = ''u7'', u_email = ''a@b.de'', u_hash = ''secret'', u_name = ''Ada'', u_role = RoleAdmin,
     u_status = Active, u_created = 0\<rparr>"

definition front_desk :: account_env where
  "front_desk = \<lparr>ac_team = sample_team_env, ac_prisma = (\<lambda>_. []), ac_register = (\<lambda>_. Inl JNull),
     ac_login = login_schema (\<lambda>_. True) JNull, ac_new_team = (\<lambda>_. Inl JNull), ac_invite = (\<lambda>_. Inl JNull),
     ac_user = (\<lambda>_. Inl JNull), ac_add = (\<lambda>_. Inl JNull)\<rparr>"

definition cookie_lib :: js_lib where
  "cookie_lib = fixed_lib\<lparr>json_parse := (\<lambda>_. Inr (user_json (sanitize_user sample_lib joined_user))),
     json_stringify := (\<lambda>_. ''{}'')\<rparr>"

theorem signing_in_opens_a_session_witness:
  "let (r, ck') = login_action (login_route (\<lambda>_. JNull) front_desk (call_as [] []) (empty_db\<lparr>db_users := [joined_user]\<rparr>))
         cookie_lib (Some ''a@b.de'') (Some ''secret'') clear_session
   in r = Redirect ''/'' \<and> middleware cookie_lib ''/admin/users'' ck' = Granted ()"
proof -
  let ?d = "empty_db\<lparr>db_users := [joined_user]\<rparr>" and ?u = "user_json (sanitize_user (te_lib (ac_team front_desk)) joined_user)"
  have lib: "te_lib (ac_team front_desk) = sample_lib" by (simp add: front_desk_def sample_team_env_def)
  have mail: "normalize_email ''a@b.de'' = ''a@b.de''" by code_simp
  have known: "user_by_email ?d (normalize_email ''a@b.de'') = Some joined_user"
    by (simp add: user_by_email_def mail joined_user_def)
  have active: "u_status joined_user = Active" "u_role joined_user = RoleAdmin" by (simp_all add: joined_user_def)
  have verify: "te_verify (ac_team front_desk) ''secret'' (u_hash joined_user)"
    by (simp add: front_desk_def sample_team_env_def joined_user_def)
  have schema: "ac_login front_desk = login_schema (\<lambda>_. True) JNull" by (simp add: front_desk_def)
  have cookie: "json_parse cookie_lib (json_stringify cookie_lib ?u) = Inr ?u" "json_stringify cookie_lib ?u \<noteq> []"
    by (simp_all add: cookie_lib_def lib)
  have fresh: "short_token ''sess_'' (te_uuid (ac_team front_desk) 0) \<notin> s_token ` set (db_sessions ?d)" by (simp add: empty_db_def)
  have soon: "0 \<le> te_now (ac_team front_desk) + seven_days"
    by (simp add: front_desk_def sample_team_env_def seven_days_def)
  show ?thesis
    using signing_in_opens_a_session [OF known active(1) verify schema _ _ _ cookie fresh soon,
        where other = "\<lambda>_. JNull" and q = "call_as [] []" and ck = clear_session and path = "''/users''"
        and q' = "(call_as [] [])\<lparr>hr_auth := ac_auth (authed_get (short_token ''sess_'' (te_uuid (ac_team front_desk) 0)) [])\<rparr>"
        and path' = "[]"] active(2)
    by (simp add: case_prod_beta Let_def) blast
qed

section \<open>A short password\<close>

text \<open>The form does not ask for six characters, the route does, and its refusal is an object: the state of the
  form gets it where the page expects a text, and React cannot render an object.\<close>

lemma short_password_gives_an_object:
  assumes "ac_login A = login_schema is_email (JObj kvs)" and "email \<noteq> []" and "password \<noteq> []" and "length password < 6"
  shows "login_action (login_route other A q d) L (Some email) (Some password) ck = (FormError (JObj kvs), ck)"
  using assms
  by (simp add: login_action_def truthy_def form_post_def login_route_def post_login_def login_schema_def object_body_def
      required_key_def refine_def min_text_def string_schema_def field_def answer_def wire_response_def ok_response_def
      refused_form_def bind_eq_None_conv split: option.splits)

end
