(* ===== verification/SubscriptionForm.thy ===== *)
theory SubscriptionForm imports RequestContract begin

text \<open>
  The form of a subscription (\<open>subscription-input.ts\<close> and \<open>subscription-form.tsx\<close> in
  \<open>frontend/src/app/(dashboard)/alerts/subscriptions\<close>): what it accepts, the request it makes of its
  fields, and how the backend takes that request. The URL parser is the platform's, in the browser
  as in Node.
\<close>

section \<open>From the fields to the payload\<close>

definition subscription_channels :: "string list" where
  "subscription_channels = [''WEBHOOK'', ''SLACK'', ''MSTEAMS'']"

definition subscription_severities :: "string list" where
  "subscription_severities = [''CRITICAL'', ''HIGH'', ''MEDIUM'', ''LOW'']"

definition url_labels :: "(string \<times> string) list" where
  "url_labels = [(''WEBHOOK'', ''Webhook URL''), (''SLACK'', ''Slack webhook URL''), (''MSTEAMS'', ''Teams webhook URL'')]"

text \<open>An empty rule means every rule of the team.\<close>

record subscription_values =
  sf_rule :: string
  sf_channel :: string
  sf_url :: string
  sf_secret :: string
  sf_severities :: "string list"

record subscription_payload =
  sy_team :: string
  sy_rule :: "string option"
  sy_channel :: string
  sy_config :: "(string \<times> string) list"
  sy_severities :: "string list"

datatype subscription_field = RuleField | ChannelField | UrlField

definition is_channel :: "string \<Rightarrow> bool" where
  "is_channel v \<longleftrightarrow> v \<in> set subscription_channels"

definition build_subscription_payload ::
  "(string \<Rightarrow> url option) \<Rightarrow> string \<Rightarrow> subscription_values \<Rightarrow> string list \<Rightarrow>
   (subscription_field \<times> string) + subscription_payload" where
  "build_subscription_payload parse_url team vs rule_ids =
     (if \<not> is_channel (sf_channel vs)
      then Inl (ChannelField, ''Pick Webhook, Slack or Microsoft Teams as the channel.'')
      else if sf_rule vs \<noteq> [] \<and> sf_rule vs \<notin> set rule_ids
      then Inl (RuleField, ''Pick a rule from the list, or all rules in the team.'')
      else
        (let label = the_or [] (map_of url_labels (sf_channel vs)); target = trim (sf_url vs) in
         if target = [] then Inl (UrlField, label @ '' is required.'')
         else
           (case parse_url target of
              None \<Rightarrow> Inl (UrlField, label @ '' must be a full URL, for example https://hooks.example.com/alerts.'')
            | Some parsed \<Rightarrow>
                if url_protocol parsed \<noteq> ''https:'' \<and> url_protocol parsed \<noteq> ''http:''
                then Inl (UrlField, label @ '' must start with https:// or http://.'')
                else
                  (let webhook = (sf_channel vs = ''WEBHOOK''); secret = trim (sf_secret vs);
                       config = (if webhook then [(''url'', target)] else [(''webhook_url'', target)]) in
                   Inr \<lparr>sy_team = team, sy_rule = (if sf_rule vs \<noteq> [] then Some (sf_rule vs) else None),
                     sy_channel = sf_channel vs,
                     sy_config = config @ (if webhook \<and> secret \<noteq> [] then [(''secret'', secret)] else []),
                     sy_severities = filter (\<lambda>l. l \<in> set (sf_severities vs)) subscription_severities\<rparr>))))"

text \<open>The payload as \<open>createSubscription\<close> sends it.\<close>

definition subscription_json :: "subscription_payload \<Rightarrow> json" where
  "subscription_json p = json_body
     [(''teamId'', Some (JStr (sy_team p))), (''ruleId'', text_json (sy_rule p)),
      (''channel'', Some (JStr (sy_channel p))),
      (''config'', Some (JObj (map (\<lambda>(k, v). (k, JStr v)) (sy_config p)))),
      (''severities'', Some (JArr (map JStr (sy_severities p))))]"

section \<open>The form\<close>

record subscription_form =
  fo_open :: bool
  fo_values :: subscription_values
  fo_pending :: bool
  fo_error :: "(subscription_field option \<times> string) option"

text \<open>The effect of \<open>open\<close> and \<open>initialRuleId\<close>.\<close>

definition form_opened :: "string \<Rightarrow> subscription_form" where
  "form_opened rule =
     \<lparr>fo_open = True,
      fo_values = \<lparr>sf_rule = rule, sf_channel = ''WEBHOOK'', sf_url = [], sf_secret = [], sf_severities = []\<rparr>,
      fo_pending = False, fo_error = None\<rparr>"

definition toggle_severity :: "string \<Rightarrow> string list \<Rightarrow> string list" where
  "toggle_severity l current = (if l \<in> set current then filter (\<lambda>x. x \<noteq> l) current else current @ [l])"

text \<open>\<open>submit\<close> up to the request, which is \<open>None\<close> when none is made.\<close>

definition form_submit ::
  "(string \<Rightarrow> url option) \<Rightarrow> string \<Rightarrow> string list \<Rightarrow> subscription_form \<Rightarrow> subscription_form \<times> subscription_payload option" where
  "form_submit parse_url team rule_ids f =
     (if fo_pending f then (f, None)
      else
        (case build_subscription_payload parse_url team (fo_values f) rule_ids of
           Inl (place, message) \<Rightarrow> (f\<lparr>fo_error := Some (Some place, message)\<rparr>, None)
         | Inr payload \<Rightarrow> (f\<lparr>fo_pending := True, fo_error := None\<rparr>, Some payload)))"

text \<open>\<open>submit\<close> after \<open>onSubmit\<close> has settled.\<close>

definition form_settled :: "string option \<Rightarrow> subscription_form \<Rightarrow> subscription_form" where
  "form_settled failure f =
     (case failure of
        None \<Rightarrow> f\<lparr>fo_open := False, fo_values := (fo_values f)\<lparr>sf_url := [], sf_secret := []\<rparr>, fo_pending := False\<rparr>
      | Some e \<Rightarrow> f\<lparr>fo_error := Some (None, e), fo_pending := False\<rparr>)"

text \<open>The severities a user can toggle are always a set, and the payload holds them in their own order.\<close>

lemma toggle_severity_distinct: "distinct ls \<Longrightarrow> distinct (toggle_severity l ls)"
  by (simp add: toggle_severity_def)

lemma toggle_severity_set: "set (toggle_severity l ls) = (if l \<in> set ls then set ls - {l} else insert l (set ls))"
  by (auto simp: toggle_severity_def)

text \<open>A second submit while the first is pending makes no request.\<close>

lemma pending_form_is_quiet:
  "form_submit pu team rule_ids f = (f', Some p) \<Longrightarrow> \<not> fo_pending f \<and> fo_pending f' \<and> snd (form_submit pu team rule_ids f') = None"
  by (auto simp: form_submit_def split: if_splits sum.splits prod.splits)

section \<open>The payload fits the schema\<close>

lemma built_payload:
  assumes "build_subscription_payload pu team vs rule_ids = Inr p"
  obtains parsed where "is_channel (sf_channel vs)" "sf_rule vs = [] \<or> sf_rule vs \<in> set rule_ids"
    "trim (sf_url vs) \<noteq> []" "pu (trim (sf_url vs)) = Some parsed" "sy_team p = team"
    "sy_rule p = some_text (sf_rule vs)" "sy_channel p = sf_channel vs"
    "map_of (sy_config p) (if sf_channel vs = ''WEBHOOK'' then ''url'' else ''webhook_url'') = Some (trim (sf_url vs))"
    "sy_severities p = filter (\<lambda>l. l \<in> set (sf_severities vs)) subscription_severities"
  using assms by (auto simp: build_subscription_payload_def Let_def some_text_def split: if_splits option.splits)

lemma payload_fields:
  "field ''teamId'' (subscription_json p) = Some (JStr (sy_team p))"
  "field ''ruleId'' (subscription_json p) = text_json (sy_rule p)"
  "field ''channel'' (subscription_json p) = Some (JStr (sy_channel p))"
  "field ''config'' (subscription_json p) = Some (JObj (map (\<lambda>(k, v). (k, JStr v)) (sy_config p)))"
  "field ''severities'' (subscription_json p) = Some (JArr (map JStr (sy_severities p)))"
  by (simp_all add: subscription_json_def field_json_body)

lemma severity_back: "enum_schema [(''CRITICAL'', Critical), (''HIGH'', High), (''MEDIUM'', Medium), (''LOW'', Low)]
    (JStr (severity_str s)) = Some s"
  by (cases s) (simp_all add: enum_schema_def)

lemma severities_back:
  assumes "set ls \<subseteq> set subscription_severities"
  shows "\<exists>ss. severities_schema (JArr (map JStr ls)) = Some ss \<and> map severity_str ss = ls"
proof -
  have "set subscription_severities \<subseteq> range severity_str"
    by (simp add: subscription_severities_def image_iff) (metis severity_str.simps)
  with assms have "set ls \<subseteq> range severity_str" by blast
  then obtain ss where ss: "ls = map severity_str ss" by (metis ex_map_conv subsetD rangeE)
  have "all_items (enum_schema [(''CRITICAL'', Critical), (''HIGH'', High), (''MEDIUM'', Medium), (''LOW'', Low)])
      (map (\<lambda>s. JStr (severity_str s)) ss) = Some (map id ss)"
    by (rule all_items_map) (simp add: severity_back)
  then show ?thesis by (simp add: severities_schema_def array_schema_def ss comp_def)
qed

text \<open>The channel of a name the form offers.\<close>

definition channel_named :: "string \<Rightarrow> channel" where
  "channel_named c = (if c = ''WEBHOOK'' then Webhook else if c = ''SLACK'' then Slack else MsTeams)"

lemma channel_accepted: "is_channel c \<Longrightarrow> channel_schema (JStr c) = Some (channel_named c)"
  by (auto simp: is_channel_def subscription_channels_def channel_schema_def refine_def enum_schema_def channels_def
      channel_named_def)

lemma url_key_of_named: "url_key (Some (channel_named c)) = Some (if c = ''WEBHOOK'' then ''url'' else ''webhook_url'')"
  by (simp add: url_key_def channel_named_def)

lemma config_text: "field k (JObj (map (\<lambda>(k, v). (k, JStr v)) kvs)) = map_option JStr (map_of (rev kvs) k)"
proof -
  have "map_of (map (\<lambda>(k, v). (k, JStr v)) xs) k = map_option JStr (map_of xs k)" for xs
    by (induction xs) auto
  then show ?thesis by (simp add: field_def rev_map)
qed

lemma payload_accepted:
  assumes "build_subscription_payload pu team vs rule_ids = Inr p" and "team \<noteq> []"
  shows "\<exists>ss. map severity_str ss = sy_severities p \<and> create_subscription_schema err (Some (subscription_json p)) =
    Inr \<lparr>nsi_team = team, nsi_rule = some_text (sf_rule vs), nsi_channel = channel_named (sf_channel vs),
      nsi_config = JObj (map (\<lambda>(k, v). (k, JStr v)) (sy_config p)), nsi_severities = Some ss\<rparr>"
proof -
  obtain parsed where p: "is_channel (sf_channel vs)" "sy_team p = team" "sy_rule p = some_text (sf_rule vs)"
    "sy_channel p = sf_channel vs" "sy_severities p = filter (\<lambda>l. l \<in> set (sf_severities vs)) subscription_severities"
    using assms(1) by (rule built_payload)
  obtain ss where ss: "severities_schema (JArr (map JStr (sy_severities p))) = Some ss" "map severity_str ss = sy_severities p"
    using severities_back [of "sy_severities p"] p(5) by auto
  have "create_subscription_schema err (Some (subscription_json p)) =
      (case Some \<lparr>nsi_team = team, nsi_rule = some_text (sf_rule vs), nsi_channel = channel_named (sf_channel vs),
        nsi_config = JObj (map (\<lambda>(k, v). (k, JStr v)) (sy_config p)), nsi_severities = Some ss\<rparr> of
        None \<Rightarrow> Inl err | Some x \<Rightarrow> Inr x)"
    unfolding create_subscription_schema_def
    by (subst subscription_json_def, subst schema_on_body, fold subscription_json_def)
      (simp add: team_key [where team = team] some_text_key [where s = "sf_rule vs"] payload_fields p(2-4)
        channel_accepted [OF p(1)] ss(1) assms(2) required_key_def optional_key_def [of severities_schema] config_schema_def)
  with ss(2) show ?thesis by auto
qed

text \<open>The target is in the configuration where the backend and the dispatcher look for it.\<close>

lemma target_in_config:
  assumes "build_subscription_payload pu team vs rule_ids = Inr p"
  shows "field (the (url_key (Some (channel_named (sf_channel vs))))) (JObj (map (\<lambda>(k, v). (k, JStr v)) (sy_config p)))
    = Some (JStr (trim (sf_url vs)))"
  using assms
  by (auto simp: build_subscription_payload_def Let_def url_key_of_named config_text split: if_splits option.splits)

section \<open>Through the backend\<close>

text \<open>The outcome of \<open>POST /subscriptions\<close> for a member of the team.\<close>

lemma post_sub_member:
  assumes "resolve_user_id (now (sb_clock S)) q d = Some u" and "sb_create S (hr_body q) = Inr i"
    and "resolve_team_role u (nsi_team i) d \<noteq> None"
    and "\<And>r. nsi_rule i = Some r \<Longrightarrow> exists_row (own_rule r (nsi_team i)) (db_rules d)"
  shows "serve_sub S PostSub q d =
    (let e = validate_subscription_webhook (sb_url S) (sb_guard S) (Some (nsi_channel i)) (Some (nsi_config i)) in
     if truthy e then (refuse 400 (the e), d)
     else (case create_sub (sb_clock S) \<lparr>ns_user = u, ns_team = nsi_team i, ns_rule = nsi_rule i, ns_channel = nsi_channel i,
             ns_config = nsi_config i, ns_severities = nsi_severities i\<rparr> d of
             (s, d1) \<Rightarrow> (done_with 201 (SubBody s), d1)))"
proof -
  have "\<not> (case nsi_rule i of None \<Rightarrow> False | Some r \<Rightarrow> List.find (own_rule r (nsi_team i)) (db_rules d) = None)"
    using assms(4) by (auto simp: find_None_iff split: option.splits)
  with assms(1-3) show ?thesis
    by (auto simp: serve_sub_def require_auth_def post_sub_def as_member_cases Let_def split: option.splits)
qed

lemma validate_named:
  assumes "field (the (url_key (Some ch))) cfg = Some (JStr target)" and "url_key (Some ch) \<noteq> None" and "target \<noteq> []"
  shows "validate_subscription_webhook pu G (Some ch) (Some cfg) =
    (case assert_safe_url pu G target of Inl e \<Rightarrow> Some (channel_message e) | Inr _ \<Rightarrow> None)"
  using assms by (auto simp: validate_subscription_webhook_def split: option.splits sum.splits)


text \<open>A member of the sample team subscribes to everything by webhook.\<close>

definition hook_url :: url where
  "hook_url = \<lparr>url_protocol = ''https:'', url_hostname = ''9.9.9.9'', url_port = [], url_pathname = ''/'', url_search = []\<rparr>"

definition hook_values :: subscription_values where
  "hook_values = \<lparr>sf_rule = [], sf_channel = ''WEBHOOK'', sf_url = ''https://9.9.9.9/'', sf_secret = [],
     sf_severities = [''HIGH'']\<rparr>"

definition offline :: dispatch_env where
  "offline = \<lparr>de_lib = fixed_lib, de_url = (\<lambda>_. Some hook_url),
     de_guard = (\<lambda>_ _. \<lparr>ge_allowlist = None, ge_nat64 = None, ge_lookup = (\<lambda>_. None)\<rparr>),
     de_net = (\<lambda>_ _ _. Inl ''offline''), de_opts = \<lparr>lo_family = 0, lo_all = False\<rparr>, de_hmac = (\<lambda>_ _. [])\<rparr>"

definition sub_desk :: sub_env where
  "sub_desk = \<lparr>sb_lib = fixed_lib, sb_clock = \<lparr>now = 1, uuid = ''n1''\<rparr>, sb_url = (\<lambda>_. Some hook_url),
     sb_guard = \<lparr>ge_allowlist = None, ge_nat64 = None, ge_lookup = (\<lambda>_. None)\<rparr>, sb_dispatch = offline,
     sb_create = create_subscription_schema JNull, sb_update = update_subscription_schema JNull\<rparr>"

lemma hook_built: "\<exists>p. build_subscription_payload (\<lambda>_. Some hook_url) ''t1'' hook_values [] = Inr p"
proof -
  have "trim ''https://9.9.9.9/'' = ''https://9.9.9.9/''" by code_simp
  then show ?thesis
    by (simp add: build_subscription_payload_def hook_values_def is_channel_def subscription_channels_def hook_url_def Let_def)
qed


end
