(* ===== verification/SubscriptionPage.thy ===== *)
theory SubscriptionPage imports SubscriptionForm "HOL-Library.AList" begin

text \<open>
  The subscriptions page (\<open>subscriptions-view.tsx\<close> and \<open>toSubscriptionRow\<close>, with the label of
  \<open>subscription-rule-label.ts\<close>): the handlers of its list, each in two halves, up to the request and after
  the answer; and that the list keeps up with the backend's.
\<close>

section \<open>Rows\<close>

definition row_keys :: "string list" where
  "row_keys = [''id'', ''userId'', ''teamId'', ''ruleId'', ''channel'', ''severities'', ''enabled'', ''createdAt'', ''rule'']"

definition to_subscription_row :: "json \<Rightarrow> json" where
  "to_subscription_row v = json_body (map (\<lambda>k. (k, field k v)) row_keys)"

definition shown_id :: "json \<Rightarrow> string" where
  "shown_id v = the_or [] (str_of (field ''id'' v))"

text \<open>\<open>{ ...v, k: x }\<close>\<close>

definition with_key :: "string \<Rightarrow> json option \<Rightarrow> json \<Rightarrow> json" where
  "with_key k x v =
     (case v of
        JObj kvs \<Rightarrow> JObj (case x of None \<Rightarrow> AList.delete k kvs | Some y \<Rightarrow> AList.update k y kvs)
      | _ \<Rightarrow> json_body [(k, x)])"

definition subscription_rule_label :: "json \<Rightarrow> string" where
  "subscription_rule_label sub =
     (if truthy_json (field ''rule'' sub)
      then ''Rule: '' @ the_or ''undefined'' (str_of (field ''name'' (the_or JNull (field ''rule'' sub))))
      else if field ''ruleId'' sub \<noteq> Some JNull then ''Rule unavailable'' else ''All rules in team'')"

section \<open>Handlers\<close>

datatype notice = OkNotice string | ErrorNotice string

record sub_page =
  vp_items :: "json list"
  vp_form :: "bool \<times> string"
  vp_busy :: "string option"
  vp_error :: "string option"
  vp_notices :: "(string \<times> notice) list"

definition page_opened :: "json list \<Rightarrow> sub_page" where
  "page_opened subs =
     \<lparr>vp_items = map to_subscription_row subs, vp_form = (False, []), vp_busy = None, vp_error = None, vp_notices = []\<rparr>"

definition page_refreshed :: "json list \<Rightarrow> sub_page \<Rightarrow> sub_page" where
  "page_refreshed subs p = p\<lparr>vp_items := map to_subscription_row subs\<rparr>"

definition open_form :: "string \<Rightarrow> sub_page \<Rightarrow> sub_page" where
  "open_form rule p = p\<lparr>vp_form := (True, rule)\<rparr>"

definition close_form :: "sub_page \<Rightarrow> sub_page" where
  "close_form p = p\<lparr>vp_form := (False, snd (vp_form p))\<rparr>"

text \<open>\<open>const { subscription } = await ...\<close>; the backend always answers one.\<close>

definition subscription_in :: "string + json option \<Rightarrow> string + json" where
  "subscription_in r =
     (case r of
        Inl e \<Rightarrow> Inl e
      | Inr body \<Rightarrow>
          (case Option.bind body (field ''subscription'') of
             None \<Rightarrow> Inl ''Cannot read properties of undefined''
           | Some sub \<Rightarrow> Inr sub))"

text \<open>\<open>create\<close> after its request: what it throws to the form, and the page. \<open>rules\<close> are the ids and names of
  the team's rules.\<close>

definition subscription_created ::
  "(ident \<times> string) list \<Rightarrow> string + json option \<Rightarrow> sub_page \<Rightarrow> string option \<times> sub_page" where
  "subscription_created rules r p =
     (case subscription_in r of
        Inl e \<Rightarrow> (Some e, p)
      | Inr sub \<Rightarrow>
          (let rule = List.find (\<lambda>(i, n). field ''ruleId'' sub = Some (JStr i)) rules;
               shown = to_subscription_row (with_key ''rule'' (Some (case rule of None \<Rightarrow> JNull
                 | Some (i, n) \<Rightarrow> JObj [(''id'', JStr i), (''name'', JStr n)])) sub) in
           (None, p\<lparr>vp_items := shown # filter (\<lambda>s. shown_id s \<noteq> shown_id sub) (vp_items p), vp_error := None\<rparr>)))"

definition row_busy :: "json \<Rightarrow> sub_page \<Rightarrow> sub_page" where
  "row_busy sub p = p\<lparr>vp_busy := Some (shown_id sub), vp_error := None\<rparr>"

definition toggle_call :: "string \<Rightarrow> json \<Rightarrow> api_call" where
  "toggle_call tok sub =
     update_subscription_call (shown_id sub) tok (JObj [(''enabled'', JBool (\<not> truthy_json (field ''enabled'' sub)))])"

definition enabled_toggled :: "json \<Rightarrow> string + json option \<Rightarrow> sub_page \<Rightarrow> sub_page" where
  "enabled_toggled sub r p =
     (case subscription_in r of
        Inl e \<Rightarrow> p\<lparr>vp_error := Some e, vp_busy := None\<rparr>
      | Inr new \<Rightarrow>
          p\<lparr>vp_items := map (\<lambda>s. if shown_id s = shown_id sub then with_key ''enabled'' (field ''enabled'' new) s else s)
               (vp_items p), vp_busy := None\<rparr>)"

definition subscription_removed :: "json \<Rightarrow> string + json option \<Rightarrow> sub_page \<Rightarrow> sub_page" where
  "subscription_removed sub r p =
     (case r of
        Inl e \<Rightarrow> p\<lparr>vp_error := Some e, vp_busy := None\<rparr>
      | Inr _ \<Rightarrow> p\<lparr>vp_items := filter (\<lambda>s. shown_id s \<noteq> shown_id sub) (vp_items p), vp_busy := None\<rparr>)"

definition test_started :: "json \<Rightarrow> sub_page \<Rightarrow> sub_page" where
  "test_started sub p = p\<lparr>vp_busy := Some (shown_id sub), vp_notices := filter (\<lambda>n. fst n \<noteq> shown_id sub) (vp_notices p)\<rparr>"

definition test_settled :: "json \<Rightarrow> string + json option \<Rightarrow> sub_page \<Rightarrow> sub_page" where
  "test_settled sub r p =
     p\<lparr>vp_notices := AList.update (shown_id sub)
         (case r of
            Inl e \<Rightarrow> ErrorNotice e
          | Inr None \<Rightarrow> ErrorNotice ''Cannot read properties of undefined (reading 'message')''
          | Inr (Some body) \<Rightarrow>
              (case str_of (field ''message'' body) of
                 Some (c # cs) \<Rightarrow> OkNotice (c # cs)
               | _ \<Rightarrow> OkNotice ''Test notification sent'')) (vp_notices p), vp_busy := None\<rparr>"

text \<open>The page remembers one busy row: acting on a second row frees the controls of the first, whose request
  is still in flight.\<close>

lemma second_row_frees_the_first:
  "shown_id a \<noteq> shown_id b \<Longrightarrow> vp_busy (row_busy b (row_busy a p)) \<noteq> Some (shown_id a)"
  by (simp add: row_busy_def)

section \<open>What the backend answers\<close>

fun channel_text :: "channel \<Rightarrow> string" where
  "channel_text Email = ''EMAIL''"
| "channel_text Webhook = ''WEBHOOK''"
| "channel_text Slack = ''SLACK''"
| "channel_text MsTeams = ''MSTEAMS''"

definition sub_fields :: "js_lib \<Rightarrow> sub_row \<Rightarrow> (string \<times> json) list" where
  "sub_fields L s =
     [(''id'', JStr (sub_id s)), (''userId'', JStr (sub_user s)), (''teamId'', JStr (sub_team s)),
      (''ruleId'', case sub_rule s of None \<Rightarrow> JNull | Some r \<Rightarrow> JStr r), (''channel'', JStr (channel_text (sub_channel s))),
      (''config'', sub_config s), (''severities'', JArr (map JStr (sub_severities s))), (''enabled'', JBool (sub_enabled s)),
      (''createdAt'', JStr (date_iso L (sub_created s)))]"

definition rule_json :: "(ident \<times> string) option \<Rightarrow> json" where
  "rule_json r = (case r of None \<Rightarrow> JNull | Some (i, n) \<Rightarrow> JObj [(''id'', JStr i), (''name'', JStr n)])"

definition listed_json :: "js_lib \<Rightarrow> sub_row \<times> (ident \<times> string) option \<Rightarrow> json" where
  "listed_json L x = JObj (sub_fields L (fst x) @ [(''rule'', rule_json (snd x))])"

definition sub_body_json :: "js_lib \<Rightarrow> sub_payload \<Rightarrow> json" where
  "sub_body_json L b =
     (case b of
        SubsBody xs \<Rightarrow> JObj [(''subscriptions'', JArr (map (listed_json L) xs))]
      | SubBody s \<Rightarrow> JObj [(''subscription'', JObj (sub_fields L s))]
      | TestSent m \<Rightarrow> JObj [(''ok'', JBool True), (''message'', JStr m)])"

section \<open>One action of the user, through the backend\<close>

datatype page_action = CreateIt subscription_payload | ToggleIt json | DeleteIt json

definition sub_request :: "http_req \<Rightarrow> string \<Rightarrow> api_call \<Rightarrow> http_req" where
  "sub_request q i c = q\<lparr>hr_body := ac_body c, hr_params := (\<lambda>_. i)\<rparr>"

definition sub_reply_to :: "sub_env \<Rightarrow> sub_endpoint \<Rightarrow> http_req \<Rightarrow> db \<Rightarrow> api_call \<Rightarrow> string + json option" where
  "sub_reply_to S ep q d c =
     api_request (\<lambda>_. Inr (wire_response (sub_body_json (sb_lib S)) (fst (serve_sub S ep q d)))) c"

text \<open>\<open>q\<close> carries the session of the page.\<close>

fun page_act ::
  "sub_env \<Rightarrow> http_req \<Rightarrow> string \<Rightarrow> (ident \<times> string) list \<Rightarrow> page_action \<Rightarrow> sub_page \<times> db \<Rightarrow> sub_page \<times> db" where
  "page_act S q tok rules (CreateIt p) (pg, d) =
     (let c = create_subscription_call tok (subscription_json p); q' = sub_request q [] c in
      (snd (subscription_created rules (sub_reply_to S PostSub q' d c) pg), snd (serve_sub S PostSub q' d)))"
| "page_act S q tok rules (ToggleIt row) (pg, d) =
     (let c = toggle_call tok row; q' = sub_request q (shown_id row) c in
      (enabled_toggled row (sub_reply_to S PutSub q' d c) (row_busy row pg), snd (serve_sub S PutSub q' d)))"
| "page_act S q tok rules (DeleteIt row) (pg, d) =
     (let c = delete_subscription_call (shown_id row) tok; q' = sub_request q (shown_id row) c in
      (subscription_removed row (sub_reply_to S DeleteSub q' d c) (row_busy row pg), snd (serve_sub S DeleteSub q' d)))"

section \<open>The page and the list of the backend\<close>

definition mine :: "ident \<Rightarrow> ident \<Rightarrow> sub_row \<Rightarrow> bool" where
  "mine u team s \<longleftrightarrow> sub_user s = u \<and> sub_team s = team"

definition shown_row :: "js_lib \<Rightarrow> db \<Rightarrow> ident \<Rightarrow> sub_row \<Rightarrow> json" where
  "shown_row L d team s = to_subscription_row (listed_json L (s, listed_rule d team s))"

text \<open>The page shows what a fresh load would show.\<close>

definition mirrors :: "js_lib \<Rightarrow> ident \<Rightarrow> ident \<Rightarrow> db \<Rightarrow> sub_page \<Rightarrow> bool" where
  "mirrors L u team d p \<longleftrightarrow> vp_items p = vp_items (page_opened (map (listed_json L) (list_by_user u team d)))"

lemma mirrors_iff: "mirrors L u team d p \<longleftrightarrow>
    vp_items p = map (shown_row L d team) (sort_key (\<lambda>s. - sub_created s) (filter (mine u team) (db_subs d)))"
  by (simp add: mirrors_def page_opened_def list_by_user_def Let_def shown_row_def [abs_def] comp_def mine_def [abs_def])

text \<open>The rules the page was given are those of the team.\<close>

definition rules_of_team :: "ident \<Rightarrow> db \<Rightarrow> (ident \<times> string) list \<Rightarrow> bool" where
  "rules_of_team team d rules \<longleftrightarrow>
     (\<forall>i. List.find (\<lambda>r. fst r = i) rules
        = (case rule_by_id d i of Some r \<Rightarrow> if r_team r = team then Some (r_id r, r_name r) else None | None \<Rightarrow> None))"

lemma listed_by_page:
  assumes "rules_of_team team d rules"
  shows "listed_rule d team s = (case sub_rule s of None \<Rightarrow> None | Some i \<Rightarrow> List.find (\<lambda>r. fst r = i) rules)"
  using assms by (simp add: listed_rule_def rules_of_team_def split: option.splits)

lemma row_fields:
  "shown_id (shown_row L d team s) = sub_id s"
  "field ''enabled'' (shown_row L d team s) = Some (JBool (sub_enabled s))"
  by (simp_all add: shown_id_def shown_row_def to_subscription_row_def row_keys_def json_body_def List.map_filter_simps
      listed_json_def sub_fields_def field_def)

lemma row_with_enabled:
  "with_key ''enabled'' (Some (JBool b)) (shown_row L d team s) = shown_row L d team (s\<lparr>sub_enabled := b\<rparr>)"
  by (simp add: with_key_def shown_row_def to_subscription_row_def row_keys_def json_body_def List.map_filter_simps
      listed_json_def sub_fields_def field_def listed_rule_def split: option.splits)

lemma created_row:
  "to_subscription_row (with_key ''rule'' (Some (rule_json r)) (JObj (sub_fields L s))) = to_subscription_row (listed_json L (s, r))"
  by (simp add: with_key_def to_subscription_row_def row_keys_def json_body_def List.map_filter_simps listed_json_def
      sub_fields_def field_def)

text \<open>The URL, the hook and the secret of a subscription are not in what the page holds.\<close>

lemma rows_carry_no_config: "field ''config'' (to_subscription_row v) = None"
  unfolding to_subscription_row_def
  by (subst field_json_body) (simp_all add: row_keys_def)

section \<open>Replies as the handlers read them\<close>

lemma reply_ok:
  assumes "fst (serve_sub S ep q d) = done_with st (SubBody s)" and "200 \<le> st" and "st < 300" and "st \<noteq> 204"
  shows "subscription_in (sub_reply_to S ep q d c) = Inr (JObj (sub_fields (sb_lib S) s))"
  using assms
  by (simp add: sub_reply_to_def subscription_in_def api_request_def wire_response_def done_with_def answer_def
      sub_body_json_def field_def)

lemma reply_refused:
  assumes "\<not> success (re_status (fst (serve_sub S ep q d)))"
  shows "\<exists>e. sub_reply_to S ep q d c = Inl e \<and> subscription_in (sub_reply_to S ep q d c) = Inl e"
  using assms by (auto simp: sub_reply_to_def subscription_in_def api_request_def wire_response_def success_def)

section \<open>Each action keeps up\<close>

lemma shown_row_rules: "db_rules d' = db_rules d \<Longrightarrow> shown_row L d' team = shown_row L d team"
  by (simp add: fun_eq_iff shown_row_def listed_rule_def rule_by_id_def cong: option.case_cong)

lemma found_rule:
  "List.find (\<lambda>(i, n). field ''ruleId'' (JObj (sub_fields L s)) = Some (JStr i)) rules
     = (case sub_rule s of None \<Rightarrow> None | Some i \<Rightarrow> List.find (\<lambda>r. fst r = i) rules)"
  by (induction rules) (auto simp: sub_fields_def field_def split: option.splits)

lemma mirrors_created:
  assumes "mirrors L u team d pg" and "rules_of_team team d rules" and "mine u team s"
    and "sub_id s \<notin> sub_id ` set (db_subs d)" and "\<forall>x \<in> set (db_subs d). mine u team x \<longrightarrow> sub_created x < sub_created s"
    and "subscription_in r = Inr (JObj (sub_fields L s))"
  shows "mirrors L u team (d\<lparr>db_subs := db_subs d @ [s]\<rparr>) (snd (subscription_created rules r pg))"
proof -
  let ?rows = "sort_key (\<lambda>s. - sub_created s) (filter (mine u team) (db_subs d))"
  have shown: "to_subscription_row (with_key ''rule'' (Some (rule_json (listed_rule d team s))) (JObj (sub_fields L s)))
      = shown_row L d team s"
    by (simp add: created_row shown_row_def)
  have id: "shown_id (JObj (sub_fields L s)) = sub_id s" by (simp add: shown_id_def sub_fields_def field_def)
  have "filter (\<lambda>x. shown_id x \<noteq> sub_id s) (map (shown_row L d team) ?rows) = map (shown_row L d team) ?rows"
    by (rule filter_True) (use assms(4) in \<open>fastforce simp: row_fields image_iff\<close>)
  moreover have "sort_key (\<lambda>s. - sub_created s) (filter (mine u team) (db_subs d) @ [s]) = s # ?rows"
    by (rule sort_key_newest) (use assms(5) in auto)
  ultimately show ?thesis
    using assms(1,3,6) shown
    by (simp add: mirrors_iff subscription_created_def found_rule listed_by_page [OF assms(2), symmetric] id Let_def
        rule_json_def [symmetric] shown_row_rules [where d = d and d' = "d\<lparr>db_subs := x\<rparr>" for x])
qed

text \<open>A row of the page is a row of the table, and the caller's own.\<close>

lemma mirrored_row:
  assumes "mirrors L u team d pg" and "row \<in> set (vp_items pg)"
  obtains s where "s \<in> set (db_subs d)" "mine u team s" "row = shown_row L d team s"
  using assms by (auto simp: mirrors_iff)

lemma own_sub_found:
  assumes "s \<in> set (db_subs d)" and "sub_user s = u" and "distinct (map sub_id (db_subs d))"
  shows "List.find (own_sub (sub_id s) u) (db_subs d) = Some s"
proof (cases "List.find (own_sub (sub_id s) u) (db_subs d)")
  case None
  then show ?thesis using assms(1,2) by (simp add: find_None_iff' own_sub_def)
next
  case (Some x)
  then have "x \<in> set (db_subs d)" "sub_id x = sub_id s" by (auto simp: own_sub_def dest: find_SomeD)
  then show ?thesis using Some assms(1,3) by (simp add: distinct_map inj_on_def)
qed

lemma mirrors_toggled:
  assumes "mirrors L u team d pg" and "distinct (map sub_id (db_subs d))" and "s \<in> set (db_subs d)" and "mine u team s"
    and "shown_id row = sub_id s" and "subscription_in r = Inr (JObj (sub_fields L (s\<lparr>sub_enabled := b\<rparr>)))"
  shows "mirrors L u team
    (d\<lparr>db_subs := update_first (own_sub (sub_id s) u) (\<lambda>s. s\<lparr>sub_enabled := b\<rparr>) (db_subs d)\<rparr>) (enabled_toggled row r pg)"
proof -
  let ?g = "\<lambda>x::sub_row. if sub_id x = sub_id s then x\<lparr>sub_enabled := b\<rparr> else x"
  have "update_first (own_sub (sub_id s) u) (\<lambda>s. s\<lparr>sub_enabled := b\<rparr>) (db_subs d) = map ?g (db_subs d)"
    using assms(2-4) by (intro update_first_keyed) (auto simp: own_sub_def mine_def)
  moreover have "filter (mine u team) (map ?g xs) = map ?g (filter (mine u team) xs)" for xs
    by (induction xs) (auto simp: mine_def)
  moreover have "sort_key (\<lambda>s. - sub_created s) (map ?g xs) = map ?g (sort_key (\<lambda>s. - sub_created s) xs)" for xs
    by (rule sort_key_map) simp
  ultimately have rows: "map (shown_row L d team) (sort_key (\<lambda>s. - sub_created s)
        (filter (mine u team) (update_first (own_sub (sub_id s) u) (\<lambda>s. s\<lparr>sub_enabled := b\<rparr>) (db_subs d))))
    = map (shown_row L d team \<circ> ?g) (sort_key (\<lambda>s. - sub_created s) (filter (mine u team) (db_subs d)))"
    by (simp only: map_map)
  have enabled: "field ''enabled'' (JObj (sub_fields L (s\<lparr>sub_enabled := b\<rparr>))) = Some (JBool b)"
    by (simp add: sub_fields_def field_def)
  have "vp_items (enabled_toggled row r pg) = map (shown_row L d team \<circ> ?g)
      (sort_key (\<lambda>s. - sub_created s) (filter (mine u team) (db_subs d)))"
    using assms(1) by (simp add: enabled_toggled_def assms(5,6) enabled mirrors_iff row_fields row_with_enabled)
  then show ?thesis
    by (simp add: mirrors_iff rows shown_row_rules [where d = d and d' = "d\<lparr>db_subs := x\<rparr>" for x])
qed

lemma mirrors_removed:
  assumes "mirrors L u team d pg" and "distinct (map sub_id (db_subs d))" and "s \<in> set (db_subs d)" and "mine u team s"
    and "shown_id row = sub_id s"
  shows "mirrors L u team (d\<lparr>db_subs := delete_first (own_sub (sub_id s) u) (db_subs d)\<rparr>)
    (subscription_removed row (Inr body) pg)"
proof -
  have "delete_first (own_sub (sub_id s) u) (db_subs d) = filter (\<lambda>x. sub_id x \<noteq> sub_id s) (db_subs d)"
    using assms(2-4) by (intro delete_first_keyed) (auto simp: own_sub_def mine_def)
  moreover have "filter (\<lambda>x. sub_id x \<noteq> sub_id s \<and> mine u team x) xs
      = filter (\<lambda>x. mine u team x \<and> sub_id x \<noteq> sub_id s) xs" for xs
    by (simp add: conj_commute)
  ultimately show ?thesis
    using assms(1,5)
    by (simp add: mirrors_iff subscription_removed_def row_fields filter_map comp_def filter_sort
        shown_row_rules [where d = d and d' = "d\<lparr>db_subs := x\<rparr>" for x])
qed

section \<open>A whole visit\<close>

definition page_inv :: "js_lib \<Rightarrow> ident \<Rightarrow> ident \<Rightarrow> (ident \<times> string) list \<Rightarrow> sub_page \<times> db \<Rightarrow> bool" where
  "page_inv L u team rules st \<longleftrightarrow>
     mirrors L u team (snd st) (fst st) \<and> rules_of_team team (snd st) rules \<and> distinct (map sub_id (db_subs (snd st)))"

text \<open>The backend with its schemas, at a time after the rows it holds, with an unused id at hand.\<close>

definition desk_ready :: "js_lib \<Rightarrow> sub_env \<Rightarrow> http_req \<Rightarrow> ident \<Rightarrow> db \<Rightarrow> bool" where
  "desk_ready L S q u d \<longleftrightarrow>
     sb_lib S = L \<and> (\<exists>err. sb_create S = create_subscription_schema err) \<and> (\<exists>err. sb_update S = update_subscription_schema err)
     \<and> resolve_user_id (now (sb_clock S)) q d = Some u \<and> uuid (sb_clock S) \<notin> sub_id ` set (db_subs d)
     \<and> (\<forall>x \<in> set (db_subs d). sub_created x < now (sb_clock S))"

text \<open>The form subscribes in the page's team; the controls of a row act on that row.\<close>

fun offered :: "ident \<Rightarrow> page_action \<Rightarrow> sub_page \<Rightarrow> bool" where
  "offered team (CreateIt p) pg \<longleftrightarrow> sy_team p = team"
| "offered team (ToggleIt row) pg \<longleftrightarrow> row \<in> set (vp_items pg)"
| "offered team (DeleteIt row) pg \<longleftrightarrow> row \<in> set (vp_items pg)"

lemma same_caller: "resolve_user_id t (sub_request q i c) d = resolve_user_id t q d"
  by (simp add: resolve_user_id_def sub_request_def)

lemma team_of_payload: "RouteSchemas.team_id (subscription_json p) = Some t \<Longrightarrow> t = sy_team p"
  by (simp add: team_id_def required_key_def payload_fields min_text_def refine_def string_schema_def split: if_splits)

lemma created_in_team:
  assumes "create_subscription_schema err (Some (subscription_json p)) = Inr i"
  shows "nsi_team i = sy_team p"
proof -
  obtain kvs where kvs: "subscription_json p = JObj kvs" by (simp add: subscription_json_def json_body_def)
  with assms show ?thesis
    by (auto simp: create_subscription_schema_def object_body_def bind_eq_Some_conv dest: team_of_payload [of p, unfolded kvs]
        split: option.splits)
qed

text \<open>\<open>POST\<close>: the new row is answered with 201, or nothing changes and the answer is a refusal.\<close>

lemma post_sub_outcomes:
  assumes "resolve_user_id (now (sb_clock S)) q d = Some u"
  shows "snd (serve_sub S PostSub q d) = d \<and> \<not> success (re_status (fst (serve_sub S PostSub q d)))
    \<or> (\<exists>i s. sb_create S (hr_body q) = Inr i \<and> serve_sub S PostSub q d = (done_with 201 (SubBody s), d\<lparr>db_subs := db_subs d @ [s]\<rparr>)
         \<and> sub_id s = uuid (sb_clock S) \<and> sub_user s = u \<and> sub_team s = nsi_team i \<and> sub_created s = now (sb_clock S))"
  using assms
  by (auto simp: serve_sub_def require_auth_def post_sub_def as_member_cases create_sub_def Let_def success_def refuse_def
      answer_def forbidden_def split: sum.splits option.splits)

lemma create_keeps_up:
  assumes "page_inv L u team rules (pg, d)" and "desk_ready L S q u d" and "sy_team p = team"
  shows "page_inv L u team rules (page_act S q tok rules (CreateIt p) (pg, d))"
proof -
  define c where "c = create_subscription_call tok (subscription_json p)"
  define q' where "q' = sub_request q [] c"
  have caller: "resolve_user_id (now (sb_clock S)) q' d = Some u" and L: "sb_lib S = L"
    using assms(2) by (simp_all add: desk_ready_def q'_def same_caller)
  have act: "page_act S q tok rules (CreateIt p) (pg, d)
      = (snd (subscription_created rules (sub_reply_to S PostSub q' d c) pg), snd (serve_sub S PostSub q' d))"
    by (simp add: Let_def c_def q'_def)
  consider "snd (serve_sub S PostSub q' d) = d" "\<not> success (re_status (fst (serve_sub S PostSub q' d)))"
    | i s where "sb_create S (hr_body q') = Inr i"
      "serve_sub S PostSub q' d = (done_with 201 (SubBody s), d\<lparr>db_subs := db_subs d @ [s]\<rparr>)"
      "sub_id s = uuid (sb_clock S)" "sub_user s = u" "sub_team s = nsi_team i" "sub_created s = now (sb_clock S)"
    using post_sub_outcomes [OF caller] by blast
  then show ?thesis
  proof cases
    case 1
    then obtain e where "subscription_in (sub_reply_to S PostSub q' d c) = Inl e" using reply_refused by blast
    with 1 show ?thesis using assms(1) unfolding act by (simp add: subscription_created_def)
  next
    case 2
    have "nsi_team i = team"
      using 2(1) assms(2,3) created_in_team
      by (auto simp: desk_ready_def q'_def sub_request_def c_def create_subscription_call_def authed_def)
    moreover have "subscription_in (sub_reply_to S PostSub q' d c) = Inr (JObj (sub_fields L s))"
      using reply_ok [of S PostSub q' d 201 s] 2(2) L by simp
    ultimately show ?thesis
      unfolding act using assms(1,2) 2 mirrors_created [of L u team d pg rules s]
      by (auto simp: page_inv_def mine_def desk_ready_def rules_of_team_def rule_by_id_def)
  qed
qed

lemma own_row:
  assumes "page_inv L u team rules (pg, d)" and "row \<in> set (vp_items pg)"
  obtains s where "s \<in> set (db_subs d)" "mine u team s" "shown_id row = sub_id s"
    "field ''enabled'' row = Some (JBool (sub_enabled s))" "List.find (own_sub (sub_id s) u) (db_subs d) = Some s"
proof -
  have inv: "mirrors L u team d pg" "distinct (map sub_id (db_subs d))" using assms(1) by (simp_all add: page_inv_def)
  obtain s where s: "s \<in> set (db_subs d)" "mine u team s" "row = shown_row L d team s"
    using inv(1) assms(2) by (rule mirrored_row)
  moreover have "List.find (own_sub (sub_id s) u) (db_subs d) = Some s"
    using s(1,2) inv(2) by (simp add: own_sub_found mine_def)
  ultimately show thesis using that row_fields by simp
qed

lemma toggle_keeps_up:
  assumes "page_inv L u team rules (pg, d)" and "desk_ready L S q u d" and "row \<in> set (vp_items pg)"
  shows "page_inv L u team rules (page_act S q tok rules (ToggleIt row) (pg, d))"
proof -
  obtain s where s: "s \<in> set (db_subs d)" "mine u team s" "shown_id row = sub_id s"
    "field ''enabled'' row = Some (JBool (sub_enabled s))" "List.find (own_sub (sub_id s) u) (db_subs d) = Some s"
    using assms(1,3) by (rule own_row)
  let ?b = "\<not> sub_enabled s" and ?c = "toggle_call tok row"
  let ?p = "\<lparr>sp_channel = None, sp_config = None, sp_severities = None, sp_enabled = Some ?b\<rparr>"
  let ?q = "sub_request q (sub_id s) ?c"
  have patch: "apply_sub_patch ?p = (\<lambda>x. x\<lparr>sub_enabled := ?b\<rparr>)" by (simp add: apply_sub_patch_def fun_eq_iff)
  have target: "hr_params ?q ''id'' = sub_id s" by (simp add: sub_request_def)
  have caller: "resolve_user_id (now (sb_clock S)) ?q d = Some u" using assms(2) by (simp add: desk_ready_def same_caller)
  have "sb_update S (hr_body ?q) = Inr ?p"
    using assms(2) s(4)
    by (auto simp: desk_ready_def update_subscription_schema_def object_body_def toggle_call_def sub_request_def
        update_subscription_call_def authed_def body_schemas field_def truthy_json_def)
  then have served: "serve_sub S PutSub ?q d = (done_with 200 (SubBody (s\<lparr>sub_enabled := ?b\<rparr>)),
      d\<lparr>db_subs := update_first (own_sub (sub_id s) u) (\<lambda>x. x\<lparr>sub_enabled := ?b\<rparr>) (db_subs d)\<rparr>)"
    using caller s(5)
    by (simp add: serve_sub_def require_auth_def put_sub_def validate_subscription_webhook_def truthy_def update_sub_def
        settle_def patch target)
  have "subscription_in (sub_reply_to S PutSub ?q d ?c) = Inr (JObj (sub_fields L (s\<lparr>sub_enabled := ?b\<rparr>)))"
    using reply_ok [of S PutSub ?q d 200 "s\<lparr>sub_enabled := ?b\<rparr>"] served assms(2) by (simp add: desk_ready_def)
  moreover have "mirrors L u team d (row_busy row pg)" using assms(1) by (simp add: page_inv_def mirrors_def row_busy_def)
  moreover have "map sub_id (update_first P (\<lambda>x. x\<lparr>sub_enabled := ?b\<rparr>) xs) = map sub_id xs" for P and xs :: "sub_row list"
    by (rule map_update_first_key) simp
  ultimately show ?thesis
    using assms(1) s(1-3) mirrors_toggled [of L u team d "row_busy row pg" s row _ ?b]
    unfolding page_act.simps Let_def s(3) served by (simp add: page_inv_def rules_of_team_def rule_by_id_def)
qed

lemma delete_keeps_up:
  assumes "page_inv L u team rules (pg, d)" and "desk_ready L S q u d" and "row \<in> set (vp_items pg)"
  shows "page_inv L u team rules (page_act S q tok rules (DeleteIt row) (pg, d))"
proof -
  obtain s where s: "s \<in> set (db_subs d)" "mine u team s" "shown_id row = sub_id s"
    "List.find (own_sub (sub_id s) u) (db_subs d) = Some s"
    using assms(1,3) by (rule own_row)
  let ?c = "delete_subscription_call (shown_id row) tok"
  let ?q = "sub_request q (shown_id row) ?c"
  have served: "serve_sub S DeleteSub ?q d
      = (answer 204 NoBody, d\<lparr>db_subs := delete_first (own_sub (sub_id s) u) (db_subs d)\<rparr>)"
    using assms(2) s(3,4)
    by (simp add: serve_sub_def require_auth_def same_caller desk_ready_def remove_sub_def delete_sub_def settle_def,
        simp add: sub_request_def)
  then have "sub_reply_to S DeleteSub ?q d ?c = Inr None"
    by (simp add: sub_reply_to_def api_request_def wire_response_def answer_def)
  moreover have "mirrors L u team d (row_busy row pg)" using assms(1) by (simp add: page_inv_def mirrors_def row_busy_def)
  ultimately show ?thesis
    using assms(1) s(1-3) mirrors_removed [of L u team d "row_busy row pg" s row None]
    unfolding page_act.simps Let_def served by (simp add: page_inv_def rules_of_team_def rule_by_id_def distinct_delete_first)
qed

text \<open>The actions of a visit, each with the backend as it is then.\<close>

fun visit :: "http_req \<Rightarrow> string \<Rightarrow> (ident \<times> string) list \<Rightarrow> (sub_env \<times> page_action) list \<Rightarrow> sub_page \<times> db \<Rightarrow> sub_page \<times> db" where
  "visit q tok rules [] st = st"
| "visit q tok rules ((S, act) # acts) st = visit q tok rules acts (page_act S q tok rules act st)"

fun visit_ok ::
  "js_lib \<Rightarrow> ident \<Rightarrow> ident \<Rightarrow> http_req \<Rightarrow> string \<Rightarrow> (ident \<times> string) list \<Rightarrow> (sub_env \<times> page_action) list \<Rightarrow> sub_page \<times> db \<Rightarrow> bool" where
  "visit_ok L u team q tok rules [] st \<longleftrightarrow> True"
| "visit_ok L u team q tok rules ((S, act) # acts) st \<longleftrightarrow>
     desk_ready L S q u (snd st) \<and> offered team act (fst st)
     \<and> visit_ok L u team q tok rules acts (page_act S q tok rules act st)"

lemma act_keeps_up:
  assumes "page_inv L u team rules st" and "desk_ready L S q u (snd st)" and "offered team act (fst st)"
  shows "page_inv L u team rules (page_act S q tok rules act st)"
  using assms create_keeps_up toggle_keeps_up delete_keeps_up by (cases st; cases act) auto

lemma visit_keeps_up:
  "page_inv L u team rules st \<Longrightarrow> visit_ok L u team q tok rules acts st \<Longrightarrow>
   page_inv L u team rules (visit q tok rules acts st)"
  by (induction q tok rules acts st rule: visit.induct) (simp_all add: act_keeps_up)

text \<open>C18: the subscriptions page never shows a stale list. A page loaded from the backend shows after any
  sequence of its own actions, whether the backend accepts them or refuses them, exactly the rows a
  fresh load would show, in the same order; what it shows carries no configuration.\<close>

theorem page_shows_what_a_reload_would:
  assumes "rules_of_team team d rules" and "distinct (map sub_id (db_subs d))"
    and "visit_ok L u team q tok rules acts (page_opened (map (listed_json L) (list_by_user u team d)), d)"
    and "visit q tok rules acts (page_opened (map (listed_json L) (list_by_user u team d)), d) = (pg, d')"
  shows "vp_items pg = vp_items (page_opened (map (listed_json L) (list_by_user u team d')))
    \<and> list_all (\<lambda>row. field ''config'' row = None) (vp_items pg)"
proof -
  have "page_inv L u team rules (page_opened (map (listed_json L) (list_by_user u team d)), d)"
    using assms(1,2) by (simp add: page_inv_def mirrors_def)
  then have "page_inv L u team rules (pg, d')" using visit_keeps_up assms(3,4) by metis
  then show ?thesis
    by (auto simp: page_inv_def mirrors_def page_opened_def list_all_iff rows_carry_no_config)
qed

theorem page_shows_what_a_reload_would_witness:
  "\<exists>p pg d'. build_subscription_payload (\<lambda>_. Some hook_url) ''t1'' hook_values [] = Inr p
     \<and> visit (call_as ''tok'' []) ''tok'' [] [(sub_desk, CreateIt p)]
         (page_opened (map (listed_json fixed_lib) (list_by_user ''u1'' ''t1'' two_teams)), two_teams) = (pg, d')
     \<and> vp_items pg = vp_items (page_opened (map (listed_json fixed_lib) (list_by_user ''u1'' ''t1'' d')))"
proof -
  obtain p where p: "build_subscription_payload (\<lambda>_. Some hook_url) ''t1'' hook_values [] = Inr p" using hook_built by blast
  then obtain parsed where team: "sy_team p = ''t1''" by (rule built_payload)
  let ?st = "(page_opened (map (listed_json fixed_lib) (list_by_user ''u1'' ''t1'' two_teams)), two_teams)"
  obtain pg d' where run: "visit (call_as ''tok'' []) ''tok'' [] [(sub_desk, CreateIt p)] ?st = (pg, d')"
    by (cases "visit (call_as ''tok'' []) ''tok'' [] [(sub_desk, CreateIt p)] ?st")
  have rules: "rules_of_team ''t1'' two_teams []" by (simp add: rules_of_team_def rule_by_id_def two_teams_def empty_db_def)
  have "resolve_user_id 1 (call_as ''tok'' []) two_teams = Some ''u1''"
    by (simp add: resolve_user_id_def call_as_def parse_tok session_user_def session_by_token_def two_teams_def)
  then have "desk_ready fixed_lib sub_desk (call_as ''tok'' []) ''u1'' two_teams"
    by (auto simp: desk_ready_def sub_desk_def two_teams_def empty_db_def)
  then have ok: "visit_ok fixed_lib ''u1'' ''t1'' (call_as ''tok'' []) ''tok'' [] [(sub_desk, CreateIt p)] ?st"
    by (simp only: visit_ok.simps offered.simps fst_conv snd_conv team simp_thms)
  have ids: "distinct (map sub_id (db_subs two_teams))" by (simp add: two_teams_def empty_db_def)
  show ?thesis using p run page_shows_what_a_reload_would [OF rules ids ok run] by blast
qed

end
