(* ===== verification/IssuesScreen.thy ===== *)
theory IssuesScreen imports RequestContract "HOL-Library.Multiset" begin

text \<open>
  The issues page (\<open>frontend/src/app/(dashboard)/issues/screen.tsx\<close> and \<open>pagination-controls.tsx\<close>): the
  filters it keeps in its URL, the request it makes of them, and the walk through the pages of the
  result, answered by the backend's route.
\<close>

section \<open>The URL\<close>

record issue_search =
  iu_page :: int
  iu_size :: int
  iu_query :: string
  iu_status :: string
  iu_service :: string
  iu_level :: string
  iu_sort :: string
  iu_direction :: string

text \<open>The parts \<open>updateSearch\<close> is given.\<close>

record issue_change =
  ic_page :: "int option"
  ic_size :: "int option"
  ic_query :: "string option"
  ic_status :: "string option"
  ic_service :: "string option"
  ic_level :: "string option"
  ic_sort :: "string option"
  ic_direction :: "string option"

definition no_change :: issue_change where
  "no_change = \<lparr>ic_page = None, ic_size = None, ic_query = None, ic_status = None, ic_service = None, ic_level = None,
     ic_sort = None, ic_direction = None\<rparr>"

definition default_issue_sort :: "string \<times> string" where
  "default_issue_sort = (''lastSeen'', ''desc'')"

definition read_issues :: "url_params \<Rightarrow> issue_search" where
  "read_issues ps =
     \<lparr>iu_page = max 1 (int_or 1 (parse_int (the_or ''1'' (params_get ''page'' ps)))),
      iu_size = norm_size (int_or default_page_size
        (parse_int (the_or (int_str default_page_size) (params_get ''pageSize'' ps)))),
      iu_query = text_param ''q'' ps, iu_status = text_param ''status'' ps, iu_service = text_param ''service'' ps,
      iu_level = text_param ''level'' ps, iu_sort = the_or (fst default_issue_sort) (params_get ''sortBy'' ps),
      iu_direction = the_or (snd default_issue_sort) (params_get ''sortDirection'' ps)\<rparr>"

text \<open>The state \<open>updateSearch\<close> asks for, and what it writes.\<close>

definition changed_issues :: "issue_search \<Rightarrow> issue_change \<Rightarrow> issue_search" where
  "changed_issues st n =
     \<lparr>iu_page = the_or (iu_page st) (ic_page n), iu_size = the_or (iu_size st) (ic_size n),
      iu_query = the_or (iu_query st) (ic_query n), iu_status = the_or (iu_status st) (ic_status n),
      iu_service = the_or (iu_service st) (ic_service n), iu_level = the_or (iu_level st) (ic_level n),
      iu_sort = the_or (iu_sort st) (ic_sort n), iu_direction = the_or (iu_direction st) (ic_direction n)\<rparr>"

definition put_unless :: "string \<Rightarrow> string \<Rightarrow> string \<Rightarrow> url_params \<Rightarrow> url_params" where
  "put_unless k d v ps = (if v \<noteq> d then params_set k v ps else params_delete k ps)"

definition update_issues :: "issue_change \<Rightarrow> url_params \<Rightarrow> url_params" where
  "update_issues n ps =
     (let st = changed_issues (read_issues ps) n;
          p1 = (if iu_page st > 1 then params_set ''page'' (int_str (iu_page st)) ps else params_delete ''page'' ps);
          p2 = (if iu_size st \<noteq> default_page_size then params_set ''pageSize'' (int_str (iu_size st)) p1
                else params_delete ''pageSize'' p1);
          p3 = params_put ''level'' (iu_level st) (params_put ''service'' (iu_service st)
                 (params_put ''status'' (iu_status st) (params_put ''q'' (iu_query st) p2)))
      in put_unless ''sortDirection'' (snd default_issue_sort) (iu_direction st)
           (put_unless ''sortBy'' (fst default_issue_sort) (iu_sort st) p3))"

text \<open>The form: \<open>sortInput\<close> is one of the options, so it splits in two.\<close>

definition submit_issues :: "string \<Rightarrow> string \<Rightarrow> string \<Rightarrow> string \<Rightarrow> string \<times> string \<Rightarrow> issue_change" where
  "submit_issues query status service level order =
     \<lparr>ic_page = Some 1, ic_size = None, ic_query = Some (trim query), ic_status = Some status,
      ic_service = Some (trim service), ic_level = Some level, ic_sort = Some (fst order), ic_direction = Some (snd order)\<rparr>"

definition reset_issues :: issue_change where
  "reset_issues = \<lparr>ic_page = Some 1, ic_size = None, ic_query = Some [], ic_status = Some [], ic_service = Some [],
     ic_level = Some [], ic_sort = Some (fst default_issue_sort), ic_direction = Some (snd default_issue_sort)\<rparr>"

section \<open>Reading what was written\<close>

definition issue_keys :: "string list" where
  "issue_keys = [''page'', ''pageSize'', ''q'', ''status'', ''service'', ''level'', ''sortBy'', ''sortDirection'']"

lemma all_unless [params_simps]: "params_all k (put_unless k d v ps) = (if v \<noteq> d then [v] else [])"
  by (simp add: put_unless_def params_simps)

lemma all_unless_other [params_simps]: "k \<noteq> k' \<Longrightarrow> params_all k (put_unless k' d v ps) = params_all k ps"
  by (simp add: put_unless_def params_simps)

lemma issues_reads:
  assumes "st = changed_issues (read_issues ps) n"
  shows "params_all ''page'' (update_issues n ps) = (if iu_page st > 1 then [int_str (iu_page st)] else [])"
    and "params_all ''pageSize'' (update_issues n ps) = (if iu_size st \<noteq> default_page_size then [int_str (iu_size st)] else [])"
    and "params_all ''q'' (update_issues n ps) = (if iu_query st \<noteq> [] then [iu_query st] else [])"
    and "params_all ''status'' (update_issues n ps) = (if iu_status st \<noteq> [] then [iu_status st] else [])"
    and "params_all ''service'' (update_issues n ps) = (if iu_service st \<noteq> [] then [iu_service st] else [])"
    and "params_all ''level'' (update_issues n ps) = (if iu_level st \<noteq> [] then [iu_level st] else [])"
    and "params_all ''sortBy'' (update_issues n ps) = (if iu_sort st \<noteq> fst default_issue_sort then [iu_sort st] else [])"
    and "params_all ''sortDirection'' (update_issues n ps)
      = (if iu_direction st \<noteq> snd default_issue_sort then [iu_direction st] else [])"
    and "k \<notin> set issue_keys \<Longrightarrow> params_all k (update_issues n ps) = params_all k ps"
  unfolding assms by (simp_all add: update_issues_def Let_def params_simps issue_keys_def)

lemma parse_one: "parse_int ''1'' = Some 1"
  by code_simp

lemma issue_update_is_read_back:
  "read_issues (update_issues n ps) =
     (let st = changed_issues (read_issues ps) n in st\<lparr>iu_page := max 1 (iu_page st), iu_size := norm_size (iu_size st)\<rparr>)"
  by (simp add: Let_def read_issues_def [of "update_issues n ps"] all_get text_param_def issues_reads [OF refl] parse_int_str
      int_or_def parse_one norm_size_def allowed_page_sizes_def default_page_size_def)

section \<open>The request\<close>

definition issue_request :: "issue_search \<Rightarrow> issues_options" where
  "issue_request st =
     \<lparr>io_query = some_text (iu_query st), io_status = some_text (iu_status st), io_service = some_text (iu_service st),
      io_level = some_text (iu_level st), io_sort = Some (iu_sort st), io_direction = Some (iu_direction st),
      io_limit = Some (iu_size st), io_offset = Some ((iu_page st - 1) * iu_size st)\<rparr>"

definition issue_pairs :: "string \<Rightarrow> issues_options \<Rightarrow> url_params" where
  "issue_pairs team o' =
     [(''teamId'', team)] @ text_pair ''query'' (io_query o') @ text_pair ''status'' (io_status o')
      @ text_pair ''service'' (io_service o') @ text_pair ''level'' (io_level o')
      @ text_pair ''sortBy'' (io_sort o') @ text_pair ''sortDirection'' (io_direction o')
      @ int_pair ''limit'' (io_limit o') @ int_pair ''offset'' (io_offset o')"

lemma issues_call_pairs: "ac_path (issues_call team tok o') = ''/issues?'' @ params_text (issue_pairs team o')"
  by (simp add: issues_call_def issue_pairs_def authed_get_def authed_def)

definition issues_searchable :: "issue_search \<Rightarrow> bool" where
  "issues_searchable st \<longleftrightarrow>
     iu_status st \<in> set ([] # map fst issue_statuses) \<and> iu_sort st \<in> fst ` set issue_sorts
     \<and> iu_direction st \<in> fst ` set directions \<and> iu_size st \<in> set allowed_page_sizes \<and> 1 \<le> iu_page st"

definition screen_issue_query :: "string \<Rightarrow> issue_search \<Rightarrow> issue_query" where
  "screen_issue_query team st =
     \<lparr>iq_team = team,
      iq_filters = \<lparr>q_query = some_text (iu_query st), q_status = map_of issue_statuses (iu_status st),
        q_service = some_text (iu_service st), q_level = some_text (iu_level st)\<rparr>,
      iq_sort = the (map_of issue_sorts (iu_sort st)), iq_ascending = the (map_of directions (iu_direction st)),
      iq_limit = nat (iu_size st), iq_offset = nat ((iu_page st - 1) * iu_size st)\<rparr>"

lemma query_reads:
  assumes "iu_sort st \<noteq> []" and "iu_direction st \<noteq> []" and "iu_size st \<noteq> 0"
  shows "query_of (issue_pairs team (issue_request st)) ''teamId'' = Some (JStr team)"
    and "query_of (issue_pairs team (issue_request st)) ''query'' = text_json (some_text (iu_query st))"
    and "query_of (issue_pairs team (issue_request st)) ''status'' = text_json (some_text (iu_status st))"
    and "query_of (issue_pairs team (issue_request st)) ''service'' = text_json (some_text (iu_service st))"
    and "query_of (issue_pairs team (issue_request st)) ''level'' = text_json (some_text (iu_level st))"
    and "query_of (issue_pairs team (issue_request st)) ''sortBy'' = Some (JStr (iu_sort st))"
    and "query_of (issue_pairs team (issue_request st)) ''sortDirection'' = Some (JStr (iu_direction st))"
    and "query_of (issue_pairs team (issue_request st)) ''limit'' = Some (JStr (int_str (iu_size st)))"
    and "query_of (issue_pairs team (issue_request st)) ''offset'' =
      (if iu_page st = 1 then None else Some (JStr (int_str ((iu_page st - 1) * iu_size st))))"
  using assms
  by (simp_all add: query_of_def issue_pairs_def issue_request_def pair_reads some_text_truthy text_json_def truthy_def
      some_text_def)

lemma searchable_nonempty:
  assumes "issues_searchable st"
  shows "iu_sort st \<noteq> []" and "iu_direction st \<noteq> []" and "iu_size st \<noteq> 0"
  using assms by (auto simp: issues_searchable_def issue_sorts_def directions_def allowed_page_sizes_def)

lemma known_key: "k \<in> fst ` set table \<Longrightarrow> enum_schema table (JStr k) = Some (the (map_of table k))"
  by (auto simp: enum_schema_def map_of_eq_None_iff dest: weak_map_of_SomeI)

lemma status_key:
  assumes "issues_searchable st"
  shows "(case text_json (some_text (iu_status st)) of None \<Rightarrow> Some None
      | Some x \<Rightarrow> map_option Some (enum_schema issue_statuses x)) = Some (map_of issue_statuses (iu_status st))"
  using assms by (auto simp: issues_searchable_def some_text_def text_json_def enum_schema_def issue_statuses_def)

lemma limit_key:
  assumes "issues_searchable st" and "\<And>n. to_number (JStr (int_str n)) = Fin (of_int n)"
  shows "coerced to_number (int_in 1 200) (JStr (int_str (iu_size st))) = Some (iu_size st)"
    and "(case (if iu_page st = 1 then None else Some (JStr (int_str ((iu_page st - 1) * iu_size st)))) of None \<Rightarrow> Some 0
      | Some x \<Rightarrow> coerced to_number (int_from 0) x) = Some ((iu_page st - 1) * iu_size st)"
  using assms by (auto simp: issues_searchable_def allowed_page_sizes_def coerced_def body_schemas
      simp del: of_int_mult of_int_diff)

lemma issue_request_understood:
  assumes "issues_searchable st" and "team \<noteq> []" and "\<And>n. to_number (JStr (int_str n)) = Fin (of_int n)"
  shows "issue_query_schema to_number err (query_of (issue_pairs team (issue_request st))) = Inr (screen_issue_query team st)"
proof -
  have "1 \<le> length team" using assms(2) by (cases team) simp_all
  moreover have "(case text_json x of None \<Rightarrow> Some None | Some y \<Rightarrow> map_option Some (string_schema y)) = Some x" for x
    by (simp add: text_json_def string_schema_def split: option.splits)
  moreover have "enum_schema issue_sorts (JStr (iu_sort st)) = Some (the (map_of issue_sorts (iu_sort st)))"
    "enum_schema directions (JStr (iu_direction st)) = Some (the (map_of directions (iu_direction st)))"
    using assms(1) by (auto simp: issues_searchable_def intro!: known_key)
  ultimately show ?thesis
    unfolding issue_query_schema_def Let_def query_reads [OF searchable_nonempty [OF assms(1)]] status_key [OF assms(1)]
      limit_key [OF assms(1,3)]
    by (simp add: limit_key [OF assms(1,3)] min_text_def refine_def string_schema_def screen_issue_query_def)
qed

section \<open>Walking through the pages\<close>

text \<open>What the page gets for the state its URL holds.\<close>

definition issue_page :: "read_env \<Rightarrow> http_req \<Rightarrow> ident \<Rightarrow> db \<Rightarrow> url_params \<Rightarrow> (issue_row list \<times> nat) option" where
  "issue_page R q team d ps =
     (case re_body (serve_read R GetIssues (q\<lparr>hr_query := query_of (issue_pairs team (issue_request (read_issues ps)))\<rparr>) d) of
        Payload (IssuesBody rows n) \<Rightarrow> Some (rows, n)
      | _ \<Rightarrow> None)"

definition total_pages :: "nat \<Rightarrow> int \<Rightarrow> int" where
  "total_pages n page_size = max 1 \<lceil>of_nat n / (of_int page_size :: rat)\<rceil>"

text \<open>Pressing Next until it is disabled; every page is loaded once.\<close>

fun next_pages :: "nat \<Rightarrow> read_env \<Rightarrow> http_req \<Rightarrow> ident \<Rightarrow> db \<Rightarrow> url_params \<Rightarrow> issue_row list list option" where
  "next_pages 0 R q team d ps = None"
| "next_pages (Suc k) R q team d ps =
     (case issue_page R q team d ps of
        None \<Rightarrow> None
      | Some (rows, n) \<Rightarrow>
          (let st = read_issues ps in
           if iu_page st \<ge> total_pages n (iu_size st) then Some [rows]
           else map_option (\<lambda>r. rows # r)
                  (next_pages k R q team d (update_issues (no_change\<lparr>ic_page := Some (iu_page st + 1)\<rparr>) ps))))"

definition all_issues :: "read_env \<Rightarrow> ident \<Rightarrow> issue_search \<Rightarrow> db \<Rightarrow> issue_row list" where
  "all_issues R team st d =
     (let i = screen_issue_query team st in
      fst (list_issues (rd_contains R) (rd_rank R) team (iq_filters i) (Some (iq_sort i)) (Some (iq_ascending i))
             (length (db_issues d)) 0 d))"

lemma list_issues_page:
  "list_issues contains rank team q srt asc limit offset d =
     (take limit (drop offset (fst (list_issues contains rank team q srt asc (length (db_issues d)) 0 d))),
      length (fst (list_issues contains rank team q srt asc (length (db_issues d)) 0 d)))"
proof -
  have "length (filter (issue_where contains team q) (db_issues d)) \<le> length (db_issues d)" by simp
  then show ?thesis by (simp add: list_issues_def Let_def)
qed

lemma issue_page_rows:
  assumes "issues_searchable (read_issues ps)" and "team \<noteq> []" and "\<And>n. to_number (JStr (int_str n)) = Fin (of_int n)"
    and "rd_issue_query R = issue_query_schema to_number err" and "resolve_user_id (rd_now R) q d = Some u"
    and "resolve_team_role u team d \<noteq> None"
  shows "issue_page R q team d ps = (let st = read_issues ps; xs = all_issues R team st d in
    Some (take (nat (iu_size st)) (drop (nat ((iu_page st - 1) * iu_size st)) xs), length xs))"
proof -
  let ?q = "q\<lparr>hr_query := query_of (issue_pairs team (issue_request (read_issues ps)))\<rparr>"
  let ?i = "screen_issue_query team (read_issues ps)"
  have "resolve_user_id (rd_now R) ?q d = Some u" using assms(5) by (simp add: resolve_user_id_def)
  moreover have "rd_issue_query R (hr_query ?q) = Inr ?i"
    using issue_request_understood [OF assms(1-3)] assms(4) by simp
  moreover have "iq_team ?i = team" "iq_limit ?i = nat (iu_size (read_issues ps))"
    "iq_offset ?i = nat ((iu_page (read_issues ps) - 1) * iu_size (read_issues ps))"
    by (simp_all add: screen_issue_query_def)
  moreover obtain role where "require_team_role u team None d = (Inr role :: read_reply + team_role)"
    using assms(6) by (auto simp: require_team_role_def)
  ultimately show ?thesis
    by (simp add: issue_page_def serve_read_def require_auth_def get_issues_def done_with_def answer_def Let_def
        all_issues_def list_issues_page [of _ _ _ _ _ _ "nat _"] split: prod.splits)
qed

lemma pages_hold_all:
  assumes "0 < page_size"
  shows "int n \<le> total_pages n page_size * page_size"
proof -
  have "of_nat n / of_int page_size \<le> (of_int (total_pages n page_size) :: rat)"
    unfolding total_pages_def by (meson le_of_int_ceiling max.cobounded2 of_int_le_iff order_trans)
  then have "(of_nat n :: rat) \<le> of_int (total_pages n page_size) * of_int page_size"
    using assms by (simp add: divide_le_eq)
  then show ?thesis by (metis of_int_le_iff of_int_mult of_int_of_nat_eq)
qed

lemma next_page_state:
  assumes "issues_searchable (read_issues ps)"
  shows "read_issues (update_issues (no_change\<lparr>ic_page := Some (iu_page (read_issues ps) + 1)\<rparr>) ps)
    = (read_issues ps)\<lparr>iu_page := iu_page (read_issues ps) + 1\<rparr>"
  using assms
  by (simp add: issue_update_is_read_back changed_issues_def no_change_def Let_def issues_searchable_def norm_size_def)

lemma turned_page:
  "all_issues R team (st\<lparr>iu_page := p\<rparr>) d = all_issues R team st d"
  "issues_searchable st \<Longrightarrow> issues_searchable (st\<lparr>iu_page := iu_page st + 1\<rparr>)"
  by (simp_all add: all_issues_def screen_issue_query_def issues_searchable_def)

lemma walk_from:
  assumes "issues_searchable (read_issues ps)" and "team \<noteq> []" and "\<And>n. to_number (JStr (int_str n)) = Fin (of_int n)"
    and "rd_issue_query R = issue_query_schema to_number err" and "resolve_user_id (rd_now R) q d = Some u"
    and "resolve_team_role u team d \<noteq> None"
    and "iu_page (read_issues ps) \<le> total_pages (length (all_issues R team (read_issues ps) d)) (iu_size (read_issues ps))"
    and "total_pages (length (all_issues R team (read_issues ps) d)) (iu_size (read_issues ps)) - iu_page (read_issues ps) < int k"
  shows "\<exists>pages. next_pages k R q team d ps = Some pages
    \<and> concat pages = drop (nat ((iu_page (read_issues ps) - 1) * iu_size (read_issues ps))) (all_issues R team (read_issues ps) d)
    \<and> int (length pages) = total_pages (length (all_issues R team (read_issues ps) d)) (iu_size (read_issues ps))
        - iu_page (read_issues ps) + 1"
  using assms(1,7,8)
proof (induction k arbitrary: ps)
  case 0
  then show ?case by simp
next
  case (Suc k)
  define st where "st = read_issues ps"
  define xs where "xs = all_issues R team st d"
  let ?p = "iu_page st" and ?s = "iu_size st"
  let ?T = "total_pages (length xs) ?s" and ?o = "nat ((?p - 1) * ?s)"
  have st: "issues_searchable st" "1 \<le> ?p" "0 < ?s"
    using Suc.prems(1) by (auto simp: st_def issues_searchable_def allowed_page_sizes_def)
  have here: "issue_page R q team d ps = Some (take (nat ?s) (drop ?o xs), length xs)"
    using issue_page_rows [OF Suc.prems(1) assms(2-6)] by (simp add: st_def xs_def Let_def)
  have sum: "?o + nat ?s = nat (?p * ?s)"
    using st(2,3) by (simp add: nat_add_distrib [symmetric] algebra_simps)
  show ?case
  proof (cases "?p \<ge> ?T")
    case True
    then have "?T * ?s \<le> ?p * ?s" using st(3) by simp
    then have "int (length xs) \<le> ?p * ?s" using pages_hold_all [OF st(3), of "length xs"] by linarith
    then have "length xs \<le> ?o + nat ?s" using sum by linarith
    then have "take (nat ?s) (drop ?o xs) = drop ?o xs" by simp
    then show ?thesis
      using True Suc.prems(2) by (simp add: here st_def [symmetric] xs_def [symmetric] Let_def)
  next
    case False
    let ?ps = "update_issues (no_change\<lparr>ic_page := Some (?p + 1)\<rparr>) ps"
    have turned: "read_issues ?ps = st\<lparr>iu_page := ?p + 1\<rparr>" using next_page_state [OF Suc.prems(1)] by (simp add: st_def)
    have "\<exists>pages. next_pages k R q team d ?ps = Some pages \<and> concat pages = drop (nat (?p * ?s)) xs
        \<and> int (length pages) = ?T - (?p + 1) + 1"
      using Suc.IH [of ?ps] False Suc.prems(3) turned_page(2) [OF st(1)]
      by (simp add: turned turned_page(1) st_def [symmetric] xs_def [symmetric])
    then obtain pages where "next_pages k R q team d ?ps = Some pages" "concat pages = drop (nat (?p * ?s)) xs"
      "int (length pages) = ?T - (?p + 1) + 1" by blast
    moreover have "take (nat ?s) (drop ?o xs) @ drop (nat (?p * ?s)) xs = drop ?o xs"
      by (simp add: sum [symmetric] drop_drop [symmetric] add.commute del: drop_drop)
    ultimately show ?thesis
      using False by (simp add: here st_def [symmetric] xs_def [symmetric] Let_def)
  qed
qed


text \<open>A member of the sample team with thirty issues looks at them, twenty-five a page.\<close>

definition plain_number :: "json \<Rightarrow> jnum" where
  "plain_number v = (case v of JStr s \<Rightarrow> (case parse_int s of None \<Rightarrow> NaN | Some n \<Rightarrow> Fin (of_int n)) | _ \<Rightarrow> NaN)"

definition thirty_issues :: db where
  "thirty_issues = two_teams\<lparr>db_issues := map (\<lambda>i. \<lparr>iss_id = nat_str i, iss_team = ''t1'', iss_fp = [], iss_title = ''boom'',
     iss_level = ''error'', iss_service = ''api'', iss_status = New, iss_first = 0, iss_last = int i, iss_count = 1,
     iss_assignee = None\<rparr>) [0..<30]\<rparr>"

definition issue_desk :: read_env where
  "issue_desk = \<lparr>rd_lib = fixed_lib, rd_now = 1, rd_contains = (\<lambda>_ _. True), rd_rank = (\<lambda>_. 0),
     rd_issue_query = issue_query_schema plain_number JNull\<rparr>"

definition small_pages :: url_params where
  "small_pages = [(''pageSize'', ''25'')]"

lemma small_pages_read: "read_issues small_pages =
    \<lparr>iu_page = 1, iu_size = 25, iu_query = [], iu_status = [], iu_service = [], iu_level = [], iu_sort = ''lastSeen'',
     iu_direction = ''desc''\<rparr>"
proof -
  have "parse_int ''25'' = Some 25" by code_simp
  then show ?thesis
    by (simp add: read_issues_def small_pages_def params_get_def text_param_def parse_one int_or_def norm_size_def
        allowed_page_sizes_def default_issue_sort_def)
qed


end
