(* ===== verification/SearchPanel.thy ===== *)
theory SearchPanel imports RequestContract begin

text \<open>
  The query form of the search page (\<open>frontend/src/components/logs/search-panel.tsx\<close>): its fields, the
  effects that load them from the search, and \<open>runQuery\<close>, which turns them into a search; and that the
  backend does not refuse the range of a search it has submitted.
\<close>

section \<open>The form\<close>

definition history_limit :: nat where "history_limit = 5"
definition max_range_ms :: millis where "max_range_ms = 7 * 24 * 60 * 60 * 1000"

definition too_long :: string where
  "too_long = ''Time range cannot exceed 7 days. Please narrow your selection.''"

text \<open>The two times hold the text of a \<open>datetime-local\<close> input.\<close>

record query_panel =
  pn_query :: string
  pn_level :: string
  pn_service :: string
  pn_host :: string
  pn_source :: string
  pn_start :: string
  pn_end :: string
  pn_mode :: time_mode
  pn_duration :: string
  pn_refresh :: string
  pn_share :: bool
  pn_sort :: string
  pn_pending :: bool
  pn_history :: "string list"
  pn_ai_open :: bool
  pn_error :: "string option"

definition sort_value :: "string \<Rightarrow> string \<Rightarrow> string" where
  "sort_value column direction = column @ '':'' @ direction"

text \<open>The effects, when the search changes.\<close>

definition panel_loaded :: "js_lib \<Rightarrow> search_state \<Rightarrow> query_panel \<Rightarrow> query_panel" where
  "panel_loaded L st p =
     p\<lparr>pn_query := se_query st, pn_level := se_level st, pn_service := se_service st, pn_host := se_host st,
       pn_source := se_source st, pn_start := take 16 (fst (se_range st)), pn_end := take 16 (snd (se_range st)),
       pn_mode := se_time_mode st, pn_duration := se_duration st, pn_refresh := se_refresh st, pn_share := se_share st,
       pn_sort := sort_value (se_sort st) (se_direction st),
       pn_error := (case (date_parse L (fst (se_range st)), date_parse L (snd (se_range st))) of
           (Some s, Some e) \<Rightarrow> if e - s > max_range_ms then Some too_long else None
         | _ \<Rightarrow> None)\<rparr>"

text \<open>The select of the range: a duration, or \<open>custom\<close>.\<close>

definition choose_range :: "string \<Rightarrow> query_panel \<Rightarrow> query_panel" where
  "choose_range v p = (if v = ''custom'' then p\<lparr>pn_mode := Absolute\<rparr> else p\<lparr>pn_mode := Relative, pn_duration := v\<rparr>)"

section \<open>Running a query\<close>

text \<open>\<open>const [sortBy, sortDirection] = sortValue.split(":")\<close>\<close>

definition split_sort :: "string \<Rightarrow> string \<times> string" where
  "split_sort v =
     (case split_on (\<lambda>c. c = CHR '':'') v of a # b # _ \<Rightarrow> (a, b) | [a] \<Rightarrow> (a, ''undefined'') | [] \<Rightarrow> ([], ''undefined''))"

text \<open>The range as two times; \<open>None\<close> when a duration is not in the table, so that the start is no time.\<close>

definition panel_range :: "js_lib \<Rightarrow> millis \<Rightarrow> query_panel \<Rightarrow> millis option \<times> millis" where
  "panel_range L t p =
     (case pn_mode p of
        Relative \<Rightarrow> (map_option (\<lambda>ms. t - ms) (map_of duration_table (pn_duration p)), t)
      | Absolute \<Rightarrow>
          (let typed = (\<lambda>s d. if s = [] then d else the_or d (date_parse L s));
               start = typed (pn_start p) (t - 60 * 60 * 1000);
               stop = typed (pn_end p) t
           in (Some start, if stop < start then start + 60 * 1000 else stop)))"

datatype run_outcome = TooLong | ThrewError string | Submitted search_form

definition run_query :: "js_lib \<Rightarrow> millis \<Rightarrow> int \<Rightarrow> string \<Rightarrow> query_panel \<Rightarrow> query_panel \<times> run_outcome" where
  "run_query L t page_size q p =
     (let trimmed = trim q; (column, direction) = split_sort (pn_sort p); (start, stop) = panel_range L t p in
      if (case start of None \<Rightarrow> False | Some s \<Rightarrow> stop - s > max_range_ms) then (p\<lparr>pn_error := Some too_long\<rparr>, TooLong)
      else
        (let p1 = p\<lparr>pn_error := None, pn_query := trimmed\<rparr> in
         case start of
           None \<Rightarrow> (p1\<lparr>pn_pending := False\<rparr>, ThrewError invalid_time)
         | Some s \<Rightarrow>
             (p1\<lparr>pn_pending := True\<rparr>, Submitted
                \<lparr>fo_query = trimmed, fo_level = pn_level p, fo_service = trim (pn_service p), fo_host = trim (pn_host p),
                 fo_source = trim (pn_source p), fo_range = (date_iso L s, date_iso L stop), fo_mode = pn_mode p,
                 fo_duration = pn_duration p, fo_refresh = pn_refresh p, fo_share = pn_share p, fo_sort = column,
                 fo_direction = direction, fo_size = page_size\<rparr>)))"

text \<open>After \<open>onSearch\<close>: the history of this visit holds the last five queries, the latest first.\<close>

definition remember :: "string \<Rightarrow> string list \<Rightarrow> string list" where
  "remember q hs = take history_limit (q # filter (\<lambda>h. h \<noteq> q) hs)"

definition run_settled :: "string \<Rightarrow> bool \<Rightarrow> query_panel \<Rightarrow> query_panel" where
  "run_settled q answered p =
     (if answered \<and> trim q \<noteq> [] then p\<lparr>pn_pending := False, pn_history := remember (trim q) (pn_history p), pn_ai_open := True\<rparr>
      else p\<lparr>pn_pending := False\<rparr>)"

lemma remember_facts:
  "distinct hs \<Longrightarrow> distinct (remember q hs)" "length (remember q hs) \<le> 5" "hd (remember q hs) = q"
  by (auto simp: remember_def history_limit_def intro: distinct_take dest: in_set_takeD)

section \<open>The range that is submitted\<close>

lemma split_sort_value:
  assumes "CHR '':'' \<notin> set column"
  shows "split_sort (sort_value column direction) = (column, hd (split_on (\<lambda>c. c = CHR '':'') direction))"
proof -
  have "split_on (\<lambda>c. c = CHR '':'') (column @ CHR '':'' # direction) = column # split_on (\<lambda>c. c = CHR '':'') direction"
    by (rule split_on_here) (use assms in \<open>auto simp: list_all_iff\<close>)
  moreover obtain w ws where "split_on (\<lambda>c. c = CHR '':'') direction = w # ws"
    by (cases "split_on (\<lambda>c. c = CHR '':'') direction"; cases direction) (auto split: list.splits if_splits)
  ultimately show ?thesis by (simp add: split_sort_def sort_value_def)
qed

lemma durations_short: "map_of duration_table d = Some ms \<Longrightarrow> 0 \<le> ms \<and> ms \<le> max_range_ms"
  by (auto simp: duration_table_def max_range_ms_def split: if_splits)

lemma panel_range_bounds:
  assumes "panel_range L t p = (Some a, b)" and "\<not> b - a > max_range_ms"
  shows "a \<le> b" and "b \<le> a + max_range_ms"
  using assms durations_short
  by (auto simp: panel_range_def Let_def split: time_mode.splits if_splits)

lemma submitted_form:
  assumes "run_query L t page_size q p = (p', Submitted f)"
  obtains a b where "panel_range L t p = (Some a, b)" "a \<le> b" "b \<le> a + max_range_ms"
    "fo_range f = (date_iso L a, date_iso L b)" "fo_mode f = pn_mode p" "fo_duration f = pn_duration p"
    "fo_query f = trim q" "fo_refresh f = pn_refresh p" "fo_size f = page_size" "pn_error p' = None"
  using assms panel_range_bounds [of L t p]
  by (auto simp: run_query_def Let_def split: prod.splits option.splits if_splits)

text \<open>The range the page shows after the update that a submitted form makes.\<close>

lemma submitted_range:
  assumes "run_query L t page_size q p = (p', Submitted f)" and "\<And>x. date_parse L (date_iso L x) = Some x"
    and "\<And>x. date_iso L x \<noteq> []" and "pn_duration p \<in> fst ` set duration_table"
  shows "\<exists>a b. range_after L t' h st (handle_search f) = (date_iso L a, date_iso L b) \<and> a \<le> b \<and> b \<le> a + max_range_ms"
proof -
  obtain a b where f: "a \<le> b" "b \<le> a + max_range_ms" "fo_range f = (date_iso L a, date_iso L b)" "fo_mode f = pn_mode p"
    "fo_duration f = pn_duration p"
    using assms(1) by (rule submitted_form)
  show ?thesis
  proof (cases "pn_mode p")
    case Absolute
    then have "range_after L t' h st (handle_search f) = (date_iso L a, date_iso L b)"
      using f(3,4) assms(3) by (simp add: range_after_def next_time_mode_def next_range_def handle_search_def)
    with f(1,2) show ?thesis by blast
  next
    case Relative
    obtain ms where ms: "map_of duration_table (pn_duration p) = Some ms" using assms(4) known_duration by auto
    let ?stop = "the_or t' (date_parse L (snd (hk_fallback h)))"
    have "range_after L t' h st (handle_search f) = (date_iso L (?stop - ms), date_iso L ?stop)"
      using Relative f(4,5) ms by (simp add: range_after_def next_time_mode_def handle_search_def Let_def)
    moreover have "?stop - ms \<le> ?stop" "?stop \<le> ?stop - ms + max_range_ms" using durations_short [OF ms] by simp_all
    ultimately show ?thesis by blast
  qed
qed


text \<open>Instants printed as numbers.\<close>

definition clock_lib :: js_lib where
  "clock_lib = fixed_lib\<lparr>date_parse := parse_int\<rparr>"

lemma clock_laws: "date_parse clock_lib (date_iso clock_lib x) = Some x" "date_iso clock_lib x \<noteq> []"
  by (simp_all add: clock_lib_def fixed_lib_def parse_int_str) (simp add: int_str_def nat_str_nonempty)

definition last_hour :: query_panel where
  "last_hour = \<lparr>pn_query = [], pn_level = [], pn_service = [], pn_host = [], pn_source = [], pn_start = [], pn_end = [],
     pn_mode = Absolute, pn_duration = ''1h'', pn_refresh = ''off'', pn_share = False, pn_sort = ''timestamp:desc'',
     pn_pending = False, pn_history = [], pn_ai_open = False, pn_error = None\<rparr>"


section \<open>Local times\<close>

text \<open>The fields of an absolute range show the first sixteen characters of the UTC times, and \<open>runQuery\<close>
  reads them as local times: where the browser is \<open>offset\<close> ahead of UTC, running the shown search
  again moves its range back by the offset.\<close>

lemma absolute_range_drifts:
  assumes "se_range st = (date_iso L a, date_iso L b)" and "se_time_mode st = Absolute" and "a \<le> b" "b - a \<le> max_range_ms"
    and "date_iso L a \<noteq> []" "date_iso L b \<noteq> []"
    and "date_parse L (take 16 (date_iso L a)) = Some (a - offset)" "date_parse L (take 16 (date_iso L b)) = Some (b - offset)"
  shows "\<exists>f. snd (run_query L t page_size q (panel_loaded L st p)) = Submitted f
    \<and> fo_range f = (date_iso L (a - offset), date_iso L (b - offset))"
  using assms by (simp add: run_query_def panel_loaded_def panel_range_def Let_def split: prod.split)

end
