(* ===== verification/AlertForm.thy ===== *)
theory AlertForm imports RequestContract begin

text \<open>
  Alert rules in the frontend (\<open>components/alerts/alert-rule-form.tsx\<close> and \<open>alert-rules-panel.tsx\<close>): the
  form's fields and checks, the handlers of the panel, and what the backend makes of the requests.
  \<open>Number(text)\<close> is an argument.
\<close>

section \<open>The form\<close>

record rule_form =
  rf_open :: bool
  rf_name :: string
  rf_desc :: string
  rf_query :: string
  rf_cond :: string
  rf_threshold :: string
  rf_window :: string
  rf_enabled :: bool
  rf_pending :: bool
  rf_error :: "string option"

record rule_values =
  rv_name :: string
  rv_desc :: "string option"
  rv_query :: string
  rv_cond :: string
  rv_threshold :: int
  rv_window :: int
  rv_enabled :: bool

fun condition_text :: "alert_condition \<Rightarrow> string" where
  "condition_text GreaterThan = ''GREATER_THAN''"
| "condition_text LessThan = ''LESS_THAN''"
| "condition_text Equals = ''EQUALS''"
| "condition_text ChangesBy = ''CHANGES_BY''"
| "condition_text AnomalyDetected = ''ANOMALY_DETECTED''"

definition editable_conditions :: "string list" where
  "editable_conditions = [''GREATER_THAN'', ''LESS_THAN'', ''EQUALS'', ''CHANGES_BY'']"

definition rule_form_opened :: "alert_rule option \<Rightarrow> rule_form" where
  "rule_form_opened rule =
     (case rule of
        None \<Rightarrow> \<lparr>rf_open = True, rf_name = [], rf_desc = [], rf_query = [], rf_cond = ''GREATER_THAN'', rf_threshold = int_str 1,
          rf_window = int_str 5, rf_enabled = True, rf_pending = False, rf_error = None\<rparr>
      | Some r \<Rightarrow> \<lparr>rf_open = True, rf_name = ar_name r, rf_desc = the_or [] (ar_desc r), rf_query = ar_query r,
          rf_cond = (if condition_text (ar_cond r) \<in> set editable_conditions then condition_text (ar_cond r) else ''GREATER_THAN''),
          rf_threshold = int_str (ar_threshold r), rf_window = int_str (ar_window r), rf_enabled = ar_enabled r,
          rf_pending = False, rf_error = None\<rparr>)"

definition whole_from :: "int \<Rightarrow> jnum \<Rightarrow> int option" where
  "whole_from lo n = Option.bind (integer_of n) (\<lambda>i. if lo \<le> i then Some i else None)"

text \<open>\<open>submit\<close> up to \<open>onSubmit\<close>.\<close>

definition submit_rule :: "(string \<Rightarrow> jnum) \<Rightarrow> rule_form \<Rightarrow> rule_form \<times> rule_values option" where
  "submit_rule number f =
     (let refused = (\<lambda>m. (f\<lparr>rf_error := Some m\<rparr>, None)) in
      if length (trim (rf_name f)) < 2 then refused ''Name must be at least 2 characters.''
      else if trim (rf_query f) = [] then refused ''Query text is required.''
      else
        (case whole_from 0 (number (rf_threshold f)) of
           None \<Rightarrow> refused ''Threshold must be a whole number, 0 or more.''
         | Some threshold \<Rightarrow>
             (case whole_from 1 (number (rf_window f)) of
                None \<Rightarrow> refused ''Window must be a whole number of minutes from 1 to 1440.''
              | Some window \<Rightarrow>
                  if window > 1440 then refused ''Window must be a whole number of minutes from 1 to 1440.''
                  else (f\<lparr>rf_pending := True, rf_error := None\<rparr>, Some
                    \<lparr>rv_name = trim (rf_name f), rv_desc = some_text (trim (rf_desc f)), rv_query = trim (rf_query f),
                     rv_cond = rf_cond f, rv_threshold = threshold, rv_window = window, rv_enabled = rf_enabled f\<rparr>))))"

definition rule_form_settled :: "string option \<Rightarrow> rule_form \<Rightarrow> rule_form" where
  "rule_form_settled failure f =
     (case failure of
        None \<Rightarrow> f\<lparr>rf_open := False, rf_pending := False\<rparr>
      | Some e \<Rightarrow> f\<lparr>rf_error := Some e, rf_pending := False\<rparr>)"

section \<open>The panel\<close>

record rules_panel =
  rl_form :: bool
  rl_editing :: "alert_rule option"
  rl_deleting :: "alert_rule option"
  rl_busy :: "string option"
  rl_error :: "string option"

definition open_create :: "rules_panel \<Rightarrow> rules_panel" where
  "open_create p = p\<lparr>rl_editing := None, rl_form := True\<rparr>"

definition open_edit :: "alert_rule \<Rightarrow> rules_panel \<Rightarrow> rules_panel" where
  "open_edit r p = p\<lparr>rl_editing := Some r, rl_form := True\<rparr>"

definition toggle_rule :: "string \<Rightarrow> alert_rule \<Rightarrow> rules_panel \<Rightarrow> rules_panel \<times> api_call" where
  "toggle_rule tok r p =
     (p\<lparr>rl_busy := Some (ar_id r), rl_error := None\<rparr>,
      update_rule_call (ar_id r) tok (JObj [(''enabled'', JBool (\<not> ar_enabled r))]))"

definition confirm_delete :: "string \<Rightarrow> rules_panel \<Rightarrow> rules_panel \<times> api_call option" where
  "confirm_delete tok p =
     (case rl_deleting p of
        None \<Rightarrow> (p, None)
      | Some r \<Rightarrow> (p\<lparr>rl_deleting := None, rl_busy := Some (ar_id r), rl_error := None\<rparr>, Some (delete_rule_call (ar_id r) tok)))"

definition rule_request_settled :: "string option \<Rightarrow> rules_panel \<Rightarrow> rules_panel" where
  "rule_request_settled failure p =
     (case failure of None \<Rightarrow> p\<lparr>rl_busy := None\<rparr> | Some e \<Rightarrow> p\<lparr>rl_error := Some e, rl_busy := None\<rparr>)"

definition create_rule_body :: "string \<Rightarrow> rule_values \<Rightarrow> json" where
  "create_rule_body team v = json_body
     [(''teamId'', Some (JStr team)), (''name'', Some (JStr (rv_name v))), (''description'', text_json (rv_desc v)),
      (''query'', Some (JStr (rv_query v))), (''condition'', Some (JStr (rv_cond v))),
      (''threshold'', int_json (rv_threshold v)), (''windowMinutes'', int_json (rv_window v)),
      (''enabled'', Some (JBool (rv_enabled v)))]"

definition update_rule_body :: "rule_values \<Rightarrow> json" where
  "update_rule_body v = json_body
     [(''name'', Some (JStr (rv_name v))), (''description'', Some (the_or JNull (text_json (rv_desc v)))),
      (''query'', Some (JStr (rv_query v))), (''condition'', Some (JStr (rv_cond v))),
      (''threshold'', int_json (rv_threshold v)), (''windowMinutes'', int_json (rv_window v)),
      (''enabled'', Some (JBool (rv_enabled v)))]"

text \<open>\<open>onSubmit\<close>: the request the panel makes of the form's values.\<close>

definition save_rule_call :: "string \<Rightarrow> string \<Rightarrow> rules_panel \<Rightarrow> rule_values \<Rightarrow> api_call" where
  "save_rule_call tok team p v =
     (case rl_editing p of
        None \<Rightarrow> create_rule_call tok (create_rule_body team v)
      | Some r \<Rightarrow> update_rule_call (ar_id r) tok (update_rule_body v))"

section \<open>The values fit the schemas\<close>

definition values_ok :: "rule_values \<Rightarrow> bool" where
  "values_ok v \<longleftrightarrow> trim (rv_name v) = rv_name v \<and> 2 \<le> length (rv_name v) \<and> trim (rv_query v) = rv_query v \<and> rv_query v \<noteq> []
     \<and> 0 \<le> rv_threshold v \<and> 1 \<le> rv_window v \<and> rv_window v \<le> 1440"

text \<open>The lengths the form leaves to the backend.\<close>

definition values_short :: "rule_values \<Rightarrow> bool" where
  "values_short v \<longleftrightarrow> length (rv_name v) \<le> 200 \<and> length (rv_query v) \<le> 1000 \<and> length (the_or [] (rv_desc v)) \<le> 1000"

lemma submitted_values: "submit_rule number f = (f', Some v) \<Longrightarrow>
    values_ok v \<and> rv_cond v = rf_cond f \<and> rf_pending f' \<and> rf_error f' = None"
  by (auto simp: submit_rule_def Let_def values_ok_def whole_from_def trim_trim bind_eq_Some_conv
      split: option.splits if_splits)

text \<open>An empty threshold is the number 0 to JavaScript, so the form saves it as the threshold 0.\<close>

lemma blank_threshold_is_zero:
  assumes "number [] = Fin 0" and "rf_threshold f = []" and "submit_rule number f = (f', Some v)"
  shows "rv_threshold v = 0"
  using assms by (auto simp: submit_rule_def Let_def whole_from_def integer_of_def split: option.splits if_splits)

definition condition_named :: "string \<Rightarrow> alert_condition" where
  "condition_named c = the_or GreaterThan (map_of rule_conditions c)"

lemma known_condition: "c \<in> set editable_conditions \<Longrightarrow> enum_schema rule_conditions (JStr c) = Some (condition_named c)"
  by (auto simp: editable_conditions_def enum_schema_def rule_conditions_def condition_named_def)

lemma condition_back: "condition_text c \<in> set editable_conditions \<Longrightarrow> condition_named (condition_text c) = c"
  by (cases c) (simp_all add: editable_conditions_def condition_named_def rule_conditions_def)

definition values_input :: "rule_values \<Rightarrow> rule_input" where
  "values_input v = \<lparr>ri_name = rv_name v, ri_desc = rv_desc v, ri_query = rv_query v, ri_cond = condition_named (rv_cond v),
     ri_threshold = rv_threshold v, ri_window = rv_window v, ri_enabled = rv_enabled v\<rparr>"

definition values_patch :: "rule_values \<Rightarrow> rule_patch" where
  "values_patch v = \<lparr>rp_name = Some (rv_name v), rp_desc = Some (rv_desc v), rp_query = Some (rv_query v),
     rp_cond = Some (condition_named (rv_cond v)), rp_threshold = Some (rv_threshold v), rp_window = Some (rv_window v),
     rp_enabled = Some (rv_enabled v)\<rparr>"

lemma nonempty_length: "s \<noteq> [] \<Longrightarrow> 1 \<le> length s"
  by (cases s) simp_all

lemma create_fields:
  "field ''teamId'' (create_rule_body team v) = Some (JStr team)"
  "field ''name'' (create_rule_body team v) = Some (JStr (rv_name v))"
  "field ''description'' (create_rule_body team v) = text_json (rv_desc v)"
  "field ''query'' (create_rule_body team v) = Some (JStr (rv_query v))"
  "field ''queryType'' (create_rule_body team v) = None"
  "field ''condition'' (create_rule_body team v) = Some (JStr (rv_cond v))"
  "field ''threshold'' (create_rule_body team v) = int_json (rv_threshold v)"
  "field ''windowMinutes'' (create_rule_body team v) = int_json (rv_window v)"
  "field ''enabled'' (create_rule_body team v) = Some (JBool (rv_enabled v))"
  by (simp_all add: create_rule_body_def field_json_body)

lemma update_fields:
  "field ''name'' (update_rule_body v) = Some (JStr (rv_name v))"
  "field ''description'' (update_rule_body v) = Some (the_or JNull (text_json (rv_desc v)))"
  "field ''query'' (update_rule_body v) = Some (JStr (rv_query v))"
  "field ''condition'' (update_rule_body v) = Some (JStr (rv_cond v))"
  "field ''threshold'' (update_rule_body v) = int_json (rv_threshold v)"
  "field ''windowMinutes'' (update_rule_body v) = int_json (rv_window v)"
  "field ''enabled'' (update_rule_body v) = Some (JBool (rv_enabled v))"
  by (simp_all add: update_rule_body_def field_json_body)

lemma number_keys:
  "0 \<le> n \<Longrightarrow> int_from 0 (the (int_json n)) = Some n"
  "1 \<le> n \<Longrightarrow> n \<le> 1440 \<Longrightarrow> int_in 1 1440 (the (int_json n)) = Some n"
  by (simp_all add: int_json_def body_schemas)

lemma common_keys:
  assumes "values_ok v"
  shows "rule_name (JStr (rv_name v)) = (if length (rv_name v) \<le> 200 then Some (rv_name v) else None)"
    and "rule_query (JStr (rv_query v)) = (if length (rv_query v) \<le> 1000 then Some (rv_query v) else None)"
    and "int_from 0 (the (int_json (rv_threshold v))) = Some (rv_threshold v)"
    and "int_in 1 1440 (the (int_json (rv_window v))) = Some (rv_window v)"
  using assms nonempty_length by (auto simp: rule_name_def rule_query_def trimmed_key values_ok_def number_keys)

lemma create_accepted:
  assumes "values_ok v" and "rv_cond v \<in> set editable_conditions" and "team \<noteq> []"
  shows "create_rule_schema err (Some (create_rule_body team v)) =
    (if values_short v then Inr (team, values_input v) else Inl err)"
proof -
  note common_keys [OF assms(1)]
  moreover have "optional_key (max_text 1000) ''description'' (create_rule_body team v)
      = (if length (the_or [] (rv_desc v)) \<le> 1000 then Some (rv_desc v) else None)"
    by (simp add: optional_key_def create_fields text_json_def max_text_def refine_def string_schema_def split: option.splits)
  ultimately show ?thesis
    using assms(3)
    unfolding create_rule_schema_def
    by (subst create_rule_body_def, subst schema_on_body, fold create_rule_body_def)
      (simp add: team_key [where team = team] create_fields required_key_def optional_key_def [of "enum_schema _"]
        default_key_def known_condition [OF assms(2)] bool_schema_def values_short_def values_input_def int_json_def)
qed

lemma update_accepted:
  assumes "values_ok v" and "rv_cond v \<in> set editable_conditions"
  shows "update_rule_schema err (Some (update_rule_body v)) = (if values_short v then Inr (values_patch v) else Inl err)"
proof -
  note common_keys [OF assms(1)]
  moreover have "nullable (max_text 1000) (the_or JNull (text_json (rv_desc v)))
      = (if length (the_or [] (rv_desc v)) \<le> 1000 then Some (rv_desc v) else None)"
    by (cases "rv_desc v") (simp_all add: text_json_def nullable_def max_text_def refine_def string_schema_def)
  ultimately show ?thesis
    unfolding update_rule_schema_def
    by (subst update_rule_body_def, subst schema_on_body, fold update_rule_body_def)
      (simp add: update_fields optional_key_def known_condition [OF assms(2)] bool_schema_def values_short_def
        values_patch_def int_json_def refine_def patch_empty_def)
qed

section \<open>Through the backend\<close>

lemma condition_text_named: "c \<in> set editable_conditions \<Longrightarrow> condition_text (condition_named c) = c"
  by (auto simp: editable_conditions_def condition_named_def rule_conditions_def)

lemma whole_number: "whole_from lo n = Some i \<Longrightarrow> n = Fin (of_int i)"
  by (auto simp: whole_from_def integer_of_def bind_eq_Some_conv split: jnum.splits if_splits)

lemma shown_values:
  assumes "submit_rule number f = (f', Some v)"
  shows "rv_name v = trim (rf_name f)" and "rv_query v = trim (rf_query f)" and "rv_desc v = some_text (trim (rf_desc f))"
    and "number (rf_threshold f) = Fin (of_int (rv_threshold v))" and "number (rf_window f) = Fin (of_int (rv_window v))"
    and "rv_enabled v = rf_enabled f" and "rv_cond v = rf_cond f"
  using assms by (auto simp: submit_rule_def Let_def dest: whole_number split: option.splits if_splits)


text \<open>The outcome of an edit.\<close>

lemma edit_outcome:
  assumes "values_ok v" and "rv_cond v \<in> set editable_conditions" and "values_short v"
    and "sc_rule_patch S = update_rule_schema err" and "rule_by_id d (hr_params q ''id'') = Some r"
    and "resolve_user_id (te_now E) q d = Some u" and "resolve_team_role u (r_team r) d = Some role" and "can_write role"
    and "hr_body q = Some (update_rule_body v)"
  shows "serve_write E S PutRule q d = (ok 200 RuleBody (to_alert_rule (te_lib E) (apply_rule_patch (values_patch v) r)),
    d\<lparr>db_rules := update_first (own_rule (r_id r) (r_team r)) (apply_rule_patch (values_patch v)) (db_rules d)\<rparr>)"
proof -
  have r: "r_id r = hr_params q ''id''" using assms(5) by (auto simp: rule_by_id_def dest: find_SomeD)
  have "List.find (own_rule (r_id r) (r_team r)) (db_rules d) = Some r"
    using assms(5) find_stronger [of "\<lambda>x. r_id x = hr_params q ''id''" "db_rules d" r "\<lambda>x. r_team x = r_team r"]
    by (simp add: rule_by_id_def own_rule_def [abs_def] r)
  moreover have "serve_write E S PutRule q d = put_rule E
      \<lparr>wc_req = q, wc_user = u, wc_team = r_team r, wc_role = role, wc_input = values_patch v\<rparr> d"
    unfolding serve_write.simps using assms(7,8) update_accepted [OF assms(1,2), of err]
    by (subst writer_reaches_handler [OF assms(6), where role = role
          and target = "\<lparr>tg_team = r_team r, tg_input = values_patch v, tg_not_found = Some ''Alert rule not found''\<rparr>"])
      (simp_all add: team_from_resource_def load_rule_team_id_def assms(3-5,9))
  ultimately show ?thesis by (simp add: put_rule_def id_param_def r update_rule_def settle_def)
qed

text \<open>A stored rule the form can show without changing it.\<close>

definition rule_shown_as_is :: "rule_row \<Rightarrow> bool" where
  "rule_shown_as_is r \<longleftrightarrow> trim (r_name r) = r_name r \<and> 2 \<le> length (r_name r) \<and> length (r_name r) \<le> 200
     \<and> trim (r_query r) = r_query r \<and> r_query r \<noteq> [] \<and> length (r_query r) \<le> 1000
     \<and> (case r_desc r of None \<Rightarrow> True | Some s \<Rightarrow> s \<noteq> [] \<and> trim s = s \<and> length s \<le> 1000)
     \<and> 0 \<le> r_threshold r \<and> 1 \<le> r_window r \<and> r_window r \<le> 1440 \<and> r_cond r \<noteq> AnomalyDetected"

lemma opened_values:
  assumes "rule_shown_as_is r" and "\<And>n. number (int_str n) = Fin (of_int n)"
  shows "\<exists>f' v. submit_rule number (rule_form_opened (Some (to_alert_rule L r))) = (f', Some v)
    \<and> values_ok v \<and> values_short v \<and> rv_cond v \<in> set editable_conditions \<and> apply_rule_patch (values_patch v) r = r"
proof -
  have c: "condition_text (r_cond r) \<in> set editable_conditions"
    using assms(1) by (cases "r_cond r") (simp_all add: rule_shown_as_is_def editable_conditions_def)
  have "whole_from 0 (Fin (of_int (r_threshold r))) = Some (r_threshold r)"
    "whole_from 1 (Fin (of_int (r_window r))) = Some (r_window r)"
    using assms(1) by (simp_all add: whole_from_def integer_of_int rule_shown_as_is_def)
  moreover have "some_text (trim (the_or [] (r_desc r))) = r_desc r"
    using assms(1) by (cases "r_desc r") (simp_all add: rule_shown_as_is_def some_text_def trim_def trim_start_def)
  ultimately show ?thesis
    using assms(1) c condition_back [OF c]
    by (auto simp: submit_rule_def rule_form_opened_def to_alert_rule_def assms(2) Let_def rule_shown_as_is_def
        values_ok_def values_short_def values_patch_def apply_rule_patch_def split: option.splits)
qed

lemma update_first_same: "(\<And>x. P x \<Longrightarrow> x \<in> set xs \<Longrightarrow> f x = x) \<Longrightarrow> update_first P f xs = xs"
  by (induction xs) auto


section \<open>Examples\<close>

definition text_number :: "string \<Rightarrow> jnum" where
  "text_number s = (case parse_int s of None \<Rightarrow> NaN | Some n \<Rightarrow> Fin (of_int n))"

lemma text_number_int: "text_number (int_str n) = Fin (of_int n)"
  by (simp add: text_number_def parse_int_str)

definition crash_form :: rule_form where
  "crash_form = (rule_form_opened None)\<lparr>rf_name := ''crash'', rf_query := ''boom''\<rparr>"

definition crash_rule :: rule_row where
  "crash_rule = \<lparr>r_id = ''r1'', r_team = ''t1'', r_name = ''crash'', r_desc = None, r_query = ''boom'', r_qtype = RqSql,
     r_cond = GreaterThan, r_threshold = 1, r_window = 5, r_enabled = True, r_mute = None, r_created = 0\<rparr>"

definition rule_schemas :: write_schemas where
  "rule_schemas = sample_schemas\<lparr>sc_rule := create_rule_schema JNull, sc_rule_patch := update_rule_schema JNull\<rparr>"

definition idle_panel :: "alert_rule option \<Rightarrow> rules_panel" where
  "idle_panel r = \<lparr>rl_form = True, rl_editing = r, rl_deleting = None, rl_busy = None, rl_error = None\<rparr>"

lemma crash_texts: "trim ''crash'' = ''crash''" "trim ''boom'' = ''boom''" "trim [] = []"
  by code_simp+

lemma crash_role: "resolve_team_role ''u1'' ''t1'' two_teams = Some Owner" "can_write Owner"
  by (simp_all add: resolve_team_role_def membership_def two_teams_def can_write_def)


definition ruled_team :: db where
  "ruled_team = two_teams\<lparr>db_rules := [crash_rule]\<rparr>"


end
