(* ===== verification/LiveTail.thy ===== *)
theory LiveTail imports RequestContract IngestRoutes begin

text \<open>
  The live tail (\<open>frontend/src/components/logs/live-tail.tsx\<close>) on top of the live streams of the backend: the
  stream the component opens, the event-stream text the browser parses, and the list it shows.

  The parser of event streams is the browser's \<open>EventSource\<close>, as its standard describes it: fields up to
  an empty line make one event. \<open>decode\<close> is \<open>JSON.parse\<close> of the data of an event.
\<close>

section \<open>The event stream\<close>

fun event_lines :: "string \<times> string list \<Rightarrow> string list \<Rightarrow> (string \<times> string) list" where
  "event_lines (kind, data) [] = []"
| "event_lines (kind, data) (l # ls) =
     (if l = [] then (if data = [] then [] else [(kind, join newline data)]) @ event_lines ([], []) ls
      else if starts_with ''event: '' l then event_lines (drop 7 l, data) ls
      else if starts_with ''data: '' l then event_lines (kind, data @ [drop 6 l]) ls
      else event_lines (kind, data) ls)"

text \<open>The last piece is a line that has not ended yet.\<close>

definition event_stream :: "string \<Rightarrow> (string \<times> string) list" where
  "event_stream s = event_lines ([], []) (butlast (split_on (\<lambda>c. c = CHR 10) s))"

section \<open>The component\<close>

definition tail_limit :: nat where "tail_limit = 8"

record tail_form =
  tf_level :: string
  tf_service :: string
  tf_host :: string
  tf_query :: string

record 'e tail =
  tl_items :: "'e list"
  tl_connected :: bool
  tl_running :: bool

definition tail_opened :: "'e tail" where
  "tail_opened = \<lparr>tl_items = [], tl_connected = False, tl_running = True\<rparr>"

text \<open>The stream the effect opens while the component runs.\<close>

definition tail_filters :: "tail_form \<Rightarrow> stream_filters_options" where
  "tail_filters f =
     \<lparr>sfo_source = None, sfo_service = some_text (trim (tf_service f)), sfo_host = some_text (trim (tf_host f)),
      sfo_level = some_text (tf_level f), sfo_query = some_text (trim (tf_query f))\<rparr>"

definition tail_stream :: "string \<Rightarrow> string \<Rightarrow> string \<Rightarrow> tail_form \<Rightarrow> 'e tail \<Rightarrow> string option" where
  "tail_stream base team tok f t = (if tl_running t then Some (stream_url base team tok (tail_filters f)) else None)"

datatype tail_event = OpenedStream | StreamError | StreamEvent string string | TogglePause | ClearTail

fun tail_step :: "(string \<Rightarrow> 'e) \<Rightarrow> 'e tail \<Rightarrow> tail_event \<Rightarrow> 'e tail" where
  "tail_step decode t OpenedStream = t\<lparr>tl_connected := True\<rparr>"
| "tail_step decode t StreamError = t\<lparr>tl_connected := False\<rparr>"
| "tail_step decode t (StreamEvent kind data) =
     (if kind = ''log:new'' then t\<lparr>tl_items := take tail_limit (decode data # tl_items t)\<rparr> else t)"
| "tail_step decode t TogglePause =
     (if tl_running t then t\<lparr>tl_running := False, tl_connected := False\<rparr> else t\<lparr>tl_running := True\<rparr>)"
| "tail_step decode t ClearTail = t\<lparr>tl_items := []\<rparr>"

text \<open>The stream's text, event by event.\<close>

definition tail_reads :: "(string \<Rightarrow> 'e) \<Rightarrow> 'e tail \<Rightarrow> string \<Rightarrow> 'e tail" where
  "tail_reads decode t s = foldl (\<lambda>t (kind, data). tail_step decode t (StreamEvent kind data)) t (event_stream s)"

section \<open>Reading the frames back\<close>

datatype sent_frame = PingFrame | LogFrame log_entry

fun frame_texts :: "(log_entry \<Rightarrow> string) \<Rightarrow> sent_frame \<Rightarrow> string list" where
  "frame_texts st PingFrame = ping_frames"
| "frame_texts st (LogFrame e) = log_frames st e"

fun frame_event :: "(log_entry \<Rightarrow> string) \<Rightarrow> sent_frame \<Rightarrow> string \<times> string" where
  "frame_event st PingFrame = (''ping'', ''{}'')"
| "frame_event st (LogFrame e) = (''log:new'', st e)"

lemma split_line: "CHR 10 \<notin> set w \<Longrightarrow> split_on (\<lambda>c. c = CHR 10) (w @ CHR 10 # r) = w # split_on (\<lambda>c. c = CHR 10) r"
  by (rule split_on_here) (auto simp: list_all_iff)

lemma split_nonempty: "split_on P s \<noteq> []"
  by (cases s) (auto split: list.splits)

lemma frame_lines:
  assumes "CHR 10 \<notin> set (snd (frame_event st x))"
  shows "split_on (\<lambda>c. c = CHR 10) (concat (frame_texts st x) @ r) =
    (''event: '' @ fst (frame_event st x)) # (''data: '' @ snd (frame_event st x)) # [] # split_on (\<lambda>c. c = CHR 10) r"
proof -
  let ?k = "''event: '' @ fst (frame_event st x)" and ?d = "''data: '' @ snd (frame_event st x)"
  have "concat (frame_texts st x) @ r = ?k @ CHR 10 # (?d @ CHR 10 # ([] @ CHR 10 # r))"
    by (cases x) (simp_all add: ping_frames_def log_frames_def newline_def)
  moreover have "CHR 10 \<notin> set ?k" "CHR 10 \<notin> set ?d" using assms by (cases x, simp_all)
  ultimately show ?thesis by (simp only: split_line list.set(1) empty_iff not_False_eq_True)
qed

lemma frame_read: "event_lines ([], []) ((''event: '' @ k) # (''data: '' @ d) # [] # ls) = (k, d) # event_lines ([], []) ls"
  by (simp add: starts_with_def)

lemma frames_read:
  assumes "\<And>e. CHR 10 \<notin> set (st e)"
  shows "event_stream (concat (concat (map (frame_texts st) xs))) = map (frame_event st) xs"
proof (induction xs)
  case Nil
  show ?case by (simp add: event_stream_def)
next
  case (Cons x xs)
  have "CHR 10 \<notin> set (snd (frame_event st x))" using assms by (cases x) simp_all
  from frame_lines [OF this] Cons show ?case
    by (simp add: event_stream_def split_nonempty frame_read [simplified])
qed

section \<open>One connection of the bus\<close>

definition conn_of :: "nat \<Rightarrow> bus \<Rightarrow> conn option" where
  "conn_of i b = List.find (\<lambda>c. cn_id c = i) (bus_open b)"

fun frames_of :: "nat \<Rightarrow> ident \<Rightarrow> stream_filters \<Rightarrow> bus_event \<Rightarrow> sent_frame list" where
  "frames_of i team f (Emit e) = (if on_log_accepts team f e then [LogFrame e] else [])"
| "frames_of i team f (Heartbeat j) = (if j = i then [PingFrame] else [])"
| "frames_of i team f _ = []"

definition conn_after :: "(log_entry \<Rightarrow> string) \<Rightarrow> nat \<Rightarrow> bus_event \<Rightarrow> conn \<Rightarrow> conn" where
  "conn_after st i ev c = c\<lparr>cn_out := cn_out c @ concat (map (frame_texts st) (frames_of i (cn_team c) (cn_filters c) ev))\<rparr>"

lemma find_map_same: "(\<And>x. P (g x) = P x) \<Longrightarrow> List.find P (map g xs) = map_option g (List.find P xs)"
  by (induction xs) simp_all

lemma find_append_some: "List.find P xs = Some x \<Longrightarrow> List.find P (xs @ ys) = Some x"
  by (induction xs) (auto split: if_splits)

lemma find_append_none: "List.find P xs = None \<Longrightarrow> List.find P (xs @ ys) = List.find P ys"
  by (induction xs) (auto split: if_splits)

lemma find_delete_other: "(\<And>x. Q x \<Longrightarrow> \<not> P x) \<Longrightarrow> List.find P (delete_first Q xs) = List.find P xs"
  by (induction xs) auto

lemma on_log_id: "cn_id (on_log st e c) = cn_id c"
  by (simp add: on_log_def)

lemma conn_step:
  assumes "conn_of i b = Some c" and "ev \<noteq> Unsubscribe i"
  shows "conn_of i (bus_step st b ev) = Some (conn_after st i ev c)"
proof (cases ev)
  case (Subscribe j team f)
  then show ?thesis using assms(1) by (simp add: conn_of_def subscribe_def find_append_some conn_after_def)
next
  case (Emit e)
  have "conn_of i (bus_step st b ev) = map_option (on_log st e) (conn_of i b)"
    by (simp add: conn_of_def Emit emit_def find_map_same on_log_id)
  with assms(1) Emit show ?thesis by (simp add: on_log_def conn_after_def)
next
  case (Heartbeat j)
  have "conn_of i (bus_step st b ev)
      = map_option (\<lambda>c. if cn_id c = j then c\<lparr>cn_out := cn_out c @ ping_frames\<rparr> else c) (conn_of i b)"
    by (simp add: conn_of_def Heartbeat heartbeat_def find_map_same)
  moreover have "cn_id c = i" using assms(1) by (auto simp: conn_of_def dest: find_SomeD)
  ultimately show ?thesis using assms(1) Heartbeat by (simp add: conn_after_def)
next
  case (Unsubscribe j)
  then have "j \<noteq> i" using assms(2) by simp
  then have "List.find (\<lambda>c. cn_id c = i) (delete_first (\<lambda>c. cn_id c = j) (bus_open b)) = List.find (\<lambda>c. cn_id c = i) (bus_open b)"
    by (intro find_delete_other) simp
  then show ?thesis using assms(1) Unsubscribe
    by (simp add: conn_of_def unsubscribe_def conn_after_def split: option.split)
qed

lemma conn_run:
  "conn_of i b = Some c \<Longrightarrow> Unsubscribe i \<notin> set evs \<Longrightarrow>
   \<exists>c'. conn_of i (bus_run st b evs) = Some c'
     \<and> cn_out c' = cn_out c @ concat (map (frame_texts st) (concat (map (frames_of i (cn_team c) (cn_filters c)) evs)))"
proof (induction evs arbitrary: b c)
  case Nil
  then show ?case by (simp add: bus_run_def)
next
  case (Cons ev evs)
  then have "conn_of i (bus_step st b ev) = Some (conn_after st i ev c)" by (intro conn_step) auto
  from Cons.IH [OF this] Cons.prems(2) show ?case by (simp add: bus_run_def conn_after_def)
qed

section \<open>What the tail shows\<close>

fun frame_logs :: "sent_frame \<Rightarrow> log_entry list" where
  "frame_logs (LogFrame e) = [e]"
| "frame_logs PingFrame = []"

lemma tail_items_of_frames:
  "tl_items (foldl (\<lambda>t (kind, data). tail_step decode t (StreamEvent kind data)) tail_opened (map (frame_event st) xs))
    = take tail_limit (rev (map (decode \<circ> st) (concat (map frame_logs xs))))"
proof (induction xs rule: rev_induct)
  case (snoc x xs)
  then show ?case by (cases x) (simp_all add: take_Cons' tail_limit_def)
qed (simp add: tail_opened_def)

lemma logs_of_frames:
  "concat (map frame_logs (concat (map (frames_of i team f) evs))) = filter (on_log_accepts team f) (concat (map emitted evs))"
proof (induction evs)
  case (Cons ev evs)
  then show ?case by (cases ev) simp_all
qed simp

definition tail_sees :: "tail_form \<Rightarrow> stream_filters" where
  "tail_sees f = \<lparr>sf_source = None, sf_service = some_text (trim (tf_service f)), sf_host = some_text (trim (tf_host f)),
     sf_level = some_text (tf_level f), sf_query = some_text (trim (tf_query f))\<rparr>"

lemma stream_query:
  assumes "hr_query q = query_of (stream_params team tok (tail_filters f))"
  shows "query_text L q ''teamId'' = team" and "query_string q ''sourceId'' = None"
    and "query_string q ''service'' = some_text (trim (tf_service f))"
    and "query_string q ''host'' = some_text (trim (tf_host f))" and "query_string q ''level'' = some_text (tf_level f)"
    and "query_string q ''query'' = some_text (trim (tf_query f))"
  by (simp_all add: assms query_text_def query_string_def query_of_def stream_params_def tail_filters_def pair_reads
      pair_reads(3) [where ps = "[]", simplified] some_text_truthy text_json_def truthy_def some_text_def)

text \<open>C22: the live tail shows the latest entries. A member opens the stream of the tail's fields, whatever else is
  connected; whatever the bus does then, while the connection stays open the tail shows the entries of the
  team that match the fields, the last eight of them, the latest first, and pings change nothing.\<close>

theorem live_tail_shows_the_latest:
  assumes "\<And>e. CHR 10 \<notin> set (st e)" and "hr_query q = query_of (stream_params team tok (tail_filters f))" and "team \<noteq> []"
    and "resolve_stream_user_id t q d = Some u" and "resolve_team_role u team d \<noteq> None"
    and "conn_of i b = None" and "Unsubscribe i \<notin> set evs"
  shows "\<exists>b1 c. stream_logs L t i q d b = (StreamOpen, b1) \<and> conn_of i (bus_run st b1 evs) = Some c
    \<and> tl_items (tail_reads decode tail_opened (concat (cn_out c)))
      = take 8 (rev (map (decode \<circ> st) (filter (on_log_accepts team (tail_sees f)) (concat (map emitted evs)))))"
proof -
  let ?c = "\<lparr>cn_id = i, cn_team = team, cn_filters = tail_sees f, cn_out = []\<rparr>"
  let ?b = "subscribe i team (tail_sees f) b"
  have opened: "stream_logs L t i q d b = (StreamOpen, ?b)"
    using assms(3-5)
    by (auto simp: stream_logs_def require_stream_auth_def require_team_role_def stream_query [OF assms(2)] tail_sees_def Let_def)
  have "conn_of i ?b = Some ?c" using assms(6) by (simp add: conn_of_def subscribe_def find_append_none)
  from conn_run [OF this assms(7), of st] obtain c where c: "conn_of i (bus_run st ?b evs) = Some c"
    "cn_out c = concat (map (frame_texts st) (concat (map (frames_of i team (tail_sees f)) evs)))" by auto
  have "tl_items (tail_reads decode tail_opened (concat (cn_out c)))
      = take tail_limit (rev (map (decode \<circ> st) (filter (on_log_accepts team (tail_sees f)) (concat (map emitted evs)))))"
    unfolding tail_reads_def c(2) frames_read [OF assms(1)] tail_items_of_frames logs_of_frames ..
  with opened c(1) show ?thesis by (auto simp: tail_limit_def)
qed

definition boom_entry :: log_entry where
  "boom_entry = \<lparr>le_id = ''e1'', le_team = ''t1'', le_source = ''s1'', le_timestamp = ''2026-01-01T10:00:00Z'',
     le_level = LError, le_service = ''api'', le_host = ''a'', le_message = ''boom'', le_fields = JObj []\<rparr>"

definition blank_fields :: tail_form where
  "blank_fields = \<lparr>tf_level = [], tf_service = [], tf_host = [], tf_query = []\<rparr>"

theorem live_tail_shows_the_latest_witness:
  "\<exists>b1 c. stream_logs fixed_lib 1 0
       ((call_as ''tok'' [])\<lparr>hr_query := query_of (stream_params ''t1'' ''tok'' (tail_filters blank_fields))\<rparr>) two_teams idle_bus
       = (StreamOpen, b1)
     \<and> conn_of 0 (bus_run (\<lambda>e. level_str (le_level e)) b1 [Heartbeat 0, Emit boom_entry]) = Some c
     \<and> tl_items (tail_reads id tail_opened (concat (cn_out c))) = [''error'']"
proof -
  let ?q = "(call_as ''tok'' [])\<lparr>hr_query := query_of (stream_params ''t1'' ''tok'' (tail_filters blank_fields))\<rparr>"
  let ?st = "\<lambda>e. level_str (le_level e)"
  have st: "CHR 10 \<notin> set (?st e)" for e by (cases "le_level e") simp_all
  have stream: "hr_query ?q = query_of (stream_params ''t1'' ''tok'' (tail_filters blank_fields))" by simp
  have caller: "resolve_stream_user_id 1 ?q two_teams = Some ''u1''"
    by (simp add: resolve_stream_user_id_def call_as_def parse_tok session_user_def session_by_token_def two_teams_def
        truthy_def Let_def)
  have role: "resolve_team_role ''u1'' ''t1'' two_teams \<noteq> None"
    by (simp add: resolve_team_role_def membership_def two_teams_def)
  have idle: "conn_of 0 idle_bus = None" by (simp add: conn_of_def idle_bus_def)
  have stays: "Unsubscribe 0 \<notin> set [Heartbeat 0, Emit boom_entry]" by simp
  have seen: "on_log_accepts ''t1'' (tail_sees blank_fields) boom_entry"
    by (simp add: on_log_accepts_def tail_sees_def blank_fields_def boom_entry_def passes_def truthy_def some_text_def
        trim_def trim_start_def)
  from live_tail_shows_the_latest [where st = ?st and L = fixed_lib and decode = id, OF st stream _ caller role idle stays]
  show ?thesis by (simp add: seen boom_entry_def [THEN arg_cong [where f = le_level], simplified])
qed

end
