(* ===== verification/SourceKey.thy ===== *)
theory SourceKey imports Prelude begin

text \<open>
  The key of a listed source (\<open>SourceKey\<close> in \<open>frontend/src/components/settings/sources-panel.tsx\<close>): the
  masked hint until Reveal is pressed, the full key while it is, and Copy. Requests and clipboard
  writes are in flight between the events that start and settle them; events come in any order.

  State updates of a row that is no longer mounted are ignored, as React does; its handlers run on.
\<close>

section \<open>State and events\<close>

datatype key_action = RevealAct | CopyAct

record key_row =
  kr_hint :: string
  kr_full :: "string option"
  kr_loading :: bool
  kr_copied :: bool
  kr_error :: "string option"
  kr_generation :: nat
  kr_mounted :: bool
  kr_flights :: "(nat \<times> key_action) list"
  kr_writes :: "string list"
  kr_clipboard :: "string option"

text \<open>\<open>Replied n r\<close> settles the \<open>n\<close>-th request in flight with the key or the message of the error,
  \<open>Wrote n ok\<close> the \<open>n\<close>-th clipboard write.\<close>

datatype key_event =
    ClickReveal
  | ClickCopy
  | Replied nat "string + string"
  | Wrote nat bool
  | HintChanged string
  | CopiedTimer
  | Unmounted

definition mounted_row :: "string \<Rightarrow> key_row" where
  "mounted_row hint =
     \<lparr>kr_hint = hint, kr_full = None, kr_loading = False, kr_copied = False, kr_error = None, kr_generation = 1,
      kr_mounted = True, kr_flights = [], kr_writes = [], kr_clipboard = None\<rparr>"

definition set_state :: "(key_row \<Rightarrow> key_row) \<Rightarrow> key_row \<Rightarrow> key_row" where
  "set_state f s = (if kr_mounted s then f s else s)"

fun describe_failure :: "key_action \<Rightarrow> string \<Rightarrow> string" where
  "describe_failure a detail =
     ''Could not '' @ (case a of RevealAct \<Rightarrow> ''reveal'' | CopyAct \<Rightarrow> ''copy'') @ '' the key (''
       @ (if detail = [] then ''request failed'' else detail) @ '').''"

definition drop_nth :: "nat \<Rightarrow> 'a list \<Rightarrow> 'a list" where
  "drop_nth n xs = take n xs @ drop (Suc n) xs"

section \<open>Handlers\<close>

definition fetch_key :: "key_action \<Rightarrow> key_row \<Rightarrow> key_row" where
  "fetch_key a s =
     s\<lparr>kr_loading := True, kr_error := None, kr_copied := False, kr_flights := kr_flights s @ [(kr_generation s, a)]\<rparr>"

definition write_clipboard :: "string \<Rightarrow> key_row \<Rightarrow> key_row" where
  "write_clipboard k s = set_state (\<lambda>s. s\<lparr>kr_error := None\<rparr>) s \<lparr>kr_writes := kr_writes s @ [k]\<rparr>"

definition toggle_reveal :: "key_row \<Rightarrow> key_row" where
  "toggle_reveal s =
     (if kr_full s \<noteq> None then s\<lparr>kr_generation := kr_generation s + 1, kr_full := None\<rparr> else fetch_key RevealAct s)"

definition copy_key :: "key_row \<Rightarrow> key_row" where
  "copy_key s = (case kr_full s of Some k \<Rightarrow> write_clipboard k s | None \<Rightarrow> fetch_key CopyAct s)"

text \<open>The rest of \<open>fetchKey\<close> and of its caller, when the reply is there.\<close>

definition key_replied :: "nat \<Rightarrow> key_action \<Rightarrow> string + string \<Rightarrow> key_row \<Rightarrow> key_row" where
  "key_replied ticket a r s =
     (if ticket \<noteq> kr_generation s then s
      else (let s1 = set_state (\<lambda>s. s\<lparr>kr_loading := False\<rparr>) s in
            case r of
              Inl e \<Rightarrow> set_state (\<lambda>s. s\<lparr>kr_error := Some (describe_failure a e)\<rparr>) s1
            | Inr k \<Rightarrow>
                (case a of
                   RevealAct \<Rightarrow> set_state (\<lambda>s. s\<lparr>kr_full := Some k\<rparr>) s1
                 | CopyAct \<Rightarrow> write_clipboard k s1)))"

definition key_written :: "string \<Rightarrow> bool \<Rightarrow> key_row \<Rightarrow> key_row" where
  "key_written k ok s =
     (if ok then set_state (\<lambda>s. s\<lparr>kr_copied := True\<rparr>) (s\<lparr>kr_clipboard := Some k\<rparr>)
      else set_state (\<lambda>s. s\<lparr>kr_copied := False,
             kr_error := Some ''Copy failed. Reveal the key and copy it manually.''\<rparr>) s)"

definition hint_effect :: "string \<Rightarrow> key_row \<Rightarrow> key_row" where
  "hint_effect h s =
     s\<lparr>kr_hint := h, kr_generation := kr_generation s + 1, kr_full := None, kr_loading := False, kr_copied := False,
       kr_error := None\<rparr>"

text \<open>The buttons are disabled while a request loads; the effect of the hint runs when it changes.\<close>

fun key_step :: "key_row \<Rightarrow> key_event \<Rightarrow> key_row" where
  "key_step s ClickReveal = (if kr_mounted s \<and> \<not> kr_loading s then toggle_reveal s else s)"
| "key_step s ClickCopy = (if kr_mounted s \<and> \<not> kr_loading s then copy_key s else s)"
| "key_step s (Replied n r) =
     (if n < length (kr_flights s)
      then (case kr_flights s ! n of (ticket, a) \<Rightarrow> key_replied ticket a r (s\<lparr>kr_flights := drop_nth n (kr_flights s)\<rparr>))
      else s)"
| "key_step s (Wrote n ok) =
     (if n < length (kr_writes s)
      then key_written (kr_writes s ! n) ok (s\<lparr>kr_writes := drop_nth n (kr_writes s)\<rparr>) else s)"
| "key_step s (HintChanged h) = (if kr_mounted s \<and> h \<noteq> kr_hint s then hint_effect h s else s)"
| "key_step s CopiedTimer = set_state (\<lambda>s. s\<lparr>kr_copied := False\<rparr>) s"
| "key_step s Unmounted = s\<lparr>kr_mounted := False\<rparr>"

definition key_run :: "string \<Rightarrow> key_event list \<Rightarrow> key_row" where
  "key_run hint es = foldl key_step (mounted_row hint) es"

text \<open>What the row shows.\<close>

definition shown_key :: "key_row \<Rightarrow> string option" where
  "shown_key s = (if \<not> kr_mounted s then None else case kr_full s of Some k \<Rightarrow> Some k | None \<Rightarrow> Some (kr_hint s))"

lemma key_run_Nil [simp]: "key_run hint [] = mounted_row hint"
  by (simp add: key_run_def)

lemma key_run_snoc [simp]: "key_run hint (es @ [e]) = key_step (key_run hint es) e"
  by (simp add: key_run_def)

section \<open>At most one request counts\<close>

definition live_flights :: "key_row \<Rightarrow> (nat \<times> key_action) list" where
  "live_flights s = filter (\<lambda>f. fst f = kr_generation s) (kr_flights s)"

definition key_ok :: "key_row \<Rightarrow> bool" where
  "key_ok s \<longleftrightarrow> list_all (\<lambda>f. fst f \<le> kr_generation s) (kr_flights s) \<and> length (live_flights s) \<le> 1
     \<and> (kr_mounted s \<longrightarrow> (kr_loading s \<longleftrightarrow> live_flights s \<noteq> []) \<and> (kr_full s \<noteq> None \<longrightarrow> \<not> kr_loading s))"

lemma key_ok_mounted: "key_ok (mounted_row hint)"
  by (simp add: key_ok_def mounted_row_def live_flights_def)

lemma nth_split: "n < length xs \<Longrightarrow> xs = take n xs @ xs ! n # drop (Suc n) xs"
  by (rule id_take_nth_drop)

lemma filter_drop_nth:
  assumes "n < length xs"
  shows "filter P xs = filter P (take n xs) @ (if P (xs ! n) then [xs ! n] else []) @ filter P (drop (Suc n) xs)"
  by (subst nth_split [OF assms]) simp

lemma drop_nth_all: "list_all P xs \<Longrightarrow> list_all P (drop_nth n xs)"
  by (auto simp: drop_nth_def list_all_iff dest: in_set_takeD in_set_dropD)

lemma live_settled:
  assumes "n < length (kr_flights s)" and "length (live_flights s) \<le> 1"
  shows "live_flights (s\<lparr>kr_flights := drop_nth n (kr_flights s)\<rparr>) =
    (if fst (kr_flights s ! n) = kr_generation s then [] else live_flights s)"
  using filter_drop_nth [OF assms(1), of "\<lambda>f. fst f = kr_generation s"] assms(2)
  by (auto simp: live_flights_def drop_nth_def split: if_splits)

lemma live_is_last:
  "n < length (kr_flights s) \<Longrightarrow> fst (kr_flights s ! n) = kr_generation s \<Longrightarrow> kr_flights s ! n \<in> set (live_flights s)"
  by (simp add: live_flights_def)

lemma no_later_ticket: "list_all (\<lambda>f. fst f \<le> g) fs \<Longrightarrow> filter (\<lambda>f. fst f = Suc g) fs = []"
  by (auto simp: list_all_iff filter_empty_conv)

lemma later_tickets: "list_all (\<lambda>f. fst f \<le> g) fs \<Longrightarrow> list_all (\<lambda>f. fst f \<le> Suc g) fs"
  by (auto simp: list_all_iff)

lemmas key_defs = set_state_def write_clipboard_def key_written_def live_flights_def key_ok_def fetch_key_def
  toggle_reveal_def copy_key_def hint_effect_def

lemma key_ok_step: "key_ok s \<Longrightarrow> key_ok (key_step s e)"
proof (cases e)
  case (Replied n r)
  assume ok: "key_ok s"
  show ?thesis
  proof (cases "n < length (kr_flights s)")
    case True
    obtain ticket a where f: "kr_flights s ! n = (ticket, a)" by fastforce
    have one: "length (live_flights s) \<le> 1" using ok by (simp add: key_ok_def)
    note live = live_settled [OF True one]
    have all: "list_all (\<lambda>f. fst f \<le> kr_generation s) (drop_nth n (kr_flights s))"
      using ok by (simp add: key_ok_def drop_nth_all)
    show ?thesis
    proof (cases "ticket = kr_generation s")
      case current: True
      have "filter (\<lambda>f. fst f = kr_generation s) (drop_nth n (kr_flights s)) = []"
        using live f current by (simp add: live_flights_def)
      moreover have "kr_mounted s \<Longrightarrow> kr_loading s" using ok live_is_last [OF True] f current by (auto simp: key_ok_def)
      ultimately show ?thesis using Replied True f current all ok
        by (auto simp: key_replied_def Let_def key_defs split: sum.splits key_action.splits)
    next
      case False
      then have "live_flights (s\<lparr>kr_flights := drop_nth n (kr_flights s)\<rparr>) = live_flights s" using live f by simp
      then show ?thesis using Replied True f False all ok by (auto simp: key_replied_def key_ok_def)
    qed
  qed (use Replied ok in simp)
qed (auto simp: key_defs no_later_ticket later_tickets filter_empty_conv list_all_iff split: option.splits)

lemma key_run_ok: "key_ok (key_run hint es)"
  by (induction es rule: rev_induct) (simp_all add: key_ok_mounted key_ok_step)

section \<open>A key is shown only on request\<close>

text \<open>A click on Reveal in this state sends a request; and the history since a request, as long as neither the
  hint changed nor the key was hidden (either moves the generation on).\<close>

definition can_ask :: "key_row \<Rightarrow> bool" where
  "can_ask s \<longleftrightarrow> kr_mounted s \<and> \<not> kr_loading s \<and> kr_full s = None"

definition same_epoch :: "key_row \<Rightarrow> key_row \<Rightarrow> bool" where
  "same_epoch s s' \<longleftrightarrow> kr_generation s = kr_generation s' \<and> kr_hint s = kr_hint s'"

definition asked :: "string \<Rightarrow> key_event list \<Rightarrow> bool" where
  "asked hint es \<longleftrightarrow> (\<exists>pre mid. es = pre @ ClickReveal # mid \<and> can_ask (key_run hint pre)
     \<and> same_epoch (key_run hint pre) (key_run hint es))"

definition revealed :: "string \<Rightarrow> key_event list \<Rightarrow> string \<Rightarrow> bool" where
  "revealed hint es k \<longleftrightarrow> (\<exists>pre mid n post. es = pre @ ClickReveal # mid @ Replied n (Inr k) # post
     \<and> can_ask (key_run hint pre) \<and> same_epoch (key_run hint pre) (key_run hint es)
     \<and> n < length (kr_flights (key_run hint (pre @ ClickReveal # mid)))
     \<and> kr_flights (key_run hint (pre @ ClickReveal # mid)) ! n = (kr_generation (key_run hint pre), RevealAct)
     \<and> ClickReveal \<notin> set post)"

lemma asked_more: "asked hint es \<Longrightarrow> same_epoch (key_run hint es) (key_step (key_run hint es) e) \<Longrightarrow> asked hint (es @ [e])"
  by (fastforce simp: asked_def same_epoch_def)

lemma revealed_more:
  assumes "revealed hint es k" and "same_epoch (key_run hint es) (key_step (key_run hint es) e)" and "e \<noteq> ClickReveal"
  shows "revealed hint (es @ [e]) k"
proof -
  from assms(1) obtain pre mid n post where r: "es = pre @ ClickReveal # mid @ Replied n (Inr k) # post"
    "can_ask (key_run hint pre)" "same_epoch (key_run hint pre) (key_run hint es)"
    "n < length (kr_flights (key_run hint (pre @ ClickReveal # mid)))"
    "kr_flights (key_run hint (pre @ ClickReveal # mid)) ! n = (kr_generation (key_run hint pre), RevealAct)"
    "ClickReveal \<notin> set post" unfolding revealed_def by blast
  have "es @ [e] = pre @ ClickReveal # mid @ Replied n (Inr k) # (post @ [e])" by (simp add: r(1))
  moreover have "same_epoch (key_run hint pre) (key_run hint (es @ [e]))"
    using r(3) assms(2) by (simp add: same_epoch_def)
  moreover have "ClickReveal \<notin> set (post @ [e])" using r(6) assms(3) by simp
  ultimately show ?thesis unfolding revealed_def using r(2,4,5) by blast
qed

definition key_explained :: "string \<Rightarrow> key_event list \<Rightarrow> bool" where
  "key_explained hint es \<longleftrightarrow> (let s = key_run hint es in kr_mounted s \<longrightarrow>
     (\<forall>k. kr_full s = Some k \<longrightarrow> revealed hint es k) \<and> ((kr_generation s, RevealAct) \<in> set (kr_flights s) \<longrightarrow> asked hint es))"

text \<open>An event that starts no request and shows no key keeps the explanation.\<close>

lemma explained_quiet:
  assumes "key_explained hint es" and "e \<noteq> ClickReveal"
    and "kr_mounted (key_step (key_run hint es) e) \<Longrightarrow> kr_mounted (key_run hint es)
      \<and> same_epoch (key_run hint es) (key_step (key_run hint es) e)
      \<and> (\<forall>k. kr_full (key_step (key_run hint es) e) = Some k \<longrightarrow> kr_full (key_run hint es) = Some k)
      \<and> ((kr_generation (key_run hint es), RevealAct) \<in> set (kr_flights (key_step (key_run hint es) e))
          \<longrightarrow> (kr_generation (key_run hint es), RevealAct) \<in> set (kr_flights (key_run hint es)))"
  shows "key_explained hint (es @ [e])"
  using assms asked_more [of hint es e] revealed_more [of hint es _ e]
  by (auto simp: key_explained_def Let_def same_epoch_def)

lemma no_such_flight: "list_all (\<lambda>f. fst f \<le> g) fs \<Longrightarrow> (Suc g, a) \<notin> set fs"
  by (auto simp: list_all_iff)

lemma drop_nth_subset: "set (drop_nth n xs) \<subseteq> set xs"
  by (auto simp: drop_nth_def dest: in_set_takeD in_set_dropD)

lemma explained_reveal:
  assumes "key_explained hint es"
  shows "key_explained hint (es @ [ClickReveal])"
proof -
  let ?s = "key_run hint es"
  have ok: "key_ok ?s" by (rule key_run_ok)
  have new: "asked hint (es @ [ClickReveal])" if "can_ask ?s"
    unfolding asked_def using that
    by (intro exI [of _ es] exI [of _ "[]"]) (simp add: can_ask_def same_epoch_def toggle_reveal_def fetch_key_def)
  show ?thesis
  proof (cases "kr_mounted ?s \<and> \<not> kr_loading ?s")
    case True
    then show ?thesis using ok new no_such_flight [of "kr_generation ?s" "kr_flights ?s" RevealAct]
      by (auto simp: key_explained_def toggle_reveal_def fetch_key_def can_ask_def key_ok_def)
  next
    case False
    then have same: "key_run hint (es @ [ClickReveal]) = ?s" by auto
    then show ?thesis using False assms ok asked_more [of hint es ClickReveal]
      by (auto simp: key_explained_def Let_def same_epoch_def key_ok_def)
  qed
qed

lemma explained_reply:
  assumes "key_explained hint es"
  shows "key_explained hint (es @ [Replied n r])"
proof -
  let ?s = "key_run hint es"
  have ok: "key_ok ?s" by (rule key_run_ok)
  show ?thesis
  proof (cases "n < length (kr_flights ?s) \<and> kr_mounted ?s \<and> kr_flights ?s ! n = (kr_generation ?s, RevealAct)
      \<and> (\<exists>k. r = Inr k)")
    case True
    then obtain k where k: "n < length (kr_flights ?s)" "kr_mounted ?s" "kr_flights ?s ! n = (kr_generation ?s, RevealAct)"
      "r = Inr k" by blast
    have "(kr_generation ?s, RevealAct) \<in> set (kr_flights ?s)" using k nth_mem by metis
    then have "asked hint es" using assms k(2) by (simp add: key_explained_def Let_def)
    then obtain pre mid where pre: "es = pre @ ClickReveal # mid" "can_ask (key_run hint pre)"
      "same_epoch (key_run hint pre) ?s" unfolding asked_def by blast
    have gen: "same_epoch ?s (key_step ?s (Replied n r))"
      using k by (simp add: key_replied_def Let_def set_state_def same_epoch_def)
    have "revealed hint (es @ [Replied n (Inr k)]) k"
    proof -
      have "es @ [Replied n (Inr k)] = pre @ ClickReveal # mid @ Replied n (Inr k) # []" by (simp add: pre(1))
      moreover have "same_epoch (key_run hint pre) (key_run hint (es @ [Replied n (Inr k)]))"
        using pre(3) gen k(4) by (simp add: same_epoch_def)
      moreover have "kr_flights (key_run hint (pre @ ClickReveal # mid)) ! n = (kr_generation (key_run hint pre), RevealAct)"
        using k(3) pre(1,3) by (simp add: same_epoch_def)
      moreover have "n < length (kr_flights (key_run hint (pre @ ClickReveal # mid)))" using k(1) pre(1) by simp
      moreover have "ClickReveal \<notin> set []" by simp
      ultimately show ?thesis unfolding revealed_def using pre(2) by blast
    qed
    moreover have "(kr_generation ?s, RevealAct) \<notin> set (drop_nth n (kr_flights ?s))"
    proof -
      have "length (live_flights ?s) \<le> 1" using ok by (simp add: key_ok_def)
      from live_settled [OF k(1) this] k(3) show ?thesis by (auto simp: live_flights_def filter_empty_conv)
    qed
    ultimately show ?thesis using k by (auto simp: key_explained_def key_replied_def Let_def set_state_def)
  next
    case False
    show ?thesis
      by (rule explained_quiet [OF assms])
        (use False drop_nth_subset [of n "kr_flights ?s"] in
          \<open>auto simp: key_replied_def Let_def set_state_def write_clipboard_def same_epoch_def
            split: if_splits prod.splits sum.splits key_action.splits\<close>)
  qed
qed

lemma explained_step:
  assumes "key_explained hint es"
  shows "key_explained hint (es @ [e])"
proof (cases e)
  case (HintChanged h)
  have "key_ok (key_run hint es)" by (rule key_run_ok)
  then have "list_all (\<lambda>f. fst f \<le> kr_generation (key_run hint es)) (kr_flights (key_run hint es))"
    by (simp add: key_ok_def)
  from no_such_flight [OF this, of RevealAct] show ?thesis
    using assms HintChanged explained_quiet [OF assms, of "HintChanged h"]
    by (auto simp: key_explained_def hint_effect_def Let_def same_epoch_def)
qed (use assms explained_reveal explained_reply in \<open>auto intro!: explained_quiet [OF assms] simp: copy_key_def fetch_key_def
      write_clipboard_def key_written_def set_state_def same_epoch_def split: option.splits if_splits\<close>)

lemma key_run_explained: "key_explained hint es"
proof (induction es rule: rev_induct)
  case Nil
  show ?case by (simp add: key_explained_def mounted_row_def)
qed (rule explained_step)

text \<open>C16: a row shows a key only because somebody asked for it. Whatever clicks, replies, clipboard writes, hint
  changes and unmounts happen in whatever order, the row shows its hint or else a key that answers a
  request started by a click on Reveal on a row that showed its hint; since that click the hint has
  not changed and the key has not been hidden, and Reveal has not been pressed again since the answer.\<close>

theorem shown_key_was_asked_for:
  "case shown_key (key_run hint es) of
     None \<Rightarrow> \<not> kr_mounted (key_run hint es)
   | Some x \<Rightarrow> x = kr_hint (key_run hint es) \<or> revealed hint es x"
  using key_run_explained [of hint es] by (auto simp: shown_key_def key_explained_def Let_def split: option.splits)

text \<open>Without a click on Copy nothing reaches the clipboard.\<close>

lemma copy_needs_a_click:
  assumes "ClickCopy \<notin> set es"
  shows "kr_clipboard (key_run hint es) = None \<and> kr_writes (key_run hint es) = []
    \<and> list_all (\<lambda>f. snd f = RevealAct) (kr_flights (key_run hint es))"
  using assms
proof (induction es rule: rev_induct)
  case (snoc e es)
  then have IH: "kr_clipboard (key_run hint es) = None" "kr_writes (key_run hint es) = []"
    "list_all (\<lambda>f. snd f = RevealAct) (kr_flights (key_run hint es))" by auto
  show ?case
  proof (cases e)
    case (Replied n r)
    show ?thesis
    proof (cases "n < length (kr_flights (key_run hint es))")
      case True
      then have "snd (kr_flights (key_run hint es) ! n) = RevealAct" using IH(3) by (simp add: list_all_length)
      then show ?thesis using IH drop_nth_all [OF IH(3)] Replied True
        by (auto simp: key_replied_def Let_def set_state_def split: prod.splits sum.splits)
    qed (use IH Replied in simp)
  qed (use IH snoc.prems in \<open>auto simp: toggle_reveal_def fetch_key_def hint_effect_def set_state_def\<close>)
qed (simp add: mounted_row_def)

text \<open>An unmount does not move the generation on, so a copy that is asked for before and answered after it still
  writes the key, although the row is gone.\<close>

lemma copy_outlives_the_row:
  "kr_clipboard (key_run hint [ClickCopy, Unmounted, Replied 0 (Inr k), Wrote 0 True]) = Some k"
  by (simp add: key_run_def mounted_row_def copy_key_def fetch_key_def key_replied_def Let_def set_state_def
      write_clipboard_def key_written_def drop_nth_def)

end
