(* ===== verification/DialogBox.thy ===== *)
theory DialogBox imports SearchScreen begin

text \<open>
  The dialog of the web interface (\<open>Dialog\<close> and \<open>useDialog\<close> in \<open>frontend/src/components/ui/dialog.tsx\<close>):
  what its buttons answer, and the promises \<open>useDialog\<close> hands out. A promise keeps the first value it is
  resolved with. The focus handling is not modelled.
\<close>

section \<open>The buttons\<close>

text \<open>The variants, with the value a text field starts with and whether the caller may share.\<close>

datatype dialog_kind = AskConfirm | AskText "string option" | AskView "string option" bool

datatype dialog_answer = Declined | Agreed | Entered string | ViewNamed string bool bool

record dialog_fields =
  df_input :: string
  df_shared :: bool
  df_default :: bool

text \<open>\<open>handleConfirm\<close> up to \<open>onClose\<close>: nothing happens while the text is blank.\<close>

fun confirmed_answer :: "dialog_kind \<Rightarrow> dialog_fields \<Rightarrow> dialog_answer option" where
  "confirmed_answer AskConfirm f = Some Agreed"
| "confirmed_answer (AskText _) f = (if trim (df_input f) = [] then None else Some (Entered (trim (df_input f))))"
| "confirmed_answer (AskView _ allowed) f =
     (if trim (df_input f) = [] then None
      else Some (ViewNamed (trim (df_input f)) (allowed \<and> df_shared f) (allowed \<and> df_default f)))"

text \<open>The effect that fills the fields when a dialog opens.\<close>

fun fields_filled :: "dialog_kind \<Rightarrow> dialog_fields \<Rightarrow> dialog_fields" where
  "fields_filled AskConfirm f = f"
| "fields_filled (AskText v) f = f\<lparr>df_input := the_or [] v\<rparr>"
| "fields_filled (AskView v _) f = \<lparr>df_input = the_or [] v, df_shared = False, df_default = False\<rparr>"

text \<open>Its dependencies: whether the dialog is open, its variant, and the values of the two variants.\<close>

fun fill_deps :: "dialog_kind \<Rightarrow> nat \<times> string option \<times> string option" where
  "fill_deps AskConfirm = (0, None, None)"
| "fill_deps (AskText v) = (1, v, None)"
| "fill_deps (AskView v _) = (2, None, v)"

section \<open>Promises\<close>

text \<open>\<open>dh_asked\<close> has every question in the order of its promises; an open dialog names its promise.\<close>

record dialog_host =
  dh_open :: "(nat \<times> dialog_kind) option"
  dh_fields :: dialog_fields
  dh_asked :: "dialog_kind list"
  dh_settled :: "(nat \<times> dialog_answer) list"

datatype dialog_event = Ask dialog_kind | TypeText string | TickShared bool | TickDefault bool | PressConfirm | Dismiss

definition no_dialog :: dialog_host where
  "no_dialog = \<lparr>dh_open = None, dh_fields = \<lparr>df_input = [], df_shared = False, df_default = False\<rparr>,
     dh_asked = [], dh_settled = []\<rparr>"

definition resolve_promise :: "nat \<Rightarrow> dialog_answer \<Rightarrow> dialog_host \<Rightarrow> dialog_host" where
  "resolve_promise n a s = (if n \<in> fst ` set (dh_settled s) then s else s\<lparr>dh_settled := dh_settled s @ [(n, a)]\<rparr>)"

definition ask_dialog :: "dialog_kind \<Rightarrow> dialog_host \<Rightarrow> dialog_host" where
  "ask_dialog k s =
     (let same = (case dh_open s of None \<Rightarrow> False | Some (_, k0) \<Rightarrow> fill_deps k0 = fill_deps k) in
      s\<lparr>dh_open := Some (length (dh_asked s), k), dh_asked := dh_asked s @ [k],
        dh_fields := if same then dh_fields s else fields_filled k (dh_fields s)\<rparr>)"

definition close_dialog :: "dialog_host \<Rightarrow> dialog_host" where
  "close_dialog s = (case dh_open s of None \<Rightarrow> s | Some (n, _) \<Rightarrow> (resolve_promise n Declined s)\<lparr>dh_open := None\<rparr>)"

text \<open>\<open>onConfirm\<close> resolves the promise and closes; \<open>onClose\<close> then runs with the state of the same rendering, so it
  resolves the promise a second time.\<close>

definition press_confirm :: "dialog_host \<Rightarrow> dialog_host" where
  "press_confirm s =
     (case dh_open s of
        None \<Rightarrow> s
      | Some (n, k) \<Rightarrow>
          (case confirmed_answer k (dh_fields s) of
             None \<Rightarrow> s
           | Some a \<Rightarrow> (resolve_promise n Declined (resolve_promise n a s))\<lparr>dh_open := None\<rparr>))"

text \<open>The boxes of a view's dialog are disabled for a caller who may not share.\<close>

definition boxes_enabled :: "dialog_host \<Rightarrow> bool" where
  "boxes_enabled s = (case dh_open s of Some (_, AskView _ allowed) \<Rightarrow> allowed | _ \<Rightarrow> False)"

definition set_fields :: "(dialog_fields \<Rightarrow> dialog_fields) \<Rightarrow> dialog_host \<Rightarrow> dialog_host" where
  "set_fields f s = s\<lparr>dh_fields := f (dh_fields s)\<rparr>"

fun dialog_step :: "dialog_host \<Rightarrow> dialog_event \<Rightarrow> dialog_host" where
  "dialog_step s (Ask k) = ask_dialog k s"
| "dialog_step s (TypeText t) =
     (if dh_open s \<noteq> None \<and> snd (the (dh_open s)) \<noteq> AskConfirm then set_fields (df_input_update (\<lambda>_. t)) s else s)"
| "dialog_step s (TickShared b) = (if boxes_enabled s then set_fields (df_shared_update (\<lambda>_. b)) s else s)"
| "dialog_step s (TickDefault b) = (if boxes_enabled s then set_fields (df_default_update (\<lambda>_. b)) s else s)"
| "dialog_step s PressConfirm = press_confirm s"
| "dialog_step s Dismiss = close_dialog s"

definition dialog_run :: "dialog_event list \<Rightarrow> dialog_host" where
  "dialog_run es = foldl dialog_step no_dialog es"

lemma dialog_run_snoc [simp]: "dialog_run (es @ [e]) = dialog_step (dialog_run es) e"
  by (simp add: dialog_run_def)

section \<open>An answer fits its question\<close>

fun answer_fits :: "dialog_kind \<Rightarrow> dialog_answer \<Rightarrow> bool" where
  "answer_fits k Declined = True"
| "answer_fits AskConfirm a = (a = Agreed)"
| "answer_fits (AskText _) a = (case a of Entered t \<Rightarrow> t \<noteq> [] \<and> trim t = t | _ \<Rightarrow> False)"
| "answer_fits (AskView _ allowed) a =
     (case a of ViewNamed t sh df \<Rightarrow> t \<noteq> [] \<and> trim t = t \<and> (allowed \<or> \<not> sh \<and> \<not> df) | _ \<Rightarrow> False)"

lemma confirmed_fits: "confirmed_answer k f = Some a \<Longrightarrow> answer_fits k a"
  by (cases k) (auto simp: trim_trim split: if_splits)

definition dialogs_ok :: "dialog_host \<Rightarrow> bool" where
  "dialogs_ok s \<longleftrightarrow> distinct (map fst (dh_settled s))
     \<and> list_all (\<lambda>(n, a). n < length (dh_asked s) \<and> answer_fits (dh_asked s ! n) a) (dh_settled s)
     \<and> (case dh_open s of None \<Rightarrow> True
        | Some (n, k) \<Rightarrow> Suc n = length (dh_asked s) \<and> dh_asked s ! n = k \<and> n \<notin> fst ` set (dh_settled s))"

lemma resolve_fields [simp]:
  "dh_open (resolve_promise n a s) = dh_open s" "dh_asked (resolve_promise n a s) = dh_asked s"
  by (simp_all add: resolve_promise_def)

lemma ok_resolved:
  assumes "dialogs_ok s" and "dh_open s = Some (n, k)" and "answer_fits k a"
  shows "dialogs_ok ((resolve_promise n a s)\<lparr>dh_open := None\<rparr>)"
  using assms by (auto simp: dialogs_ok_def resolve_promise_def)

lemma resolved_once: "resolve_promise n b (resolve_promise n a s) = resolve_promise n a s"
  by (auto simp: resolve_promise_def)

lemma ok_asked:
  assumes "dialogs_ok s"
  shows "dialogs_ok (ask_dialog k s)"
proof -
  have "list_all (\<lambda>(n, a). n < length (dh_asked s @ [k]) \<and> answer_fits ((dh_asked s @ [k]) ! n) a) (dh_settled s)"
    using assms by (auto simp: dialogs_ok_def list_all_iff nth_append)
  moreover have "length (dh_asked s) \<notin> fst ` set (dh_settled s)"
    using assms by (fastforce simp: dialogs_ok_def list_all_iff)
  ultimately show ?thesis using assms by (simp add: dialogs_ok_def ask_dialog_def Let_def)
qed

lemma ok_fields [simp]: "dialogs_ok (set_fields f s) = dialogs_ok s"
  by (simp add: dialogs_ok_def set_fields_def split: option.splits)

lemma dialogs_ok_step: "dialogs_ok s \<Longrightarrow> dialogs_ok (dialog_step s e)"
proof (cases e)
  case PressConfirm
  assume "dialogs_ok s"
  then show ?thesis
    using PressConfirm ok_resolved [of s] confirmed_fits by (auto simp: press_confirm_def resolved_once split: option.splits)
next
  case Dismiss
  assume "dialogs_ok s"
  then show ?thesis using Dismiss ok_resolved [of s] by (auto simp: close_dialog_def split: option.splits)
qed (simp_all add: ok_asked)

lemma dialogs_ok_run: "dialogs_ok (dialog_run es)"
  by (induction es rule: rev_induct) (simp_all add: dialogs_ok_step, simp add: dialog_run_def dialogs_ok_def no_dialog_def)

text \<open>A second question replaces the first, whose promise then never settles.\<close>

lemma replaced_question_stays_open:
  assumes "dialogs_ok s" and "n < length (dh_asked s)" and "n \<notin> fst ` set (dh_settled s)"
    and "\<forall>m k. dh_open s = Some (m, k) \<longrightarrow> m \<noteq> n"
  shows "n \<notin> fst ` set (dh_settled (dialog_step s e))
    \<and> (\<forall>m k. dh_open (dialog_step s e) = Some (m, k) \<longrightarrow> m \<noteq> n)"
  using assms
  by (cases e) (auto simp: ask_dialog_def Let_def set_fields_def press_confirm_def close_dialog_def resolve_promise_def
      split: option.splits)

text \<open>a dialog is answered once, and by what was confirmed. Whatever is asked, typed and pressed: no promise settles
  twice, every answer fits its question (a text is trimmed and not blank; a view is shared or made the default only
  by a caller who may), confirming settles the open question with what its fields say and closes it,
  and dismissing declines it.\<close>

theorem dialogs_answer_what_was_confirmed:
  "distinct (map fst (dh_settled (dialog_run es)))
   \<and> list_all (\<lambda>(n, a). n < length (dh_asked (dialog_run es)) \<and> answer_fits (dh_asked (dialog_run es) ! n) a)
       (dh_settled (dialog_run es))
   \<and> (case dh_open (dialog_run es) of
        None \<Rightarrow> dialog_run (es @ [PressConfirm]) = dialog_run es \<and> dialog_run (es @ [Dismiss]) = dialog_run es
      | Some (n, k) \<Rightarrow>
          map_of (dh_settled (dialog_run (es @ [Dismiss]))) n = Some Declined
          \<and> dh_open (dialog_run (es @ [Dismiss])) = None
          \<and> map_of (dh_settled (dialog_run (es @ [PressConfirm]))) n = confirmed_answer k (dh_fields (dialog_run es))
          \<and> (dh_open (dialog_run (es @ [PressConfirm])) = None
              \<longleftrightarrow> confirmed_answer k (dh_fields (dialog_run es)) \<noteq> None))"
proof (intro conjI)
  note ok = dialogs_ok_run [of es, unfolded dialogs_ok_def]
  show "distinct (map fst (dh_settled (dialog_run es)))" using ok by simp
  show "list_all (\<lambda>(n, a). n < length (dh_asked (dialog_run es)) \<and> answer_fits (dh_asked (dialog_run es) ! n) a)
    (dh_settled (dialog_run es))" using ok by simp
  show "case dh_open (dialog_run es) of
        None \<Rightarrow> dialog_run (es @ [PressConfirm]) = dialog_run es \<and> dialog_run (es @ [Dismiss]) = dialog_run es
      | Some (n, k) \<Rightarrow>
          map_of (dh_settled (dialog_run (es @ [Dismiss]))) n = Some Declined
          \<and> dh_open (dialog_run (es @ [Dismiss])) = None
          \<and> map_of (dh_settled (dialog_run (es @ [PressConfirm]))) n = confirmed_answer k (dh_fields (dialog_run es))
          \<and> (dh_open (dialog_run (es @ [PressConfirm])) = None
              \<longleftrightarrow> confirmed_answer k (dh_fields (dialog_run es)) \<noteq> None)"
  proof (cases "dh_open (dialog_run es)")
    case (Some nk)
    obtain n k where nk: "nk = (n, k)" by fastforce
    then have "n \<notin> fst ` set (dh_settled (dialog_run es))" using ok Some by simp
    then have "map_of (dh_settled (dialog_run es)) n = None" by (simp add: map_of_eq_None_iff)
    with \<open>n \<notin> _\<close> show ?thesis
      using Some nk
      by (simp add: press_confirm_def close_dialog_def resolve_promise_def map_add_def split: option.splits)
  qed (simp add: press_confirm_def close_dialog_def)
qed

end
