(* ===== verification/SourcesPanel.thy ===== *)
theory SourcesPanel imports SourceKey DialogBox RequestContract begin

text \<open>
  The panel of a team's log sources (\<open>SourcesPanel\<close> in \<open>frontend/src/components/settings/sources-panel.tsx\<close>):
  creating, renaming, deleting a source and rotating its key, each in two halves, up to the request and
  after the answer; and that the key it shows is the key the ingest routes accept.
\<close>

section \<open>The panel\<close>

definition offered_types :: "string list" where
  "offered_types = [''HTTP'', ''SYSLOG_UDP'', ''SYSLOG_TCP'', ''FILEBEAT'', ''DOCKER'', ''CLOUDWATCH'']"

record sources_panel =
  so_open :: bool
  so_name :: string
  so_type :: string
  so_pending :: bool
  so_error :: "string option"
  so_created :: "log_source option"
  so_renaming :: "log_source option"
  so_deleting :: "log_source option"
  so_rotating :: "log_source option"
  so_rotated :: "log_source option"
  so_busy :: "string option"
  so_rotations :: "string \<rightharpoonup> nat"
  so_action_error :: "string option"

definition fresh_panel :: sources_panel where
  "fresh_panel = \<lparr>so_open = False, so_name = [], so_type = ''HTTP'', so_pending = False, so_error = None, so_created = None,
     so_renaming = None, so_deleting = None, so_rotating = None, so_rotated = None, so_busy = None,
     so_rotations = Map.empty, so_action_error = None\<rparr>"

definition name_too_short :: string where
  "name_too_short = ''Name must be at least 2 characters.''"

definition open_source_dialog :: "sources_panel \<Rightarrow> sources_panel" where
  "open_source_dialog p = p\<lparr>so_name := [], so_type := ''HTTP'', so_error := None, so_created := None, so_open := True\<rparr>"

text \<open>With whether the page is refreshed.\<close>

definition close_source_dialog :: "sources_panel \<Rightarrow> sources_panel \<times> bool" where
  "close_source_dialog p = (p\<lparr>so_open := False, so_created := None\<rparr>, so_created p \<noteq> None)"

definition cancel_source_dialog :: "sources_panel \<Rightarrow> sources_panel" where
  "cancel_source_dialog p = p\<lparr>so_open := False\<rparr>"

definition create_source_body :: "string \<Rightarrow> sources_panel \<Rightarrow> json" where
  "create_source_body team p = json_body
     [(''teamId'', Some (JStr team)), (''name'', Some (JStr (trim (so_name p)))), (''type'', Some (JStr (so_type p)))]"

definition submit_source :: "string \<Rightarrow> string \<Rightarrow> sources_panel \<Rightarrow> sources_panel \<times> api_call option" where
  "submit_source tok team p =
     (if length (trim (so_name p)) < 2 then (p\<lparr>so_error := Some name_too_short\<rparr>, None)
      else (p\<lparr>so_pending := True, so_error := None\<rparr>, Some (create_source_call tok (create_source_body team p))))"

definition source_created :: "string + log_source \<Rightarrow> sources_panel \<Rightarrow> sources_panel" where
  "source_created r p =
     (case r of
        Inl e \<Rightarrow> p\<lparr>so_error := Some e, so_pending := False\<rparr>
      | Inr l \<Rightarrow> p\<lparr>so_created := Some l, so_pending := False\<rparr>)"

definition rename_body :: "string \<Rightarrow> json" where
  "rename_body name = json_body [(''name'', Some (JStr name))]"

text \<open>\<open>value\<close> comes from the dialog.\<close>

definition confirm_rename :: "string \<Rightarrow> string \<Rightarrow> sources_panel \<Rightarrow> sources_panel \<times> api_call option" where
  "confirm_rename tok value p =
     (let p1 = p\<lparr>so_renaming := None\<rparr> in
      case so_renaming p of
        None \<Rightarrow> (p1, None)
      | Some l \<Rightarrow>
          if length value < 2 then (p1\<lparr>so_action_error := Some name_too_short\<rparr>, None)
          else (p1\<lparr>so_busy := Some (ls_id l), so_action_error := None\<rparr>,
                Some (rename_source_call (ls_id l) tok (rename_body value))))"

definition confirm_source_delete :: "string \<Rightarrow> sources_panel \<Rightarrow> sources_panel \<times> api_call option" where
  "confirm_source_delete tok p =
     (let p1 = p\<lparr>so_deleting := None\<rparr> in
      case so_deleting p of
        None \<Rightarrow> (p1, None)
      | Some l \<Rightarrow> (p1\<lparr>so_busy := Some (ls_id l), so_action_error := None\<rparr>, Some (delete_source_call (ls_id l) tok)))"

text \<open>The rest of both, with whether the page is refreshed.\<close>

definition source_action_settled :: "string option \<Rightarrow> sources_panel \<Rightarrow> sources_panel \<times> bool" where
  "source_action_settled failure p =
     (case failure of
        None \<Rightarrow> (p\<lparr>so_busy := None\<rparr>, True)
      | Some e \<Rightarrow> (p\<lparr>so_action_error := Some e, so_busy := None\<rparr>, False))"

definition confirm_rotate :: "string \<Rightarrow> sources_panel \<Rightarrow> sources_panel \<times> api_call option" where
  "confirm_rotate tok p =
     (let p1 = p\<lparr>so_rotating := None\<rparr> in
      case so_rotating p of
        None \<Rightarrow> (p1, None)
      | Some l \<Rightarrow> (p1\<lparr>so_busy := Some (ls_id l), so_action_error := None\<rparr>, Some (rotate_key_call (ls_id l) tok)))"

definition rotations_of :: "sources_panel \<Rightarrow> string \<Rightarrow> nat" where
  "rotations_of p i = the_or 0 (so_rotations p i)"

definition key_rotated :: "log_source \<Rightarrow> string + log_source \<Rightarrow> sources_panel \<Rightarrow> sources_panel" where
  "key_rotated l r p =
     (case r of
        Inl e \<Rightarrow> p\<lparr>so_action_error := Some e, so_busy := None\<rparr>
      | Inr new \<Rightarrow>
          p\<lparr>so_rotations := (so_rotations p)(ls_id l \<mapsto> rotations_of p (ls_id l) + 1), so_rotated := Some new,
            so_busy := None\<rparr>)"

definition close_rotated :: "sources_panel \<Rightarrow> sources_panel" where
  "close_rotated p = p\<lparr>so_rotated := None\<rparr>"

section \<open>What is rendered\<close>

text \<open>The React key of the \<open>SourceKey\<close> of a row, and its hint.\<close>

definition row_key :: "sources_panel \<Rightarrow> string \<Rightarrow> string" where
  "row_key p i = i @ '':'' @ int_str (int (rotations_of p i))"

definition row_hint :: "log_source \<Rightarrow> string option" where
  "row_hint l = some_text (the_or [] (ls_key_hint l))"

text \<open>The keys in the two dialogs that show one.\<close>

definition new_key_shown :: "team_role \<Rightarrow> sources_panel \<Rightarrow> string option" where
  "new_key_shown role p = (if can_write role \<and> so_open p then Option.bind (so_created p) ls_api_key else None)"

definition rotated_key_shown :: "team_role \<Rightarrow> sources_panel \<Rightarrow> string option" where
  "rotated_key_shown role p = (if can_manage_sources role then Option.bind (so_rotated p) ls_api_key else None)"

text \<open>The three buttons of a row.\<close>

definition row_actions_enabled :: "team_role \<Rightarrow> sources_panel \<Rightarrow> log_source \<Rightarrow> bool" where
  "row_actions_enabled role p l \<longleftrightarrow> can_manage_sources role \<and> so_busy p \<noteq> Some (ls_id l)"

lemma trim_shorter: "length (trim s) \<le> length s"
  using order_trans [OF length_dropWhile_le [of is_space "rev (dropWhile is_space s)"]] length_dropWhile_le [of is_space s]
  by (simp add: trim_def trim_start_def)

lemma offered_types_are_the_backends: "offered_types = map fst source_types"
  by (simp add: offered_types_def source_types_def)

lemma row_key_after:
  "row_key (key_rotated l (Inr new) p) i = row_key p i \<longleftrightarrow> i \<noteq> ls_id l"
proof -
  have "int_str (int a) = int_str (int b) \<longleftrightarrow> a = b" for a b
    by (metis parse_int_str of_nat_eq_iff option.inject)
  then show ?thesis by (simp add: row_key_def rotations_of_def key_rotated_def)
qed

text \<open>Cancelling while the request is on its way: the source is there, but its key is not shown, and the next
  dialog forgets it.\<close>

lemma cancelled_key_is_lost:
  assumes "so_pending p"
  shows "new_key_shown role (source_created (Inr l) (cancel_source_dialog p)) = None"
    and "new_key_shown role (open_source_dialog (source_created (Inr l) (cancel_source_dialog p))) = None"
  by (simp_all add: new_key_shown_def source_created_def cancel_source_dialog_def open_source_dialog_def)

text \<open>One busy source: the end of a request frees the row whose request started later.\<close>

lemma first_answer_frees_the_second:
  assumes "so_deleting p = Some b" and "can_manage_sources role"
  shows "row_actions_enabled role (fst (source_action_settled failure (fst (confirm_source_delete tok p)))) b"
  using assms by (simp add: row_actions_enabled_def source_action_settled_def confirm_source_delete_def split: option.splits)

section \<open>The requests fit the schemas\<close>

definition type_named :: "string \<Rightarrow> source_type" where
  "type_named t = the_or Http (map_of source_types t)"

lemma type_accepted: "t \<in> set offered_types \<Longrightarrow> enum_schema source_types (JStr t) = Some (type_named t)"
  by (auto simp: offered_types_def enum_schema_def source_types_def type_named_def)

lemma source_body_accepted:
  assumes "2 \<le> length (trim (so_name p))" and "length (trim (so_name p)) \<le> 100" and "so_type p \<in> set offered_types"
    and "team \<noteq> []"
  shows "create_source_schema err (Some (create_source_body team p)) =
    Inr \<lparr>si_team = team, si_name = trim (so_name p), si_type = type_named (so_type p)\<rparr>"
proof -
  let ?v = "create_source_body team p"
  have f: "field ''teamId'' ?v = Some (JStr team)" "field ''name'' ?v = Some (JStr (trim (so_name p)))"
    "field ''type'' ?v = Some (JStr (so_type p))"
    by (simp_all add: create_source_body_def field_json_body)
  show ?thesis
    unfolding create_source_schema_def
    by (subst create_source_body_def, subst schema_on_body, fold create_source_body_def)
      (use assms in \<open>simp add: f team_key [where team = team] required_key_def trimmed_key trim_trim type_accepted\<close>)
qed

text \<open>A name the dialog answers with is one the schema accepts, up to the length the field allows.\<close>

lemma rename_accepted:
  assumes "confirmed_answer (AskText d) f = Some (Entered name)" and "2 \<le> length name" and "length (df_input f) \<le> 100"
  shows "rename_source_schema err (Some (rename_body name)) = Inr name"
proof -
  have "trim name = name" "length name \<le> 100"
    using assms(1,3) order_trans [OF trim_shorter, of "df_input f" 100] by (auto simp: trim_trim split: if_splits)
  then show ?thesis
    using assms(2) unfolding rename_source_schema_def rename_body_def schema_on_body
    by (simp add: required_key_def trimmed_key field_json_body)
qed

section \<open>Creating\<close>

text \<open>The reply as the handler reads it; the text of an error is the client's.\<close>

definition source_reply :: "string \<Rightarrow> write_reply \<Rightarrow> string + log_source" where
  "source_reply e r = (case re_body r of Payload (SourceBody l) \<Rightarrow> Inr l | _ \<Rightarrow> Inl e)"

lemma find_appended: "List.find P (xs @ [x]) =
    (case List.find P xs of Some y \<Rightarrow> Some y | None \<Rightarrow> if P x then Some x else None)"
  by (induction xs) auto

text \<open>the key a new source shows is its key. When the dialog submits for a member who may write, and its name is
  no longer than the field allows, the backend stores one source of the team with the trimmed name and the
  chosen type; the dialog then shows a key, and that key is the only one of the new source: the
  ingest routes accept it for the new source and for no other, while every other key works as before.\<close>

theorem new_source_shows_its_key:
  assumes "submit_source tok team p = (p', Some c)" and "length (so_name p) \<le> 100" and "so_type p \<in> set offered_types"
    and "team \<noteq> []" and "sc_source S = create_source_schema err" and "so_open p"
    and "resolve_user_id (te_now E) q d = Some u" and "resolve_team_role u team d = Some role" and "can_write role"
    and "hr_body q = ac_body c" and "generate_source_api_key (te_uuid E 1) \<notin> src_key ` set (db_sources d)"
  shows "\<exists>s. snd (serve_write E S PostSource q d) = d\<lparr>db_sources := db_sources d @ [s]\<rparr>
    \<and> src_id s = te_uuid E 0 \<and> src_team s = team \<and> src_name s = trim (so_name p) \<and> src_type s = type_named (so_type p)
    \<and> new_key_shown role (source_created (source_reply e (fst (serve_write E S PostSource q d))) p') = Some (src_key s)
    \<and> authenticate_api_key (Some (src_key s)) i (d\<lparr>db_sources := db_sources d @ [s]\<rparr>)
        = (if i = src_id s then KeyAccepted s else KeyMismatch)
    \<and> (k \<noteq> src_key s \<longrightarrow>
        authenticate_api_key (Some k) i (d\<lparr>db_sources := db_sources d @ [s]\<rparr>) = authenticate_api_key (Some k) i d)"
proof -
  have c: "2 \<le> length (trim (so_name p))" "p' = p\<lparr>so_pending := True, so_error := None\<rparr>"
    "c = create_source_call tok (create_source_body team p)"
    using assms(1) by (auto simp: submit_source_def split: if_splits)
  let ?in = "\<lparr>si_team = team, si_name = trim (so_name p), si_type = type_named (so_type p)\<rparr>"
  define s where "s = \<lparr>src_id = te_uuid E 0, src_team = team, src_name = trim (so_name p),
    src_type = type_named (so_type p), src_config = JObj [], src_retention = 7,
    src_key = generate_source_api_key (te_uuid E 1), src_created = te_now E\<rparr>"
  have short: "length (trim (so_name p)) \<le> 100" using trim_shorter assms(2) by (rule order_trans)
  have "sc_source S (hr_body q) = Inr ?in"
    using source_body_accepted [OF c(1) short assms(3,4), of err] by (simp add: assms(5,10) c(3) create_source_call_def authed_def)
  then have served: "serve_write E S PostSource q d = (no_store (ok 201 SourceBody (to_log_source (te_lib E) s KeyFull)),
      d\<lparr>db_sources := db_sources d @ [s]\<rparr>)"
    unfolding serve_write.simps using assms(8,9)
    by (subst writer_reaches_handler [OF assms(7), where role = role
          and target = "\<lparr>tg_team = team, tg_input = ?in, tg_not_found = None\<rparr>"])
      (simp_all add: team_from_body_def post_source_def create_source_def Let_def s_def)
  have key: "src_key s \<noteq> []" "src_key s \<notin> src_key ` set (db_sources d)"
    using assms(11) by (simp_all add: s_def generate_source_api_key_def short_token_def)
  have "List.find (\<lambda>x. src_key x = src_key s) (db_sources d) = None"
    using key(2) unfolding find_None_iff' image_iff by metis
  with key(1) have "authenticate_api_key (Some (src_key s)) i (d\<lparr>db_sources := db_sources d @ [s]\<rparr>)
      = (if i = src_id s then KeyAccepted s else KeyMismatch)"
    by (simp add: authenticate_api_key_def find_appended)
  moreover have "authenticate_api_key (Some k) i (d\<lparr>db_sources := db_sources d @ [s]\<rparr>) = authenticate_api_key (Some k) i d"
    if "k \<noteq> src_key s"
    using that by (simp add: authenticate_api_key_def find_appended split: option.splits)
  moreover have "new_key_shown role (source_created (source_reply e (fst (serve_write E S PostSource q d))) p') = Some (src_key s)"
    unfolding served using assms(6,9) by (simp add: source_reply_def no_store_def ok_def answer_def source_created_def new_key_shown_def
        to_log_source_def c(2))
  ultimately show ?thesis unfolding served by (intro exI [of _ s]) (simp add: s_def)
qed

section \<open>Rotating\<close>

lemma rotation_served:
  assumes "sources_unique d" and "s \<in> set (db_sources d)" and "hr_params q ''id'' = src_id s"
    and "resolve_user_id (te_now E) q d = Some u" and "resolve_team_role u (src_team s) d = Some role"
    and "can_manage_sources role"
  shows "fst (serve_write E S RotateKey q d) = no_store (ok 200 SourceBody
      (to_log_source (te_lib E) (s\<lparr>src_key := generate_source_api_key (te_uuid E 0)\<rparr>) KeyFull))"
    and "snd (serve_write E S RotateKey q d) = snd (rotate_source_key E (src_team s) (src_id s) d)"
proof -
  have found: "List.find (\<lambda>x. src_id x = src_id s) (db_sources d) = Some s"
    by (rule find_distinct_key [where k = src_id]) (use assms(1,2) in \<open>auto simp: sources_unique_def\<close>)
  then have own: "List.find (own_source (src_id s) (src_team s)) (db_sources d) = Some s"
    using find_stronger [of "\<lambda>x. src_id x = src_id s" "db_sources d" s "\<lambda>x. src_team x = src_team s"]
    by (simp add: own_source_eq)
  have "can_write role" using assms(6) by (cases role) (simp_all add: can_manage_sources_def can_write_def)
  then have "serve_write E S RotateKey q d = rotate_key E
      \<lparr>wc_req = q, wc_user = u, wc_team = src_team s, wc_role = role, wc_input = ()\<rparr> d"
    unfolding serve_write.simps using assms(5)
    by (subst writer_reaches_handler [OF assms(4), where role = role
          and target = "\<lparr>tg_team = src_team s, tg_input = (), tg_not_found = Some ''Source not found''\<rparr>"])
      (simp_all add: team_from_resource_def load_source_team_id_def source_by_id_def assms(3) found no_schema_def)
  then show "fst (serve_write E S RotateKey q d) = no_store (ok 200 SourceBody
      (to_log_source (te_lib E) (s\<lparr>src_key := generate_source_api_key (te_uuid E 0)\<rparr>) KeyFull))"
    and "snd (serve_write E S RotateKey q d) = snd (rotate_source_key E (src_team s) (src_id s) d)"
    using assms(6) by (simp_all add: rotate_key_def id_param_def assms(3) rotate_source_key_def change_source_def own settle_def)
qed

text \<open>C17: a rotated key is shown, works, and replaces the old one everywhere. When an owner or admin confirms the
  rotation of a listed source, the dialog shows the new key; the ingest routes accept it for that source and
  refuse the old one; and the row of that source, and no other, is mounted anew, so that it shows the masked
  hint and nothing that was revealed before or arrives late.\<close>

theorem rotated_key_is_shown_and_works:
  assumes "confirm_rotate tok p = (p', Some c)" and "so_rotating p = Some l" and "hr_params q ''id'' = ls_id l"
    and "sources_unique d" and "s \<in> set (db_sources d)" and "src_id s = ls_id l" and "src_key s \<noteq> []"
    and "resolve_user_id (te_now E) q d = Some u" and "resolve_team_role u (src_team s) d = Some role"
    and "can_manage_sources role" and "generate_source_api_key (te_uuid E 0) \<notin> src_key ` set (db_sources d)"
    and "serve_write E S RotateKey q d = (r, d')" and "p'' = key_rotated l (source_reply e r) p'"
  shows "\<exists>key. rotated_key_shown role p'' = Some key \<and> authenticate_api_key (Some key) (src_id s) d' = KeyAccepted (s\<lparr>src_key := key\<rparr>)
    \<and> authenticate_api_key (Some (src_key s)) (src_id s) d' = KeyInvalid
    \<and> (row_key p'' i = row_key p i \<longleftrightarrow> i \<noteq> ls_id l)
    \<and> row_actions_enabled role p'' l \<and> \<not> row_actions_enabled role p' l
    \<and> rotated_key_shown role (close_rotated p'') = None"
proof -
  have p': "p' = p\<lparr>so_rotating := None, so_busy := Some (ls_id l), so_action_error := None\<rparr>"
    using assms(1,2) by (simp add: confirm_rotate_def Let_def)
  have id: "hr_params q ''id'' = src_id s" using assms(3,6) by simp
  note served = rotation_served [OF assms(4,5) id assms(8-10), of S]
  let ?key = "generate_source_api_key (te_uuid E 0)"
  have "source_reply e r = Inr (to_log_source (te_lib E) (s\<lparr>src_key := ?key\<rparr>) KeyFull)"
    using served(1) assms(12) by (simp add: source_reply_def no_store_def ok_def answer_def)
  then have p'': "p'' = key_rotated l (Inr (to_log_source (te_lib E) (s\<lparr>src_key := ?key\<rparr>) KeyFull)) p'"
    using assms(13) by simp
  have d': "d' = snd (rotate_source_key E (src_team s) (src_id s) d)" using served(2) assms(12) by simp
  note works = rotated_key_is_dead [OF assms(4,5,7) refl assms(11)]
  have "row_key p' i = row_key p i" by (simp add: p' row_key_def rotations_of_def)
  then have "row_key p'' i = row_key p i \<longleftrightarrow> i \<noteq> ls_id l" using row_key_after [of l _ p' i] by (simp add: p'')
  moreover have "rotated_key_shown role p'' = Some ?key"
    using assms(10) by (simp add: p'' key_rotated_def rotated_key_shown_def to_log_source_def)
  ultimately show ?thesis
    using works assms(10)
    by (intro exI [of _ ?key]) (simp add: d' p' p'' row_actions_enabled_def key_rotated_def rotated_key_shown_def close_rotated_def)
qed

section \<open>Examples\<close>

definition source_schemas :: write_schemas where
  "source_schemas = sample_schemas\<lparr>sc_source := create_source_schema JNull\<rparr>"

definition named_panel :: sources_panel where
  "named_panel = (open_source_dialog fresh_panel)\<lparr>so_name := ''edge ''\<rparr>"

lemma edge_text: "trim ''edge '' = ''edge''"
  by code_simp

lemma owner_of_t1: "resolve_team_role ''u1'' ''t1'' two_teams = Some Owner" "can_write Owner" "can_manage_sources Owner"
  by (simp_all add: resolve_team_role_def membership_def two_teams_def can_write_def can_manage_sources_def)

theorem new_source_shows_its_key_witness:
  "\<exists>p' c (s::source_row). submit_source ''tok'' ''t1'' named_panel = (p', Some c)
     \<and> src_name s = ''edge'' \<and> new_key_shown Owner (source_created (source_reply [] (fst (serve_write sample_team_env source_schemas
          PostSource ((call_as ''tok'' [])\<lparr>hr_body := ac_body c\<rparr>) two_teams))) p') = Some (src_key s)"
proof -
  obtain p' c where c: "submit_source ''tok'' ''t1'' named_panel = (p', Some c)"
    by (simp add: submit_source_def named_panel_def edge_text)
  let ?q = "(call_as ''tok'' [])\<lparr>hr_body := ac_body c\<rparr>"
  have p: "length (so_name named_panel) \<le> 100" "so_type named_panel \<in> set offered_types" "so_open named_panel"
    by (simp_all add: named_panel_def open_source_dialog_def offered_types_def)
  have S: "sc_source source_schemas = create_source_schema JNull" by (simp add: source_schemas_def)
  have u: "resolve_user_id (te_now sample_team_env) ?q two_teams = Some ''u1''" by (simp add: caller_with caller_known)
  have k: "generate_source_api_key (te_uuid sample_team_env 1) \<notin> src_key ` set (db_sources two_teams)"
    by (simp add: two_teams_def sample_team_env_def generate_source_api_key_def short_token_def)
  have t: "''t1'' \<noteq> []" and b: "hr_body ?q = ac_body c" by simp_all
  from new_source_shows_its_key [OF c p(1,2) t S p(3) u owner_of_t1(1,2) b k, where e = "[]" and i = "[]" and k = "[]"]
  obtain s :: source_row where s: "src_name s = trim (so_name named_panel)" "new_key_shown Owner (source_created (source_reply []
      (fst (serve_write sample_team_env source_schemas PostSource ?q two_teams))) p') = Some (src_key s)" by blast
  from s(1) have "src_name s = ''edge''" by (simp add: named_panel_def edge_text)
  with c s(2) show ?thesis by blast
qed

definition listed_s1 :: log_source where
  "listed_s1 = to_log_source (te_lib sample_team_env) sample_source KeyHint"

definition rotating_panel :: sources_panel where
  "rotating_panel = fresh_panel\<lparr>so_rotating := Some listed_s1\<rparr>"

theorem rotated_key_is_shown_and_works_witness:
  "\<exists>p' c r d' key. confirm_rotate ''tok'' rotating_panel = (p', Some c)
     \<and> serve_write sample_team_env sample_schemas RotateKey (call_as ''tok'' ''s1'') two_teams = (r, d')
     \<and> rotated_key_shown Owner (key_rotated listed_s1 (source_reply [] r) p') = Some key
     \<and> authenticate_api_key (Some ''lf_1'') ''s1'' d' = KeyInvalid"
proof -
  define s where "s = hd (db_sources two_teams)"
  have s: "s \<in> set (db_sources two_teams)" "src_id s = ''s1''" "src_team s = ''t1''" "src_key s = ''lf_1''"
    by (simp_all add: s_def two_teams_def)
  obtain p' c where c: "confirm_rotate ''tok'' rotating_panel = (p', Some c)" "so_rotating rotating_panel = Some listed_s1"
    by (simp add: confirm_rotate_def rotating_panel_def)
  obtain r d' where r: "serve_write sample_team_env sample_schemas RotateKey (call_as ''tok'' ''s1'') two_teams = (r, d')"
    by fastforce
  have l: "ls_id listed_s1 = ''s1''" by (simp add: listed_s1_def to_log_source_def sample_source_def)
  have q: "hr_params (call_as ''tok'' ''s1'') ''id'' = ls_id listed_s1" by (simp add: call_as_def l)
  have sid: "src_id s = ls_id listed_s1" and key: "src_key s \<noteq> []" by (simp_all add: s l)
  have "sources_unique two_teams" by (simp add: sources_unique_def two_teams_def)
  moreover have "resolve_team_role ''u1'' (src_team s) two_teams = Some Owner" by (simp add: s owner_of_t1)
  moreover have "generate_source_api_key (te_uuid sample_team_env 0) \<notin> src_key ` set (db_sources two_teams)"
    by (simp add: two_teams_def sample_team_env_def generate_source_api_key_def short_token_def)
  ultimately have "\<exists>key. rotated_key_shown Owner (key_rotated listed_s1 (source_reply [] r) p') = Some key
    \<and> authenticate_api_key (Some (src_key s)) (src_id s) d' = KeyInvalid"
    using rotated_key_is_shown_and_works [OF c q _ s(1) sid key caller_known _ owner_of_t1(3) _ r refl, where e = "[]"] by blast
  with c(1) r show ?thesis by (simp only: s) blast
qed

end
