(* ===== verification/AdminPage.thy ===== *)
theory AdminPage imports DialogBox RequestContract begin

text \<open>
  The administrators' list of accounts (\<open>frontend/src/components/admin/user-table.tsx\<close> and
  \<open>add-to-team-modal.tsx\<close>): approving an account, adding it to a team and removing it from one, each in two
  halves, up to the request and after the answer; and that the list keeps up with the admin API.
\<close>

section \<open>The page\<close>

type_synonym admin_row = "public_user \<times> member_team list"

record user_table =
  ut_users :: "admin_row list"
  ut_pending :: "ident option"
  ut_modal :: "admin_row option"
  ut_error :: "string option"

definition users_opened :: "admin_row list \<Rightarrow> user_table" where
  "users_opened us = \<lparr>ut_users = us, ut_pending = None, ut_modal = None, ut_error = None\<rparr>"

definition user_action_started :: "ident \<Rightarrow> user_table \<Rightarrow> user_table" where
  "user_action_started i p = p\<lparr>ut_pending := Some i, ut_error := None\<rparr>"

definition change_row :: "ident \<Rightarrow> (admin_row \<Rightarrow> admin_row) \<Rightarrow> admin_row list \<Rightarrow> admin_row list" where
  "change_row i f us = map (\<lambda>r. if pu_id (fst r) = i then f r else r) us"

definition user_approved :: "ident \<Rightarrow> string + public_user \<Rightarrow> user_table \<Rightarrow> user_table" where
  "user_approved i r p =
     (case r of
        Inl e \<Rightarrow> p\<lparr>ut_error := Some e, ut_pending := None\<rparr>
      | Inr u \<Rightarrow>
          p\<lparr>ut_users := change_row i (\<lambda>(v, ts). (v\<lparr>pu_status := pu_status u\<rparr>, ts)) (ut_users p), ut_pending := None\<rparr>)"

text \<open>\<open>addToTeam\<close> acts on the account the modal was opened for; \<open>teams\<close> are the teams of the page and \<open>added_at\<close>
  the browser's time.\<close>

definition add_started :: "user_table \<Rightarrow> user_table" where
  "add_started p = (case ut_modal p of None \<Rightarrow> p | Some r \<Rightarrow> user_action_started (pu_id (fst r)) p)"

definition user_added ::
  "team_info list \<Rightarrow> ident \<Rightarrow> ident \<Rightarrow> team_role \<Rightarrow> string \<Rightarrow> string option \<Rightarrow> user_table \<Rightarrow> user_table" where
  "user_added teams i team role added_at failure p =
     (case failure of
        Some e \<Rightarrow> p\<lparr>ut_error := Some e, ut_pending := None\<rparr>
      | None \<Rightarrow>
          (case List.find (\<lambda>t. ti_id t = team) teams of
             None \<Rightarrow> p\<lparr>ut_pending := None\<rparr>
           | Some t \<Rightarrow>
               p\<lparr>ut_users := change_row i (\<lambda>(v, ts). (v, filter (\<lambda>x. mt_id x \<noteq> team) ts @
                    [\<lparr>mt_id = ti_id t, mt_name = ti_name t, mt_slug = ti_slug t, mt_role = role, mt_joined = added_at\<rparr>]))
                    (ut_users p), ut_pending := None\<rparr>))"

definition user_removed :: "ident \<Rightarrow> ident \<Rightarrow> string option \<Rightarrow> user_table \<Rightarrow> user_table" where
  "user_removed i team failure p =
     (case failure of
        Some e \<Rightarrow> p\<lparr>ut_error := Some e, ut_pending := None\<rparr>
      | None \<Rightarrow>
          p\<lparr>ut_users := change_row i (\<lambda>(v, ts). (v, filter (\<lambda>x. mt_id x \<noteq> team) ts)) (ut_users p), ut_pending := None\<rparr>)"

text \<open>\<open>requestRemove\<close>: the request of a removal, once the dialog is answered.\<close>

definition request_remove :: "string \<Rightarrow> dialog_answer \<Rightarrow> ident \<Rightarrow> ident \<Rightarrow> user_table \<Rightarrow> user_table \<times> api_call option" where
  "request_remove tok answered i team p =
     (if answered \<noteq> Agreed then (p, None) else (user_action_started i p, Some (remove_from_team_call i team tok)))"

section \<open>The modal\<close>

record team_modal =
  tm_team :: ident
  tm_role :: string
  tm_pending :: bool

definition modal_opened :: "team_info list \<Rightarrow> team_modal" where
  "modal_opened teams = \<lparr>tm_team = (case teams of [] \<Rightarrow> [] | t # _ \<Rightarrow> ti_id t), tm_role = ''MEMBER'', tm_pending = False\<rparr>"

definition modal_enabled :: "team_modal \<Rightarrow> bool" where
  "modal_enabled m \<longleftrightarrow> \<not> tm_pending m \<and> tm_team m \<noteq> []"

definition add_body :: "team_modal \<Rightarrow> json" where
  "add_body m = json_body [(''teamId'', Some (JStr (tm_team m))), (''role'', Some (JStr (tm_role m)))]"

definition modal_submit :: "string \<Rightarrow> team_modal \<Rightarrow> user_table \<Rightarrow> team_modal \<times> user_table \<times> api_call option" where
  "modal_submit tok m p =
     (m\<lparr>tm_pending := True\<rparr>, add_started p,
      map_option (\<lambda>r. add_to_team_call (pu_id (fst r)) tok (add_body m)) (ut_modal p))"

text \<open>\<open>onSubmit\<close> catches its own errors, so the modal closes whatever the answer was.\<close>

definition modal_settled :: "user_table \<Rightarrow> user_table" where
  "modal_settled p = p\<lparr>ut_modal := None\<rparr>"

section \<open>Through the admin API\<close>

datatype admin_action = Approve ident | AddTo ident ident string | RemoveFrom ident ident

definition failure_of :: "string \<Rightarrow> account_reply \<Rightarrow> string option" where
  "failure_of e r = (if success (re_status r) then None else Some e)"

definition user_reply :: "string \<Rightarrow> account_reply \<Rightarrow> string + public_user" where
  "user_reply e r = (case re_body r of Payload (UserBody u) \<Rightarrow> Inr u | _ \<Rightarrow> Inl e)"

text \<open>One action with its answer; \<open>q\<close> carries the session of the page, \<open>e\<close> is the text of a refusal.\<close>

fun admin_act ::
  "account_env \<Rightarrow> http_req \<Rightarrow> team_info list \<Rightarrow> string \<Rightarrow> string \<Rightarrow> admin_action \<Rightarrow> user_table \<times> db \<Rightarrow> user_table \<times> db" where
  "admin_act A q teams added_at e (Approve i) (p, d) =
     (case serve_admin A AdminApprove (q\<lparr>hr_params := (\<lambda>_. i)\<rparr>) d of
        (r, d') \<Rightarrow> (user_approved i (user_reply e r) (user_action_started i p), d'))"
| "admin_act A q teams added_at e (AddTo i team role) (p, d) =
     (case serve_admin A AdminAddToTeam (q\<lparr>hr_params := (\<lambda>_. i),
          hr_body := Some (add_body \<lparr>tm_team = team, tm_role = role, tm_pending = False\<rparr>)\<rparr>) d of
        (r, d') \<Rightarrow> (modal_settled (user_added teams i team (the (map_of ((''OWNER'', Owner) # invite_roles) role)) added_at
            (failure_of e r) (user_action_started i p)), d'))"
| "admin_act A q teams added_at e (RemoveFrom i team) (p, d) =
     (case serve_admin A AdminRemoveFromTeam (q\<lparr>hr_params := (\<lambda>k. if k = ''teamId'' then team else i)\<rparr>) d of
        (r, d') \<Rightarrow> (user_removed i team (failure_of e r) (user_action_started i p), d'))"

section \<open>What the list says\<close>

text \<open>Who is there, in which state, and in which teams with which role; the order of the teams and the
  dates of joining are left out.\<close>

definition shown_accounts :: "admin_row list \<Rightarrow> (ident \<times> user_status \<times> (ident \<times> team_role) set) list" where
  "shown_accounts us = map (\<lambda>(v, ts). (pu_id v, pu_status v, (\<lambda>t. (mt_id t, mt_role t)) ` set ts)) us"

definition teams_of :: "db \<Rightarrow> ident \<Rightarrow> (ident \<times> team_role) set" where
  "teams_of d u = (\<lambda>m. (m_team m, m_role m)) `
     {m \<in> set (db_members d). m_user m = u \<and> m_team m \<in> t_id ` set (db_teams d)}"

definition member_key :: "member_row \<Rightarrow> ident \<times> ident" where
  "member_key m = (m_team m, m_user m)"

definition accounts_unique :: "db \<Rightarrow> bool" where
  "accounts_unique d \<longleftrightarrow> distinct (map u_id (db_users d)) \<and> distinct (map member_key (db_members d))"

lemma team_found: "(List.find (\<lambda>t. t_id t = i) ts = None) = (i \<notin> t_id ` set ts)"
  by (auto simp: find_None_iff')

lemma member_team_shown:
  "(\<lambda>t. (mt_id t, mt_role t)) ` set (List.map_filter (member_team_of L d) ms)
     = (\<lambda>m. (m_team m, m_role m)) ` {m \<in> set ms. m_team m \<in> t_id ` set (db_teams d)}"
proof (induction ms)
  case (Cons m ms)
  show ?case
  proof (cases "List.find (\<lambda>t. t_id t = m_team m) (db_teams d)")
    case None
    then have "m_team m \<notin> t_id ` set (db_teams d)" using team_found by metis
    then show ?thesis using Cons None by (auto simp: List.map_filter_simps member_team_of_def)
  next
    case (Some t)
    then have "t_id t = m_team m" "t \<in> set (db_teams d)" by (auto dest: find_SomeD)
    then have "{x \<in> set (m # ms). m_team x \<in> t_id ` set (db_teams d)}
        = insert m {x \<in> set ms. m_team x \<in> t_id ` set (db_teams d)}" by force
    then show ?thesis using Cons Some \<open>t_id t = m_team m\<close>
      by (simp add: List.map_filter_simps member_team_of_def)
  qed
qed (simp add: List.map_filter_simps)

lemma reload_shows:
  "shown_accounts (admin_users L d) =
     map (\<lambda>u. (u_id u, u_status u, teams_of d (u_id u))) (sort_key (\<lambda>u. - u_created u) (db_users d))"
  by (simp add: shown_accounts_def admin_users_def member_team_shown teams_of_def sanitize_user_def conj_assoc)

lemma shown_changed:
  assumes "\<And>r. pu_id (fst (f r)) = pu_id (fst r)"
    and "\<And>r. (pu_status (fst (f r)), (\<lambda>t. (mt_id t, mt_role t)) ` set (snd (f r)))
      = h (pu_status (fst r), (\<lambda>t. (mt_id t, mt_role t)) ` set (snd r))"
  shows "shown_accounts (change_row i f us) = map (\<lambda>(j, x). if j = i then (j, h x) else (j, x)) (shown_accounts us)"
  by (simp add: shown_accounts_def change_row_def case_prod_beta assms)

section \<open>Each action keeps up\<close>

definition keeps_up :: "js_lib \<Rightarrow> db \<Rightarrow> user_table \<Rightarrow> bool" where
  "keeps_up L d p \<longleftrightarrow> shown_accounts (ut_users p) = shown_accounts (admin_users L d)"

text \<open>How an action changes the account \<open>i\<close>, on both sides.\<close>

lemma keeps_up_changed:
  assumes "keeps_up L d p" and "ut_users p' = change_row i f (ut_users p)"
    and "\<And>r. pu_id (fst (f r)) = pu_id (fst r)"
    and "\<And>r. (pu_status (fst (f r)), (\<lambda>t. (mt_id t, mt_role t)) ` set (snd (f r)))
      = h (pu_status (fst r), (\<lambda>t. (mt_id t, mt_role t)) ` set (snd r))"
    and "db_users d' = map g (db_users d)" and "\<And>u. u_id (g u) = u_id u" and "\<And>u. u_created (g u) = u_created u"
    and "\<And>u. (u_status (g u), teams_of d' (u_id u)) =
      (if u_id u = i then h (u_status u, teams_of d (u_id u)) else (u_status u, teams_of d (u_id u)))"
  shows "keeps_up L d' p'"
proof -
  have "sort_key (\<lambda>u. - u_created u) (map g (db_users d)) = map g (sort_key (\<lambda>u. - u_created u) (db_users d))"
    by (rule sort_key_map) (simp add: assms(7))
  then have "shown_accounts (admin_users L d')
      = map (\<lambda>u. (u_id u, u_status (g u), teams_of d' (u_id u))) (sort_key (\<lambda>u. - u_created u) (db_users d))"
    by (simp add: reload_shows assms(5,6) comp_def)
  also have "\<dots> = map (\<lambda>(j, x). if j = i then (j, h x) else (j, x)) (shown_accounts (admin_users L d))"
    by (auto simp: reload_shows assms(8))
  finally show ?thesis
    using assms(1) by (simp add: keeps_up_def assms(2) shown_changed [OF assms(3,4)])
qed

lemma keeps_up_same:
  assumes "keeps_up L d p" and "ut_users p' = ut_users p"
  shows "keeps_up L d p'"
  using assms by (simp add: keeps_up_def)

lemma members_with_role:
  assumes "accounts_unique d" and "membership d team i = Some m0"
  shows "update_first (\<lambda>m. m_team m = team \<and> m_user m = i) (\<lambda>m. m\<lparr>m_role := role\<rparr>) (db_members d)
      = map (\<lambda>m. if member_key m = (team, i) then m\<lparr>m_role := role\<rparr> else m) (db_members d)"
    and "delete_first (\<lambda>m. m_team m = team \<and> m_user m = i) (db_members d)
      = filter (\<lambda>m. member_key m \<noteq> (team, i)) (db_members d)"
proof -
  have "m0 \<in> set (db_members d)" "m_team m0 = team \<and> m_user m0 = i"
    using assms(2) by (auto simp: membership_def dest: find_SomeD)
  then show "update_first (\<lambda>m. m_team m = team \<and> m_user m = i) (\<lambda>m. m\<lparr>m_role := role\<rparr>) (db_members d)
      = map (\<lambda>m. if member_key m = (team, i) then m\<lparr>m_role := role\<rparr> else m) (db_members d)"
    and "delete_first (\<lambda>m. m_team m = team \<and> m_user m = i) (db_members d)
      = filter (\<lambda>m. member_key m \<noteq> (team, i)) (db_members d)"
    using assms(1) update_first_keyed [of member_key "db_members d" m0] delete_first_keyed [of member_key "db_members d" m0]
    by (auto simp: accounts_unique_def member_key_def)
qed

text \<open>Adding and removing, as sets of teams and roles.\<close>

lemma teams_of_iff: "x \<in> teams_of d u \<longleftrightarrow> fst x \<in> t_id ` set (db_teams d)
    \<and> (\<exists>m \<in> set (db_members d). member_key m = (fst x, u) \<and> m_role m = snd x)"
  by (cases x) (auto simp: teams_of_def member_key_def intro!: image_eqI)

lemma unique_member:
  assumes "accounts_unique d" and "m \<in> set (db_members d)" and "m' \<in> set (db_members d)" and "member_key m = member_key m'"
  shows "m = m'"
  using assms by (auto simp: accounts_unique_def distinct_map inj_on_def)

lemma teams_after_add:
  assumes "accounts_unique d" and "team \<in> t_id ` set (db_teams d)"
  shows "teams_of (snd (add_user_to_team E i team role d)) j =
    (if j = i then insert (team, role) {x \<in> teams_of d j. fst x \<noteq> team} else teams_of d j)"
proof (cases "membership d team i")
  case None
  then have "\<forall>m \<in> set (db_members d). member_key m \<noteq> (team, i)"
    by (auto simp: membership_def find_None_iff' member_key_def)
  then have "x \<in> teams_of (snd (add_user_to_team E i team role d)) j \<longleftrightarrow>
      x \<in> (if j = i then insert (team, role) {x \<in> teams_of d j. fst x \<noteq> team} else teams_of d j)" for x
    using None assms(2)
    by (cases x) (auto simp: add_user_to_team_def Let_def teams_of_iff member_key_def)
  then show ?thesis by blast
next
  case (Some m0)
  then have m0: "m0 \<in> set (db_members d)" "member_key m0 = (team, i)"
    by (auto simp: membership_def member_key_def dest: find_SomeD)
  have new: "snd (add_user_to_team E i team role d) = d\<lparr>db_members :=
      map (\<lambda>m. if member_key m = (team, i) then m\<lparr>m_role := role\<rparr> else m) (db_members d)\<rparr>"
    using Some members_with_role(1) [OF assms(1) Some] by (simp add: add_user_to_team_def)
  have key: "member_key (if member_key m = (team, i) then m\<lparr>m_role := role\<rparr> else m) = member_key m" for m
    by (simp add: member_key_def)
  have "x \<in> teams_of (snd (add_user_to_team E i team role d)) j \<longleftrightarrow>
      x \<in> (if j = i then insert (team, role) {x \<in> teams_of d j. fst x \<noteq> team} else teams_of d j)" for x
  proof -
    let ?f = "\<lambda>m. if member_key m = (team, i) then m\<lparr>m_role := role\<rparr> else m"
    have "(\<exists>m \<in> set (map ?f (db_members d)). member_key m = k \<and> m_role m = r)
        \<longleftrightarrow> (\<exists>m \<in> set (db_members d). member_key (?f m) = k \<and> m_role (?f m) = r)" for k r
      by (simp only: set_map bex_simps(7))
    then have "(\<exists>m \<in> set (map ?f (db_members d)). member_key m = k \<and> m_role m = r)
        \<longleftrightarrow> (\<exists>m \<in> set (db_members d). member_key m = k \<and> (if k = (team, i) then role else m_role m) = r)" for k r
      unfolding key by auto
    then show ?thesis using m0 assms(2) by (cases x) (auto simp: new teams_of_iff simp del: set_map)
  qed
  then show ?thesis by blast
qed

lemma teams_after_remove:
  assumes "accounts_unique d" and "membership d team i = Some m"
  shows "teams_of (snd (remove_user_from_team i team d)) j =
    (if j = i then {x \<in> teams_of d j. fst x \<noteq> team} else teams_of d j)"
proof -
  have "x \<in> teams_of (snd (remove_user_from_team i team d)) j \<longleftrightarrow>
      x \<in> (if j = i then {x \<in> teams_of d j. fst x \<noteq> team} else teams_of d j)" for x
    by (cases x) (auto simp: remove_user_from_team_def assms(2) teams_of_iff members_with_role(2) [OF assms])
  then show ?thesis by blast
qed

lemma other_tables:
  "db_users (snd (add_user_to_team E i team role d)) = db_users d"
  "db_teams (snd (add_user_to_team E i team role d)) = db_teams d"
  "db_users (snd (remove_user_from_team i team d)) = db_users d"
  "db_teams (snd (remove_user_from_team i team d)) = db_teams d"
  by (auto simp: add_user_to_team_def remove_user_from_team_def Let_def split: option.splits)

lemma unique_after:
  assumes "accounts_unique d"
  shows "accounts_unique (snd (add_user_to_team E i team role d))"
    and "accounts_unique (snd (remove_user_from_team i team d))"
proof -
  show "accounts_unique (snd (add_user_to_team E i team role d))"
  proof (cases "membership d team i")
    case None
    then have "\<forall>m \<in> set (db_members d). member_key m \<noteq> (team, i)"
      by (auto simp: membership_def find_None_iff' member_key_def)
    then show ?thesis
      using assms None by (auto simp: accounts_unique_def add_user_to_team_def Let_def member_key_def)
  next
    case (Some m)
    have "member_key \<circ> (\<lambda>m. if member_key m = (team, i) then m\<lparr>m_role := role\<rparr> else m) = member_key"
      by (simp add: member_key_def fun_eq_iff)
    then show ?thesis
      using assms Some members_with_role(1) [OF assms Some] by (simp add: accounts_unique_def add_user_to_team_def)
  qed
  show "accounts_unique (snd (remove_user_from_team i team d))"
    using assms members_with_role(2) [OF assms, of team i]
    by (auto simp: accounts_unique_def remove_user_from_team_def distinct_map_filter split: option.splits)
qed

lemma shown_filter: "(\<lambda>t. (mt_id t, mt_role t)) ` {x \<in> S. mt_id x \<noteq> team} =
    {x \<in> (\<lambda>t. (mt_id t, mt_role t)) ` S. fst x \<noteq> team}"
  by (simp add: Compr_image_eq)

text \<open>A refusal of the gate.\<close>

lemma gate_refusal:
  assumes "require_admin t d q = Inl (r :: account_reply)"
  shows "\<not> success (re_status r)" and "user_reply e r = Inl e"
  using assms
  by (auto simp: require_admin_def unauthorized_def refuse_def answer_def success_def user_reply_def split: option.splits if_splits)

lemma approve_keeps_up:
  assumes "accounts_unique d" and "keeps_up L d p"
    and "tc_multi_tenant (te_cfg (ac_team A)) \<or> exists_row (\<lambda>m. m_user m = i) (db_members d)"
    and "admin_act A q teams added_at e (Approve i) (p, d) = (p', d')"
  shows "keeps_up L d' p' \<and> accounts_unique d'"
proof -
  let ?q = "q\<lparr>hr_params := (\<lambda>_. i)\<rparr>"
  have same: ?thesis if "d' = d" "ut_users p' = ut_users p" using that assms(1,2) keeps_up_same by blast
  show ?thesis
  proof (cases "require_admin (te_now (ac_team A)) d ?q :: account_reply + ident")
    case (Inl r)
    then show ?thesis using assms(4) gate_refusal(2) [OF Inl, of e]
      by (intro same) (auto simp: serve_admin_def user_approved_def user_action_started_def)
  next
    case (Inr caller)
    show ?thesis
    proof (cases "user_by_id d i")
      case None
      then show ?thesis using assms(4) Inr
        by (intro same) (auto simp: serve_admin_def approve_user_def settle_def failed_def refuse_def answer_def user_reply_def
            user_approved_def user_action_started_def)
    next
      case (Some u)
      let ?g = "\<lambda>x. if u_id x = i then x\<lparr>u_status := Active\<rparr> else x"
      have u: "u \<in> set (db_users d)" "u_id u = i" using Some by (auto simp: user_by_id_def dest: find_SomeD)
      have users: "update_first (\<lambda>r. u_id r = i) (\<lambda>r. r\<lparr>u_status := Active\<rparr>) (db_users d) = map ?g (db_users d)"
        using assms(1) u by (intro update_first_keyed [of u_id _ u]) (auto simp: accounts_unique_def)
      have d': "d' = d\<lparr>db_users := map ?g (db_users d)\<rparr>"
        and p': "ut_users p' = change_row i (\<lambda>(v, ts). (v\<lparr>pu_status := Active\<rparr>, ts)) (ut_users p)"
        using assms(3,4) Inr Some
        by (auto simp: serve_admin_def approve_user_def users Let_def settle_def done_with_def answer_def user_reply_def
            user_approved_def user_action_started_def sanitize_user_def)
      have "keeps_up L d' p'"
        by (rule keeps_up_changed [OF assms(2) p', where g = ?g and h = "\<lambda>(s, T). (Active, T)"])
          (auto simp: d' teams_of_def)
      moreover have "map u_id (map ?g (db_users d)) = map u_id (db_users d)" by simp
      ultimately show ?thesis using assms(1) by (simp add: d' accounts_unique_def del: map_map)
    qed
  qed
qed

lemma add_body_accepted:
  assumes "team \<noteq> []" and "map_of ((''OWNER'', Owner) # invite_roles) role = Some r"
  shows "add_user_schema err (Some (add_body \<lparr>tm_team = team, tm_role = role, tm_pending = b\<rparr>)) = Inr (team, r)"
proof -
  let ?v = "add_body \<lparr>tm_team = team, tm_role = role, tm_pending = b\<rparr>"
  have f: "field ''teamId'' ?v = Some (JStr team)" "field ''role'' ?v = Some (JStr role)"
    by (simp_all add: add_body_def field_json_body)
  have v: "?v = json_body [(''teamId'', Some (JStr team)), (''role'', Some (JStr role))]" by (simp add: add_body_def)
  have "enum_schema ((''OWNER'', Owner) # invite_roles) (JStr role) = Some r"
    unfolding enum_schema_def json.case by (rule assms(2))
  then show ?thesis
    unfolding add_user_schema_def v schema_on_body
    by (fold v) (simp add: f team_key [OF f(1) assms(1)] default_key_def)
qed

lemma add_keeps_up:
  assumes "accounts_unique d" and "keeps_up L d p" and "team \<noteq> []" and "role \<in> fst ` set ((''OWNER'', Owner) # invite_roles)"
    and "ac_add A = add_user_schema err" and "ti_id ` set teams = t_id ` set (db_teams d)" and "team \<in> ti_id ` set teams"
    and "admin_act A q teams added_at e (AddTo i team role) (p, d) = (p', d')"
  shows "keeps_up L d' p' \<and> accounts_unique d'"
proof -
  let ?q = "q\<lparr>hr_params := (\<lambda>_. i), hr_body := Some (add_body \<lparr>tm_team = team, tm_role = role, tm_pending = False\<rparr>)\<rparr>"
  let ?role = "the (map_of ((''OWNER'', Owner) # invite_roles) role)"
  show ?thesis
  proof (cases "require_admin (te_now (ac_team A)) d ?q :: account_reply + ident")
    case (Inl r)
    have "d' = d" "ut_users p' = ut_users p" using assms(8) gate_refusal(1) [OF Inl] Inl
      by (auto simp: serve_admin_def user_added_def failure_of_def modal_settled_def user_action_started_def)
    then show ?thesis using assms(1,2) keeps_up_same by blast
  next
    case (Inr caller)
    have "map_of ((''OWNER'', Owner) # invite_roles) role = Some ?role"
      using assms(4) by (metis map_of_eq_None_iff option.collapse)
    note ok = add_body_accepted [OF assms(3) this]
    have "hr_body ?q = Some (add_body \<lparr>tm_team = team, tm_role = role, tm_pending = False\<rparr>)" by simp
    then have body: "ac_add A (hr_body ?q) = Inr (team, ?role)" unfolding assms(5) by (simp only: ok)
    obtain m where d': "snd (add_user_to_team (ac_team A) i team ?role d) = d'"
      and r: "serve_admin A AdminAddToTeam ?q d = (done_with 201 (MembershipBody m), d')"
      using assms(8) Inr body by (auto simp: serve_admin_def split: prod.splits)
    obtain t where t: "List.find (\<lambda>t. ti_id t = team) teams = Some t" "ti_id t = team"
      using assms(7) by (cases "List.find (\<lambda>t. ti_id t = team) teams") (auto simp: find_None_iff' dest: find_SomeD)
    let ?f = "\<lambda>(v, ts). (v, filter (\<lambda>x. mt_id x \<noteq> team) ts
        @ [\<lparr>mt_id = ti_id t, mt_name = ti_name t, mt_slug = ti_slug t, mt_role = ?role, mt_joined = added_at\<rparr>])"
    have p': "ut_users p' = change_row i ?f (ut_users p)"
      using assms(8) t unfolding admin_act.simps r
      by (auto simp: failure_of_def success_def done_with_def answer_def user_added_def modal_settled_def
          user_action_started_def simp del: map_of.simps)
    have "team \<in> t_id ` set (db_teams d)" using assms(6,7) by simp
    note teams = teams_after_add [OF assms(1) this, of "ac_team A" i ?role, unfolded d']
    have "keeps_up L d' p'"
      by (rule keeps_up_changed [OF assms(2) p', where g = id and h = "\<lambda>(s, T). (s, insert (team, ?role) {x \<in> T. fst x \<noteq> team})"])
        (use d' t(2) in \<open>auto simp: teams other_tables case_prod_beta shown_filter\<close>)
    moreover have "accounts_unique d'" using unique_after(1) [OF assms(1)] d' by blast
    ultimately show ?thesis by blast
  qed
qed

lemma remove_keeps_up:
  assumes "accounts_unique d" and "keeps_up L d p"
    and "admin_act A q teams added_at e (RemoveFrom i team) (p, d) = (p', d')"
  shows "keeps_up L d' p' \<and> accounts_unique d'"
proof -
  let ?q = "q\<lparr>hr_params := (\<lambda>k. if k = ''teamId'' then team else i)\<rparr>"
  have same: ?thesis if "d' = d" "ut_users p' = ut_users p" using that assms(1,2) keeps_up_same by blast
  show ?thesis
  proof (cases "require_admin (te_now (ac_team A)) d ?q :: account_reply + ident")
    case (Inl r)
    then show ?thesis using assms(3) gate_refusal(1) [OF Inl]
      by (intro same) (auto simp: serve_admin_def user_removed_def failure_of_def user_action_started_def)
  next
    case (Inr caller)
    show ?thesis
    proof (cases "membership d team i")
      case None
      then show ?thesis using assms(3) Inr
        by (intro same) (auto simp: serve_admin_def remove_user_from_team_def settle_def refuse_def answer_def failure_of_def
            success_def user_removed_def user_action_started_def)
    next
      case (Some m)
      then have run: "serve_admin A AdminRemoveFromTeam ?q d = (answer 204 NoBody, snd (remove_user_from_team i team d))"
        using Inr by (simp add: serve_admin_def remove_user_from_team_def settle_def)
      have d': "d' = snd (remove_user_from_team i team d)"
        and p': "ut_users p' = change_row i (\<lambda>(v, ts). (v, filter (\<lambda>x. mt_id x \<noteq> team) ts)) (ut_users p)"
        using assms(3) unfolding admin_act.simps run
        by (simp_all add: answer_def failure_of_def success_def user_removed_def user_action_started_def)
          (auto simp: user_action_started_def)
      have "keeps_up L d' p'"
        by (rule keeps_up_changed [OF assms(2) p', where g = id and h = "\<lambda>(s, T). (s, {x \<in> T. fst x \<noteq> team})"])
          (simp_all add: d' teams_after_remove [OF assms(1) Some] other_tables case_prod_beta shown_filter)
      then show ?thesis using unique_after(2) [OF assms(1)] d' by blast
    qed
  qed
qed

section \<open>A whole session\<close>

text \<open>What the page lets an administrator do: the modal offers the teams of the page and the four roles.\<close>

fun action_offered :: "team_info list \<Rightarrow> admin_action \<Rightarrow> bool" where
  "action_offered teams (Approve i) \<longleftrightarrow> True"
| "action_offered teams (AddTo i team role) \<longleftrightarrow>
     team \<noteq> [] \<and> team \<in> ti_id ` set teams \<and> role \<in> fst ` set ((''OWNER'', Owner) # invite_roles)"
| "action_offered teams (RemoveFrom i team) \<longleftrightarrow> True"

definition admin_session ::
  "account_env \<Rightarrow> http_req \<Rightarrow> team_info list \<Rightarrow> string \<Rightarrow> string \<Rightarrow> admin_action list \<Rightarrow> user_table \<times> db \<Rightarrow> user_table \<times> db" where
  "admin_session A q teams added_at e = fold (admin_act A q teams added_at e)"

lemma teams_kept:
  assumes "tc_multi_tenant (te_cfg (ac_team A))"
  shows "db_teams (snd (admin_act A q teams added_at e a (p, d))) = db_teams d"
  using assms
  by (cases a) (auto simp: serve_admin_def settle_def approve_user_def add_user_to_team_def remove_user_from_team_def
      Let_def split: prod.splits sum.splits option.splits)

lemma admin_act_keeps_up:
  assumes "tc_multi_tenant (te_cfg (ac_team A))" and "ac_add A = add_user_schema err" and "action_offered teams a"
    and "accounts_unique d" and "keeps_up L d p" and "ti_id ` set teams = t_id ` set (db_teams d)"
    and "admin_act A q teams added_at e a (p, d) = (p', d')"
  shows "keeps_up L d' p' \<and> accounts_unique d'"
proof (cases a)
  case (Approve i)
  then show ?thesis using approve_keeps_up assms by blast
next
  case (AddTo i team role)
  then have "team \<noteq> []" "team \<in> ti_id ` set teams" "role \<in> fst ` set ((''OWNER'', Owner) # invite_roles)"
    using assms(3) by simp_all
  then show ?thesis using add_keeps_up assms AddTo by blast
next
  case (RemoveFrom i team)
  then show ?thesis using remove_keeps_up assms by blast
qed

lemma session_keeps_up:
  assumes "tc_multi_tenant (te_cfg (ac_team A))" and "ac_add A = add_user_schema err" and "list_all (action_offered teams) as"
    and "accounts_unique d" and "keeps_up L d p" and "ti_id ` set teams = t_id ` set (db_teams d)"
    and "admin_session A q teams added_at e as (p, d) = (p', d')"
  shows "keeps_up L d' p' \<and> accounts_unique d'"
  using assms(3-7)
proof (induction as arbitrary: p d)
  case (Cons a as)
  obtain p1 d1 where step: "admin_act A q teams added_at e a (p, d) = (p1, d1)" by (cases "admin_act A q teams added_at e a (p, d)")
  have now: "keeps_up L d1 p1 \<and> accounts_unique d1"
    using admin_act_keeps_up [OF assms(1,2) _ _ _ _ step] Cons.prems by simp
  have "db_teams d1 = db_teams d" using teams_kept [OF assms(1), of q teams added_at e a p d] step by simp
  then show ?case using Cons.IH [of d1 p1] Cons.prems now step by (simp add: admin_session_def)
qed (simp add: admin_session_def)

text \<open>In single-tenant mode approving an account without a team also makes it a member of the default team, which the
  answer does not say: the row on the page keeps the teams it had.\<close>

lemma approval_hides_default_team:
  assumes "\<not> tc_multi_tenant (te_cfg (ac_team A))"
    and "require_admin (te_now (ac_team A)) d (q\<lparr>hr_params := (\<lambda>_. i)\<rparr>) = (Inr caller :: account_reply + ident)"
    and "user_by_id d i = Some u" and "\<forall>m \<in> set (db_members d). m_user m \<noteq> i"
    and "admin_act A q teams added_at e (Approve i) (p, d) = (p', d')"
  shows "teams_of d i = {}" and "teams_of d' i \<noteq> {}" and "map snd (ut_users p') = map snd (ut_users p)"
proof -
  show "teams_of d i = {}" using assms(4) by (auto simp: teams_of_def)
  let ?role = "if u_role u = RoleAdmin then Owner else Member"
  let ?d1 = "d\<lparr>db_users := update_first (\<lambda>r. u_id r = i) (\<lambda>r. r\<lparr>u_status := Active\<rparr>) (db_users d)\<rparr>"
  have none: "\<not> exists_row (\<lambda>m. m_user m = i) (db_members d)" using assms(4) by (auto simp: exists_row_def)
  have d': "d' = add_user_to_default_team (ac_team A) 0 i ?role ?d1"
    and p': "ut_users p' = change_row i (\<lambda>(v, ts). (v\<lparr>pu_status := Active\<rparr>, ts)) (ut_users p)"
    using assms(1,2,3,5) none
    by (auto simp: serve_admin_def approve_user_def Let_def settle_def done_with_def answer_def user_reply_def
        user_approved_def user_action_started_def sanitize_user_def)
  show "map snd (ut_users p') = map snd (ut_users p)" by (simp add: p' change_row_def case_prod_beta)
  obtain t d2 where t: "ensure_default_team (ac_team A) 0 ?d1 = (t, d2)" by fastforce
  then have "t \<in> set (db_teams d2)" and members: "db_members d2 = db_members d"
    by (auto simp: ensure_default_team_def Let_def split: option.splits dest: find_SomeD)
  moreover have "List.find (\<lambda>m. m_team m = t_id t \<and> m_user m = i) (db_members d2) = None"
    using assms(4) by (auto simp: find_None_iff members)
  ultimately have "(t_id t, ?role) \<in> teams_of d' i"
    by (auto simp: d' add_user_to_default_team_def t upsert_member_def Let_def teams_of_def intro!: image_eqI)
  then show "teams_of d' i \<noteq> {}" by blast
qed

end
