(* ===== verification/Configuration.thy ===== *)
theory Configuration imports Startup Teams LogRoutes RouteSchemas begin

text \<open>
  Reading the configuration (\<open>configSchema\<close> and \<open>loadConfig\<close> in \<open>config/index.ts\<close>): what is accepted, with
  which bounds, and what the environment gives when it says nothing. \<open>Number\<close> of a text, \<open>new URL\<close>, zod's
  test of an email address and Express' test of a proxy list are arguments.
\<close>

section \<open>The schema\<close>

datatype log_threshold = AtFatal | AtError | AtWarn | AtInfo | AtDebug | AtTrace

record server_config =
  cf_port :: int
  cf_host :: string
  cf_node_env :: node_env
  cf_database_url :: string
  cf_clickhouse_url :: string
  cf_log_level :: log_threshold
  cf_cors_origins :: string
  cf_redis_url :: string
  cf_multi_tenant :: bool
  cf_registration :: registration_mode
  cf_admin_email :: "string option"
  cf_openai_key :: "string option"
  cf_openai_url :: "string option"
  cf_openai_model :: "string option"
  cf_openai_timeout :: int
  cf_max_lookback :: int
  cf_max_page :: int
  cf_max_sync :: int
  cf_test_window :: int
  cf_test_max :: int
  cf_trust_proxy :: "trust_proxy option"

record config_lib =
  cl_number :: "string \<Rightarrow> jnum"
  cl_is_url :: "string \<Rightarrow> bool"
  cl_is_email :: "string \<Rightarrow> bool"
  cl_express_rejects :: "string list \<Rightarrow> string option"

type_synonym env_vars = "string \<Rightarrow> string option"

text \<open>\<open>.default(d)\<close>: only a variable that is not set takes the default. \<open>.optional()\<close> likewise.\<close>

definition env_default :: "'a \<Rightarrow> (string \<Rightarrow> 'a option) \<Rightarrow> string option \<Rightarrow> 'a option" where
  "env_default d schema v = (case v of None \<Rightarrow> Some d | Some s \<Rightarrow> schema s)"

definition env_required :: "(string \<Rightarrow> 'a option) \<Rightarrow> string option \<Rightarrow> 'a option" where
  "env_required schema v = Option.bind v schema"

definition env_optional :: "(string \<Rightarrow> 'a option) \<Rightarrow> string option \<Rightarrow> 'a option option" where
  "env_optional schema v = (case v of None \<Rightarrow> Some None | Some s \<Rightarrow> map_option Some (schema s))"

definition url_schema :: "config_lib \<Rightarrow> string \<Rightarrow> string option" where
  "url_schema C s = (if cl_is_url C s then Some s else None)"

text \<open>\<open>coercedIntSchema\<close> with a further test.\<close>

definition coerced_int :: "config_lib \<Rightarrow> (int \<Rightarrow> bool) \<Rightarrow> string \<Rightarrow> int option" where
  "coerced_int C P s = refine P int_schema (JNum (cl_number C s))"

definition node_envs :: "(string \<times> node_env) list" where
  "node_envs = [(''development'', Development), (''production'', Production), (''test'', TestEnv)]"

definition log_thresholds :: "(string \<times> log_threshold) list" where
  "log_thresholds = [(''fatal'', AtFatal), (''error'', AtError), (''warn'', AtWarn), (''info'', AtInfo),
     (''debug'', AtDebug), (''trace'', AtTrace)]"

definition registration_modes :: "(string \<times> registration_mode) list" where
  "registration_modes = [(''open'', RegOpen), (''invite-only'', RegInviteOnly), (''approval'', RegApproval)]"

definition flag_values :: "(string \<times> bool) list" where
  "flag_values = [(''true'', True), (''false'', False), (''1'', True), (''0'', False)]"

definition admin_email_schema :: "config_lib \<Rightarrow> string \<Rightarrow> string option option" where
  "admin_email_schema C s = (if s = [] then Some None else if cl_is_email C s then Some (Some s) else None)"

definition trust_proxy_schema :: "config_lib \<Rightarrow> string option \<Rightarrow> trust_proxy option option" where
  "trust_proxy_schema C v = (case parse_trust_proxy (cl_express_rejects C) v of Inl e \<Rightarrow> None | Inr t \<Rightarrow> Some t)"

definition port_field :: "config_lib \<Rightarrow> env_vars \<Rightarrow> int option" where
  "port_field C env = env_default 4000 (coerced_int C (\<lambda>_. True)) (env ''PORT'')"

definition node_env_field :: "config_lib \<Rightarrow> env_vars \<Rightarrow> node_env option" where
  "node_env_field C env = env_default Development (map_of node_envs) (env ''NODE_ENV'')"

definition database_url_field :: "config_lib \<Rightarrow> env_vars \<Rightarrow> string option" where
  "database_url_field C env = env_required (url_schema C) (env ''DATABASE_URL'')"

definition clickhouse_url_field :: "config_lib \<Rightarrow> env_vars \<Rightarrow> string option" where
  "clickhouse_url_field C env = env_required (url_schema C) (env ''CLICKHOUSE_URL'')"

definition log_level_field :: "config_lib \<Rightarrow> env_vars \<Rightarrow> log_threshold option" where
  "log_level_field C env = env_default AtInfo (map_of log_thresholds) (env ''LOG_LEVEL'')"

definition redis_url_field :: "config_lib \<Rightarrow> env_vars \<Rightarrow> string option" where
  "redis_url_field C env = env_default ''redis://localhost:6379'' (url_schema C) (env ''REDIS_URL'')"

definition multi_tenant_field :: "config_lib \<Rightarrow> env_vars \<Rightarrow> bool option" where
  "multi_tenant_field C env = env_default False (map_of flag_values) (env ''MULTI_TENANT'')"

definition registration_field :: "config_lib \<Rightarrow> env_vars \<Rightarrow> registration_mode option" where
  "registration_field C env = env_default RegApproval (map_of registration_modes) (env ''REGISTRATION_MODE'')"

definition admin_email_field :: "config_lib \<Rightarrow> env_vars \<Rightarrow> string option option" where
  "admin_email_field C env = env_default None (admin_email_schema C) (env ''ADMIN_EMAIL'')"

definition openai_url_field :: "config_lib \<Rightarrow> env_vars \<Rightarrow> string option option" where
  "openai_url_field C env = env_optional (url_schema C) (env ''OPENAI_BASE_URL'')"

definition openai_timeout_field :: "config_lib \<Rightarrow> env_vars \<Rightarrow> int option" where
  "openai_timeout_field C env = env_default 10000 (coerced_int C (\<lambda>n. 0 < n)) (env ''OPENAI_TIMEOUT_MS'')"

definition max_lookback_field :: "config_lib \<Rightarrow> env_vars \<Rightarrow> int option" where
  "max_lookback_field C env = env_default (7 * 24 * 60 * 60 * 1000) (coerced_int C (\<lambda>n. 0 < n)) (env ''MAX_LOOKBACK_MS'')"

definition max_page_field :: "config_lib \<Rightarrow> env_vars \<Rightarrow> int option" where
  "max_page_field C env = env_default search_limit_ceiling (coerced_int C (\<lambda>n. 50 \<le> n)) (env ''MAX_PAGE_SIZE'')"

definition max_sync_field :: "config_lib \<Rightarrow> env_vars \<Rightarrow> int option" where
  "max_sync_field C env = env_default 1500 (coerced_int C (\<lambda>n. 100 \<le> n \<and> n \<le> 30000)) (env ''MAX_SYNC_RUNTIME_MS'')"

definition test_window_field :: "config_lib \<Rightarrow> env_vars \<Rightarrow> int option" where
  "test_window_field C env = env_default (5 * 60000) (coerced_int C (\<lambda>n. 0 < n)) (env ''NOTIFICATION_TEST_RATE_LIMIT_WINDOW_MS'')"

definition test_max_field :: "config_lib \<Rightarrow> env_vars \<Rightarrow> int option" where
  "test_max_field C env = env_default 5 (coerced_int C (\<lambda>n. 0 < n)) (env ''NOTIFICATION_TEST_RATE_LIMIT_MAX'')"

definition trust_proxy_field :: "config_lib \<Rightarrow> env_vars \<Rightarrow> trust_proxy option option" where
  "trust_proxy_field C env = trust_proxy_schema C (env ''TRUST_PROXY'')"

section \<open>Loading\<close>

text \<open>The fields that fail, by their key; zod's messages are not modelled.\<close>

definition config_failures :: "config_lib \<Rightarrow> env_vars \<Rightarrow> string list" where
  "config_failures C env = map fst (filter snd
     [(''port'', port_field C env = None),
      (''nodeEnv'', node_env_field C env = None),
      (''databaseUrl'', database_url_field C env = None),
      (''clickhouseUrl'', clickhouse_url_field C env = None),
      (''logLevel'', log_level_field C env = None),
      (''redisUrl'', redis_url_field C env = None),
      (''multiTenant'', multi_tenant_field C env = None),
      (''registrationMode'', registration_field C env = None),
      (''adminEmail'', admin_email_field C env = None),
      (''openaiBaseUrl'', openai_url_field C env = None),
      (''openaiTimeoutMs'', openai_timeout_field C env = None),
      (''maxLookbackMs'', max_lookback_field C env = None),
      (''maxPageSize'', max_page_field C env = None),
      (''maxSyncRuntimeMs'', max_sync_field C env = None),
      (''notificationTestRateLimitWindowMs'', test_window_field C env = None),
      (''notificationTestRateLimitMax'', test_max_field C env = None),
      (''trustProxy'', trust_proxy_field C env = None)])"

text \<open>The output of the schema, when no field fails.\<close>

definition config_values :: "config_lib \<Rightarrow> env_vars \<Rightarrow> server_config" where
  "config_values C env =
     \<lparr>cf_port = the (port_field C env), cf_host = the_or ''127.0.0.1'' (env ''HOST''), cf_node_env = the (node_env_field C env),
      cf_database_url = the (database_url_field C env), cf_clickhouse_url = the (clickhouse_url_field C env),
      cf_log_level = the (log_level_field C env), cf_cors_origins = the_or ''http://localhost:3000'' (env ''CORS_ORIGINS''),
      cf_redis_url = the (redis_url_field C env), cf_multi_tenant = the (multi_tenant_field C env),
      cf_registration = the (registration_field C env), cf_admin_email = the (admin_email_field C env),
      cf_openai_key = env ''OPENAI_API_KEY'', cf_openai_url = the (openai_url_field C env),
      cf_openai_model = env ''OPENAI_MODEL'', cf_openai_timeout = the (openai_timeout_field C env),
      cf_max_lookback = the (max_lookback_field C env), cf_max_page = the (max_page_field C env),
      cf_max_sync = the (max_sync_field C env), cf_test_window = the (test_window_field C env),
      cf_test_max = the (test_max_field C env), cf_trust_proxy = the (trust_proxy_field C env)\<rparr>"

text \<open>The configuration, or the keys of the fields that fail; with whether a warning is recorded.\<close>

definition load_config :: "config_lib \<Rightarrow> env_vars \<Rightarrow> string list + server_config \<times> bool" where
  "load_config C env =
     (if config_failures C env \<noteq> [] then Inl (config_failures C env)
      else
        (let data = config_values C env; (size, warned) = clamp_page_size (cf_max_page data) in
         Inr (data\<lparr>cf_max_page := size\<rparr>, warned)))"

section \<open>What an accepted configuration guarantees\<close>

lemma coerced_in:
  assumes "env_default d (coerced_int C P) v = Some n" and "P d"
  shows "P n"
proof (cases v)
  case None
  then show ?thesis using assms by (simp add: env_default_def)
next
  case (Some s)
  then show ?thesis using assms
    by (cases "int_schema (JNum (cl_number C s))") (simp_all add: env_default_def coerced_int_def refine_def split: if_splits)
qed

lemma no_flag: "map fst (filter snd xs) = [] \<longleftrightarrow> list_all (\<lambda>x. \<not> snd x) xs"
  by (induction xs) auto

lemma no_failures:
  assumes "config_failures C env = []" and "c = config_values C env"
  shows "port_field C env = Some (cf_port c)" and "node_env_field C env = Some (cf_node_env c)"
    and "database_url_field C env = Some (cf_database_url c)" and "clickhouse_url_field C env = Some (cf_clickhouse_url c)"
    and "log_level_field C env = Some (cf_log_level c)" and "redis_url_field C env = Some (cf_redis_url c)"
    and "multi_tenant_field C env = Some (cf_multi_tenant c)" and "registration_field C env = Some (cf_registration c)"
    and "admin_email_field C env = Some (cf_admin_email c)" and "openai_url_field C env = Some (cf_openai_url c)"
    and "openai_timeout_field C env = Some (cf_openai_timeout c)" and "max_lookback_field C env = Some (cf_max_lookback c)"
    and "max_page_field C env = Some (cf_max_page c)" and "max_sync_field C env = Some (cf_max_sync c)"
    and "test_window_field C env = Some (cf_test_window c)" and "test_max_field C env = Some (cf_test_max c)"
    and "trust_proxy_field C env = Some (cf_trust_proxy c)"
  using assms unfolding config_failures_def no_flag by (simp_all add: config_values_def)

lemma url_accepted: "url_schema C s = Some u \<Longrightarrow> cl_is_url C u"
  by (auto simp: url_schema_def split: if_splits)

lemma required_url: "env_required (url_schema C) v = Some u \<Longrightarrow> v = Some u \<and> cl_is_url C u"
  by (cases v) (auto simp: env_required_def url_schema_def split: if_splits)

lemma clamped: "clamp_page_size n = (sz, warned) \<Longrightarrow> 50 \<le> n \<Longrightarrow>
    50 \<le> sz \<and> sz \<le> search_limit_ceiling \<and> warned = (search_limit_ceiling < n) \<and> (\<not> warned \<longrightarrow> sz = n)"
  by (auto simp: clamp_page_size_def search_limit_ceiling_def split: if_splits)

lemma accepted_admin: "env_default None (admin_email_schema C) v = Some (Some e) \<Longrightarrow> e \<noteq> [] \<and> cl_is_email C e"
  by (auto simp: env_default_def admin_email_schema_def split: option.splits if_splits)

definition trust_bounded :: "trust_proxy option \<Rightarrow> bool" where
  "trust_bounded t \<longleftrightarrow>
     (case t of Some (Hops n) \<Rightarrow> n \<le> 10 | Some (Proxies es) \<Rightarrow> list_all (\<lambda>e. is_ip_or_cidr e \<and> too_broad e = None) es | _ \<Rightarrow> True)"

lemma accepted_trust: "trust_proxy_schema C v = Some t \<Longrightarrow> trust_bounded t"
proof -
  assume "trust_proxy_schema C v = Some t"
  then have "parse_trust_proxy (cl_express_rejects C) v = Inr t" by (simp add: trust_proxy_schema_def split: sum.splits)
  from accepted_setting [OF this] show ?thesis
    using first_broad_None by (auto simp: trust_bounded_def list_all_iff)
qed

text \<open>an accepted configuration is within its bounds. Whatever the environment holds, the server either
  refuses to start or has: URLs that parse, positive windows, budgets and time-outs, a page size of 50 up to
  the ceiling (with a warning exactly when a larger one was asked for), a synchronous runtime of 0.1
  to 30 seconds, an administrator's address that is one or none, and a proxy setting that is not too broad.\<close>

theorem accepted_config_is_bounded:
  "case load_config C env of
     Inl ks \<Rightarrow> ks \<noteq> []
   | Inr (c, warned) \<Rightarrow>
       env ''DATABASE_URL'' = Some (cf_database_url c) \<and> cl_is_url C (cf_database_url c)
       \<and> env ''CLICKHOUSE_URL'' = Some (cf_clickhouse_url c) \<and> cl_is_url C (cf_clickhouse_url c)
       \<and> 0 < cf_openai_timeout c \<and> 0 < cf_max_lookback c \<and> 0 < cf_test_window c \<and> 0 < cf_test_max c
       \<and> 50 \<le> cf_max_page c \<and> cf_max_page c \<le> search_limit_ceiling
       \<and> (if warned then cf_max_page c = search_limit_ceiling \<and> env ''MAX_PAGE_SIZE'' \<noteq> None
          else max_page_field C env = Some (cf_max_page c))
       \<and> 100 \<le> cf_max_sync c \<and> cf_max_sync c \<le> 30000
       \<and> (case cf_admin_email c of None \<Rightarrow> True | Some e \<Rightarrow> e \<noteq> [] \<and> cl_is_email C e) \<and> trust_bounded (cf_trust_proxy c)"
proof (cases "config_failures C env = []")
  case True
  let ?v = "config_values C env"
  note f = no_failures [OF True refl]
  obtain sz warned where clamp: "clamp_page_size (cf_max_page ?v) = (sz, warned)" by fastforce
  have page: "50 \<le> cf_max_page ?v"
    using f(13) coerced_in [where P = "\<lambda>n. 50 \<le> n"] by (auto simp: max_page_field_def search_limit_ceiling_def)
  have pos: "0 < cf_openai_timeout ?v" "0 < cf_max_lookback ?v" "0 < cf_test_window ?v" "0 < cf_test_max ?v"
    using f(11,12,15,16) coerced_in [where P = "\<lambda>n. 0 < n"]
    by (auto simp: openai_timeout_field_def max_lookback_field_def test_window_field_def test_max_field_def)
  have sync: "100 \<le> cf_max_sync ?v \<and> cf_max_sync ?v \<le> 30000"
    using coerced_in [OF f(14) [unfolded max_sync_field_def]] by simp
  have asked: "env ''MAX_PAGE_SIZE'' \<noteq> None" if "search_limit_ceiling < cf_max_page ?v"
    using f(13) that by (cases "env ''MAX_PAGE_SIZE''") (simp_all add: max_page_field_def env_default_def)
  have admin: "case cf_admin_email ?v of None \<Rightarrow> True | Some e \<Rightarrow> e \<noteq> [] \<and> cl_is_email C e"
    using f(9) accepted_admin [of C "env ''ADMIN_EMAIL''"]
    by (cases "cf_admin_email (config_values C env)") (simp_all add: admin_email_field_def)
  have "trust_bounded (cf_trust_proxy ?v)" using f(17) accepted_trust by (simp add: trust_proxy_field_def)
  moreover have "if warned then sz = search_limit_ceiling \<and> env ''MAX_PAGE_SIZE'' \<noteq> None else max_page_field C env = Some sz"
    using clamp asked f(13) by (simp add: clamp_page_size_def split: if_splits)
  moreover have load: "load_config C env = Inr (?v\<lparr>cf_max_page := sz\<rparr>, warned)"
    using True clamp by (simp add: load_config_def)
  moreover note required_url [OF f(3) [unfolded database_url_field_def]]
    required_url [OF f(4) [unfolded clickhouse_url_field_def]] pos sync admin clamped [OF clamp page]
  ultimately show ?thesis unfolding load sum.case prod.case by simp
qed (simp add: load_config_def)

text \<open>What an environment gives that sets the two required URLs only.\<close>

lemma defaults_are_closed:
  assumes "\<And>k. k \<notin> {''DATABASE_URL'', ''CLICKHOUSE_URL''} \<Longrightarrow> env k = None" and "env ''DATABASE_URL'' = Some a"
    and "env ''CLICKHOUSE_URL'' = Some b" and "cl_is_url C a" and "cl_is_url C b"
  shows "\<exists>c. load_config C env = Inr (c, False) \<and> cf_host c = ''127.0.0.1'' \<and> cf_registration c = RegApproval
    \<and> \<not> cf_multi_tenant c \<and> cf_trust_proxy c = None \<and> cf_admin_email c = None \<and> cf_max_page c = search_limit_ceiling
    \<and> cf_max_lookback c = 7 * 24 * 60 * 60 * 1000"
proof -
  have "parse_trust_proxy rej None = Inr None" for rej by (simp add: parse_trust_proxy_def trim_def trim_start_def)
  then have t: "trust_proxy_field C env = Some None" by (simp add: trust_proxy_field_def trust_proxy_schema_def assms(1))
  note fields = port_field_def node_env_field_def database_url_field_def clickhouse_url_field_def log_level_field_def
    redis_url_field_def multi_tenant_field_def registration_field_def admin_email_field_def openai_url_field_def
    openai_timeout_field_def max_lookback_field_def max_page_field_def max_sync_field_def test_window_field_def
    test_max_field_def
  have "config_failures C env = []"
    unfolding config_failures_def no_flag
    by (simp add: t del: not_None_eq)
      (simp add: fields assms env_default_def env_required_def env_optional_def url_schema_def del: not_None_eq)
  moreover have "max_page_field C env = Some search_limit_ceiling" by (simp add: fields assms env_default_def)
  ultimately have "load_config C env = Inr (config_values C env, False)"
    by (simp add: load_config_def clamp_page_size_def) (simp add: config_values_def)
  then show ?thesis
    by (intro exI [of _ "config_values C env"]) (simp add: config_values_def t fields assms env_default_def)
qed

text \<open>The port is any integer: an empty \<open>PORT\<close> is the number 0, so the server starts on a port the system picks.\<close>

lemma port_is_not_checked:
  assumes "env ''PORT'' = Some s" and "cl_number C s = Fin (of_int n)"
  shows "port_field C env = Some n"
  using assms by (simp add: port_field_def env_default_def coerced_int_def refine_def int_schema_def integer_of_def)

text \<open>A page size below 100 is accepted, and then \<open>GET /logs\<close> without a limit is refused for everybody: the route
  fills in the limit 100 and measures it against the configured one.\<close>

lemma small_page_size_breaks_get_logs:
  assumes "lg_search E = search_schema err" and "lg_max_page E < 100" and "hr_query q ''limit'' = None"
  shows "re_status (fst (get_logs E u q d st)) \<noteq> 200"
proof (cases "search_schema err (with_default_search_range (lg_lib E) (lg_now E) (Some (logs_input E q)))")
  case (Inl e)
  then show ?thesis by (simp add: get_logs_def run_search_def assms(1) answer_def)
next
  case (Inr Q)
  have "field ''limit'' (logs_input E q) = Some (JNum (Fin 100))"
    using assms(3) by (simp add: logs_input_def query_fields_def number_or_def field_def truthy_json_def [of None]
        map_add_def split: option.split)
  then have "\<exists>v. with_default_search_range (lg_lib E) (lg_now E) (Some (logs_input E q)) = Some v
      \<and> field ''limit'' v = Some (JNum (Fin 100))"
    by (simp add: with_default_search_range_def logs_input_def Let_def) (simp add: own_fields_def field_def)
  then obtain v where "with_default_search_range (lg_lib E) (lg_now E) (Some (logs_input E q)) = Some v"
    "field ''limit'' v = Some (JNum (Fin 100))" by blast
  then have "lq_limit Q = Some 100"
    using Inr by (auto simp: search_schema_def object_body_def default_key_def int_in_def refine_def int_schema_def
        integer_of_def split: json.splits bind_splits option.splits if_splits)
  then show ?thesis using Inr assms(1,2)
    by (auto simp: get_logs_def run_search_def for_member_def enforce_search_limits_def refuse_def answer_def
        require_team_role_def forbidden_def split: option.splits)
qed

end
