(* ===== verification/Spec2Isabelle.thy ===== *)
theory Spec2Isabelle
  imports AlertMachine TeamIsolation IngestRoutes ReadRoutes LogRoutes Paging Startup SdkIngest AuditChain AuditClean AuditLog
    SavedViews FrontAuth SubscriptionPage IssuesScreen SearchPanel AlertForm LiveTail SourcesPanel AdminPage Configuration
begin

text \<open>
  Telerithm: a log platform. Applications send logs with a source's ingest key (directly or with
  the JavaScript SDK); the backend parses them, stores them in ClickHouse, groups error logs into
  issues, streams them live and evaluates alert rules over them; a worker raises incidents and
  notifies subscribers over webhooks; members of a team search, page and save views in a web
  frontend. The development models the backend's services and routes (\<open>src/backend/src\<close>), the SDK
  (\<open>src/packages/sdk-js\<close>) and the logic of the web interface (\<open>src/frontend/src\<close>), and states what each
  part promises.

  \<^bold>\<open>Conventions.\<close> The PostgreSQL tables are lists of rows in the record \<open>db\<close> (\<open>Database\<close>); a service
  operation takes the database and returns a sum (\<open>Inl\<close> the error thrown) with the new database, so
  that a transaction that fails returns the old one. A route handler returns its reply and the new
  state; handlers run one at a time, except where the code waits between a read and a write: there
  the two halves are separate definitions (\<open>transition_read\<close> and \<open>transition_commit\<close>, \<open>accept_check\<close> and
  \<open>accept_commit\<close>, \<open>sdk_close_start\<close> and \<open>sdk_close_end\<close>). Numbers of JavaScript are \<open>jnum\<close>: a rational, an
  infinity or NaN; times are integers of milliseconds; strings are lists of code units below 256.
  What the code takes from elsewhere is an argument: ClickHouse, Redis' glob matching, bcrypt, SHA and
  HMAC, DNS, the network, the URL parser, the language model, uuids, the clock, dates and JSON
  text. A route takes its zod schema as an argument of type \<open>'i body_schema\<close>; the schemas themselves are
  in \<open>Schemas\<close> and \<open>RouteSchemas\<close>.

  \<^bold>\<open>Prelude and language.\<close> \<open>Prelude\<close>: the named collections, and lemmas on lists, options and updates by
  key that the components share. \<open>JsString\<close>, \<open>JsLib\<close>: JavaScript's strings, numbers and JSON values.
  \<open>JsRegex\<close>: the regular expressions the code uses, with a backtracking matcher (a star has the length
  of the text as fuel, since an iteration that consumes nothing is abandoned; \<open>replace_all\<close> has the
  length plus one). \<open>RegexLang\<close>: the language of an expression without anchors inside, and that an
  anchored test is membership in it. \<open>Base64Url\<close>: page tokens. \<open>UriText\<close>: \<open>encodeURIComponent\<close>, its
  inverse with the round trip, and \<open>URLSearchParams\<close> as lists of pairs with their laws. \<open>Domain\<close>: the types
  of \<open>types/domain.ts\<close>.

  \<^bold>\<open>Ingestion.\<close> \<open>LogParser\<close> (\<open>parser/log-parser.ts\<close>): the formats and their parsers, and what they read of a
  well-formed line. \<open>Issues\<close> (\<open>fingerprint.ts\<close>, \<open>pattern-normalizer.ts\<close>, \<open>issue-service.ts\<close>): one issue per
  fingerprint, every error counted once. \<open>Streaming\<close> (\<open>streaming-service.ts\<close>): the open connections, confined
  to their team. \<open>Ingestion\<close> (\<open>ingestion-service.ts\<close>, \<open>cache-service.ts\<close>): one batch, every item accepted or
  reported. \<open>IngestRoutes\<close> (\<open>router.ts\<close>, the key middleware): nothing without the source's own key.
  \<open>DateTimes\<close> and \<open>Schemas\<close> (\<open>validation/schemas.ts\<close>): the date-time pattern is exactly the calendar, and the
  schema of a batch. \<open>Sdk\<close> (\<open>sdk-js/src\<close>): the client as a record whose \<open>sc_sent\<close> is the trace of its requests;
  every entry is sent once and in order, the breadcrumbs are the last ones. \<open>SdkIngest\<close>: what the SDK
  sends passes the schema and is stored as it was logged.

  \<^bold>\<open>Notification and alerts.\<close> \<open>UrlGuard\<close> (\<open>url-guard.ts\<close>), \<open>SafeFetch\<close> (\<open>safe-fetch.ts\<close>): blocked addresses, over all
  IPv4 addresses and every embedding of them, and that a request only dials vetted addresses.
  \<open>Subscriptions\<close>, \<open>Dispatcher\<close> (\<open>notification/\<close>): who is notified, in at most three requests each. \<open>Alerts\<close>
  (\<open>alert-service.ts\<close>): rules, incidents and the transition table. \<open>AlertWorker\<close>
  (\<open>alert-evaluation-worker.ts\<close>): when it raises an incident. \<open>AlertMachine\<close>: worker and users interleaved
  as a step relation; the recorded events replay to the state of the incident.

  \<^bold>\<open>Teams and routes.\<close> \<open>Teams\<close>, \<open>Sources\<close>, \<open>Invites\<close> (\<open>team-service.ts\<close>), \<open>LogViews\<close> (\<open>log-view-service.ts\<close>): accounts,
  sessions, keys, invites and saved views. \<open>Http\<close> (\<open>middleware\<close>, \<open>router.ts\<close>): requests, replies and the
  gates of authentication, membership and role. \<open>WriteRoute\<close>, \<open>TeamWrites\<close>: the wrapper of the mutating
  routes (\<open>write-route.ts\<close>) and the sixteen routes behind it. \<open>TeamIsolation\<close>: they change nothing outside
  their team and are no oracle for foreign ids. \<open>AccountRoutes\<close>, \<open>ViewRoutes\<close>, \<open>SubscriptionRoutes\<close>,
  \<open>ReadRoutes\<close>: the other groups of \<open>router.ts\<close>.

  \<^bold>\<open>Search.\<close> \<open>LogStore\<close>, \<open>LogRepository\<close>, \<open>LogScope\<close>, \<open>LogReads\<close>, \<open>LogIsolation\<close>, \<open>Paging\<close> (\<open>log-repository.ts\<close>): the
  statements and their parameters, that the WHERE text is the rendering of conditions led by the team,
  and that following the page tokens gives every row once (one request per page and a last one; the
  fuel of \<open>follow_pages\<close> is the number of rows left plus one). \<open>AiService\<close> (\<open>ai-service.ts\<close>): at most three
  calls of the model, then the word rules. \<open>QueryService\<close>, \<open>QueryJobs\<close> (\<open>query-service.ts\<close>): planned searches and
  asynchronous jobs. \<open>LogRoutes\<close>: the routes of logs, queries and the dashboard. \<open>TrustProxy\<close>, \<open>Configuration\<close>,
  \<open>Startup\<close> (\<open>config/index.ts\<close>, \<open>server.ts\<close>, \<open>app.ts\<close>): how narrow an accepted proxy setting is, the bounds of an
  accepted configuration, the ten attempts to connect, and the redaction of logged URLs.

  \<^bold>\<open>Frontend.\<close> \<open>SearchState\<close> (\<open>hooks/use-log-search.ts\<close>): the search as it is read from the URL and written
  to it, one the inverse of the other. \<open>SearchScreen\<close> (\<open>logs/search/screen.tsx\<close>): saved views, the form, the
  filters of a request. \<open>ApiClient\<close> (\<open>lib/api/client.ts\<close>): every request it makes, its errors and the polling
  of a job (twenty polls, so the recursion has twenty as fuel). \<open>ApiContract\<close>: client and backend
  together; the client shows the backend's refusal and returns a job's data at the first poll that
  finds it settled. \<open>RouteSchemas\<close> (the schemas of \<open>validation/schemas.ts\<close> and \<open>router.ts\<close>) and
  \<open>RequestContract\<close>: what the search page sends is what the schemas accept and hand on. \<open>SavedViews\<close>: a
  search saved on the server opens as the same search. \<open>FrontAuth\<close> (\<open>lib/auth\<close>, \<open>middleware.ts\<close>): cookies, server
  actions, page guards and the middleware, against the login routes of the backend.

  \<^bold>\<open>Pages.\<close> A handler that waits for a request is two definitions, up to the request and after the
  answer. \<open>SubscriptionForm\<close>, \<open>SubscriptionPage\<close> (\<open>alerts/subscriptions\<close>): the payload of the form is what the
  backend stores, and the list keeps up with it. \<open>AlertForm\<close> (\<open>components/alerts\<close>): a rule is created as
  shown, and left alone when nothing was edited. \<open>IssuesScreen\<close> (\<open>issues/screen.tsx\<close>): Next reaches every
  issue once (\<open>next_pages\<close> has the number of pages as fuel). \<open>SearchPanel\<close> (\<open>search-panel.tsx\<close>): a submitted
  search is within the limits of the backend. \<open>LiveTail\<close> (\<open>live-tail.tsx\<close>), on \<open>Streaming\<close>: the last eight entries
  of the stream. \<open>SourceKey\<close>, \<open>SourcesPanel\<close> (\<open>sources-panel.tsx\<close>): when a key is shown, and that the key shown
  is the one the ingest routes accept. \<open>DialogBox\<close> (\<open>ui/dialog.tsx\<close>): every dialog is answered once, by what
  was confirmed. \<open>AdminPage\<close> (\<open>components/admin\<close>): the list of accounts keeps up with the admin API.

  \<^bold>\<open>The audit gate of the build.\<close> \<open>AuditGate\<close>, \<open>AuditChain\<close>, \<open>AuditClean\<close>, \<open>AuditLog\<close> (\<open>scripts/audit-gate.mjs\<close>):
  reading the allowlist and the report of \<open>npm audit\<close>, the walk over the chains of advisories (its fuel is
  the number of packages plus two, since a package on the path is not entered again), when the
  gate is green, and that no printed line can pass for a command of the workflow.

  \<^bold>\<open>Interfaces.\<close> The locales state what several operations share: a table scoped to a team, a keyed
  table, an invariant that steps preserve, a store that honours a WHERE clause. Each is interpreted
  on the model's own tables or operations in the theory that provides them.

  \<^bold>\<open>Not modelled.\<close> Connections and outages of the databases beyond the branches the code has for them,
  foreign keys other than the cascades the code writes itself, log lines, audit lines and metrics, the
  wording of the model's prompt, Express and its middleware, the rate limiter's internals, the inside
  of zod, React's rendering and styling, the focus
  handling of dialogs, characters above 255, rounding of floating-point numbers, and
  integer-like keys of JavaScript objects, which are enumerated first. The OpenAPI document, the seeds
  and the tests compute nothing the program relies on.
\<close>

end
